(* ===== verification/R92_Prelude.thy ===== *)
theory R92_Prelude
  imports "HOL-Library.Word" "HOL-Library.Monad_Syntax" "HOL-Library.State_Monad"
    "HOL-Library.Signed_Division"
begin

text \<open>
  Shared vocabulary of the development: the C integer types of the driver as words,
  the little- and big-endian accessors of the kernel, alignment, checked reads and
  writes of byte buffers, the errno values, and the lemma collections that the
  component theories extend.
\<close>

unbundle bit_operations_syntax

type_synonym u8 = "8 word"
type_synonym u16 = "16 word"
type_synonym u32 = "32 word"
type_synonym u64 = "64 word"
type_synonym bytes = "8 word list"

named_theorems reg_defs "addresses and bit masks of the register file"
named_theorems wire_defs "numbers of the firmware interface"
named_theorems step_simps "one-step unfoldings of driver operations"

section \<open>Error numbers\<close>

abbreviation ENOENT :: int where "ENOENT \<equiv> 2"
abbreviation EIO :: int where "EIO \<equiv> 5"
abbreviation EAGAIN :: int where "EAGAIN \<equiv> 11"
abbreviation ENOMEM :: int where "ENOMEM \<equiv> 12"
abbreviation EBUSY :: int where "EBUSY \<equiv> 16"
abbreviation ENODEV :: int where "ENODEV \<equiv> 19"
abbreviation EINVAL :: int where "EINVAL \<equiv> 22"
abbreviation ENOSPC :: int where "ENOSPC \<equiv> 28"
abbreviation EPROTO :: int where "EPROTO \<equiv> 71"
abbreviation EMSGSIZE :: int where "EMSGSIZE \<equiv> 90"
abbreviation EOPNOTSUPP :: int where "EOPNOTSUPP \<equiv> 95"
abbreviation EADDRNOTAVAIL :: int where "EADDRNOTAVAIL \<equiv> 99"
abbreviation ECONNRESET :: int where "ECONNRESET \<equiv> 104"
abbreviation ESHUTDOWN :: int where "ESHUTDOWN \<equiv> 108"
abbreviation ETIMEDOUT :: int where "ETIMEDOUT \<equiv> 110"

section \<open>Bits, masks and alignment\<close>

definition BIT :: "nat \<Rightarrow> 'a::len word" where
  "BIT n = push_bit n 1"

definition ALIGN :: "nat \<Rightarrow> nat \<Rightarrow> nat" where
  "ALIGN x a = ((x + (a - 1)) div a) * a"

lemma ALIGN_ge: "0 < a \<Longrightarrow> x \<le> ALIGN x a"
proof -
  assume "0 < a"
  then obtain b where a: "a = Suc b" by (cases a) auto
  have "(x + b) div a * a + (x + b) mod a = x + b" by simp
  moreover have "(x + b) mod a < a" using \<open>0 < a\<close> by simp
  ultimately have "x \<le> (x + b) div a * a" using a by linarith
  then show ?thesis by (simp add: ALIGN_def a)
qed

lemma ALIGN_dvd [simp]: "a dvd ALIGN x a"
  by (simp add: ALIGN_def)

lemma ALIGN_lt: "0 < a \<Longrightarrow> ALIGN x a < x + a"
proof -
  assume "0 < a"
  then obtain b where a: "a = Suc b" by (cases a) auto
  have "(x + b) div a * a \<le> x + b" by (rule div_times_less_eq_dividend)
  then show ?thesis by (simp add: ALIGN_def a)
qed

lemma ALIGN_id: "a dvd x \<Longrightarrow> 0 < a \<Longrightarrow> ALIGN x a = x"
proof -
  assume "a dvd x" and pos: "0 < a"
  then obtain k where x: "x = a * k" by (auto elim: dvdE)
  from pos obtain b where a: "a = Suc b" by (cases a) auto
  have "(a * k + b) div a = k" by (rule div_nat_eqI) (simp_all add: a algebra_simps)
  then show ?thesis by (simp add: ALIGN_def x a mult.commute)
qed

definition rol32 :: "u32 \<Rightarrow> nat \<Rightarrow> u32" where
  "rol32 w n = push_bit n w OR drop_bit (32 - n) w"

definition ror32 :: "u32 \<Rightarrow> nat \<Rightarrow> u32" where
  "ror32 w n = drop_bit n w OR push_bit (32 - n) w"

definition ror16 :: "u16 \<Rightarrow> nat \<Rightarrow> u16" where
  "ror16 w n = drop_bit n w OR push_bit (16 - n) w"

definition swab16 :: "u16 \<Rightarrow> u16" where
  "swab16 w = push_bit 8 w OR drop_bit 8 w"

definition bool_word :: "bool \<Rightarrow> 'a::len word" where
  "bool_word b = (if b then 1 else 0)"

section \<open>Byte order\<close>

definition le16 :: "u8 \<Rightarrow> u8 \<Rightarrow> u16" where
  "le16 b0 b1 = ucast b0 OR push_bit 8 (ucast b1)"

definition le32 :: "u8 \<Rightarrow> u8 \<Rightarrow> u8 \<Rightarrow> u8 \<Rightarrow> u32" where
  "le32 b0 b1 b2 b3 = ucast b0 OR push_bit 8 (ucast b1) OR push_bit 16 (ucast b2)
                        OR push_bit 24 (ucast b3)"

definition put_le16 :: "u16 \<Rightarrow> bytes" where
  "put_le16 w = [ucast w, ucast (drop_bit 8 w)]"

definition put_be16 :: "u16 \<Rightarrow> bytes" where
  "put_be16 w = [ucast (drop_bit 8 w), ucast w]"

definition put_le32 :: "u32 \<Rightarrow> bytes" where
  "put_le32 w = [ucast w, ucast (drop_bit 8 w), ucast (drop_bit 16 w), ucast (drop_bit 24 w)]"

definition put_le64 :: "u64 \<Rightarrow> bytes" where
  "put_le64 w = [ucast w, ucast (drop_bit 8 w), ucast (drop_bit 16 w), ucast (drop_bit 24 w),
     ucast (drop_bit 32 w), ucast (drop_bit 40 w), ucast (drop_bit 48 w), ucast (drop_bit 56 w)]"

lemma length_put [simp]:
  "length (put_le16 a) = 2" "length (put_be16 a) = 2" "length (put_le32 b) = 4"
  "length (put_le64 c) = 8"
  by (simp_all add: put_le16_def put_be16_def put_le32_def put_le64_def)

lemma bit_le16: "bit (le16 a b) n \<longleftrightarrow> (if n < 8 then bit a n else n < 16 \<and> bit b (n - 8))"
  by (cases "n < 8") (auto simp: le16_def bit_simps dest: bit_imp_le_length)

lemma bit_le32: "bit (le32 a b c d) n \<longleftrightarrow>
   (if n < 8 then bit a n else if n < 16 then bit b (n - 8)
    else if n < 24 then bit c (n - 16) else n < 32 \<and> bit d (n - 24))"
  by (auto simp: le32_def bit_simps dest: bit_imp_le_length)

lemma le16_put: "le16 (ucast w) (ucast (drop_bit 8 w)) = w"
  by (rule bit_word_eqI) (auto simp: bit_le16 bit_simps)

lemma le32_put:
  "le32 (ucast w) (ucast (drop_bit 8 w)) (ucast (drop_bit 16 w)) (ucast (drop_bit 24 w)) = w"
  by (rule bit_word_eqI) (auto simp: bit_le32 bit_simps)

lemma put_le16_le16: "put_le16 (le16 a b) = [a, b]"
  unfolding put_le16_def
  by (auto intro!: bit_word_eqI simp: bit_le16 bit_simps)

lemma put_le32_le32: "put_le32 (le32 a b c d) = [a, b, c, d]"
  unfolding put_le32_def
  by (auto intro!: bit_word_eqI simp: bit_le32 bit_simps)

lemma put_le32_inj: "put_le32 a = put_le32 b \<longleftrightarrow> a = b"
  by (auto simp: put_le32_def) (metis le32_put)

lemma unat_ltI: "uint w < int n \<Longrightarrow> unat w < n"
  by (simp only: uint_nat of_nat_less_iff)

section \<open>Checked access to byte buffers\<close>

text \<open>
  A read or write outside the buffer is undefined behaviour in C; here it is the value
  \<open>None\<close>, which every caller propagates.
\<close>

definition rd8 :: "bytes \<Rightarrow> nat \<Rightarrow> u8 option" where
  "rd8 xs i = (if i < length xs then Some (xs ! i) else None)"

definition rd_le16 :: "bytes \<Rightarrow> nat \<Rightarrow> u16 option" where
  "rd_le16 xs i = do { a \<leftarrow> rd8 xs i; b \<leftarrow> rd8 xs (i + 1); Some (le16 a b) }"

definition rd_le32 :: "bytes \<Rightarrow> nat \<Rightarrow> u32 option" where
  "rd_le32 xs i = do { a \<leftarrow> rd8 xs i; b \<leftarrow> rd8 xs (i + 1); c \<leftarrow> rd8 xs (i + 2);
     d \<leftarrow> rd8 xs (i + 3); Some (le32 a b c d) }"

definition rd_mem :: "bytes \<Rightarrow> nat \<Rightarrow> nat \<Rightarrow> bytes option" where
  "rd_mem xs i n = (if i + n \<le> length xs then Some (take n (drop i xs)) else None)"

definition wr_mem :: "bytes \<Rightarrow> nat \<Rightarrow> bytes \<Rightarrow> bytes option" where
  "wr_mem xs i ys = (if i + length ys \<le> length xs
     then Some (take i xs @ ys @ drop (i + length ys) xs) else None)"

lemma rd8_Some_iff [simp]: "rd8 xs i = Some v \<longleftrightarrow> i < length xs \<and> v = xs ! i"
  by (auto simp: rd8_def)

lemma rd8_None_iff [simp]: "rd8 xs i = None \<longleftrightarrow> length xs \<le> i"
  by (auto simp: rd8_def)

lemma rd_mem_Some_iff: "rd_mem xs i n = Some v \<longleftrightarrow> i + n \<le> length xs \<and> v = take n (drop i xs)"
  by (auto simp: rd_mem_def)

lemma wr_mem_length: "wr_mem xs i ys = Some zs \<Longrightarrow> length zs = length xs"
  by (auto simp: wr_mem_def split: if_splits)

lemma wr_mem_nth:
  "wr_mem xs i ys = Some zs \<Longrightarrow> j < length xs \<Longrightarrow>
   zs ! j = (if i \<le> j \<and> j < i + length ys then ys ! (j - i) else xs ! j)"
  by (auto simp: wr_mem_def nth_append split: if_splits)

section \<open>The state monad\<close>

lemma run_state_bind [simp]:
  "run_state (State_Monad.bind m f) s = (case run_state m s of (a, s') \<Rightarrow> run_state (f a) s')"
  by (simp add: State_Monad.bind_def)

lemma run_state_return [simp]: "run_state (State_Monad.return x) s = (x, s)"
  by (simp add: State_Monad.return_def)

definition gets :: "('s \<Rightarrow> 'a) \<Rightarrow> ('s, 'a) state" where
  "gets f = State (\<lambda>s. (f s, s))"

definition modify :: "('s \<Rightarrow> 's) \<Rightarrow> ('s, unit) state" where
  "modify f = State (\<lambda>s. ((), f s))"

lemma run_state_gets [simp]: "run_state (gets f) s = (f s, s)"
  by (simp add: gets_def)

lemma run_state_modify [simp]: "run_state (modify f) s = ((), f s)"
  by (simp add: modify_def)

abbreviation ret :: "'a \<Rightarrow> ('s, 'a) state" where
  "ret \<equiv> State_Monad.return"

section \<open>Lists\<close>

lemma sum_list_replicate_nat: "sum_list (replicate n (k::nat)) = n * k"
  by (induction n) auto

lemma take_drop_split: "i \<le> j \<Longrightarrow> take i xs @ take (j - i) (drop i xs) = take j xs"
  by (metis le_add_diff_inverse take_add)

section \<open>Reachable states\<close>

text \<open>
  The contract of a component given by its steps: the invariant holds initially and every
  step keeps it. The lemma lifts it to every state the component can reach.
\<close>

locale invariant_system =
  fixes init :: "'s \<Rightarrow> bool"
    and step :: "'s \<Rightarrow> 's \<Rightarrow> bool"
    and inv :: "'s \<Rightarrow> bool"
  assumes init_inv: "init s \<Longrightarrow> inv s"
    and step_inv: "inv s \<Longrightarrow> step s t \<Longrightarrow> inv t"
begin

lemma steps_inv: "step\<^sup>*\<^sup>* s t \<Longrightarrow> inv s \<Longrightarrow> inv t"
  by (induction rule: rtranclp_induct) (auto intro: step_inv)

lemma reachable_inv: "init s \<Longrightarrow> step\<^sup>*\<^sup>* s t \<Longrightarrow> inv t"
  by (blast intro: steps_inv init_inv)

end

section \<open>What an operation may change\<close>

text \<open>
  \<open>changes R m\<close> says that \<open>m\<close> relates its initial to its final state by \<open>R\<close>. For a reflexive
  and transitive \<open>R\<close> the operations with this property are closed under composition.
\<close>

definition changes :: "('s \<Rightarrow> 's \<Rightarrow> bool) \<Rightarrow> ('s, 'a) state \<Rightarrow> bool" where
  "changes R m \<longleftrightarrow> (\<forall>s. R s (snd (run_state m s)))"

lemma changesI: "(\<And>s. R s (snd (run_state m s))) \<Longrightarrow> changes R m"
  by (simp add: changes_def)

lemma changesD: "changes R m \<Longrightarrow> run_state m s = (x, t) \<Longrightarrow> R s t"
  unfolding changes_def by (metis snd_conv)

lemma changes_mono: "changes R m \<Longrightarrow> (\<And>s t. R s t \<Longrightarrow> Q s t) \<Longrightarrow> changes Q m"
  by (simp add: changes_def)

locale frame_relation =
  fixes R :: "'s \<Rightarrow> 's \<Rightarrow> bool"
  assumes refl: "R s s"
    and trans: "R s t \<Longrightarrow> R t u \<Longrightarrow> R s u"
begin

lemma ret: "changes R (State_Monad.return x)"
  by (rule changesI) (simp add: refl)

lemma get: "changes R State_Monad.get"
  by (rule changesI) (simp add: State_Monad.get_def refl)

lemma bind:
  assumes "changes R m" and "\<And>x. changes R (f x)"
  shows "changes R (State_Monad.bind m f)"
proof (rule changesI)
  fix s
  obtain x t where r: "run_state m s = (x, t)" by fastforce
  have "R s t" using assms(1) r by (rule changesD)
  moreover have "R t (snd (run_state (f x) t))" using assms(2) by (simp add: changes_def)
  ultimately show "R s (snd (run_state (State_Monad.bind m f) s))"
    using r by (auto intro: trans)
qed

lemma cond: "changes R m \<Longrightarrow> changes R n \<Longrightarrow> changes R (if b then m else n)"
  by simp

lemma case_prod: "(\<And>a b. changes R (f a b)) \<Longrightarrow> changes R (case p of (a, b) \<Rightarrow> f a b)"
  by (cases p) simp

lemma case_option:
  "changes R m \<Longrightarrow> (\<And>a. changes R (f a)) \<Longrightarrow> changes R (case p of None \<Rightarrow> m | Some a \<Rightarrow> f a)"
  by (cases p) simp_all

lemmas rules = ret get bind cond case_prod case_option

end

end
