(* ===== verification/R92_Kernel.thy ===== *)
theory R92_Kernel
  imports R92_Prelude
begin

text \<open>
  The kernel side of the driver's interfaces. Code that is not part of the repository
  (the inline helpers of \<open>linux/ieee80211.h\<close>, the jiffies comparison) is the record
  \<open>kapi\<close>, an argument of every definition that uses it; \<open>sn_ok\<close> and \<open>hdr_ok\<close>
  are the documented behaviour the properties rely on, and \<open>linux_kapi\<close> is a concrete
  record that has it, used by the witnesses. The socket buffer is a byte list with its
  headroom and tailroom: \<open>skb_push\<close>, \<open>skb_pull\<close>, \<open>skb_put\<close> and \<open>skb_trim\<close> move its
  borders and are \<open>None\<close> where the kernel panics.
\<close>

section \<open>Helpers of the 802.11 header\<close>

record kapi =
  ieee80211_hdrlen :: "u16 \<Rightarrow> nat"
  ieee80211_is_data :: "u16 \<Rightarrow> bool"
  ieee80211_is_data_qos :: "u16 \<Rightarrow> bool"
  ieee80211_is_data_present :: "u16 \<Rightarrow> bool"
  ieee80211_is_qos_nullfunc :: "u16 \<Rightarrow> bool"
  ieee80211_is_mgmt :: "u16 \<Rightarrow> bool"
  ieee80211_has_protected :: "u16 \<Rightarrow> bool"
  ieee80211_has_morefrags :: "u16 \<Rightarrow> bool"
  ieee80211_has_a4 :: "u16 \<Rightarrow> bool"
  ieee80211_qos_ctl_off :: "u16 \<Rightarrow> nat"
  ieee80211_DA_off :: "u16 \<Rightarrow> nat"
  ieee80211_SA_off :: "u16 \<Rightarrow> nat"
  ieee80211_sn_less :: "u16 \<Rightarrow> u16 \<Rightarrow> bool"
  ieee80211_sn_add :: "u16 \<Rightarrow> u16 \<Rightarrow> u16"
  ieee80211_sn_inc :: "u16 \<Rightarrow> u16"
  ieee80211_sn_sub :: "u16 \<Rightarrow> u16 \<Rightarrow> u16"
  time_is_after_jiffies :: "u64 \<Rightarrow> u64 \<Rightarrow> bool"
  HZ :: u64

text \<open>The sequence number arithmetic of 802.11 is arithmetic modulo 4096.\<close>

definition sn_ok :: "kapi \<Rightarrow> bool" where
  "sn_ok K \<longleftrightarrow>
     (\<forall>a b. ieee80211_sn_less K a b \<longleftrightarrow> 0x800 < (a - b) AND 0xFFF) \<and>
     (\<forall>a b. ieee80211_sn_add K a b = (a + b) AND 0xFFF) \<and>
     (\<forall>a. ieee80211_sn_inc K a = (a + 1) AND 0xFFF) \<and>
     (\<forall>a b. ieee80211_sn_sub K a b = (a - b) AND 0xFFF)"

text \<open>
  The layout facts of 802.11 headers: a data frame has at least the three-address header,
  the addresses the accessors point to lie inside the header, and so does the QoS control
  field of a QoS data frame.
\<close>

definition hdr_ok :: "kapi \<Rightarrow> bool" where
  "hdr_ok K \<longleftrightarrow>
     (\<forall>fc. ieee80211_hdrlen K fc \<le> 36) \<and>
     (\<forall>fc. ieee80211_is_data K fc \<longrightarrow> 24 \<le> ieee80211_hdrlen K fc) \<and>
     (\<forall>fc. ieee80211_is_data K fc \<longrightarrow> \<not> ieee80211_is_mgmt K fc) \<and>
     (\<forall>fc. ieee80211_is_data_qos K fc \<longrightarrow> ieee80211_is_data K fc) \<and>
     (\<forall>fc. ieee80211_is_data_qos K fc \<longrightarrow>
        24 \<le> ieee80211_qos_ctl_off K fc \<and>
        ieee80211_qos_ctl_off K fc + 2 \<le> ieee80211_hdrlen K fc) \<and>
     (\<forall>fc. ieee80211_is_data K fc \<longrightarrow> ieee80211_DA_off K fc + 6 \<le> ieee80211_hdrlen K fc) \<and>
     (\<forall>fc. ieee80211_is_data K fc \<longrightarrow> ieee80211_SA_off K fc + 6 \<le> ieee80211_hdrlen K fc)"

text \<open>A concrete record with this behaviour, as in \<open>linux/ieee80211.h\<close>.\<close>

definition linux_kapi :: kapi where
  "linux_kapi = \<lparr>
     ieee80211_hdrlen = (\<lambda>fc.
       if fc AND 0x0C = 0x08 then
         (if fc AND 0x300 = 0x300 then 30 else 24) +
         (if fc AND 0x80 = 0x80 then 2 + (if fc AND 0x8000 = 0x8000 then 4 else 0) else 0)
       else if fc AND 0x0C = 0 then 24 + (if fc AND 0x8000 = 0x8000 then 4 else 0)
       else if fc AND 0x0C = 0x04 then (if fc AND 0xE0 = 0xC0 then 10 else 16)
       else 24),
     ieee80211_is_data = (\<lambda>fc. fc AND 0x0C = 0x08),
     ieee80211_is_data_qos = (\<lambda>fc. fc AND 0x0C = 0x08 \<and> fc AND 0x80 = 0x80),
     ieee80211_is_data_present = (\<lambda>fc. fc AND 0x0C = 0x08 \<and> fc AND 0x40 = 0),
     ieee80211_is_qos_nullfunc = (\<lambda>fc. fc AND 0xFC = 0xC8),
     ieee80211_is_mgmt = (\<lambda>fc. fc AND 0x0C = 0),
     ieee80211_has_protected = (\<lambda>fc. fc AND 0x4000 = 0x4000),
     ieee80211_has_morefrags = (\<lambda>fc. fc AND 0x0400 = 0x0400),
     ieee80211_has_a4 = (\<lambda>fc. fc AND 0x300 = 0x300),
     ieee80211_qos_ctl_off = (\<lambda>fc. if fc AND 0x300 = 0x300 then 30 else 24),
     ieee80211_DA_off = (\<lambda>fc. if fc AND 0x100 = 0x100 then 16 else 4),
     ieee80211_SA_off = (\<lambda>fc. if fc AND 0x300 = 0x300 then 24
                              else if fc AND 0x200 = 0x200 then 16 else 10),
     ieee80211_sn_less = (\<lambda>a b. 0x800 < (a - b) AND 0xFFF),
     ieee80211_sn_add = (\<lambda>a b. (a + b) AND 0xFFF),
     ieee80211_sn_inc = (\<lambda>a. (a + 1) AND 0xFFF),
     ieee80211_sn_sub = (\<lambda>a b. (a - b) AND 0xFFF),
     time_is_after_jiffies = (\<lambda>t now. sint (now - t) < 0),
     HZ = 250 \<rparr>"

lemma linux_kapi_sel [simp]:
  "ieee80211_hdrlen linux_kapi fc = ( if fc AND 0x0C = 0x08 then (if fc AND 0x300 = 0x300 then 30 else 24) + (if fc AND 0x80 = 0x80 then 2 + (if fc AND 0x8000 = 0x8000 then 4 else 0) else 0) else if fc AND 0x0C = 0 then 24 + (if fc AND 0x8000 = 0x8000 then 4 else 0) else if fc AND 0x0C = 0x04 then (if fc AND 0xE0 = 0xC0 then 10 else 16) else 24)"
  "ieee80211_is_data linux_kapi fc = (fc AND 0x0C = 0x08)"
  "ieee80211_is_data_qos linux_kapi fc = (fc AND 0x0C = 0x08 \<and> fc AND 0x80 = 0x80)"
  "ieee80211_is_data_present linux_kapi fc = (fc AND 0x0C = 0x08 \<and> fc AND 0x40 = 0)"
  "ieee80211_is_qos_nullfunc linux_kapi fc = (fc AND 0xFC = 0xC8)"
  "ieee80211_is_mgmt linux_kapi fc = (fc AND 0x0C = 0)"
  "ieee80211_has_protected linux_kapi fc = (fc AND 0x4000 = 0x4000)"
  "ieee80211_has_morefrags linux_kapi fc = (fc AND 0x0400 = 0x0400)"
  "ieee80211_has_a4 linux_kapi fc = (fc AND 0x300 = 0x300)"
  "ieee80211_qos_ctl_off linux_kapi fc = (if fc AND 0x300 = 0x300 then 30 else 24)"
  "ieee80211_DA_off linux_kapi fc = (if fc AND 0x100 = 0x100 then 16 else 4)"
  "ieee80211_SA_off linux_kapi fc = (if fc AND 0x300 = 0x300 then 24 else if fc AND 0x200 = 0x200 then 16 else 10)"
  "ieee80211_sn_less linux_kapi a b = (0x800 < (a - b) AND 0xFFF)"
  "ieee80211_sn_add linux_kapi a b = ((a + b) AND 0xFFF)"
  "ieee80211_sn_inc linux_kapi a = ((a + 1) AND 0xFFF)"
  "ieee80211_sn_sub linux_kapi a b = ((a - b) AND 0xFFF)"
  "time_is_after_jiffies linux_kapi t now = (sint (now - t) < 0)"
  "HZ linux_kapi = 250"
  by (simp_all add: linux_kapi_def)

lemma sn_ok_linux: "sn_ok linux_kapi"
  by (simp add: sn_ok_def)

lemma hdr_ok_linux: "hdr_ok linux_kapi"
  by (simp add: hdr_ok_def)

section \<open>Socket buffers\<close>

text \<open>
  \<open>skb_head\<close> are the bytes between the start of the buffer and \<open>data\<close> (pulled bytes stay
  there), \<open>skb_data\<close> the bytes from \<open>data\<close> to \<open>tail\<close>, \<open>skb_tailroom\<close> the free bytes
  behind. The control block is a type parameter: the receive and the transmit path use
  different structures in it.
\<close>

record 'cb sk_buff =
  skb_head :: bytes
  skb_data :: bytes
  skb_tailroom :: nat
  skb_protocol :: u16
  skb_priority :: u32
  skb_queue_mapping :: u16
  skb_cb :: 'cb

abbreviation skb_len :: "'cb sk_buff \<Rightarrow> nat" where
  "skb_len skb \<equiv> length (skb_data skb)"

abbreviation skb_headroom :: "'cb sk_buff \<Rightarrow> nat" where
  "skb_headroom skb \<equiv> length (skb_head skb)"

definition skb_push :: "'cb sk_buff \<Rightarrow> nat \<Rightarrow> 'cb sk_buff option" where
  "skb_push skb n = (if n \<le> skb_headroom skb then
     Some (skb\<lparr>skb_head := take (skb_headroom skb - n) (skb_head skb),
               skb_data := drop (skb_headroom skb - n) (skb_head skb) @ skb_data skb\<rparr>)
     else None)"

definition skb_pull :: "'cb sk_buff \<Rightarrow> nat \<Rightarrow> 'cb sk_buff option" where
  "skb_pull skb n = (if n \<le> skb_len skb then
     Some (skb\<lparr>skb_head := skb_head skb @ take n (skb_data skb),
               skb_data := drop n (skb_data skb)\<rparr>)
     else None)"

text \<open>\<open>skb_put\<close> together with the copy that fills the new bytes.\<close>

definition skb_put_data :: "'cb sk_buff \<Rightarrow> bytes \<Rightarrow> 'cb sk_buff option" where
  "skb_put_data skb bs = (if length bs \<le> skb_tailroom skb then
     Some (skb\<lparr>skb_data := skb_data skb @ bs, skb_tailroom := skb_tailroom skb - length bs\<rparr>)
     else None)"

definition skb_trim :: "'cb sk_buff \<Rightarrow> nat \<Rightarrow> 'cb sk_buff" where
  "skb_trim skb n = (if n < skb_len skb then
     skb\<lparr>skb_data := take n (skb_data skb), skb_tailroom := skb_tailroom skb + (skb_len skb - n)\<rparr>
     else skb)"

text \<open>A fresh buffer of \<open>n\<close> bytes of which the first \<open>r\<close> are reserved as headroom.\<close>

definition skb_new :: "nat \<Rightarrow> nat \<Rightarrow> 'cb \<Rightarrow> 'cb sk_buff" where
  "skb_new n r c = \<lparr>skb_head = replicate r 0, skb_data = [], skb_tailroom = n - r,
     skb_protocol = 0, skb_priority = 0, skb_queue_mapping = 0, skb_cb = c\<rparr>"

lemma skb_push_Some:
  "skb_push skb n = Some skb' \<Longrightarrow>
     n \<le> skb_headroom skb \<and> skb_len skb' = skb_len skb + n \<and>
     skb_headroom skb' = skb_headroom skb - n \<and> drop n (skb_data skb') = skb_data skb \<and>
     skb_tailroom skb' = skb_tailroom skb \<and> skb_cb skb' = skb_cb skb"
  by (auto simp: skb_push_def split: if_splits)

lemma skb_pull_Some:
  "skb_pull skb n = Some skb' \<Longrightarrow>
     skb_data skb' = drop n (skb_data skb) \<and> n \<le> skb_len skb \<and>
     skb_headroom skb' = skb_headroom skb + n"
  by (auto simp: skb_pull_def split: if_splits)

lemma skb_push_pull:
  "n \<le> skb_headroom skb \<Longrightarrow> \<exists>s. skb_push skb n = Some s \<and> skb_pull s n = Some skb"
  by (simp add: skb_push_def skb_pull_def)

lemma skb_put_data_data:
  "skb_put_data skb bs = Some skb' \<Longrightarrow> skb_data skb' = skb_data skb @ bs"
  by (auto simp: skb_put_data_def split: if_splits)

lemma skb_trim_data [simp]: "skb_data (skb_trim skb n) = take n (skb_data skb)"
  by (simp add: skb_trim_def)

section \<open>Fields of the 802.11 header\<close>

text \<open>
  \<open>frame_control\<close> is the little-endian word at offset 0, \<open>seq_ctrl\<close> the one at offset 22,
  the addresses start at offsets 4, 10, 16 and 24.
\<close>

definition frame_control :: "bytes \<Rightarrow> u16" where
  "frame_control d = le16 (d ! 0) (d ! 1)"

definition seq_ctrl :: "bytes \<Rightarrow> u16" where
  "seq_ctrl d = le16 (d ! 22) (d ! 23)"

definition set_frame_control :: "bytes \<Rightarrow> u16 \<Rightarrow> bytes" where
  "set_frame_control d w = d[0 := ucast w, 1 := ucast (drop_bit 8 w)]"

definition set_seq_ctrl :: "bytes \<Rightarrow> u16 \<Rightarrow> bytes" where
  "set_seq_ctrl d w = d[22 := ucast w, 23 := ucast (drop_bit 8 w)]"

lemma frame_control_set [simp]: "2 \<le> length d \<Longrightarrow> frame_control (set_frame_control d w) = w"
  by (cases d; cases "tl d") (auto simp: frame_control_def set_frame_control_def le16_put)

lemma seq_ctrl_set [simp]: "24 \<le> length d \<Longrightarrow> seq_ctrl (set_seq_ctrl d w) = w"
  by (simp add: seq_ctrl_def set_seq_ctrl_def le16_put)

lemma length_set_frame_control [simp]: "length (set_frame_control d w) = length d"
  by (simp add: set_frame_control_def)

lemma length_set_seq_ctrl [simp]: "length (set_seq_ctrl d w) = length d"
  by (simp add: set_seq_ctrl_def)

abbreviation IEEE80211_SCTL_FRAG :: u16 where "IEEE80211_SCTL_FRAG \<equiv> 0x000F"
abbreviation IEEE80211_SCTL_SEQ :: u16 where "IEEE80211_SCTL_SEQ \<equiv> 0xFFF0"
abbreviation IEEE80211_FCTL_MOREFRAGS :: u16 where "IEEE80211_FCTL_MOREFRAGS \<equiv> 0x0400"
abbreviation IEEE80211_FCTL_PROTECTED :: u16 where "IEEE80211_FCTL_PROTECTED \<equiv> 0x4000"

definition frame_seq :: "bytes \<Rightarrow> u16" where
  "frame_seq d = drop_bit 4 (seq_ctrl d AND IEEE80211_SCTL_SEQ)"

end
