(* ===== verification/R92_Reorder.thy ===== *)
theory R92_Reorder
  imports R92_Kernel
begin

text \<open>
  The A-MPDU reorder buffer of the receive path (\<open>rx.c\<close>, lines 829 to 979): a ring of 64
  frame slots of which \<open>size\<close> are in use, addressed by the distance of a frame's sequence
  number from the starting sequence number \<open>ssn\<close>. The ring is the sliding window
  \<open>view\<close> of its slots in sequence order, on which \<open>R92_Window\<close> proves it correct.
\<close>

section \<open>State and operations\<close>

datatype rx_control = RX_CONTINUE | RX_QUEUE | RX_DROP

record 'f rx_tid =
  rt_dropped :: u16
  rt_tid :: u16
  rt_ssn :: u16
  rt_head_seq :: u16
  rt_len :: u16
  rt_size :: u16
  rt_buf :: "'f option list"
  rt_time :: "u64 list"
  rt_timer :: "u64 option"
  rt_sta :: "nat option"

text \<open>The tid that \<open>r92su_sta_alloc_tid\<close> installs for a starting sequence control word.\<close>

definition rx_tid_new :: "u16 \<Rightarrow> u16 \<Rightarrow> nat \<Rightarrow> 'f rx_tid" where
  "rx_tid_new tid ssn sta = \<lparr>rt_dropped = 0, rt_tid = tid, rt_ssn = drop_bit 4 ssn,
     rt_head_seq = drop_bit 4 ssn, rt_len = 0, rt_size = 32, rt_buf = replicate 64 None,
     rt_time = replicate 64 0, rt_timer = None, rt_sta = Some sta\<rparr>"

definition buf_at :: "'f rx_tid \<Rightarrow> nat \<Rightarrow> 'f option option" where
  "buf_at t i = (if i < length (rt_buf t) then Some (rt_buf t ! i) else None)"

definition time_at :: "'f rx_tid \<Rightarrow> nat \<Rightarrow> u64 option" where
  "time_at t i = (if i < length (rt_time t) then Some (rt_time t ! i) else None)"

text \<open>\<open>ieee80211_sn_sub(seq, tid->ssn) % tid->size\<close>; a zero size is a division trap.\<close>

definition tid_index :: "kapi \<Rightarrow> 'f rx_tid \<Rightarrow> u16 \<Rightarrow> nat option" where
  "tid_index K t seq = (if rt_size t = 0 then None
     else Some (unat (ieee80211_sn_sub K seq (rt_ssn t)) mod unat (rt_size t)))"

definition r92su_reorder_release_frame ::
    "kapi \<Rightarrow> 'f rx_tid \<Rightarrow> nat \<Rightarrow> 'f list \<Rightarrow> ('f rx_tid \<times> 'f list) option" where
  "r92su_reorder_release_frame K t index q = do {
     slot \<leftarrow> buf_at t index;
     case slot of
       None \<Rightarrow> Some (t\<lparr>rt_head_seq := ieee80211_sn_inc K (rt_head_seq t)\<rparr>, q)
     | Some skb \<Rightarrow>
         Some (t\<lparr>rt_len := rt_len t - 1, rt_buf := (rt_buf t)[index := None],
                 rt_head_seq := ieee80211_sn_inc K (rt_head_seq t)\<rparr>, q @ [skb]) }"

partial_function (option) r92su_reorder_release_frames ::
    "kapi \<Rightarrow> u16 \<Rightarrow> 'f rx_tid \<Rightarrow> 'f list \<Rightarrow> ('f rx_tid \<times> 'f list) option" where
  "r92su_reorder_release_frames K new_head_seq t q =
     (if ieee80211_sn_less K (rt_head_seq t) new_head_seq then do {
        index \<leftarrow> tid_index K t (rt_head_seq t);
        (t', q') \<leftarrow> r92su_reorder_release_frame K t index q;
        r92su_reorder_release_frames K new_head_seq t' q' }
      else Some (t, q))"

text \<open>
  The three loops of \<open>r92su_reorder_sta_release\<close>. The first walks the ring from the slot
  behind \<open>index\<close> and releases frames whose timeout has passed; its third result is the slot
  \<open>j\<close> of the \<open>goto set_release_timer\<close>.
\<close>

partial_function (option) reorder_scan ::
    "kapi \<Rightarrow> u64 \<Rightarrow> nat \<Rightarrow> nat \<Rightarrow> nat \<Rightarrow> 'f rx_tid \<Rightarrow> 'f list \<Rightarrow>
     ('f rx_tid \<times> 'f list \<times> nat option) option" where
  "reorder_scan K now index j skipped t q =
     (if j = index then Some (t, q, None)
      else do {
        slot \<leftarrow> buf_at t j;
        if slot = None
        then reorder_scan K now index ((j + 1) mod unat (rt_size t)) (skipped + 1) t q
        else do {
          tm \<leftarrow> time_at t j;
          if skipped \<noteq> 0 \<and> time_is_after_jiffies K tm now then Some (t, q, Some j)
          else do {
            (t', q') \<leftarrow> r92su_reorder_release_frame K
              (t\<lparr>rt_head_seq := ieee80211_sn_add K (rt_head_seq t) (of_nat skipped)\<rparr>) j q;
            reorder_scan K now index ((j + 1) mod unat (rt_size t)) 0 t' q' } } })"

partial_function (option) reorder_run ::
    "kapi \<Rightarrow> nat \<Rightarrow> 'f rx_tid \<Rightarrow> 'f list \<Rightarrow> ('f rx_tid \<times> 'f list) option" where
  "reorder_run K index t q = do {
     slot \<leftarrow> buf_at t index;
     if slot = None then Some (t, q)
     else do {
       (t', q') \<leftarrow> r92su_reorder_release_frame K t index q;
       index' \<leftarrow> tid_index K t' (rt_head_seq t');
       reorder_run K index' t' q' } }"

text \<open>
  The search for the slot the timer waits for. \<open>(index - 1) % size\<close> is evaluated on C
  integers, so it is \<open>-1\<close> when \<open>index\<close> is 0 and the loop then ends by the \<open>break\<close> alone.
\<close>

partial_function (option) reorder_find :: "nat \<Rightarrow> nat \<Rightarrow> 'f rx_tid \<Rightarrow> nat option" where
  "reorder_find index j t =
     (if int j = (int index - 1) smod int (unat (rt_size t)) then Some j
      else do {
        slot \<leftarrow> buf_at t j;
        if slot \<noteq> None then Some j
        else reorder_find index ((j + 1) mod unat (rt_size t)) t })"

definition r92su_reorder_sta_release ::
    "kapi \<Rightarrow> u64 \<Rightarrow> 'f rx_tid \<Rightarrow> 'f list \<Rightarrow> ('f rx_tid \<times> 'f list) option" where
  "r92su_reorder_sta_release K now t q = do {
     index \<leftarrow> tid_index K t (rt_head_seq t);
     slot \<leftarrow> buf_at t index;
     (t, q, release) \<leftarrow>
       (if rt_len t \<noteq> 0 \<and> slot = None
        then reorder_scan K now index ((index + 1) mod unat (rt_size t)) 1 t q
        else do { (t, q) \<leftarrow> reorder_run K index t q; Some (t, q, None) });
     (case release of
        Some j \<Rightarrow> do { tm \<leftarrow> time_at t j; Some (t\<lparr>rt_timer := Some (tm + 1)\<rparr>, q) }
      | None \<Rightarrow>
          if rt_len t \<noteq> 0 then do {
            index \<leftarrow> tid_index K t (rt_head_seq t);
            j \<leftarrow> reorder_find index index t;
            tm \<leftarrow> time_at t j;
            Some (t\<lparr>rt_timer := Some (tm + 1)\<rparr>, q) }
          else Some (t\<lparr>rt_timer := None\<rparr>, q)) }"

definition HT_RX_REORDER_BUF_TIMEOUT :: "kapi \<Rightarrow> u64" where
  "HT_RX_REORDER_BUF_TIMEOUT K = HZ K div 10"

text \<open>The locked part of \<open>r92su_rx_reorder_ampdu\<close>, for a frame with sequence number \<open>mpdu_seq\<close>.\<close>

definition reorder_ampdu_locked ::
    "kapi \<Rightarrow> u64 \<Rightarrow> 'f rx_tid \<Rightarrow> u16 \<Rightarrow> 'f \<Rightarrow> 'f list \<Rightarrow>
     (rx_control \<times> 'f rx_tid \<times> 'f list) option" where
  "reorder_ampdu_locked K now t mpdu_seq skb q =
     (let head_seq = rt_head_seq t in
      if ieee80211_sn_less K mpdu_seq head_seq then Some (RX_DROP, t, q)
      else do {
        (t, q) \<leftarrow>
          (if \<not> ieee80211_sn_less K mpdu_seq (head_seq + rt_size t)
           then r92su_reorder_release_frames K
                  (ieee80211_sn_inc K (ieee80211_sn_sub K mpdu_seq (rt_size t))) t q
           else Some (t, q));
        index \<leftarrow> tid_index K t mpdu_seq;
        slot \<leftarrow> buf_at t index;
        if slot \<noteq> None then Some (RX_DROP, t, q)
        else if mpdu_seq = rt_head_seq t \<and> rt_len t = 0
        then Some (RX_CONTINUE, t\<lparr>rt_head_seq := ieee80211_sn_inc K mpdu_seq\<rparr>, q @ [skb])
        else do {
          (t, q) \<leftarrow> r92su_reorder_sta_release K now
             (t\<lparr>rt_buf := (rt_buf t)[index := Some skb],
                rt_time := (rt_time t)[index := now + HT_RX_REORDER_BUF_TIMEOUT K],
                rt_len := rt_len t + 1\<rparr>) q;
          Some (RX_CONTINUE, t, q) } })"


section \<open>Sequence number arithmetic\<close>

lemma uint_FFF: "uint (x AND 0xFFF :: u16) = uint x mod 4096"
proof -
  have "x AND 0xFFF = take_bit 12 x"
    using take_bit_eq_mask [of 12 x] by (simp add: mask_eq_exp_minus_1)
  then show ?thesis by (simp only: unsigned_take_bit_eq) (simp add: take_bit_eq_mod)
qed

text \<open>\<open>soff h s\<close>: how far the sequence number \<open>s\<close> is ahead of \<open>h\<close>.\<close>

definition soff :: "u16 \<Rightarrow> u16 \<Rightarrow> nat" where
  "soff h s = unat ((s - h) AND 0xFFF)"

lemma soff_int: "int (soff h s) = (uint s - uint h) mod 4096"
proof -
  have "int (soff h s) = uint ((s - h) AND 0xFFF)" by (simp add: soff_def)
  also have "\<dots> = (uint s - uint h) mod 65536 mod 4096"
    by (simp only: uint_FFF uint_word_ariths) simp
  also have "\<dots> = (uint s - uint h) mod 4096" by (rule mod_mod_cancel) simp
  finally show ?thesis .
qed

lemma soff_lt [simp]: "soff h s < 4096"
proof -
  have "int (soff h s) < 4096" unfolding soff_int by simp
  then show ?thesis by simp
qed

lemma uint_add_FFF: "uint ((h + of_nat d) AND 0xFFF :: u16) = (uint h + int d) mod 4096"
proof -
  have "uint ((h + of_nat d) AND 0xFFF :: u16) = (uint h + int d mod 65536) mod 65536 mod 4096"
    by (simp only: uint_FFF uint_word_ariths unsigned_of_nat) (simp add: take_bit_eq_mod zmod_int)
  also have "\<dots> = (uint h + int d mod 65536) mod 4096" by (rule mod_mod_cancel) simp
  also have "\<dots> = (uint h + int d) mod 4096"
    by (rule mod_add_cong) (simp_all add: mod_mod_cancel)
  finally show ?thesis .
qed

lemma soff_add: "soff s ((h + of_nat d) AND 0xFFF) = (soff s h + d) mod 4096"
proof -
  have "int (soff s ((h + of_nat d) AND 0xFFF)) = (int (soff s h) + int d) mod 4096"
    by (simp add: soff_int uint_add_FFF mod_simps algebra_simps)
  also have "\<dots> = int ((soff s h + d) mod 4096)" by (simp add: zmod_int)
  finally show ?thesis by (simp only: of_nat_eq_iff)
qed

lemma soff_self [simp]: "soff h h = 0"
  by (simp add: soff_def)

lemma add_soff: "unat s < 4096 \<Longrightarrow> (h + of_nat (soff h s)) AND 0xFFF = s"
proof -
  assume s: "unat s < 4096"
  then have "int (unat s) < 4096" by linarith
  then have s': "uint s < 4096" by simp
  have "uint ((h + of_nat (soff h s)) AND 0xFFF) = uint s mod 4096"
    by (simp only: uint_add_FFF soff_int) (simp add: mod_simps)
  also have "\<dots> = uint s" using s' by simp
  finally show ?thesis by (simp only: word_uint_eq_iff)
qed

end
