(* ===== verification/R92_Window.thy ===== *)
theory R92_Window
  imports R92_Reorder "HOL-Library.Multiset"
begin

text \<open>
  Correctness of the reorder buffer of \<open>R92_Reorder\<close>. The ring of slots is read as a sliding
  window \<open>view\<close> over the sequence numbers; each loop of the code is shown to terminate and to
  pop a prefix of the window (\<open>popped\<close>). In-order delivery, conservation of frames, the timer
  condition and the exact set of refused frames follow. The locale \<open>ordered_release\<close> states
  the contract of one step and lifts it to runs of arrivals and timeouts.
\<close>

section \<open>The window that the ring represents\<close>

fun somes :: "'a option list \<Rightarrow> 'a list" where
  "somes [] = []"
| "somes (None # xs) = somes xs"
| "somes (Some x # xs) = x # somes xs"

lemma somes_append [simp]: "somes (xs @ ys) = somes xs @ somes ys"
  by (induction xs rule: somes.induct) auto

lemma somes_replicate_None [simp]: "somes (replicate n None) = []"
  by (induction n) auto

lemma somes_Nil_iff: "somes xs = [] \<longleftrightarrow> xs = replicate (length xs) None"
  by (induction xs rule: somes.induct) auto

lemma somes_update_None: "d < length xs \<Longrightarrow> xs ! d = None \<Longrightarrow>
   length (somes (xs[d := Some x])) = Suc (length (somes xs))"
  by (induction xs arbitrary: d rule: somes.induct) (auto simp: nth_Cons split: nat.splits)

text \<open>The slot of the frame \<open>d\<close> places behind the head of the window.\<close>

definition slot_of :: "'f rx_tid \<Rightarrow> nat \<Rightarrow> nat" where
  "slot_of t d = (soff (rt_ssn t) (rt_head_seq t) + d) mod unat (rt_size t)"

definition view :: "'f rx_tid \<Rightarrow> 'f option list" where
  "view t = map (\<lambda>d. rt_buf t ! slot_of t d) [0..<unat (rt_size t)]"

definition tid_wf :: "'f rx_tid \<Rightarrow> bool" where
  "tid_wf t \<longleftrightarrow> length (rt_buf t) = 64 \<and> length (rt_time t) = 64 \<and>
     1 < unat (rt_size t) \<and> unat (rt_size t) \<le> 64 \<and> unat (rt_size t) dvd 4096 \<and>
     unat (rt_head_seq t) < 4096 \<and> unat (rt_len t) = length (somes (view t))"

text \<open>Every stored frame sits in the slot of its own sequence number, inside the window.\<close>

definition numbered :: "('f \<Rightarrow> u16) \<Rightarrow> 'f rx_tid \<Rightarrow> bool" where
  "numbered sn t \<longleftrightarrow> (\<forall>d < unat (rt_size t). \<forall>f. view t ! d = Some f \<longrightarrow>
     sn f = (rt_head_seq t + of_nat d) AND 0xFFF)"

lemma length_view [simp]: "length (view t) = unat (rt_size t)"
  by (simp add: view_def)

lemma view_nth [simp]: "d < unat (rt_size t) \<Longrightarrow> view t ! d = rt_buf t ! slot_of t d"
  by (simp add: view_def)

lemma slot_of_lt: "tid_wf t \<Longrightarrow> slot_of t d < unat (rt_size t)"
  by (simp add: slot_of_def tid_wf_def)

lemma slot_of_lt64: "tid_wf t \<Longrightarrow> slot_of t d < 64"
  using slot_of_lt [of t d] by (simp add: tid_wf_def)

lemma mod_add_inj: "(c + a) mod n = (c + b) mod n \<Longrightarrow> a < n \<Longrightarrow> b < n \<Longrightarrow> a = (b::nat)"
proof -
  assume eq: "(c + a) mod n = (c + b) mod n" and a: "a < n" and b: "b < n"
  from eq have "(int c + int a) mod int n = (int c + int b) mod int n"
    by (metis of_nat_add zmod_int)
  then have "int a mod int n = int b mod int n"
    by (metis add_diff_cancel_left' mod_diff_left_eq)
  with a b show ?thesis by (simp add: zmod_int [symmetric])
qed

lemma slot_of_inj:
  "d < unat (rt_size t) \<Longrightarrow> e < unat (rt_size t) \<Longrightarrow> slot_of t d = slot_of t e \<longleftrightarrow> d = e"
  unfolding slot_of_def by (auto dest: mod_add_inj)

lemma slot_of_Suc: "slot_of t (Suc d) = (slot_of t d + 1) mod unat (rt_size t)"
  by (simp add: slot_of_def mod_simps)

lemma slot_of_size: "slot_of t (unat (rt_size t)) = slot_of t 0"
  by (simp add: slot_of_def)

text \<open>Fields the window does not depend on.\<close>

lemma slot_of_frame [simp]:
  "slot_of (t\<lparr>rt_len := a\<rparr>) = slot_of t" "slot_of (t\<lparr>rt_buf := b\<rparr>) = slot_of t"
  "slot_of (t\<lparr>rt_time := c\<rparr>) = slot_of t" "slot_of (t\<lparr>rt_timer := e\<rparr>) = slot_of t"
  by (auto simp: slot_of_def)

lemma view_frame [simp]:
  "view (t\<lparr>rt_len := a\<rparr>) = view t" "view (t\<lparr>rt_time := c\<rparr>) = view t"
  "view (t\<lparr>rt_timer := e\<rparr>) = view t"
  by (auto simp: view_def)

lemma view_set_slot:
  assumes "tid_wf t" "d < unat (rt_size t)"
  shows "view (t\<lparr>rt_buf := (rt_buf t)[slot_of t d := x]\<rparr>) = (view t)[d := x]"
proof (rule nth_equalityI)
  show "length (view (t\<lparr>rt_buf := (rt_buf t)[slot_of t d := x]\<rparr>)) = length ((view t)[d := x])"
    by simp
  fix e
  assume "e < length (view (t\<lparr>rt_buf := (rt_buf t)[slot_of t d := x]\<rparr>))"
  then have e: "e < unat (rt_size t)" by simp
  have len: "slot_of t d < length (rt_buf t)" using slot_of_lt64 [OF assms(1), of d] assms(1) by (simp add: tid_wf_def)
  show "view (t\<lparr>rt_buf := (rt_buf t)[slot_of t d := x]\<rparr>) ! e = (view t)[d := x] ! e"
    using e assms(2) len by (auto simp: nth_list_update slot_of_inj)
qed

text \<open>Moving the head moves the window.\<close>

lemma slot_of_move:
  assumes "tid_wf t"
  shows "slot_of (t\<lparr>rt_head_seq := (rt_head_seq t + of_nat n) AND 0xFFF\<rparr>) d = slot_of t (n + d)"
proof -
  have "unat (rt_size t) dvd 4096" using assms by (simp add: tid_wf_def)
  then have "((soff (rt_ssn t) (rt_head_seq t) + n) mod 4096 + d) mod unat (rt_size t) =
             ((soff (rt_ssn t) (rt_head_seq t) + n) + d) mod unat (rt_size t)"
    by (rule mod_add_cong [OF mod_mod_cancel refl])
  then show ?thesis by (simp add: slot_of_def soff_add add.assoc)
qed

lemma view_move:
  assumes wf: "tid_wf t" and n: "n \<le> unat (rt_size t)"
    and none: "\<And>d. d < n \<Longrightarrow> view t ! d = None"
  shows "view (t\<lparr>rt_head_seq := (rt_head_seq t + of_nat n) AND 0xFFF\<rparr>) =
         drop n (view t @ replicate n None)" (is "view ?t = ?v")
proof (rule nth_equalityI)
  show "length (view ?t) = length ?v" using n by simp
  fix d
  assume "d < length (view ?t)"
  then have d: "d < unat (rt_size t)" by simp
  have "view ?t ! d = rt_buf t ! slot_of t (n + d)"
    using d by (simp add: slot_of_move [OF wf])
  also have "\<dots> = ?v ! d"
  proof (cases "n + d < unat (rt_size t)")
    case True
    have "?v ! d = (view t @ replicate n None) ! (n + d)" using n by (intro nth_drop) simp
    with True show ?thesis by (simp add: nth_append)
  next
    case False
    then have e: "n + d - unat (rt_size t) < n" using d by simp
    have "slot_of t (n + d) = slot_of t (n + d - unat (rt_size t))"
      using False by (simp add: slot_of_def mod_if [of "_ + (n + d)"])
    moreover have "n + d - unat (rt_size t) < unat (rt_size t)" using e n by simp
    moreover have "?v ! d = (view t @ replicate n None) ! (n + d)" using n by (intro nth_drop) simp
    ultimately show ?thesis using none [OF e] False e by (simp add: nth_append)
  qed
  finally show "view ?t ! d = ?v ! d" .
qed

text \<open>
  \<open>popped n t q t' q'\<close>: the window moved by \<open>n\<close> places and its first \<open>n\<close> slots were
  appended to the output queue. Every operation of the code is of this shape.
\<close>

definition same_tid :: "'f rx_tid \<Rightarrow> 'f rx_tid \<Rightarrow> bool" where
  "same_tid t t' \<longleftrightarrow> rt_ssn t' = rt_ssn t \<and> rt_size t' = rt_size t \<and> rt_tid t' = rt_tid t \<and>
     rt_sta t' = rt_sta t \<and> rt_dropped t' = rt_dropped t \<and> rt_time t' = rt_time t"

definition popped :: "nat \<Rightarrow> 'f rx_tid \<Rightarrow> 'f list \<Rightarrow> 'f rx_tid \<Rightarrow> 'f list \<Rightarrow> bool" where
  "popped n t q t' q' \<longleftrightarrow> tid_wf t' \<and> same_tid t t' \<and>
     rt_head_seq t' = (rt_head_seq t + of_nat n) AND 0xFFF \<and>
     view t' = drop n (view t @ replicate n None) \<and> q' = q @ somes (take n (view t))"

lemma FFF_add: "(((h + a) AND 0xFFF) + b) AND 0xFFF = (h + (a + b)) AND (0xFFF :: u16)"
proof -
  have "uint ((((h + a) AND 0xFFF) + b) AND 0xFFF) = uint ((h + (a + b)) AND (0xFFF :: u16))"
    by (simp only: uint_FFF uint_word_ariths) (simp add: mod_mod_cancel mod_simps algebra_simps)
  then show ?thesis by (simp only: word_uint_eq_iff)
qed

lemma unat_FFF_lt: "unat (x AND 0xFFF :: u16) < 4096"
proof -
  have "uint (x AND 0xFFF :: u16) < 4096" unfolding uint_FFF by simp
  then have "int (unat (x AND 0xFFF :: u16)) < int 4096" by simp
  then show ?thesis by (simp only: of_nat_less_iff)
qed

lemma FFF_id: "unat h < 4096 \<Longrightarrow> h AND 0xFFF = (h :: u16)"
proof -
  assume "unat h < 4096"
  then have "int (unat h) < 4096" by linarith
  then have "uint h < 4096" by simp
  then have "uint (h AND 0xFFF) = uint h" unfolding uint_FFF by simp
  then show ?thesis by (simp only: word_uint_eq_iff)
qed

lemma same_tid_refl [simp]: "same_tid t t"
  by (simp add: same_tid_def)

lemma same_tid_trans: "same_tid a b \<Longrightarrow> same_tid b c \<Longrightarrow> same_tid a c"
  by (simp add: same_tid_def)

lemma popped_0: "tid_wf t \<Longrightarrow> popped 0 t q t q"
  by (simp add: popped_def FFF_id tid_wf_def)

lemma popped_trans:
  assumes 1: "popped n t q t' q'" and 2: "popped m t' q' t'' q''"
  shows "popped (n + m) t q t'' q''"
proof -
  have v': "view t' = drop n (view t @ replicate n None)" using 1 by (simp add: popped_def)
  have "view t'' = drop m (drop n (view t @ replicate n None) @ replicate m None)"
    using 2 v' by (simp add: popped_def)
  also have "drop n (view t @ replicate n None) @ replicate m None =
             drop n ((view t @ replicate n None) @ replicate m None)"
    by (simp only: drop_append) simp
  also have "\<dots> = drop n (view t @ replicate (n + m) None)"
    by (simp only: append_assoc replicate_add)
  finally have v: "view t'' = drop (n + m) (view t @ replicate (n + m) None)"
    by (simp only: drop_drop add.commute)
  have "somes (take m (view t')) = somes (take m (drop n (view t)))"
    by (simp add: v' take_append drop_append take_replicate)
  then have q: "q'' = q @ somes (take (n + m) (view t))"
    using 1 2 by (simp add: popped_def take_add)
  have "rt_head_seq t'' = (rt_head_seq t + of_nat (n + m)) AND 0xFFF"
    using 1 2 by (simp add: popped_def FFF_add)
  moreover have "same_tid t t''" using 1 2 by (auto simp: popped_def dest: same_tid_trans)
  moreover have "tid_wf t''" using 2 by (simp add: popped_def)
  ultimately show ?thesis using v q by (simp only: popped_def)
qed

lemma popped_wf: "popped n t q t' q' \<Longrightarrow> tid_wf t'"
  by (simp add: popped_def)

text \<open>Popping keeps the frames in the slots of their sequence numbers, and loses none.\<close>

lemma popped_numbered:
  assumes "popped n t q t' q'" "numbered sn t"
  shows "numbered sn t'"
  unfolding numbered_def
proof (intro allI impI)
  fix d f
  assume d: "d < unat (rt_size t')" and f: "view t' ! d = Some f"
  have sz: "rt_size t' = rt_size t" using assms by (simp add: popped_def same_tid_def)
  have "view t' = drop n (view t @ replicate n None)" using assms(1) by (simp only: popped_def)
  moreover have "drop n (view t @ replicate n None) ! d = (view t @ replicate n None) ! (n + d)"
    by (intro nth_drop) simp
  ultimately have "view t' ! d = (view t @ replicate n None) ! (n + d)" by (simp only:)
  with f have nd: "n + d < unat (rt_size t)" and v: "view t ! (n + d) = Some f"
    using d sz by (auto simp: nth_append split: if_splits)
  then have "sn f = (rt_head_seq t + of_nat (n + d)) AND 0xFFF"
    using assms(2) unfolding numbered_def by blast
  then show "sn f = (rt_head_seq t' + of_nat d) AND 0xFFF"
    using assms(1) by (simp add: popped_def FFF_add)
qed

lemma popped_mset:
  "popped n t q t' q' \<Longrightarrow> q' @ somes (view t') = q @ somes (view t)"
  by (simp add: popped_def drop_append) (metis append_take_drop_id somes_append)

section \<open>Every operation pops a prefix of the window\<close>

lemma tid_index_soff:
  "sn_ok K \<Longrightarrow> tid_wf t \<Longrightarrow>
   tid_index K t s = Some (soff (rt_ssn t) s mod unat (rt_size t))"
  by (auto simp: tid_index_def sn_ok_def soff_def tid_wf_def)

lemma tid_index_head:
  "sn_ok K \<Longrightarrow> tid_wf t \<Longrightarrow> tid_index K t (rt_head_seq t) = Some (slot_of t 0)"
  by (simp add: tid_index_soff slot_of_def)

lemma buf_at_slot: "tid_wf t \<Longrightarrow> buf_at t (slot_of t d) = Some (rt_buf t ! slot_of t d)"
  using slot_of_lt64 [of t d] by (simp add: buf_at_def tid_wf_def)

lemma time_at_slot: "tid_wf t \<Longrightarrow> time_at t (slot_of t d) = Some (rt_time t ! slot_of t d)"
  using slot_of_lt64 [of t d] by (simp add: time_at_def tid_wf_def)

text \<open>The head moves over empty slots.\<close>

lemma popped_skip:
  assumes wf: "tid_wf t" and n: "n \<le> unat (rt_size t)"
    and none: "\<And>d. d < n \<Longrightarrow> view t ! d = None"
  shows "popped n t q (t\<lparr>rt_head_seq := (rt_head_seq t + of_nat n) AND 0xFFF\<rparr>) q"
proof -
  have "take n (view t) = replicate n None"
    using n none by (intro nth_equalityI) auto
  then have "somes (take n (view t)) = []" by simp
  moreover have "somes (drop n (view t @ replicate n None)) = somes (view t)"
    using \<open>somes (take n (view t)) = []\<close> n
    by (simp add: drop_append) (metis append_Nil append_take_drop_id somes_append)
  ultimately show ?thesis
    using wf view_move [OF wf n none]
    by (simp add: popped_def tid_wf_def same_tid_def unat_FFF_lt)
qed

lemma release_frame_head:
  assumes K: "sn_ok K" and wf: "tid_wf t"
  shows "\<exists>t' q'. r92su_reorder_release_frame K t (slot_of t 0) q = Some (t', q') \<and>
           popped 1 t q t' q'"
proof (cases "rt_buf t ! slot_of t 0")
  case None
  have pos: "0 < unat (rt_size t)" using wf by (simp add: tid_wf_def)
  then have "popped 1 t q (t\<lparr>rt_head_seq := (rt_head_seq t + of_nat 1) AND 0xFFF\<rparr>) q"
    using None by (intro popped_skip wf) auto
  then show ?thesis using K None
    by (simp add: r92su_reorder_release_frame_def buf_at_slot [OF wf] sn_ok_def)
next
  case (Some f)
  have pos: "0 < unat (rt_size t)" using wf by (simp add: tid_wf_def)
  then have pos': "Suc 0 - unat (rt_size t) = 0" by linarith
  define u where "u = t\<lparr>rt_len := rt_len t - 1, rt_buf := (rt_buf t)[slot_of t 0 := None]\<rparr>"
  have vu: "view u = (view t)[0 := None]"
    unfolding u_def using view_set_slot [OF wf pos, of None] by (simp add: view_def)
  have "view t \<noteq> []" using pos length_view [of t] by (metis less_numeral_extra(3) list.size(3))
  moreover have "view t ! 0 = Some f" using pos Some by simp
  ultimately obtain xs where xs: "view t = Some f # xs" by (cases "view t") auto
  have l: "unat (rt_len t) = Suc (length (somes xs))" using wf xs by (simp add: tid_wf_def)
  then have "unat (rt_len t - 1) = length (somes xs)"
    by (simp add: unat_sub_if' word_le_nat_alt)
  then have wfu: "tid_wf u" using wf vu xs by (simp add: tid_wf_def u_def)
  have "popped 1 u (q @ [f]) (u\<lparr>rt_head_seq := (rt_head_seq u + of_nat 1) AND 0xFFF\<rparr>) (q @ [f])"
    using vu pos xs by (intro popped_skip wfu) (auto simp: u_def)
  then have "popped 1 t q (u\<lparr>rt_head_seq := (rt_head_seq u + of_nat 1) AND 0xFFF\<rparr>) (q @ [f])"
    using vu xs pos' by (simp add: popped_def same_tid_def u_def)
  then show ?thesis using K Some
    by (simp add: r92su_reorder_release_frame_def buf_at_slot [OF wf] sn_ok_def u_def)
qed

text \<open>The head and the target of the release loop: how many frames it pops.\<close>

lemma sn_less_soff: "sn_ok K \<Longrightarrow> ieee80211_sn_less K a b \<longleftrightarrow> 2048 < soff b a"
proof -
  assume "sn_ok K"
  then have "ieee80211_sn_less K a b \<longleftrightarrow> 0x800 < (a - b) AND 0xFFF" by (simp add: sn_ok_def)
  also have "\<dots> \<longleftrightarrow> 2048 < unat ((a - b) AND 0xFFF)" by (simp add: word_less_nat_alt)
  finally show ?thesis by (simp add: soff_def)
qed

lemma soff_swap: "soff b a = (if soff a b = 0 then 0 else 4096 - soff a b)"
proof -
  have "int (soff b a) = (- int (soff a b)) mod 4096" by (simp add: soff_int mod_simps)
  then show ?thesis using soff_lt [of a b] by (auto simp: zmod_zminus1_eq_if)
qed

lemma soff_head_Suc:
  "0 < soff h s \<Longrightarrow> soff ((h + 1) AND 0xFFF) s = soff h s - 1"
proof -
  assume p: "0 < soff h s"
  have "int (soff ((h + 1) AND 0xFFF) s) = (uint s - uint ((h + of_nat 1) AND 0xFFF :: u16)) mod 4096"
    by (simp only: soff_int) simp
  also have "\<dots> = (uint s - uint h - 1) mod 4096"
    by (simp only: uint_add_FFF) (simp add: mod_simps algebra_simps)
  also have "\<dots> = (int (soff h s) - 1) mod 4096" by (simp add: soff_int mod_simps)
  also have "\<dots> = int (soff h s) - 1"
  proof (rule mod_pos_pos_trivial)
    show "int (soff h s) - 1 < 4096" using soff_lt [of h s] by linarith
  qed (use p in simp)
  also have "\<dots> = int (soff h s - 1)" using p by simp
  finally show ?thesis by simp
qed

definition release_count :: "u16 \<Rightarrow> u16 \<Rightarrow> nat" where
  "release_count h new = (if soff h new < 2048 then soff h new else 0)"

lemma release_frames_pops:
  assumes K: "sn_ok K"
  shows "tid_wf t \<Longrightarrow> n = release_count (rt_head_seq t) new \<Longrightarrow>
     \<exists>t' q'. r92su_reorder_release_frames K new t q = Some (t', q') \<and> popped n t q t' q'"
proof (induction n arbitrary: t q)
  case 0
  have "\<not> ieee80211_sn_less K (rt_head_seq t) new"
    using 0 soff_swap [of new "rt_head_seq t"] soff_lt [of "rt_head_seq t" new]
    by (auto simp: sn_less_soff [OF K] release_count_def split: if_splits)
  then show ?case using 0 by (subst r92su_reorder_release_frames.simps) (simp add: popped_0)
next
  case (Suc n)
  let ?h = "rt_head_seq t"
  have less: "ieee80211_sn_less K ?h new"
    using Suc.prems soff_swap [of new ?h] by (auto simp: sn_less_soff [OF K] release_count_def split: if_splits)
  obtain t1 q1 where rel: "r92su_reorder_release_frame K t (slot_of t 0) q = Some (t1, q1)"
    and p1: "popped 1 t q t1 q1"
    using release_frame_head [OF K Suc.prems(1)] by blast
  have "n = release_count (rt_head_seq t1) new"
    using Suc.prems(2) p1 soff_head_Suc [of ?h new]
    by (auto simp: popped_def release_count_def split: if_splits)
  then obtain t2 q2 where "r92su_reorder_release_frames K new t1 q1 = Some (t2, q2)"
    and "popped n t1 q1 t2 q2"
    using Suc.IH [OF popped_wf [OF p1]] by blast
  then show ?case
    using less rel popped_trans [OF p1, of n t2 q2] tid_index_head [OF K Suc.prems(1)]
    by (subst r92su_reorder_release_frames.simps) simp
qed

lemma same_tid_sym: "same_tid a b \<Longrightarrow> same_tid b a"
  by (simp add: same_tid_def)

lemma slot_of_popped:
  assumes "popped n t q t' q'" "tid_wf t"
  shows "slot_of t' d = slot_of t (n + d)"
proof -
  have "rt_head_seq t' = (rt_head_seq t + of_nat n) AND 0xFFF" "rt_ssn t' = rt_ssn t"
    "rt_size t' = rt_size t"
    using assms(1) by (auto simp: popped_def same_tid_def)
  then show ?thesis using slot_of_move [OF assms(2), of n d] by (simp add: slot_of_def)
qed

lemma popped_size: "popped n t q t' q' \<Longrightarrow> rt_size t' = rt_size t"
  by (simp add: popped_def same_tid_def)

lemma popped_time: "popped n t q t' q' \<Longrightarrow> rt_time t' = rt_time t"
  by (simp add: popped_def same_tid_def)

text \<open>A scan over the ring from the head: the first used slot, if any.\<close>

definition lead :: "'f rx_tid \<Rightarrow> nat \<Rightarrow> bool" where
  "lead t d \<longleftrightarrow> d < unat (rt_size t) \<and> view t ! d \<noteq> None \<and> (\<forall>e<d. view t ! e = None)"

text \<open>
  The timeout scan. \<open>k\<close> counts the slots visited since the start, of which the last
  \<open>skipped\<close> were empty; the frames before them have been released.
\<close>

lemma scan_pops:
  assumes K: "sn_ok K"
  shows "tid_wf t \<Longrightarrow> skipped \<le> k \<Longrightarrow> k \<le> unat (rt_size t) \<Longrightarrow> 0 < k \<Longrightarrow>
     m = unat (rt_size t) - k \<Longrightarrow> index = slot_of t (unat (rt_size t) - (k - skipped)) \<Longrightarrow>
     (\<forall>d < skipped. view t ! d = None) \<Longrightarrow>
     (\<forall>d. unat (rt_size t) - (k - skipped) \<le> d \<and> d < unat (rt_size t) \<longrightarrow> view t ! d = None) \<Longrightarrow>
     \<exists>n t' q' r. reorder_scan K now index (slot_of t skipped) skipped t q = Some (t', q', r) \<and>
       popped n t q t' q' \<and>
       (case r of None \<Rightarrow> somes (view t') = []
        | Some j \<Rightarrow> \<exists>d. 0 < d \<and> lead t' d \<and> j = slot_of t' d)"
proof (induction m arbitrary: t q k skipped index)
  case 0
  then have k: "k = unat (rt_size t)" by simp
  then have "index = slot_of t skipped" using 0 by simp
  moreover have "view t = replicate (unat (rt_size t)) None"
    using 0 k by (intro nth_equalityI) (auto, metis diff_diff_cancel not_less view_nth)
  ultimately show ?case using 0(1)
    by (subst reorder_scan.simps) (auto intro!: exI [of _ "0::nat"] simp: popped_0)
next
  case (Suc m)
  let ?s = "unat (rt_size t)"
  have ks: "k < ?s" using Suc.prems by simp
  then have sk: "skipped < ?s" using Suc.prems by simp
  have "slot_of t skipped \<noteq> index"
  proof
    assume eq: "slot_of t skipped = index"
    show False
    proof (cases "k = skipped")
      case True
      then have "slot_of t skipped = slot_of t 0" using eq Suc.prems(6) by (simp add: slot_of_size)
      then show False using slot_of_inj [of skipped t 0] sk True Suc.prems(4) by simp
    next
      case False
      then have "skipped = ?s - (k - skipped)"
        using eq Suc.prems slot_of_inj [of skipped t "?s - (k - skipped)"] sk by auto
      then show False using ks Suc.prems(2) by simp
    qed
  qed
  note ne = this
  note at = buf_at_slot [OF Suc.prems(1)] time_at_slot [OF Suc.prems(1)]
  show ?case
  proof (cases "rt_buf t ! slot_of t skipped")
    case None
    have "\<exists>n t' q' r. reorder_scan K now index (slot_of t (Suc skipped)) (Suc skipped) t q = Some (t', q', r) \<and>
       popped n t q t' q' \<and> (case r of None \<Rightarrow> somes (view t') = []
        | Some j \<Rightarrow> \<exists>d. 0 < d \<and> lead t' d \<and> j = slot_of t' d)"
      using Suc.prems ks None sk
      by (intro Suc.IH [of t "Suc skipped" "Suc k"]) (auto simp: less_Suc_eq)
    then show ?thesis using ne None at
      by (subst reorder_scan.simps) (simp add: slot_of_Suc)
  next
    case (Some f)
    show ?thesis
    proof (cases "skipped \<noteq> 0 \<and> time_is_after_jiffies K (rt_time t ! slot_of t skipped) now")
      case True
      have "lead t skipped" using Suc.prems(7) sk Some by (auto simp: lead_def)
      have "reorder_scan K now index (slot_of t skipped) skipped t q =
            Some (t, q, Some (slot_of t skipped))"
        using ne Some at True by (subst reorder_scan.simps) simp
      then show ?thesis using \<open>lead t skipped\<close> True popped_0 [OF Suc.prems(1), of q] by fastforce
    next
      case False
      define u where "u = t\<lparr>rt_head_seq := (rt_head_seq t + of_nat skipped) AND 0xFFF\<rparr>"
      have pu: "popped skipped t q u q"
        unfolding u_def using Suc.prems(1,7) sk by (intro popped_skip) auto
      have su: "slot_of u 0 = slot_of t skipped"
        using slot_of_popped [OF pu Suc.prems(1), of 0] by simp
      obtain t1 q1 where rel: "r92su_reorder_release_frame K u (slot_of u 0) q = Some (t1, q1)"
        and p1: "popped 1 u q t1 q1"
        using release_frame_head [OF K popped_wf [OF pu]] by blast
      have p: "popped (skipped + 1) t q t1 q1" by (rule popped_trans [OF pu p1])
      have sz: "rt_size t1 = rt_size t" using popped_size [OF p] .
      have v1: "view t1 = drop (skipped + 1) (view t @ replicate (skipped + 1) None)"
        using p by (simp only: popped_def)
      have v1n: "view t1 ! d = (view t @ replicate (skipped + 1) None) ! (skipped + 1 + d)" for d
        unfolding v1 using sk by (intro nth_drop) simp
      have slot1: "slot_of t1 0 = slot_of t (Suc skipped)"
        using slot_of_popped [OF p Suc.prems(1), of 0] by simp
      have idx: "index = slot_of t1 (?s - Suc k)"
      proof -
        have "slot_of t1 (?s - Suc k) = slot_of t (skipped + 1 + (?s - Suc k))"
          using slot_of_popped [OF p Suc.prems(1)] by simp
        also have "skipped + 1 + (?s - Suc k) = ?s - (k - skipped)"
          using ks Suc.prems(2) by simp
        finally show ?thesis using Suc.prems(6) by simp
      qed
      have "\<exists>n t' q' r. reorder_scan K now index (slot_of t1 0) 0 t1 q1 = Some (t', q', r) \<and>
       popped n t1 q1 t' q' \<and> (case r of None \<Rightarrow> somes (view t') = []
        | Some j \<Rightarrow> \<exists>d. 0 < d \<and> lead t' d \<and> j = slot_of t' d)"
      proof (rule Suc.IH [of t1 0 "Suc k"])
        show "tid_wf t1" by (rule popped_wf [OF p])
        show "\<forall>d. unat (rt_size t1) - (Suc k - 0) \<le> d \<and> d < unat (rt_size t1) \<longrightarrow> view t1 ! d = None"
        proof (intro allI impI)
          fix d
          assume d: "unat (rt_size t1) - (Suc k - 0) \<le> d \<and> d < unat (rt_size t1)"
          show "view t1 ! d = None"
          proof (cases "skipped + 1 + d < ?s")
            case True
            have "?s - (k - skipped) \<le> skipped + 1 + d"
              using conjunct1 [OF d] sz ks Suc.prems(2) by simp
            then have "view t ! (skipped + 1 + d) = None" using Suc.prems(8) True by blast
            then show ?thesis using True by (simp only: v1n) (simp add: nth_append)
          next
            case False
            then have "skipped + 1 + d - ?s < skipped + 1" using conjunct2 [OF d] sz by simp
            then show ?thesis using False by (simp only: v1n) (simp add: nth_append del: replicate_Suc)
          qed
        qed
      qed (use ks sz Suc.prems idx in auto)
      then obtain n t' q' r where IH: "reorder_scan K now index (slot_of t1 0) 0 t1 q1 = Some (t', q', r)"
        "popped n t1 q1 t' q'" "(case r of None \<Rightarrow> somes (view t') = []
          | Some j \<Rightarrow> \<exists>d. 0 < d \<and> lead t' d \<and> j = slot_of t' d)" by blast
      have "reorder_scan K now index (slot_of t skipped) skipped t q = Some (t', q', r)"
        using ne Some at False rel IH(1) K
        by (subst reorder_scan.simps) (auto simp: u_def [symmetric] su slot1 slot_of_Suc sn_ok_def)
      then show ?thesis using popped_trans [OF p IH(2)] IH(3) by blast
    qed
  qed
qed

lemma run_pops:
  assumes K: "sn_ok K"
  shows "tid_wf t \<Longrightarrow> (\<exists>d < unat (rt_size t). view t ! d = None \<and> d \<le> m) \<or> length (somes (view t)) \<le> m \<Longrightarrow>
     \<exists>n t' q'. reorder_run K (slot_of t 0) t q = Some (t', q') \<and> popped n t q t' q' \<and>
       view t' ! 0 = None"
proof (induction m arbitrary: t q)
  case 0
  have pos: "0 < unat (rt_size t)" using 0(1) by (simp add: tid_wf_def)
  have "view t ! 0 = None"
    using 0(2) pos by (auto simp: somes_Nil_iff) (metis length_view nth_replicate view_nth)
  then show ?case using 0(1) pos buf_at_slot [OF 0(1), of 0]
    by (subst reorder_run.simps) (auto intro!: exI [of _ "0::nat"] popped_0)
next
  case (Suc m)
  have pos: "0 < unat (rt_size t)" using Suc.prems(1) by (simp add: tid_wf_def)
  show ?case
  proof (cases "rt_buf t ! slot_of t 0")
    case None
    then show ?thesis using Suc.prems(1) pos buf_at_slot [OF Suc.prems(1), of 0]
      by (subst reorder_run.simps) (auto intro!: exI [of _ "0::nat"] popped_0)
  next
    case (Some f)
    obtain t1 q1 where rel: "r92su_reorder_release_frame K t (slot_of t 0) q = Some (t1, q1)"
      and p1: "popped 1 t q t1 q1"
      using release_frame_head [OF K Suc.prems(1)] by blast
    have v1: "view t1 = drop 1 (view t @ [None])" using p1 by (simp add: popped_def)
    have sz: "rt_size t1 = rt_size t" using popped_size [OF p1] .
    have "(view t @ [None]) ! unat (rt_size t) = None" by (simp add: nth_append)
    then have "view t1 ! (unat (rt_size t) - 1) = None"
      unfolding v1 using pos by (subst nth_drop) auto
    have "(\<exists>d < unat (rt_size t1). view t1 ! d = None \<and> d \<le> m) \<or> length (somes (view t1)) \<le> m"
    proof (cases "\<exists>d < unat (rt_size t). view t ! d = None \<and> d \<le> Suc m")
      case True
      then obtain d where d: "d < unat (rt_size t)" "view t ! d = None" "d \<le> Suc m" by blast
      have "d \<noteq> 0" using d Some by (metis option.distinct(1) view_nth)
      then have "view t1 ! (d - 1) = None" unfolding v1 using d pos
        by (subst nth_drop) (auto simp: nth_append)
      then show ?thesis using d \<open>d \<noteq> 0\<close> sz by (intro disjI1 exI [of _ "d - 1"]) auto
    next
      case False
      then have "length (somes (view t)) \<le> Suc m" using Suc.prems(2) by blast
      moreover have "length (somes (view t)) = Suc (length (somes (view t1)))"
      proof -
        have "view t ! 0 = Some f" using pos Some by simp
        moreover have "view t \<noteq> []" using pos length_view [of t] by (metis less_numeral_extra(3) list.size(3))
        ultimately obtain xs where "view t = Some f # xs" by (cases "view t") auto
        then show ?thesis by (simp add: v1)
      qed
      ultimately show ?thesis by simp
    qed
    then obtain n t2 q2 where IH: "reorder_run K (slot_of t1 0) t1 q1 = Some (t2, q2)"
      "popped n t1 q1 t2 q2" "view t2 ! 0 = None"
      using Suc.IH [OF popped_wf [OF p1]] by blast
    have "reorder_run K (slot_of t 0) t q = Some (t2, q2)"
      using Some buf_at_slot [OF Suc.prems(1), of 0] rel IH(1) tid_index_head [OF K popped_wf [OF p1]]
      by (subst reorder_run.simps) simp
    then show ?thesis using popped_trans [OF p1 IH(2)] IH(3) by blast
  qed
qed

lemma smod_pred:
  assumes "i < s" "0 < s"
  shows "(int i - 1) smod int s = (if i = 0 then (if s = 1 then 0 else - 1) else int i - 1)"
proof (cases "i \<le> 1")
  case True
  then have "i = 0 \<or> i = 1" by linarith
  then show ?thesis using assms by (auto simp: signed_modulo_int_def)
next
  case False
  then have "sgn (int i - 1) = 1" by simp
  then show ?thesis using assms False by (simp add: signed_modulo_int_def)
qed

text \<open>The timer search ends at the first used slot.\<close>

lemma find_lead:
  assumes "tid_wf t" "lead t d"
  shows "e \<le> d \<Longrightarrow> reorder_find (slot_of t 0) (slot_of t e) t = Some (slot_of t d)"
proof (induction "d - e" arbitrary: e)
  case 0
  then have e: "e = d" by simp
  then show ?case using assms buf_at_slot [OF assms(1), of d]
    by (subst reorder_find.simps) (auto simp: lead_def)
next
  case (Suc n)
  let ?s = "unat (rt_size t)"
  have s: "e < ?s" "Suc e < ?s" using Suc assms(2) by (auto simp: lead_def)
  have "view t ! e = None" using assms(2) Suc by (auto simp: lead_def)
  then have none: "rt_buf t ! slot_of t e = None" using s by simp
  have "int (slot_of t e) \<noteq> (int (slot_of t 0) - 1) smod int ?s"
  proof
    assume eq: "int (slot_of t e) = (int (slot_of t 0) - 1) smod int ?s"
    have "slot_of t 0 \<noteq> 0" using eq s smod_pred [of "slot_of t 0" ?s] slot_of_lt [OF assms(1), of 0]
      by (auto split: if_splits)
    then have "slot_of t 0 = slot_of t e + 1"
      using eq smod_pred [of "slot_of t 0" ?s] slot_of_lt [OF assms(1), of 0] s by auto
    then have "slot_of t (Suc e) = slot_of t 0"
      using slot_of_lt [OF assms(1), of 0] by (simp add: slot_of_Suc)
    then show False using slot_of_inj [of "Suc e" t 0] s by simp
  qed
  moreover have "reorder_find (slot_of t 0) (slot_of t (Suc e)) t = Some (slot_of t d)"
    using Suc by (intro Suc.hyps(1)) auto
  ultimately show ?case using none buf_at_slot [OF assms(1), of e]
    by (subst reorder_find.simps) (simp add: slot_of_Suc)
qed

lemma lead_exists: "somes (view t) \<noteq> [] \<Longrightarrow> \<exists>d. lead t d"
proof -
  assume ne: "somes (view t) \<noteq> []"
  have "\<exists>d < unat (rt_size t). view t ! d \<noteq> None"
  proof (rule ccontr)
    assume "\<not> ?thesis"
    then have "view t = replicate (length (view t)) None" by (intro nth_equalityI) auto
    with ne show False by (metis somes_replicate_None)
  qed
  then obtain d where d: "d < unat (rt_size t)" "view t ! d \<noteq> None" by blast
  define e where "e = (LEAST i. view t ! i \<noteq> None)"
  have 1: "view t ! e \<noteq> None" unfolding e_def by (rule LeastI) (rule d(2))
  have 2: "e \<le> d" unfolding e_def by (rule Least_le) (rule d(2))
  have 3: "view t ! i = None" if "i < e" for i
    using not_less_Least [OF that [unfolded e_def]] by simp
  have "lead t e" unfolding lead_def using 1 2 3 d(1) by (meson le_less_trans)
  then show ?thesis ..
qed

lemma lead_somes: "lead t d \<Longrightarrow> somes (view t) \<noteq> []"
  by (metis lead_def length_view nth_replicate somes_Nil_iff)

definition timer_ok :: "'f rx_tid \<Rightarrow> bool" where
  "timer_ok t \<longleftrightarrow> (case rt_timer t of
     None \<Rightarrow> somes (view t) = []
   | Some tm \<Rightarrow> \<exists>d. lead t d \<and> tm = rt_time t ! slot_of t d + 1)"

lemma somes_Nil_head: "somes (view t) = [] \<Longrightarrow> tid_wf t \<Longrightarrow> view t ! 0 = None"
  by (metis length_view nth_replicate somes_Nil_iff tid_wf_def less_trans zero_less_one)

text \<open>
  A release pops a prefix of the window, leaves no deliverable frame at its head, and
  arms the timer for the first stored frame, or stops it when nothing is stored.
\<close>

lemma sta_release_pops:
  assumes K: "sn_ok K" and wf: "tid_wf t"
  shows "\<exists>n t' q'. r92su_reorder_sta_release K now t q = Some (t', q') \<and>
           popped n t q t' q' \<and> view t' ! 0 = None \<and> timer_ok t'"
proof -
  have pos: "0 < unat (rt_size t)" using wf by (simp add: tid_wf_def)
  note idx = tid_index_head [OF K wf] and buf = buf_at_slot [OF wf, of 0]
  define first where "first = (if rt_len t \<noteq> 0 \<and> rt_buf t ! slot_of t 0 = None
        then reorder_scan K now (slot_of t 0) ((slot_of t 0 + 1) mod unat (rt_size t)) 1 t q
        else do { (t, q) \<leftarrow> reorder_run K (slot_of t 0) t q; Some (t, q, None) })"
  obtain n u q' r where F: "first = Some (u, q', r)" and p: "popped n t q u q'"
    and v0: "view u ! 0 = None"
    and r: "case r of None \<Rightarrow> True | Some j \<Rightarrow> \<exists>d. lead u d \<and> j = slot_of u d"
  proof (cases "rt_len t \<noteq> 0 \<and> rt_buf t ! slot_of t 0 = None")
    case True
    have "\<exists>n t' q' r. reorder_scan K now (slot_of t 0) (slot_of t 1) 1 t q = Some (t', q', r) \<and>
       popped n t q t' q' \<and> (case r of None \<Rightarrow> somes (view t') = []
        | Some j \<Rightarrow> \<exists>d. 0 < d \<and> lead t' d \<and> j = slot_of t' d)"
      using True pos by (intro scan_pops [OF K wf, of 1 1]) (auto simp: slot_of_size)
    then obtain n t' q' r where "reorder_scan K now (slot_of t 0) (slot_of t 1) 1 t q = Some (t', q', r)"
      and p: "popped n t q t' q'" and r: "case r of None \<Rightarrow> somes (view t') = []
        | Some j \<Rightarrow> \<exists>d. 0 < d \<and> lead t' d \<and> j = slot_of t' d" by blast
    then have "first = Some (t', q', r)"
      using True slot_of_Suc [of t 0] by (simp add: first_def)
    moreover have "view t' ! 0 = None"
    proof (cases r)
      case None
      then have "view t' = replicate (unat (rt_size t')) None"
        using r by (simp add: somes_Nil_iff)
      then show ?thesis using pos popped_size [OF p] by (simp only: nth_replicate)
    next
      case (Some j)
      then show ?thesis using r by (auto simp: lead_def)
    qed
    ultimately show thesis using p r that by (cases r) auto
  next
    case False
    have "\<exists>n t' q'. reorder_run K (slot_of t 0) t q = Some (t', q') \<and> popped n t q t' q' \<and>
       view t' ! 0 = None"
      by (rule run_pops [OF K wf, of "length (somes (view t))"]) simp
    then show thesis using False that by (auto simp: first_def)
  qed
  have wfu: "tid_wf u" by (rule popped_wf [OF p])
  have len: "rt_len u = 0 \<longleftrightarrow> somes (view u) = []"
    using wfu by (simp add: tid_wf_def) (metis length_0_conv unat_eq_zero)
  define T where "T = (\<lambda>x. u\<lparr>rt_timer := x\<rparr>)"
  have "tid_wf (T x)" for x using wfu by (simp add: T_def tid_wf_def)
  then have pT: "popped n t q (T x) q'" for x
    using p by (simp add: popped_def T_def same_tid_def)
  have vT: "view (T x) = view u" "slot_of (T x) = slot_of u" "rt_time (T x) = rt_time u"
    "rt_timer (T x) = x" "rt_size (T x) = rt_size u" for x
    by (simp_all add: T_def)
  have lT: "lead (T x) d = lead u d" for x d by (simp add: lead_def vT)
  have main: "r92su_reorder_sta_release K now t q =
     (case r of
        Some j \<Rightarrow> do { tm \<leftarrow> time_at u j; Some (T (Some (tm + 1)), q') }
      | None \<Rightarrow>
          if rt_len u \<noteq> 0 then do {
            index \<leftarrow> tid_index K u (rt_head_seq u);
            j \<leftarrow> reorder_find index index u;
            tm \<leftarrow> time_at u j;
            Some (T (Some (tm + 1)), q') }
          else Some (T None, q'))"
    using F unfolding T_def by (simp add: r92su_reorder_sta_release_def idx buf first_def cong: option.case_cong)
  show ?thesis
  proof (cases r)
    case (Some j)
    then obtain d where d: "lead u d" "j = slot_of u d" using r by auto
    then show ?thesis using main Some pT v0 time_at_slot [OF wfu, of d]
      by (fastforce simp: timer_ok_def vT lT)
  next
    case None
    show ?thesis
    proof (cases "rt_len u = 0")
      case True
      then show ?thesis using main None pT v0 len by (fastforce simp: timer_ok_def vT)
    next
      case False
      then obtain d where d: "lead u d" using len lead_exists [of u] by auto
      have "reorder_find (slot_of u 0) (slot_of u 0) u = Some (slot_of u d)"
        by (rule find_lead [OF wfu d]) simp
      then show ?thesis
        using main None False pT v0 d tid_index_head [OF K wfu] time_at_slot [OF wfu, of d]
        by (fastforce simp: timer_ok_def vT lT)
    qed
  qed
qed

section \<open>In-order delivery\<close>

text \<open>
  \<open>in_order sn h n out\<close>: the frames of \<open>out\<close> are in strictly increasing order of their
  distance from \<open>h\<close>, and lie less than \<open>n\<close> ahead of it.
\<close>

definition in_order :: "('f \<Rightarrow> u16) \<Rightarrow> u16 \<Rightarrow> nat \<Rightarrow> 'f list \<Rightarrow> bool" where
  "in_order sn h n out \<longleftrightarrow> (\<exists>offs. sorted_wrt (<) offs \<and> (\<forall>d \<in> set offs. d < n) \<and>
     map sn out = map (\<lambda>d. (h + of_nat d) AND 0xFFF) offs)"

lemma in_order_Nil [simp, intro]: "in_order sn h n []"
  unfolding in_order_def by (rule exI [of _ "[]"]) simp

lemma in_order_append:
  assumes "in_order sn h n a" "in_order sn ((h + of_nat n) AND 0xFFF) m b"
  shows "in_order sn h (n + m) (a @ b)"
proof -
  obtain os where os: "sorted_wrt (<) os" "\<forall>d \<in> set os. d < n"
    "map sn a = map (\<lambda>d. (h + of_nat d) AND 0xFFF) os"
    using assms(1) unfolding in_order_def by blast
  obtain ps where ps: "sorted_wrt (<) ps" "\<forall>d \<in> set ps. d < m"
    "map sn b = map (\<lambda>d. (((h + of_nat n) AND 0xFFF) + of_nat d) AND 0xFFF) ps"
    using assms(2) unfolding in_order_def by blast
  let ?os = "os @ map ((+) n) ps"
  have "sorted_wrt (<) ?os" using os ps
    by (auto simp: sorted_wrt_append sorted_wrt_map intro: trans_less_add1)
  moreover have "\<forall>d \<in> set ?os. d < n + m" using os ps by auto
  moreover have "map sn (a @ b) = map (\<lambda>d. (h + of_nat d) AND 0xFFF) ?os"
    using os(3) ps(3) by (simp add: FFF_add)
  ultimately show ?thesis unfolding in_order_def by blast
qed

lemma in_order_mono: "in_order sn h n a \<Longrightarrow> n \<le> m \<Longrightarrow> in_order sn h m a"
  unfolding in_order_def by (meson less_le_trans)

lemma in_order_somes:
  assumes "\<And>d f. d < length xs \<Longrightarrow> xs ! d = Some f \<Longrightarrow> sn f = (h + of_nat d) AND 0xFFF"
  shows "in_order sn h (length xs) (somes xs)"
  using assms
proof (induction xs arbitrary: h rule: somes.induct)
  case (2 xs)
  have "in_order sn ((h + of_nat 1) AND 0xFFF) (length xs) (somes xs)"
    using 2(2) [of "Suc _"] by (intro 2(1)) (simp add: FFF_add)
  then show ?case using in_order_append [of sn h 1 "[]"] by simp
next
  case (3 x xs)
  have "in_order sn ((h + of_nat 1) AND 0xFFF) (length xs) (somes xs)"
    using 3(2) [of "Suc _"] by (intro 3(1)) (simp add: FFF_add)
  moreover have "in_order sn h 1 [x]"
    using 3(2) [of 0 x] unfolding in_order_def by (intro exI [of _ "[0]"]) simp
  ultimately show ?case using in_order_append [of sn h 1 "[x]"] by simp
qed simp

lemma popped_in_order:
  assumes "popped n t q t' q'" "numbered sn t"
  shows "\<exists>out. q' = q @ out \<and> in_order sn (rt_head_seq t) n out"
proof -
  let ?xs = "take n (view t)"
  have "in_order sn (rt_head_seq t) (length ?xs) (somes ?xs)"
    using assms(2) by (intro in_order_somes) (auto simp: numbered_def)
  then have "in_order sn (rt_head_seq t) n (somes ?xs)" by (rule in_order_mono) simp
  then show ?thesis using assms(1) by (auto simp: popped_def)
qed

text \<open>Everything the reorder code does to one tid: what it delivers and what it keeps.\<close>

definition reorders :: "('f \<Rightarrow> u16) \<Rightarrow> 'f list \<Rightarrow> 'f rx_tid \<Rightarrow> 'f list \<Rightarrow> 'f rx_tid \<Rightarrow> 'f list \<Rightarrow> bool" where
  "reorders sn new t q t' q' \<longleftrightarrow> tid_wf t' \<and> numbered sn t' \<and>
     (\<exists>n out. rt_head_seq t' = (rt_head_seq t + of_nat n) AND 0xFFF \<and> q' = q @ out \<and>
        in_order sn (rt_head_seq t) n out \<and>
        mset out + mset (somes (view t')) = mset (somes (view t)) + mset new)"

lemma reordersI:
  assumes "tid_wf t'" "numbered sn t'" "rt_head_seq t' = (rt_head_seq t + of_nat n) AND 0xFFF"
    "q' = q @ out" "in_order sn (rt_head_seq t) n out"
    "mset out + mset (somes (view t')) = mset (somes (view t)) + mset new"
  shows "reorders sn new t q t' q'"
  unfolding reorders_def
  by (intro conjI exI [of _ n] exI [of _ out]) (fact assms)+

lemma popped_reorders:
  assumes "popped n t q t' q'" "numbered sn t"
  shows "reorders sn [] t q t' q'"
proof -
  obtain out where out: "q' = q @ out" "in_order sn (rt_head_seq t) n out"
    using popped_in_order [OF assms] by blast
  have "out @ somes (view t') = somes (view t)" using popped_mset [OF assms(1)] out(1) by simp
  then have "mset out + mset (somes (view t')) = mset (somes (view t))"
    by (metis mset_append)
  moreover have "tid_wf t'" "rt_head_seq t' = (rt_head_seq t + of_nat n) AND 0xFFF"
    using assms(1) by (simp_all add: popped_def)
  ultimately show ?thesis
    using out popped_numbered [OF assms] by (intro reordersI) simp_all
qed

lemma reorders_trans:
  assumes "reorders sn a t q t' q'" "reorders sn b t' q' t'' q''"
  shows "reorders sn (a @ b) t q t'' q''"
proof -
  obtain n out where 1: "rt_head_seq t' = (rt_head_seq t + of_nat n) AND 0xFFF" "q' = q @ out"
    "in_order sn (rt_head_seq t) n out"
    "mset out + mset (somes (view t')) = mset (somes (view t)) + mset a"
    using assms(1) unfolding reorders_def by blast
  obtain m out' where 2: "rt_head_seq t'' = (rt_head_seq t' + of_nat m) AND 0xFFF" "q'' = q' @ out'"
    "in_order sn (rt_head_seq t') m out'"
    "mset out' + mset (somes (view t'')) = mset (somes (view t')) + mset b"
    using assms(2) unfolding reorders_def by blast
  have "in_order sn (rt_head_seq t) (n + m) (out @ out')"
    using in_order_append 1(1,3) 2(3) by metis
  moreover have "rt_head_seq t'' = (rt_head_seq t + of_nat (n + m)) AND 0xFFF"
    using 1(1) 2(1) by (simp add: FFF_add)
  moreover have "mset (out @ out') + mset (somes (view t'')) = mset (somes (view t)) + mset (a @ b)"
  proof -
    have "mset (out @ out') + mset (somes (view t'')) = mset out + (mset out' + mset (somes (view t'')))"
      by (simp add: ac_simps)
    also have "\<dots> = (mset out + mset (somes (view t'))) + mset b" unfolding 2(4) by (simp add: ac_simps)
    also have "\<dots> = mset (somes (view t)) + mset (a @ b)" unfolding 1(4) by (simp add: ac_simps)
    finally show ?thesis .
  qed
  moreover have "tid_wf t''" "numbered sn t''" using assms(2) by (auto simp: reorders_def)
  moreover have "q'' = q @ (out @ out')" using 1(2) 2(2) by simp
  ultimately show ?thesis
    by (intro reordersI [where n = "n + m" and out = "out @ out'"])
qed

section \<open>One frame\<close>

lemma tid_index_seq:
  assumes K: "sn_ok K" and wf: "tid_wf t" and s: "unat s < 4096"
  shows "tid_index K t s = Some (slot_of t (soff (rt_head_seq t) s))"
proof -
  have "soff (rt_ssn t) s = (soff (rt_ssn t) (rt_head_seq t) + soff (rt_head_seq t) s) mod 4096"
    using soff_add [of "rt_ssn t" "rt_head_seq t" "soff (rt_head_seq t) s"] add_soff [OF s, of "rt_head_seq t"] by simp
  moreover have "unat (rt_size t) dvd 4096" using wf by (simp add: tid_wf_def)
  ultimately show ?thesis by (simp add: tid_index_soff [OF K wf] slot_of_def mod_mod_cancel)
qed

lemma not_less_size:
  assumes K: "sn_ok K" and wf: "tid_wf t" and d: "soff (rt_head_seq t) s \<le> 2048"
  shows "\<not> ieee80211_sn_less K s (rt_head_seq t + rt_size t) \<longleftrightarrow> unat (rt_size t) \<le> soff (rt_head_seq t) s"
proof -
  let ?z = "unat (rt_size t)"
  have z: "?z \<le> 64" "1 < ?z" using wf by (auto simp: tid_wf_def)
  have "int (soff (rt_head_seq t + rt_size t) s) = (uint s - uint (rt_head_seq t + rt_size t)) mod 4096"
    by (rule soff_int)
  also have "\<dots> = (uint s - (uint (rt_head_seq t) + uint (rt_size t)) mod 65536) mod 4096"
    by (simp only: uint_word_ariths) simp
  also have "\<dots> = (uint s - uint (rt_head_seq t) - uint (rt_size t)) mod 4096"
  proof -
    have "(uint (rt_head_seq t) + uint (rt_size t)) mod 65536 mod 4096 = (uint (rt_head_seq t) + uint (rt_size t)) mod 4096"
      by (rule mod_mod_cancel) simp
    then show ?thesis by (metis diff_diff_eq mod_diff_right_eq)
  qed
  also have "\<dots> = (int (soff (rt_head_seq t) s) - int ?z) mod 4096"
    by (simp add: soff_int mod_simps)
  finally have "int (soff (rt_head_seq t + rt_size t) s) = (int (soff (rt_head_seq t) s) - int ?z) mod 4096" .
  moreover have "(int (soff (rt_head_seq t) s) - int ?z) mod 4096 =
    (if ?z \<le> soff (rt_head_seq t) s then int (soff (rt_head_seq t) s) - int ?z
     else int (soff (rt_head_seq t) s) - int ?z + 4096)"
  proof (cases "?z \<le> soff (rt_head_seq t) s")
    case True
    then have "(int (soff (rt_head_seq t) s) - int ?z) mod 4096 = int (soff (rt_head_seq t) s) - int ?z"
      using d by (intro mod_pos_pos_trivial) linarith+
    then show ?thesis using True by (simp only: if_True)
  next
    case False
    have "(int (soff (rt_head_seq t) s) - int ?z) mod 4096 =
          (int (soff (rt_head_seq t) s) - int ?z + 4096) mod 4096" by (rule mod_add_self2 [symmetric])
    also have "\<dots> = int (soff (rt_head_seq t) s) - int ?z + 4096"
      using False z by (intro mod_pos_pos_trivial) linarith+
    finally show ?thesis using False by simp
  qed
  ultimately have eq: "int (soff (rt_head_seq t + rt_size t) s) =
    (if ?z \<le> soff (rt_head_seq t) s then int (soff (rt_head_seq t) s) - int ?z
     else int (soff (rt_head_seq t) s) - int ?z + 4096)" by (rule trans)
  have "\<not> 2048 < soff (rt_head_seq t + rt_size t) s \<longleftrightarrow> ?z \<le> soff (rt_head_seq t) s"
  proof (cases "?z \<le> soff (rt_head_seq t) s")
    case True
    then have "\<not> 2048 < soff (rt_head_seq t + rt_size t) s" using eq d by (simp only: if_True)
    with True show ?thesis by blast
  next
    case False
    then have "2048 < soff (rt_head_seq t + rt_size t) s" using eq z by (simp only: if_False)
    with False show ?thesis by blast
  qed
  then show ?thesis by (simp only: sn_less_soff [OF K])
qed

text \<open>The window advance of a frame ahead of the window leaves the slot of the frame empty.\<close>

lemma advance:
  assumes K: "sn_ok K" and wf: "tid_wf t" and s: "unat s < 4096"
    and d: "unat (rt_size t) \<le> soff (rt_head_seq t) s" "soff (rt_head_seq t) s \<le> 2048"
  defines "n \<equiv> Suc (soff (rt_head_seq t) s) - unat (rt_size t)"
  shows "\<exists>t' q'. r92su_reorder_release_frames K
            (ieee80211_sn_inc K (ieee80211_sn_sub K s (rt_size t))) t q = Some (t', q') \<and>
          popped n t q t' q' \<and> soff (rt_head_seq t') s = unat (rt_size t) - 1 \<and>
          view t' ! (unat (rt_size t) - 1) = None"
proof -
  let ?z = "unat (rt_size t)" and ?h = "rt_head_seq t" and ?d = "soff (rt_head_seq t) s"
  have z: "?z \<le> 64" "1 < ?z" using wf by (auto simp: tid_wf_def)
  let ?new = "((s - rt_size t) AND 0xFFF + 1) AND 0xFFF"
  have new: "ieee80211_sn_inc K (ieee80211_sn_sub K s (rt_size t)) = ((s - rt_size t) AND 0xFFF) + 1 AND 0xFFF"
    using K by (simp add: sn_ok_def)
  have "int (soff ?h (((s - rt_size t) AND 0xFFF) + 1 AND 0xFFF)) =
        (uint (((s - rt_size t) AND 0xFFF) + of_nat 1 AND 0xFFF :: u16) - uint ?h) mod 4096"
    by (simp only: soff_int of_nat_1)
  also have "\<dots> = (uint (s - rt_size t) - uint ?h + 1) mod 4096"
    by (subst uint_add_FFF, subst uint_FFF) (simp add: mod_simps algebra_simps)
  also have "\<dots> = ((uint s - uint (rt_size t)) mod 65536 mod 4096 - uint ?h + 1) mod 4096"
  proof -
    have "(x mod 4096 - h + 1) mod 4096 = (x - h + 1) mod (4096 :: int)" for x h
      by (metis mod_add_left_eq mod_diff_left_eq)
    then show ?thesis by (simp only: uint_word_ariths) simp
  qed
  also have "\<dots> = ((uint s - uint (rt_size t)) mod 4096 - uint ?h + 1) mod 4096"
    by (simp add: mod_mod_cancel)
  also have "\<dots> = (int ?d - int ?z + 1) mod 4096"
  proof -
    have "((a - z) mod 4096 - h + 1) mod 4096 = ((a - h) mod 4096 - z + 1) mod (4096 :: int)" for a z h
    proof -
      have "((a - z) mod 4096 - h + 1) mod 4096 = (a - z - h + 1) mod 4096"
        by (metis mod_add_left_eq mod_diff_left_eq)
      also have "a - z - h = a - h - z" by simp
      also have "(a - h - z + 1) mod 4096 = ((a - h) mod 4096 - z + 1) mod 4096"
        by (metis mod_add_left_eq mod_diff_left_eq)
      finally show ?thesis .
    qed
    then show ?thesis by (simp only: soff_int uint_nat [symmetric])
  qed
  also have "\<dots> = int n"
  proof -
    have "int ?d - int ?z + 1 = int n" using d(1) by (simp add: n_def)
    moreover have "n < 4096" using d z by (simp add: n_def)
    ultimately show ?thesis by simp
  qed
  finally have off: "soff ?h (((s - rt_size t) AND 0xFFF) + 1 AND 0xFFF) = n" by (simp only: of_nat_eq_iff)
  have n: "n < 2048" "0 < n" "n + ?z = Suc ?d" using d z by (auto simp: n_def)
  obtain t' q' where r: "r92su_reorder_release_frames K
      (ieee80211_sn_inc K (ieee80211_sn_sub K s (rt_size t))) t q = Some (t', q')"
    and p: "popped n t q t' q'"
    using release_frames_pops [OF K wf, of n "((s - rt_size t) AND 0xFFF) + 1 AND 0xFFF" q] off n(1) new
    by (auto simp: release_count_def)
  have "soff (rt_head_seq t') s = soff ((?h + of_nat n) AND 0xFFF) s" using p by (simp add: popped_def)
  moreover have "int (soff ((?h + of_nat n) AND 0xFFF) s) = int (?z - 1)"
  proof -
    have "int (soff ((?h + of_nat n) AND 0xFFF) s) = (int ?d - int n) mod 4096"
      by (simp only: soff_int uint_add_FFF) (simp add: mod_simps algebra_simps)
    also have "\<dots> = int ?d - int n" using d(2) n z by (intro mod_pos_pos_trivial) linarith+
    also have "\<dots> = int (?z - 1)" using n(3) z by linarith
    finally show ?thesis .
  qed
  moreover have "view t' ! (?z - 1) = None"
  proof -
    have "view t' = drop n (view t @ replicate n None)" using p by (simp only: popped_def)
    moreover have "drop n (view t @ replicate n None) ! (?z - 1) = (view t @ replicate n None) ! (n + (?z - 1))"
      by (intro nth_drop) simp
    ultimately show ?thesis using n z by (simp add: nth_append)
  qed
  ultimately show ?thesis using r p by auto
qed

text \<open>Storing a frame in its slot.\<close>

lemma length_somes_le: "length (somes xs) \<le> length xs"
  by (induction xs rule: somes.induct) auto

lemma mset_somes_update: "d < length xs \<Longrightarrow> xs ! d = None \<Longrightarrow>
   mset (somes (xs[d := Some x])) = add_mset x (mset (somes xs))"
  by (induction xs arbitrary: d rule: somes.induct) (auto simp: nth_Cons split: nat.splits)

lemma store_reorders:
  fixes tm :: u64
  assumes wf: "tid_wf t" and nm: "numbered sn t" and d: "d < unat (rt_size t)"
    and free: "view t ! d = None" and f: "sn f = (rt_head_seq t + of_nat d) AND 0xFFF"
  defines "u \<equiv> t\<lparr>rt_buf := (rt_buf t)[slot_of t d := Some f],
                 rt_time := (rt_time t)[slot_of t d := tm], rt_len := rt_len t + 1\<rparr>"
  shows "reorders sn [f] t q u q"
proof -
  have v: "view u = (view t)[d := Some f]"
    using view_set_slot [OF wf d, of "Some f"] unfolding u_def by (simp add: view_def)
  have len: "length (somes (view u)) = Suc (length (somes (view t)))"
    unfolding v using d free by (intro somes_update_None) simp_all
  have "length (somes (view t)) \<le> 64"
    using length_somes_le [of "view t"] wf by (simp add: tid_wf_def)
  then have "unat (rt_len t + 1) = Suc (unat (rt_len t))"
    using wf unat_add_lem [of "rt_len t" 1] by (simp add: tid_wf_def)
  then have "tid_wf u" using wf len by (simp add: tid_wf_def u_def)
  moreover have "numbered sn u"
    using nm d f free unfolding numbered_def v by (auto simp: u_def nth_list_update)
  moreover have "rt_head_seq u = rt_head_seq t AND 0xFFF"
    using wf by (simp add: u_def FFF_id tid_wf_def)
  moreover have "mset (somes (view u)) = mset (somes (view t)) + mset [f]"
    unfolding v using d free by (subst mset_somes_update) simp_all
  ultimately show ?thesis by (intro reordersI [where n = 0 and out = "[]"]) auto
qed


text \<open>A frame is refused when it is behind the head, or when its slot is taken.\<close>

definition refused :: "'f rx_tid \<Rightarrow> u16 \<Rightarrow> bool" where
  "refused t s \<longleftrightarrow> 2048 < soff (rt_head_seq t) s \<or>
     (soff (rt_head_seq t) s < unat (rt_size t) \<and> view t ! soff (rt_head_seq t) s \<noteq> None)"

definition accept :: "kapi \<Rightarrow> u64 \<Rightarrow> u16 \<Rightarrow> 'f \<Rightarrow> 'f rx_tid \<Rightarrow> 'f list \<Rightarrow>
     (rx_control \<times> 'f rx_tid \<times> 'f list) option" where
  "accept K now s skb t q = do {
        index \<leftarrow> tid_index K t s;
        slot \<leftarrow> buf_at t index;
        if slot \<noteq> None then Some (RX_DROP, t, q)
        else if s = rt_head_seq t \<and> rt_len t = 0
        then Some (RX_CONTINUE, t\<lparr>rt_head_seq := ieee80211_sn_inc K s\<rparr>, q @ [skb])
        else do {
          (t, q) \<leftarrow> r92su_reorder_sta_release K now
             (t\<lparr>rt_buf := (rt_buf t)[index := Some skb],
                rt_time := (rt_time t)[index := now + HT_RX_REORDER_BUF_TIMEOUT K],
                rt_len := rt_len t + 1\<rparr>) q;
          Some (RX_CONTINUE, t, q) } }"

lemma accept_free:
  assumes K: "sn_ok K" and wf: "tid_wf t" and nm: "numbered sn t" and s: "unat (sn f) < 4096"
    and d: "soff (rt_head_seq t) (sn f) < unat (rt_size t)"
    and free: "view t ! soff (rt_head_seq t) (sn f) = None"
  shows "\<exists>t' q'. accept K now (sn f) f t q = Some (RX_CONTINUE, t', q') \<and> reorders sn [f] t q t' q' \<and>
     (timer_ok t' \<and> view t' ! 0 = None \<or>
      sn f = rt_head_seq t \<and> somes (view t) = [] \<and> somes (view t') = [] \<and> rt_timer t' = rt_timer t)"
proof -
  let ?d = "soff (rt_head_seq t) (sn f)"
  have idx: "tid_index K t (sn f) = Some (slot_of t ?d)" by (rule tid_index_seq [OF K wf s])
  have slot: "buf_at t (slot_of t ?d) = Some None" using buf_at_slot [OF wf, of ?d] free d by simp
  have pos: "0 < unat (rt_size t)" using wf by (simp add: tid_wf_def)
  have fd: "sn f = (rt_head_seq t + of_nat ?d) AND 0xFFF" using add_soff [OF s] by simp
  show ?thesis
  proof (cases "sn f = rt_head_seq t \<and> rt_len t = 0")
    case True
    then have empty: "somes (view t) = []" using wf by (simp add: tid_wf_def)
    have "popped 1 t q (t\<lparr>rt_head_seq := (rt_head_seq t + of_nat 1) AND 0xFFF\<rparr>) q" (is "popped 1 t q ?t q")
      using free True pos by (intro popped_skip [OF wf]) auto
    then have wf': "tid_wf ?t" and nm': "numbered sn ?t" and e': "somes (view ?t) = []"
      using popped_wf popped_numbered [OF _ nm] popped_mset [of 1 t q ?t q] empty by (blast, blast, simp)
    have "in_order sn (rt_head_seq t) 1 [f]"
      using fd True unfolding in_order_def by (intro exI [of _ "[0]"]) simp
    then have "reorders sn [f] t q ?t (q @ [f])"
      using wf' nm' e' empty by (intro reordersI [where n = 1 and out = "[f]"]) auto
    then show ?thesis using True idx slot K e' empty by (auto simp: accept_def sn_ok_def)
  next
    case False
    let ?u = "t\<lparr>rt_buf := (rt_buf t)[slot_of t ?d := Some f],
                rt_time := (rt_time t)[slot_of t ?d := now + HT_RX_REORDER_BUF_TIMEOUT K],
                rt_len := rt_len t + 1\<rparr>"
    have u: "reorders sn [f] t q ?u q" by (rule store_reorders [OF wf nm d free fd])
    then have "tid_wf ?u" "numbered sn ?u" by (auto simp: reorders_def)
    then obtain n t' q' where r: "r92su_reorder_sta_release K now ?u q = Some (t', q')"
      "popped n ?u q t' q'" "view t' ! 0 = None" "timer_ok t'"
      using sta_release_pops [OF K] by blast
    have "reorders sn [f] t q t' q'"
      using reorders_trans [OF u popped_reorders [OF r(2) \<open>numbered sn ?u\<close>]] by simp
    then show ?thesis using False idx slot r by (auto simp: accept_def)
  qed
qed

lemma ampdu_split:
  assumes K: "sn_ok K" and wf: "tid_wf t" and s: "unat s < 4096"
  shows "reorder_ampdu_locked K now t s f q =
    (if 2048 < soff (rt_head_seq t) s then Some (RX_DROP, t, q)
     else if unat (rt_size t) \<le> soff (rt_head_seq t) s then do {
       (t, q) \<leftarrow> r92su_reorder_release_frames K
                  (ieee80211_sn_inc K (ieee80211_sn_sub K s (rt_size t))) t q;
       accept K now s f t q }
     else accept K now s f t q)"
  using not_less_size [OF K wf, of s]
  unfolding accept_def
  by (simp add: reorder_ampdu_locked_def sn_less_soff [OF K, of s "rt_head_seq t"] Let_def)

lemma accept_taken:
  assumes K: "sn_ok K" and wf: "tid_wf t" and s: "unat s < 4096"
    and d: "soff (rt_head_seq t) s < unat (rt_size t)"
    and taken: "view t ! soff (rt_head_seq t) s \<noteq> None"
  shows "accept K now s f t q = Some (RX_DROP, t, q)"
  using taken d by (simp add: accept_def tid_index_seq [OF K wf s] buf_at_slot [OF wf])

lemma ampdu_refused:
  assumes K: "sn_ok K" and wf: "tid_wf t" and s: "unat s < 4096" and r: "refused t s"
  shows "reorder_ampdu_locked K now t s f q = Some (RX_DROP, t, q)"
  using r unfolding refused_def ampdu_split [OF K wf s]
  by (auto intro: accept_taken [OF K wf s])

lemma ampdu_accepted:
  assumes K: "sn_ok K" and wf: "tid_wf t" and nm: "numbered sn t" and s: "unat (sn f) < 4096"
    and r: "\<not> refused t (sn f)" and T: "timer_ok t"
  shows "\<exists>t' q'. reorder_ampdu_locked K now t (sn f) f q = Some (RX_CONTINUE, t', q') \<and>
     reorders sn [f] t q t' q' \<and> timer_ok t' \<and> view t' ! 0 = None"
proof (cases "unat (rt_size t) \<le> soff (rt_head_seq t) (sn f)")
  case True
  have d: "soff (rt_head_seq t) (sn f) \<le> 2048" using r by (auto simp: refused_def)
  obtain t1 q1 where rel: "r92su_reorder_release_frames K
            (ieee80211_sn_inc K (ieee80211_sn_sub K (sn f) (rt_size t))) t q = Some (t1, q1)"
    and p: "popped (Suc (soff (rt_head_seq t) (sn f)) - unat (rt_size t)) t q t1 q1"
    and d1: "soff (rt_head_seq t1) (sn f) = unat (rt_size t) - 1"
    and v1: "view t1 ! (unat (rt_size t) - 1) = None"
    using advance [OF K wf s True d] by blast
  have z: "1 < unat (rt_size t)" "rt_size t1 = rt_size t"
    using wf popped_size [OF p] by (auto simp: tid_wf_def)
  have nm1: "numbered sn t1" by (rule popped_numbered [OF p nm])
  obtain t' q' where acc: "accept K now (sn f) f t1 q1 = Some (RX_CONTINUE, t', q')"
    and re: "reorders sn [f] t1 q1 t' q'"
    and tm: "timer_ok t' \<and> view t' ! 0 = None \<or>
      sn f = rt_head_seq t1 \<and> somes (view t1) = [] \<and> somes (view t') = [] \<and> rt_timer t' = rt_timer t1"
    using accept_free [OF K popped_wf [OF p] nm1 s, of now q1] d1 v1 z by auto
  have "sn f \<noteq> rt_head_seq t1" using d1 z by (metis soff_self diff_is_0_eq not_le)
  then show ?thesis
    using rel acc tm r d True reorders_trans [OF popped_reorders [OF p nm] re]
    unfolding ampdu_split [OF K wf s] by auto
next
  case False
  then have free: "view t ! soff (rt_head_seq t) (sn f) = None"
    and d: "soff (rt_head_seq t) (sn f) < unat (rt_size t)" "soff (rt_head_seq t) (sn f) \<le> 2048"
    using r by (auto simp: refused_def)
  obtain t' q' where acc: "accept K now (sn f) f t q = Some (RX_CONTINUE, t', q')"
    and re: "reorders sn [f] t q t' q'"
    and tm: "timer_ok t' \<and> view t' ! 0 = None \<or>
      sn f = rt_head_seq t \<and> somes (view t) = [] \<and> somes (view t') = [] \<and> rt_timer t' = rt_timer t"
    using accept_free [OF K wf nm s d(1) free] by blast
  have "tid_wf t'" using re by (simp add: reorders_def)
  then have "timer_ok t' \<and> view t' ! 0 = None"
    using tm T lead_somes [of t] somes_Nil_head [of t'] by (auto simp: timer_ok_def split: option.splits)
  then show ?thesis using acc re False d(2) unfolding ampdu_split [OF K wf s] by auto
qed

section \<open>Runs of arrivals and timeouts\<close>

fun run_events :: "('e \<Rightarrow> 's \<Rightarrow> ('s \<times> 'f list) option) \<Rightarrow> 'e list \<Rightarrow> 's \<Rightarrow> ('s \<times> 'f list) option" where
  "run_events step [] s = Some (s, [])"
| "run_events step (e # es) s = do {
     (s', out) \<leftarrow> step e s;
     (s'', out') \<leftarrow> run_events step es s';
     Some (s'', out @ out') }"

text \<open>
  The contract of a component that delivers numbered frames in order: each step returns,
  keeps the invariant, moves the head forward by the window it delivers from, and neither
  loses nor invents a frame. \<open>given e s\<close> are the frames that the component takes from \<open>e\<close>.
\<close>

fun givens :: "('e \<Rightarrow> 's \<Rightarrow> ('s \<times> 'f list) option) \<Rightarrow> ('e \<Rightarrow> 's \<Rightarrow> 'f list) \<Rightarrow> 'e list \<Rightarrow> 's \<Rightarrow> 'f list" where
  "givens step given [] s = []"
| "givens step given (e # es) s = given e s @
     (case step e s of None \<Rightarrow> [] | Some (s', out) \<Rightarrow> givens step given es s')"

locale ordered_release =
  fixes step :: "'e \<Rightarrow> 's \<Rightarrow> ('s \<times> 'f list) option"
    and inv :: "'s \<Rightarrow> bool"
    and ok :: "'e \<Rightarrow> bool"
    and head :: "'s \<Rightarrow> u16"
    and stored :: "'s \<Rightarrow> 'f list"
    and given :: "'e \<Rightarrow> 's \<Rightarrow> 'f list"
    and sn :: "'f \<Rightarrow> u16"
  assumes step: "inv s \<Longrightarrow> ok e \<Longrightarrow> \<exists>s' out n. step e s = Some (s', out) \<and> inv s' \<and>
      head s' = (head s + of_nat n) AND 0xFFF \<and> in_order sn (head s) n out \<and>
      mset out + mset (stored s') = mset (stored s) + mset (given e s)"
    and head_lt: "inv s \<Longrightarrow> unat (head s) < 4096"
begin

lemma run:
  "inv s \<Longrightarrow> \<forall>e \<in> set es. ok e \<Longrightarrow> \<exists>s' out n. run_events step es s = Some (s', out) \<and> inv s' \<and>
     head s' = (head s + of_nat n) AND 0xFFF \<and> in_order sn (head s) n out \<and>
     mset out + mset (stored s') = mset (stored s) + mset (givens step given es s)"
proof (induction es arbitrary: s)
  case Nil
  then show ?case using head_lt [of s] by (auto simp: FFF_id intro!: exI [of _ "0::nat"])
next
  case (Cons e es)
  obtain s1 out1 n1 where 1: "step e s = Some (s1, out1)" "inv s1"
    "head s1 = (head s + of_nat n1) AND 0xFFF" "in_order sn (head s) n1 out1"
    "mset out1 + mset (stored s1) = mset (stored s) + mset (given e s)"
    using step [of s e] Cons.prems by auto
  obtain s2 out2 n2 where 2: "run_events step es s1 = Some (s2, out2)" "inv s2"
    "head s2 = (head s1 + of_nat n2) AND 0xFFF" "in_order sn (head s1) n2 out2"
    "mset out2 + mset (stored s2) = mset (stored s1) + mset (givens step given es s1)"
    using Cons.IH [OF 1(2)] Cons.prems by auto
  have "mset (out1 @ out2) + mset (stored s2) = mset out1 + (mset out2 + mset (stored s2))"
    by (simp add: ac_simps)
  also have "\<dots> = (mset out1 + mset (stored s1)) + mset (givens step given es s1)"
    unfolding 2(5) by (simp add: ac_simps)
  also have "\<dots> = mset (stored s) + mset (givens step given (e # es) s)"
    unfolding 1(5) by (simp add: 1(1))
  finally have "mset (out1 @ out2) + mset (stored s2) = \<dots>" .
  moreover have "in_order sn (head s) (n1 + n2) (out1 @ out2)"
    using in_order_append [OF 1(4)] 2(4) 1(3) by simp
  moreover have "head s2 = (head s + of_nat (n1 + n2)) AND 0xFFF"
    using 1(3) 2(3) by (simp add: FFF_add)
  ultimately show ?case using 1(1) 2(1,2)
    by (intro exI [of _ s2] exI [of _ "out1 @ out2"] exI [of _ "n1 + n2"] conjI) simp_all
qed

end

datatype 'f reorder_event = Arrive u64 'f | Timeout u64

fun reorder_step :: "kapi \<Rightarrow> ('f \<Rightarrow> u16) \<Rightarrow> 'f reorder_event \<Rightarrow> 'f rx_tid \<Rightarrow>
    ('f rx_tid \<times> 'f list) option" where
  "reorder_step K sn (Arrive now f) t = do {
     (r, t', q) \<leftarrow> reorder_ampdu_locked K now t (sn f) f [];
     Some (t', q) }"
| "reorder_step K sn (Timeout now) t = r92su_reorder_sta_release K now t []"

fun reorder_ok :: "('f \<Rightarrow> u16) \<Rightarrow> 'f reorder_event \<Rightarrow> bool" where
  "reorder_ok sn (Arrive now f) \<longleftrightarrow> unat (sn f) < 4096"
| "reorder_ok sn (Timeout now) \<longleftrightarrow> True"

fun reorder_given :: "('f \<Rightarrow> u16) \<Rightarrow> 'f reorder_event \<Rightarrow> 'f rx_tid \<Rightarrow> 'f list" where
  "reorder_given sn (Arrive now f) t = (if refused t (sn f) then [] else [f])"
| "reorder_given sn (Timeout now) t = []"

definition reorder_inv :: "kapi \<Rightarrow> ('f \<Rightarrow> u16) \<Rightarrow> 'f rx_tid \<Rightarrow> bool" where
  "reorder_inv K sn t \<longleftrightarrow> sn_ok K \<and> tid_wf t \<and> numbered sn t \<and> timer_ok t \<and> view t ! 0 = None"

definition stored_frames :: "'f rx_tid \<Rightarrow> 'f list" where
  "stored_frames t = somes (view t)"

lemma reorder_step_reorders:
  assumes "reorder_inv K sn t" "reorder_ok sn e"
  shows "\<exists>t' q. reorder_step K sn e t = Some (t', q) \<and> timer_ok t' \<and> view t' ! 0 = None \<and>
           reorders sn (reorder_given sn e t) t [] t' q"
proof (cases e)
  case (Arrive now f)
  then have s: "unat (sn f) < 4096" using assms by simp
  have inv: "sn_ok K" "tid_wf t" "numbered sn t" "timer_ok t" "view t ! 0 = None"
    using assms by (auto simp: reorder_inv_def)
  show ?thesis
  proof (cases "refused t (sn f)")
    case True
    then show ?thesis
      using Arrive ampdu_refused [OF inv(1,2) s True] popped_reorders [OF popped_0 inv(3)] inv by simp
  next
    case False
    then show ?thesis using Arrive ampdu_accepted [OF inv(1-3) s False inv(4), of now "[]"] by auto
  qed
next
  case (Timeout now)
  have inv: "sn_ok K" "tid_wf t" "numbered sn t" using assms by (auto simp: reorder_inv_def)
  obtain n t' q where "r92su_reorder_sta_release K now t [] = Some (t', q)"
    "popped n t [] t' q" "timer_ok t'" "view t' ! 0 = None"
    using sta_release_pops [OF inv(1,2)] by blast
  then show ?thesis using Timeout popped_reorders [OF _ inv(3)] by auto
qed

interpretation ro: ordered_release "reorder_step K sn" "reorder_inv K sn" "reorder_ok sn"
  rt_head_seq stored_frames "reorder_given sn" sn
  for K :: kapi and sn :: "'f \<Rightarrow> u16"
proof
  fix t :: "'f rx_tid" and e
  assume inv: "reorder_inv K sn t" and "reorder_ok sn e"
  then obtain t' q where s: "reorder_step K sn e t = Some (t', q)" "timer_ok t'" "view t' ! 0 = None"
    and r: "reorders sn (reorder_given sn e t) t [] t' q"
    using reorder_step_reorders by blast
  from r have "reorder_inv K sn t'" using inv s(2,3) by (auto simp: reorder_inv_def reorders_def)
  with r s show "\<exists>s' out n. reorder_step K sn e t = Some (s', out) \<and> reorder_inv K sn s' \<and>
      rt_head_seq s' = (rt_head_seq t + of_nat n) AND 0xFFF \<and> in_order sn (rt_head_seq t) n out \<and>
      mset out + mset (stored_frames s') = mset (stored_frames t) + mset (reorder_given sn e t)"
    by (auto simp: reorders_def stored_frames_def)
qed (simp add: reorder_inv_def tid_wf_def)


text \<open>A timeout whose time has come delivers the frame that the timer waited for.\<close>

lemma scan_skip:
  assumes wf: "tid_wf t" and l: "lead t d"
  shows "0 < e \<Longrightarrow> e \<le> d \<Longrightarrow> reorder_scan K now (slot_of t 0) (slot_of t e) e t q =
     reorder_scan K now (slot_of t 0) (slot_of t d) d t q"
proof (induction "d - e" arbitrary: e)
  case (Suc n)
  have e: "e < d" "d < unat (rt_size t)" using Suc l by (auto simp: lead_def)
  then have none: "rt_buf t ! slot_of t e = None" using l by (auto simp: lead_def)
  have "slot_of t e \<noteq> slot_of t 0" using slot_of_inj [of e t 0] e Suc.prems by simp
  moreover have "reorder_scan K now (slot_of t 0) (slot_of t (Suc e)) (Suc e) t q =
      reorder_scan K now (slot_of t 0) (slot_of t d) d t q"
    using Suc e by (intro Suc.hyps(1)) auto
  ultimately show ?case using none buf_at_slot [OF wf, of e]
    by (subst reorder_scan.simps) (simp add: slot_of_Suc)
qed simp

lemma timeout_releases:
  assumes K: "sn_ok K" and wf: "tid_wf t" and v0: "view t ! 0 = None" and l: "lead t d"
    and due: "\<not> time_is_after_jiffies K (rt_time t ! slot_of t d) now"
    and out: "r92su_reorder_sta_release K now t q = Some (t', q')"
  shows "\<exists>f out. view t ! d = Some f \<and> q' = q @ f # out"
proof -
  have d: "d < unat (rt_size t)" "0 < d" using l v0 by (auto simp: lead_def intro!: gr0I)
  obtain f where f: "view t ! d = Some f" using l by (auto simp: lead_def)
  have len: "rt_len t \<noteq> 0" using lead_somes [OF l] wf by (auto simp: tid_wf_def)
  define u where "u = t\<lparr>rt_head_seq := (rt_head_seq t + of_nat d) AND 0xFFF\<rparr>"
  have pu: "popped d t q u q"
    unfolding u_def using l d by (intro popped_skip wf) (auto simp: lead_def)
  have su: "slot_of u 0 = slot_of t d" using slot_of_popped [OF pu wf, of 0] by simp
  obtain t1 q1 where rel: "r92su_reorder_release_frame K u (slot_of u 0) q = Some (t1, q1)"
    and p1: "popped 1 u q t1 q1"
    using release_frame_head [OF K popped_wf [OF pu]] by blast
  have "view u = drop d (view t @ replicate d None)" using pu by (simp only: popped_def)
  then have "take 1 (view u) = [Some f]" using f d by (simp add: take_Suc_conv_app_nth nth_append)
  then have q1: "q1 = q @ [f]" using p1 by (simp add: popped_def)
  have p: "popped (d + 1) t q t1 q1" by (rule popped_trans [OF pu p1])
  have sz: "rt_size t1 = rt_size t" using popped_size [OF p] .
  have s1: "slot_of t1 e = slot_of t (d + 1 + e)" for e using slot_of_popped [OF p wf] by simp
  have ne: "slot_of t d \<noteq> slot_of t 0" using slot_of_inj [of d t 0] d by simp
  have "reorder_scan K now (slot_of t 0) (slot_of t 1) 1 t q =
        reorder_scan K now (slot_of t 0) (slot_of t1 0) 0 t1 q1"
    using scan_skip [OF wf l, of 1] d ne f due rel K buf_at_slot [OF wf, of d] time_at_slot [OF wf, of d]
    by (subst (asm) (2) reorder_scan.simps)
       (auto simp: u_def [symmetric] su s1 slot_of_Suc sn_ok_def)
  moreover have "\<exists>n t'' q'' r. reorder_scan K now (slot_of t 0) (slot_of t1 0) 0 t1 q1 = Some (t'', q'', r) \<and>
       popped n t1 q1 t'' q'' \<and> (case r of None \<Rightarrow> somes (view t'') = []
        | Some j \<Rightarrow> \<exists>d. 0 < d \<and> lead t'' d \<and> j = slot_of t'' d)"
  proof (rule scan_pops [OF K popped_wf [OF p], of 0 "d + 1"])
    have "view t1 = drop (d + 1) (view t @ replicate (d + 1) None)" using p by (simp only: popped_def)
    then have "view t1 ! e = (view t @ replicate (d + 1) None) ! (d + 1 + e)" for e
      using d by (simp only:) (intro nth_drop, simp)
    then show "\<forall>e. unat (rt_size t1) - (d + 1 - 0) \<le> e \<and> e < unat (rt_size t1) \<longrightarrow> view t1 ! e = None"
      using sz d by (auto simp: nth_append simp del: replicate_Suc)
    show "slot_of t 0 = slot_of t1 (unat (rt_size t1) - (d + 1 - 0))"
      using sz d by (simp add: s1 slot_of_size)
  qed (use sz d in auto)
  ultimately obtain n t2 q2 r where R: "reorder_scan K now (slot_of t 0) (slot_of t 1) 1 t q = Some (t2, q2, r)"
    and p2: "popped n t1 q1 t2 q2" by auto
  have "q' = q2" using out R len v0 d tid_index_head [OF K wf] buf_at_slot [OF wf, of 0]
    by (auto simp: r92su_reorder_sta_release_def slot_of_Suc split: option.splits if_splits bind_splits)
  then show ?thesis using p2 q1 f by (auto simp: popped_def)
qed

section \<open>Properties\<close>

lemma rx_tid_new_sel [simp]:
  "rt_size (rx_tid_new i ssn sta) = 32" "rt_head_seq (rx_tid_new i ssn sta) = drop_bit 4 ssn"
  "rt_ssn (rx_tid_new i ssn sta) = drop_bit 4 ssn" "rt_len (rx_tid_new i ssn sta) = 0"
  "rt_buf (rx_tid_new i ssn sta) = replicate 64 None"
  "rt_time (rx_tid_new i ssn sta) = replicate 64 0" "rt_timer (rx_tid_new i ssn sta) = None"
  by (simp_all add: rx_tid_new_def)

lemma unat_drop_bit_4: "unat (drop_bit 4 (w :: u16)) < 4096"
proof -
  have "unat w < 2 ^ LENGTH(16)" by (rule unsigned_less)
  moreover from this have "unat (drop_bit 4 w) = unat w div 16"
    by (simp only: unsigned_drop_bit_eq) (simp add: drop_bit_eq_div take_bit_eq_mod)
  ultimately show ?thesis by simp
qed

lemma slot_of_new: "slot_of (rx_tid_new i ssn sta) d = d mod 32"
  by (simp add: slot_of_def)

lemma view_new: "view (rx_tid_new i ssn sta) = replicate 32 None"
proof (rule nth_equalityI)
  fix d assume "d < length (view (rx_tid_new i ssn sta))"
  then have "d < 32" by simp
  then show "view (rx_tid_new i ssn sta) ! d = replicate 32 None ! d"
    by (simp add: slot_of_new)
qed simp

lemma tid_wf_new: "tid_wf (rx_tid_new i ssn sta)"
  by (simp add: tid_wf_def view_new unat_drop_bit_4)

lemma reorder_inv_new: "sn_ok K \<Longrightarrow> reorder_inv K sn (rx_tid_new i ssn sta)"
  by (simp add: reorder_inv_def tid_wf_new numbered_def timer_ok_def view_new del: view_nth)

text \<open>C4. For every sequence of arriving frames and timeouts, the reorder code of a block-ack
  session returns, and the frames it delivers are in strictly increasing sequence-number order
  modulo the 12-bit wrap-around, none of them at or beyond the new head of the window.\<close>

theorem reorder_in_order:
  assumes "reorder_inv K sn t" "\<forall>e \<in> set es. reorder_ok sn e"
  shows "\<exists>t' out n. run_events (reorder_step K sn) es t = Some (t', out) \<and> reorder_inv K sn t' \<and>
     rt_head_seq t' = (rt_head_seq t + of_nat n) AND 0xFFF \<and> in_order sn (rt_head_seq t) n out"
  using ro.run [OF assms] by blast

theorem reorder_in_order_witness:
  "\<exists>t' out n. run_events (reorder_step linux_kapi id)
       [Arrive 5 0x12, Arrive 6 0x11, Timeout 40, Arrive 41 0x10] (rx_tid_new 3 0x100 0) = Some (t', out) \<and>
     reorder_inv linux_kapi id t' \<and> rt_head_seq t' = (0x10 + of_nat n) AND 0xFFF \<and> in_order id 0x10 n out"
  using reorder_in_order [of linux_kapi id "rx_tid_new 3 0x100 0"
      "[Arrive 5 0x12, Arrive 6 0x11, Timeout 40, Arrive 41 0x10]"]
  by (simp add: reorder_inv_new sn_ok_linux)

text \<open>C22. The reorder buffer neither loses nor duplicates a frame: what it has delivered
  together with what it still holds is exactly what it held before together with the frames
  that it did not refuse.\<close>

theorem reorder_conserves:
  assumes "reorder_inv K sn t" "\<forall>e \<in> set es. reorder_ok sn e"
    and "run_events (reorder_step K sn) es t = Some (t', out)"
  shows "mset out + mset (stored_frames t') =
     mset (stored_frames t) + mset (givens (reorder_step K sn) (reorder_given sn) es t)"
  using ro.run [OF assms(1,2)] assms(3) by auto

theorem reorder_conserves_witness:
  "\<exists>t' out. run_events (reorder_step linux_kapi id)
       [Arrive 5 0x12, Arrive 6 0x10] (rx_tid_new 3 0x100 0) = Some (t', out) \<and>
     mset out + mset (stored_frames t') = mset (stored_frames (rx_tid_new 3 0x100 0)) +
       mset (givens (reorder_step linux_kapi id) (reorder_given id) [Arrive 5 0x12, Arrive 6 0x10]
          (rx_tid_new 3 0x100 0))"
proof -
  let ?es = "[Arrive 5 0x12, Arrive 6 0x10] :: u16 reorder_event list" and ?t = "rx_tid_new 3 0x100 0"
  have inv: "reorder_inv linux_kapi id ?t" by (simp add: reorder_inv_new sn_ok_linux)
  have ok: "\<forall>e \<in> set ?es. reorder_ok id e" by simp
  obtain t' out where r: "run_events (reorder_step linux_kapi id) ?es ?t = Some (t', out)"
    using ro.run [OF inv ok] by blast
  then show ?thesis using reorder_conserves [OF inv ok r] by blast
qed

text \<open>A frame is dropped exactly when its sequence number lies behind the head of the
  window or its slot is already taken; a drop changes neither the buffer nor the queue of
  delivered frames, and every other frame is taken.\<close>

theorem reorder_drop_iff:
  assumes "reorder_inv K sn t" "unat (sn f) < 4096"
  shows "if refused t (sn f) then reorder_ampdu_locked K now t (sn f) f q = Some (RX_DROP, t, q)
     else \<exists>t' q'. reorder_ampdu_locked K now t (sn f) f q = Some (RX_CONTINUE, t', q')"
proof -
  have inv: "sn_ok K" "tid_wf t" "numbered sn t" "timer_ok t" using assms(1) by (auto simp: reorder_inv_def)
  show ?thesis
    using ampdu_refused [OF inv(1,2) assms(2)] ampdu_accepted [OF inv(1-3) assms(2) _ inv(4), of now q]
    by auto
qed

theorem reorder_drop_iff_witness:
  "reorder_ampdu_locked linux_kapi 7 (rx_tid_new 3 0x100 0) 0x0F ''x'' [] =
     Some (RX_DROP, rx_tid_new 3 0x100 0, [])"
  using reorder_drop_iff [of linux_kapi "\<lambda>_. 0x0F" "rx_tid_new 3 0x100 0" "''x''" 7 "[]"]
  by (simp add: reorder_inv_new sn_ok_linux refused_def soff_def)

text \<open>C23. When the reorder timer fires on time the frame it was armed for is delivered first:
  a gap in the sequence numbers delays a stored frame at most until its timeout.\<close>

theorem reorder_timeout_delivers:
  assumes "reorder_inv K sn t" "lead t d"
    and "\<not> time_is_after_jiffies K (rt_time t ! slot_of t d) now"
  shows "\<exists>t' f out. r92su_reorder_sta_release K now t q = Some (t', q @ f # out) \<and> view t ! d = Some f"
proof -
  have inv: "sn_ok K" "tid_wf t" "view t ! 0 = None" using assms(1) by (auto simp: reorder_inv_def)
  obtain t' q' where "r92su_reorder_sta_release K now t q = Some (t', q')"
    using sta_release_pops [OF inv(1,2)] by blast
  then show ?thesis using timeout_releases [OF inv assms(2,3)] by blast
qed


definition waiting_tid :: "u16 rx_tid" where
  "waiting_tid = (rx_tid_new 3 0x100 0)\<lparr>rt_buf := (replicate 64 None)[2 := Some 0x12],
     rt_time := (replicate 64 0)[2 := 30], rt_len := 1, rt_timer := Some 31\<rparr>"

lemma waiting_tid_sel [simp]:
  "rt_size waiting_tid = 32" "rt_head_seq waiting_tid = 0x10" "rt_ssn waiting_tid = 0x10"
  "rt_len waiting_tid = 1" "rt_timer waiting_tid = Some 31"
  "rt_buf waiting_tid = (replicate 64 None)[2 := Some 0x12]"
  "rt_time waiting_tid = (replicate 64 0)[2 := 30]"
  by (simp_all add: waiting_tid_def)

lemma waiting_tid_view: "view waiting_tid = (replicate 32 None)[2 := Some 0x12]"
  by (rule nth_equalityI)
    (simp_all add: slot_of_def nth_list_update)

lemma waiting_tid_lead: "lead waiting_tid 2"
  by (auto simp: lead_def waiting_tid_view nth_list_update del: view_nth)

lemma waiting_tid_inv: "reorder_inv linux_kapi id waiting_tid"
proof -
  have "somes ((replicate 32 None)[2 := Some (0x12 :: u16)]) = [0x12]" by (simp add: eval_nat_numeral)
  then have "tid_wf waiting_tid" by (simp add: tid_wf_def waiting_tid_view)
  moreover have "numbered id waiting_tid"
    by (auto simp: numbered_def waiting_tid_view nth_list_update simp del: view_nth split: if_splits)
  moreover have "timer_ok waiting_tid"
    using waiting_tid_lead by (auto simp: timer_ok_def slot_of_def intro!: exI [of _ "2::nat"])
  ultimately show ?thesis by (simp add: reorder_inv_def sn_ok_linux waiting_tid_view del: view_nth)
qed

theorem reorder_timeout_delivers_witness:
  "\<exists>t' f out. r92su_reorder_sta_release linux_kapi 31 waiting_tid [] = Some (t', [] @ f # out) \<and>
     view waiting_tid ! 2 = Some f"
  using reorder_timeout_delivers [OF waiting_tid_inv waiting_tid_lead, of 31 "[]"]
  by (simp add: slot_of_def nth_list_update)

end
