(* ===== verification/R92_Desc.thy ===== *)
theory R92_Desc
  imports R92_Prelude
begin

text \<open>
  The transmit and receive descriptors (\<open>def.h\<close>): bit fields of the little-endian words in
  front of every packet. \<open>SHIFT_AND_MASK_LE\<close> and \<open>SET_BITS_OFFSET_LE\<close> act on the bytes of
  the descriptor, as the macros do; a field is a word offset, a shift and a length.
\<close>

named_theorems desc_defs "the fields of the descriptors"

section \<open>Bit fields of a descriptor\<close>

abbreviation (input) TX_DESC_SIZE :: nat where "TX_DESC_SIZE \<equiv> 32"
abbreviation (input) RX_DESC_SIZE :: nat where "RX_DESC_SIZE \<equiv> 24"
abbreviation (input) RX_DRV_INFO_SIZE_UNIT :: nat where "RX_DRV_INFO_SIZE_UNIT \<equiv> 8"
abbreviation (input) H2CC2H_HDR_LEN :: nat where "H2CC2H_HDR_LEN \<equiv> 8"

definition BIT_LEN_MASK_32 :: "nat \<Rightarrow> u32" where
  "BIT_LEN_MASK_32 n = drop_bit (32 - n) 0xFFFFFFFF"

definition dword :: "bytes \<Rightarrow> nat \<Rightarrow> u32" where
  "dword d off = le32 (d ! (4 * off)) (d ! (4 * off + 1)) (d ! (4 * off + 2)) (d ! (4 * off + 3))"

definition set_dword :: "bytes \<Rightarrow> nat \<Rightarrow> u32 \<Rightarrow> bytes" where
  "set_dword d off w = d[4 * off := ucast w, 4 * off + 1 := ucast (drop_bit 8 w),
     4 * off + 2 := ucast (drop_bit 16 w), 4 * off + 3 := ucast (drop_bit 24 w)]"

definition SHIFT_AND_MASK_LE :: "bytes \<Rightarrow> nat \<Rightarrow> nat \<Rightarrow> nat \<Rightarrow> u32" where
  "SHIFT_AND_MASK_LE d off sh n = drop_bit sh (dword d off) AND BIT_LEN_MASK_32 n"

definition SET_BITS_OFFSET_LE :: "bytes \<Rightarrow> nat \<Rightarrow> nat \<Rightarrow> nat \<Rightarrow> u32 \<Rightarrow> bytes" where
  "SET_BITS_OFFSET_LE d off sh n v = (let mask = push_bit sh (BIT_LEN_MASK_32 n) in
     set_dword d off ((dword d off AND NOT mask) OR (push_bit sh v AND mask)))"

section \<open>The fields of the transmit descriptor\<close>

definition SET_TX_DESC_PKT_SIZE :: "bytes \<Rightarrow> u32 \<Rightarrow> bytes" where
  [desc_defs]: "SET_TX_DESC_PKT_SIZE d v = SET_BITS_OFFSET_LE d 0 0 16 v"
definition SET_TX_DESC_OFFSET :: "bytes \<Rightarrow> u32 \<Rightarrow> bytes" where
  [desc_defs]: "SET_TX_DESC_OFFSET d v = SET_BITS_OFFSET_LE d 0 16 8 v"
definition SET_TX_DESC_TYPE :: "bytes \<Rightarrow> u32 \<Rightarrow> bytes" where
  [desc_defs]: "SET_TX_DESC_TYPE d v = SET_BITS_OFFSET_LE d 0 24 2 v"
definition SET_TX_DESC_LAST_SEG :: "bytes \<Rightarrow> u32 \<Rightarrow> bytes" where
  [desc_defs]: "SET_TX_DESC_LAST_SEG d v = SET_BITS_OFFSET_LE d 0 26 1 v"
definition SET_TX_DESC_FIRST_SEG :: "bytes \<Rightarrow> u32 \<Rightarrow> bytes" where
  [desc_defs]: "SET_TX_DESC_FIRST_SEG d v = SET_BITS_OFFSET_LE d 0 27 1 v"
definition SET_TX_DESC_LINIP :: "bytes \<Rightarrow> u32 \<Rightarrow> bytes" where
  [desc_defs]: "SET_TX_DESC_LINIP d v = SET_BITS_OFFSET_LE d 0 28 1 v"
definition SET_TX_DESC_OWN :: "bytes \<Rightarrow> u32 \<Rightarrow> bytes" where
  [desc_defs]: "SET_TX_DESC_OWN d v = SET_BITS_OFFSET_LE d 0 31 1 v"
definition GET_TX_DESC_QUEUE_SEL :: "bytes \<Rightarrow> u32" where
  [desc_defs]: "GET_TX_DESC_QUEUE_SEL d = SHIFT_AND_MASK_LE d 1 8 5"
definition SET_TX_DESC_MACID :: "bytes \<Rightarrow> u32 \<Rightarrow> bytes" where
  [desc_defs]: "SET_TX_DESC_MACID d v = SET_BITS_OFFSET_LE d 1 0 5 v"
definition SET_TX_DESC_QUEUE_SEL :: "bytes \<Rightarrow> u32 \<Rightarrow> bytes" where
  [desc_defs]: "SET_TX_DESC_QUEUE_SEL d v = SET_BITS_OFFSET_LE d 1 8 5 v"
definition SET_TX_DESC_NON_QOS :: "bytes \<Rightarrow> u32 \<Rightarrow> bytes" where
  [desc_defs]: "SET_TX_DESC_NON_QOS d v = SET_BITS_OFFSET_LE d 1 16 1 v"
definition SET_TX_DESC_KEY_ID :: "bytes \<Rightarrow> u32 \<Rightarrow> bytes" where
  [desc_defs]: "SET_TX_DESC_KEY_ID d v = SET_BITS_OFFSET_LE d 1 17 2 v"
definition SET_TX_DESC_SEC_TYPE :: "bytes \<Rightarrow> u32 \<Rightarrow> bytes" where
  [desc_defs]: "SET_TX_DESC_SEC_TYPE d v = SET_BITS_OFFSET_LE d 1 22 2 v"
definition SET_TX_DESC_BMC :: "bytes \<Rightarrow> u32 \<Rightarrow> bytes" where
  [desc_defs]: "SET_TX_DESC_BMC d v = SET_BITS_OFFSET_LE d 2 7 1 v"
definition SET_TX_DESC_AGG_BREAK :: "bytes \<Rightarrow> u32 \<Rightarrow> bytes" where
  [desc_defs]: "SET_TX_DESC_AGG_BREAK d v = SET_BITS_OFFSET_LE d 2 30 1 v"
definition SET_TX_DESC_PRIORITY :: "bytes \<Rightarrow> u32 \<Rightarrow> bytes" where
  [desc_defs]: "SET_TX_DESC_PRIORITY d v = SET_BITS_OFFSET_LE d 3 16 12 v"
definition SET_TX_DESC_USER_RATE :: "bytes \<Rightarrow> u32 \<Rightarrow> bytes" where
  [desc_defs]: "SET_TX_DESC_USER_RATE d v = SET_BITS_OFFSET_LE d 4 31 1 v"
definition SET_TX_DESC_USER_TX_RATE :: "bytes \<Rightarrow> u32 \<Rightarrow> bytes" where
  [desc_defs]: "SET_TX_DESC_USER_TX_RATE d v = SET_BITS_OFFSET_LE d 5 0 31 v"
definition SET_TX_DESC_TX_BUFFER_SIZE :: "bytes \<Rightarrow> u32 \<Rightarrow> bytes" where
  [desc_defs]: "SET_TX_DESC_TX_BUFFER_SIZE d v = SET_BITS_OFFSET_LE d 7 0 16 v"
definition SET_TX_DESC_CMD_SEQ :: "bytes \<Rightarrow> u32 \<Rightarrow> bytes" where
  [desc_defs]: "SET_TX_DESC_CMD_SEQ d v = SET_BITS_OFFSET_LE d 7 24 7 v"

section \<open>The fields of the receive descriptor\<close>

definition GET_RX_DESC_PKT_LEN :: "bytes \<Rightarrow> u32" where
  [desc_defs]: "GET_RX_DESC_PKT_LEN d = SHIFT_AND_MASK_LE d 0 0 14"
definition GET_RX_DESC_CRC32 :: "bytes \<Rightarrow> u32" where
  [desc_defs]: "GET_RX_DESC_CRC32 d = SHIFT_AND_MASK_LE d 0 14 1"
definition GET_RX_DESC_ICV :: "bytes \<Rightarrow> u32" where
  [desc_defs]: "GET_RX_DESC_ICV d = SHIFT_AND_MASK_LE d 0 15 1"
definition GET_RX_DESC_DRVINFO_SIZE :: "bytes \<Rightarrow> u32" where
  [desc_defs]: "GET_RX_DESC_DRVINFO_SIZE d = SHIFT_AND_MASK_LE d 0 16 4"
definition GET_RX_DESC_SECURITY :: "bytes \<Rightarrow> u32" where
  [desc_defs]: "GET_RX_DESC_SECURITY d = SHIFT_AND_MASK_LE d 0 20 3"
definition GET_RX_DESC_QOS :: "bytes \<Rightarrow> u32" where
  [desc_defs]: "GET_RX_DESC_QOS d = SHIFT_AND_MASK_LE d 0 23 1"
definition GET_RX_DESC_SHIFT :: "bytes \<Rightarrow> u32" where
  [desc_defs]: "GET_RX_DESC_SHIFT d = SHIFT_AND_MASK_LE d 0 24 2"
definition GET_RX_DESC_PHY_STATUS :: "bytes \<Rightarrow> u32" where
  [desc_defs]: "GET_RX_DESC_PHY_STATUS d = SHIFT_AND_MASK_LE d 0 26 1"
definition GET_RX_DESC_SWDEC :: "bytes \<Rightarrow> u32" where
  [desc_defs]: "GET_RX_DESC_SWDEC d = SHIFT_AND_MASK_LE d 0 27 1"
definition GET_RX_DESC_IS_CMD :: "bytes \<Rightarrow> bool" where
  [desc_defs]: "GET_RX_DESC_IS_CMD d \<longleftrightarrow> SHIFT_AND_MASK_LE d 1 0 9 = 0x1ff"
definition GET_RX_DESC_MACID :: "bytes \<Rightarrow> u32" where
  [desc_defs]: "GET_RX_DESC_MACID d = SHIFT_AND_MASK_LE d 1 0 5"
definition GET_RX_DESC_TID :: "bytes \<Rightarrow> u32" where
  [desc_defs]: "GET_RX_DESC_TID d = SHIFT_AND_MASK_LE d 1 5 4"
definition GET_RX_DESC_PAGGR :: "bytes \<Rightarrow> u32" where
  [desc_defs]: "GET_RX_DESC_PAGGR d = SHIFT_AND_MASK_LE d 1 14 1"
definition GET_RX_DESC_FAGGR :: "bytes \<Rightarrow> u32" where
  [desc_defs]: "GET_RX_DESC_FAGGR d = SHIFT_AND_MASK_LE d 1 15 1"
definition GET_RX_DESC_PKTCNT :: "bytes \<Rightarrow> u32" where
  [desc_defs]: "GET_RX_DESC_PKTCNT d = SHIFT_AND_MASK_LE d 2 16 8"
definition GET_RX_DESC_RX_MCS :: "bytes \<Rightarrow> u32" where
  [desc_defs]: "GET_RX_DESC_RX_MCS d = SHIFT_AND_MASK_LE d 3 0 6"
definition GET_RX_DESC_RX_HT :: "bytes \<Rightarrow> u32" where
  [desc_defs]: "GET_RX_DESC_RX_HT d = SHIFT_AND_MASK_LE d 3 6 1"
definition GET_RX_DESC_SPLCP :: "bytes \<Rightarrow> u32" where
  [desc_defs]: "GET_RX_DESC_SPLCP d = SHIFT_AND_MASK_LE d 3 8 1"
definition GET_RX_DESC_BW :: "bytes \<Rightarrow> u32" where
  [desc_defs]: "GET_RX_DESC_BW d = SHIFT_AND_MASK_LE d 3 9 1"
definition GET_RX_DESC_TSFL :: "bytes \<Rightarrow> u32" where
  [desc_defs]: "GET_RX_DESC_TSFL d = SHIFT_AND_MASK_LE d 5 0 32"

section \<open>Fields do not disturb each other\<close>

lemma length_set_dword [simp]: "length (set_dword d off w) = length d"
  by (simp add: set_dword_def)

lemma length_SET_BITS [simp]: "length (SET_BITS_OFFSET_LE d off sh n v) = length d"
  by (simp add: SET_BITS_OFFSET_LE_def Let_def)

lemma dword_set_dword:
  "4 * off + 3 < length d \<Longrightarrow> dword (set_dword d off w) off' = (if off = off' then w else dword d off')"
  by (simp add: dword_def set_dword_def nth_list_update le32_put)

lemma bit_BIT_LEN_MASK: "n \<le> 32 \<Longrightarrow> bit (BIT_LEN_MASK_32 n) i \<longleftrightarrow> i < n"
proof -
  assume n: "n \<le> 32"
  have m: "(0xFFFFFFFF :: u32) = mask 32" by (simp add: mask_eq_exp_minus_1)
  show ?thesis unfolding BIT_LEN_MASK_32_def m using n by (auto simp: bit_simps)
qed

lemma SHIFT_AND_MASK_eq:
  "n \<le> 32 \<Longrightarrow> SHIFT_AND_MASK_LE d off sh n = take_bit n (drop_bit sh (dword d off))"
  by (rule bit_word_eqI) (auto simp: SHIFT_AND_MASK_LE_def bit_simps bit_BIT_LEN_MASK)

text \<open>A field that has been written reads back, cut to its length.\<close>

lemma get_set_same:
  "4 * off + 3 < length d \<Longrightarrow> sh + n \<le> 32 \<Longrightarrow>
   SHIFT_AND_MASK_LE (SET_BITS_OFFSET_LE d off sh n v) off sh n = take_bit n v"
  by (rule bit_word_eqI)
    (auto simp: SHIFT_AND_MASK_LE_def SET_BITS_OFFSET_LE_def Let_def dword_set_dword bit_simps
       bit_BIT_LEN_MASK dest: bit_imp_le_length)

lemma get_set_other:
  "4 * off + 3 < length d \<Longrightarrow> n \<le> 32 \<Longrightarrow> n' \<le> 32 \<Longrightarrow>
   off \<noteq> off' \<or> sh + n \<le> sh' \<or> sh' + n' \<le> sh \<Longrightarrow>
   SHIFT_AND_MASK_LE (SET_BITS_OFFSET_LE d off sh n v) off' sh' n' = SHIFT_AND_MASK_LE d off' sh' n'"
  by (rule bit_word_eqI)
    (auto simp: SHIFT_AND_MASK_LE_def SET_BITS_OFFSET_LE_def Let_def dword_set_dword bit_simps
       bit_BIT_LEN_MASK dest: bit_imp_le_length)

lemma dword_replicate_0 [simp]: "4 * off + 3 < n \<Longrightarrow> dword (replicate n 0) off = 0"
  by (simp add: dword_def le32_def)

lemma SHIFT_AND_MASK_0 [simp]:
  "4 * off + 3 < m \<Longrightarrow> SHIFT_AND_MASK_LE (replicate m 0) off sh n = 0"
  by (simp add: SHIFT_AND_MASK_LE_def)

text \<open>A write reaches only the word of its field.\<close>

lemma dword_SET_BITS_other:
  "4 * off + 3 < length d \<Longrightarrow> off \<noteq> off' \<Longrightarrow> dword (SET_BITS_OFFSET_LE d off sh n v) off' = dword d off'"
  by (simp add: SET_BITS_OFFSET_LE_def Let_def dword_set_dword)

lemma nth_SET_BITS_other:
  "i div 4 \<noteq> off \<Longrightarrow> SET_BITS_OFFSET_LE d off sh n v ! i = d ! i"
  by (auto simp: SET_BITS_OFFSET_LE_def Let_def set_dword_def nth_list_update)

lemma SHIFT_AND_MASK_app:
  "4 * off + 3 < length d \<Longrightarrow> SHIFT_AND_MASK_LE (d @ r) off sh n = SHIFT_AND_MASK_LE d off sh n"
  by (simp add: SHIFT_AND_MASK_LE_def dword_def nth_append)

lemmas desc_simps = get_set_same get_set_other

end
