(* ===== verification/R92_Wire.thy ===== *)
theory R92_Wire
  imports R92_Desc
begin

text \<open>
  The interface between driver and firmware (\<open>h2cc2h.h\<close>): the command and event numbers,
  the structures of the commands as records with the bytes they are sent as, and the
  structures of the events as accessors of the received bytes. All structures are packed, or
  have no padding (\<open>__check_h2cc2h__\<close>, whose sizes are the length lemmas).
\<close>

section \<open>Command and event numbers\<close>

datatype (plugins only: size) fw_h2c_cmd =
    H2C_READ_MACREG_CMD | H2C_WRITE_MACREG_CMD | H2C_READBB_CMD | H2C_WRITEBB_CMD |
    H2C_READRF_CMD | H2C_WRITERF_CMD | H2C_READ_EEPROM_CMD | H2C_WRITE_EEPROM_CMD |
    H2C_READ_EFUSE_CMD | H2C_WRITE_EFUSE_CMD | H2C_READ_CAM_CMD | H2C_WRITE_CAM_CMD |
    H2C_SETBCNITV_CMD | H2C_SETMBIDCFG_CMD | H2C_JOINBSS_CMD | H2C_DISCONNECT_CMD |
    H2C_CREATEBSS_CMD | H2C_SETOPMODE_CMD | H2C_SITESURVEY_CMD | H2C_SETAUTH_CMD |
    H2C_SETKEY_CMD | H2C_SETSTAKEY_CMD | H2C_SETASSOCSTA_CMD | H2C_DELASSOCSTA_CMD |
    H2C_SETSTAPWRSTATE_CMD | H2C_SETBASICRATE_CMD | H2C_GETBASICRATE_CMD | H2C_SETDATARATE_CMD |
    H2C_GETDATARATE_CMD | H2C_SETPHYINFO_CMD | H2C_GETPHYINFO_CMD | H2C_SETPHY_CMD |
    H2C_GETPHY_CMD | H2C_READRSSI_CMD | H2C_READGAIN_CMD | H2C_SETATIM_CMD | H2C_SETPWRMODE_CMD |
    H2C_JOINBSSRPT_CMD | H2C_SETRATABLE_CMD | H2C_GETRATABLE_CMD | H2C_GETCCXREPORT_CMD |
    H2C_GETDTMREPORT_CMD | H2C_GETTXRATESTATICS_CMD | H2C_SETUSBSUSPEND_CMD | H2C_SETH2CLBK_CMD |
    H2C_ADDBA_REQ_CMD | H2C_SETCHANNEL_CMD | H2C_SET_TXPOWER_CMD | H2C_SWITCH_ANTENNA_CMD |
    H2C_SET_XTAL_CAP_CMD | H2C_SET_SINGLE_CARRIER_TX_CMD | H2C_SET_SINGLE_TONE_CMD |
    H2C_SET_CARRIER_SUPPRESION_TX_CMD | H2C_SET_CONTINOUS_TX_CMD | H2C_SWITCH_BW_CMD |
    H2C_TX_BEACON_CMD | H2C_SET_POWER_TRACKING_CMD | H2C_AMSDU_TO_AMPDU_CMD |
    H2C_SET_MAC_ADDRESS_CMD | H2C_DISCONNECT_CTRL_CMD | H2C_SET_CHANNELPLAN_CMD |
    H2C_DISCONNECT_CTRL_EX_CMD | H2C_GET_H2C_LBK_CMD | H2C_SET_PWR_PARAM_CMD |
    H2C_WOWWLAN_CONTROL_CMD | H2C_SET_PROBE_REQ_EXTRA_IE_CMD | H2C_SET_ASSOC_REQ_EXTRA_IE_CMD |
    H2C_SET_PROBE_RSP_EXTRA_IE_CMD | H2C_SET_ASSOC_RSP_EXTRA_IE_CMD |
    H2C_GET_CURRENT_DATA_RATE_CMD | H2C_GET_TX_RETRY_CNT_CMD | H2C_GET_RX_RETRY_CNT_CMD |
    H2C_GET_BCN_OK_CNT_CMD | H2C_GET_BCN_ERR_CNT_CMD | H2C_GET_CURRENT_TXPOWER_CMD |
    H2C_SET_DIG_CMD | H2C_SET_RA_CMD | H2C_SET_PT_CMD | H2C_READ_RSSI_CMD

definition fw_h2c_cmds :: "fw_h2c_cmd list" where
  "fw_h2c_cmds = [
    H2C_READ_MACREG_CMD, H2C_WRITE_MACREG_CMD, H2C_READBB_CMD, H2C_WRITEBB_CMD, H2C_READRF_CMD,
    H2C_WRITERF_CMD, H2C_READ_EEPROM_CMD, H2C_WRITE_EEPROM_CMD, H2C_READ_EFUSE_CMD,
    H2C_WRITE_EFUSE_CMD, H2C_READ_CAM_CMD, H2C_WRITE_CAM_CMD, H2C_SETBCNITV_CMD,
    H2C_SETMBIDCFG_CMD, H2C_JOINBSS_CMD, H2C_DISCONNECT_CMD, H2C_CREATEBSS_CMD,
    H2C_SETOPMODE_CMD, H2C_SITESURVEY_CMD, H2C_SETAUTH_CMD, H2C_SETKEY_CMD, H2C_SETSTAKEY_CMD,
    H2C_SETASSOCSTA_CMD, H2C_DELASSOCSTA_CMD, H2C_SETSTAPWRSTATE_CMD, H2C_SETBASICRATE_CMD,
    H2C_GETBASICRATE_CMD, H2C_SETDATARATE_CMD, H2C_GETDATARATE_CMD, H2C_SETPHYINFO_CMD,
    H2C_GETPHYINFO_CMD, H2C_SETPHY_CMD, H2C_GETPHY_CMD, H2C_READRSSI_CMD, H2C_READGAIN_CMD,
    H2C_SETATIM_CMD, H2C_SETPWRMODE_CMD, H2C_JOINBSSRPT_CMD, H2C_SETRATABLE_CMD,
    H2C_GETRATABLE_CMD, H2C_GETCCXREPORT_CMD, H2C_GETDTMREPORT_CMD, H2C_GETTXRATESTATICS_CMD,
    H2C_SETUSBSUSPEND_CMD, H2C_SETH2CLBK_CMD, H2C_ADDBA_REQ_CMD, H2C_SETCHANNEL_CMD,
    H2C_SET_TXPOWER_CMD, H2C_SWITCH_ANTENNA_CMD, H2C_SET_XTAL_CAP_CMD,
    H2C_SET_SINGLE_CARRIER_TX_CMD, H2C_SET_SINGLE_TONE_CMD, H2C_SET_CARRIER_SUPPRESION_TX_CMD,
    H2C_SET_CONTINOUS_TX_CMD, H2C_SWITCH_BW_CMD, H2C_TX_BEACON_CMD, H2C_SET_POWER_TRACKING_CMD,
    H2C_AMSDU_TO_AMPDU_CMD, H2C_SET_MAC_ADDRESS_CMD, H2C_DISCONNECT_CTRL_CMD,
    H2C_SET_CHANNELPLAN_CMD, H2C_DISCONNECT_CTRL_EX_CMD, H2C_GET_H2C_LBK_CMD,
    H2C_SET_PWR_PARAM_CMD, H2C_WOWWLAN_CONTROL_CMD, H2C_SET_PROBE_REQ_EXTRA_IE_CMD,
    H2C_SET_ASSOC_REQ_EXTRA_IE_CMD, H2C_SET_PROBE_RSP_EXTRA_IE_CMD,
    H2C_SET_ASSOC_RSP_EXTRA_IE_CMD, H2C_GET_CURRENT_DATA_RATE_CMD, H2C_GET_TX_RETRY_CNT_CMD,
    H2C_GET_RX_RETRY_CNT_CMD, H2C_GET_BCN_OK_CNT_CMD, H2C_GET_BCN_ERR_CNT_CMD,
    H2C_GET_CURRENT_TXPOWER_CMD, H2C_SET_DIG_CMD, H2C_SET_RA_CMD, H2C_SET_PT_CMD,
    H2C_READ_RSSI_CMD]"

datatype fw_c2h_event =
    C2H_READ_MACREG_EVENT | C2H_READBB_EVENT | C2H_READRF_EVENT | C2H_READ_EEPROM_EVENT |
    C2H_READ_EFUSE_EVENT | C2H_READ_CAM_EVENT | C2H_GET_BASIC_RATE_EVENT |
    C2H_GET_DATA_RATE_EVENT | C2H_SURVEY_EVENT | C2H_SURVEY_DONE_EVENT | C2H_JOIN_BSS_EVENT |
    C2H_ADD_STA_EVENT | C2H_DEL_STA_EVENT | C2H_ATIM_DONE_EVENT | C2H_TX_REPORT_EVENT |
    C2H_CCX_REPORT_EVENT | C2H_DTM_REPORT_EVENT | C2H_TX_RATE_STATS_EVENT | C2H_C2H_LBK_EVENT |
    C2H_FWDBG_EVENT | C2H_C2HFEEDBACK_EVENT | C2H_ADDBA_EVENT | C2H_HBCN_EVENT |
    C2H_REPORT_PWR_STATE_EVENT | C2H_WPS_PBC_EVENT | C2H_ADDBA_REPORT_EVENT

definition fw_c2h_events :: "fw_c2h_event list" where
  "fw_c2h_events = [
    C2H_READ_MACREG_EVENT, C2H_READBB_EVENT, C2H_READRF_EVENT, C2H_READ_EEPROM_EVENT,
    C2H_READ_EFUSE_EVENT, C2H_READ_CAM_EVENT, C2H_GET_BASIC_RATE_EVENT, C2H_GET_DATA_RATE_EVENT,
    C2H_SURVEY_EVENT, C2H_SURVEY_DONE_EVENT, C2H_JOIN_BSS_EVENT, C2H_ADD_STA_EVENT,
    C2H_DEL_STA_EVENT, C2H_ATIM_DONE_EVENT, C2H_TX_REPORT_EVENT, C2H_CCX_REPORT_EVENT,
    C2H_DTM_REPORT_EVENT, C2H_TX_RATE_STATS_EVENT, C2H_C2H_LBK_EVENT, C2H_FWDBG_EVENT,
    C2H_C2HFEEDBACK_EVENT, C2H_ADDBA_EVENT, C2H_HBCN_EVENT, C2H_REPORT_PWR_STATE_EVENT,
    C2H_WPS_PBC_EVENT, C2H_ADDBA_REPORT_EVENT]"

text \<open>The number of an enumerator is its position.\<close>

primrec h2c_nr :: "fw_h2c_cmd \<Rightarrow> u8" where
  "h2c_nr H2C_READ_MACREG_CMD = 0"
| "h2c_nr H2C_WRITE_MACREG_CMD = 1"
| "h2c_nr H2C_READBB_CMD = 2"
| "h2c_nr H2C_WRITEBB_CMD = 3"
| "h2c_nr H2C_READRF_CMD = 4"
| "h2c_nr H2C_WRITERF_CMD = 5"
| "h2c_nr H2C_READ_EEPROM_CMD = 6"
| "h2c_nr H2C_WRITE_EEPROM_CMD = 7"
| "h2c_nr H2C_READ_EFUSE_CMD = 8"
| "h2c_nr H2C_WRITE_EFUSE_CMD = 9"
| "h2c_nr H2C_READ_CAM_CMD = 10"
| "h2c_nr H2C_WRITE_CAM_CMD = 11"
| "h2c_nr H2C_SETBCNITV_CMD = 12"
| "h2c_nr H2C_SETMBIDCFG_CMD = 13"
| "h2c_nr H2C_JOINBSS_CMD = 14"
| "h2c_nr H2C_DISCONNECT_CMD = 15"
| "h2c_nr H2C_CREATEBSS_CMD = 16"
| "h2c_nr H2C_SETOPMODE_CMD = 17"
| "h2c_nr H2C_SITESURVEY_CMD = 18"
| "h2c_nr H2C_SETAUTH_CMD = 19"
| "h2c_nr H2C_SETKEY_CMD = 20"
| "h2c_nr H2C_SETSTAKEY_CMD = 21"
| "h2c_nr H2C_SETASSOCSTA_CMD = 22"
| "h2c_nr H2C_DELASSOCSTA_CMD = 23"
| "h2c_nr H2C_SETSTAPWRSTATE_CMD = 24"
| "h2c_nr H2C_SETBASICRATE_CMD = 25"
| "h2c_nr H2C_GETBASICRATE_CMD = 26"
| "h2c_nr H2C_SETDATARATE_CMD = 27"
| "h2c_nr H2C_GETDATARATE_CMD = 28"
| "h2c_nr H2C_SETPHYINFO_CMD = 29"
| "h2c_nr H2C_GETPHYINFO_CMD = 30"
| "h2c_nr H2C_SETPHY_CMD = 31"
| "h2c_nr H2C_GETPHY_CMD = 32"
| "h2c_nr H2C_READRSSI_CMD = 33"
| "h2c_nr H2C_READGAIN_CMD = 34"
| "h2c_nr H2C_SETATIM_CMD = 35"
| "h2c_nr H2C_SETPWRMODE_CMD = 36"
| "h2c_nr H2C_JOINBSSRPT_CMD = 37"
| "h2c_nr H2C_SETRATABLE_CMD = 38"
| "h2c_nr H2C_GETRATABLE_CMD = 39"
| "h2c_nr H2C_GETCCXREPORT_CMD = 40"
| "h2c_nr H2C_GETDTMREPORT_CMD = 41"
| "h2c_nr H2C_GETTXRATESTATICS_CMD = 42"
| "h2c_nr H2C_SETUSBSUSPEND_CMD = 43"
| "h2c_nr H2C_SETH2CLBK_CMD = 44"
| "h2c_nr H2C_ADDBA_REQ_CMD = 45"
| "h2c_nr H2C_SETCHANNEL_CMD = 46"
| "h2c_nr H2C_SET_TXPOWER_CMD = 47"
| "h2c_nr H2C_SWITCH_ANTENNA_CMD = 48"
| "h2c_nr H2C_SET_XTAL_CAP_CMD = 49"
| "h2c_nr H2C_SET_SINGLE_CARRIER_TX_CMD = 50"
| "h2c_nr H2C_SET_SINGLE_TONE_CMD = 51"
| "h2c_nr H2C_SET_CARRIER_SUPPRESION_TX_CMD = 52"
| "h2c_nr H2C_SET_CONTINOUS_TX_CMD = 53"
| "h2c_nr H2C_SWITCH_BW_CMD = 54"
| "h2c_nr H2C_TX_BEACON_CMD = 55"
| "h2c_nr H2C_SET_POWER_TRACKING_CMD = 56"
| "h2c_nr H2C_AMSDU_TO_AMPDU_CMD = 57"
| "h2c_nr H2C_SET_MAC_ADDRESS_CMD = 58"
| "h2c_nr H2C_DISCONNECT_CTRL_CMD = 59"
| "h2c_nr H2C_SET_CHANNELPLAN_CMD = 60"
| "h2c_nr H2C_DISCONNECT_CTRL_EX_CMD = 61"
| "h2c_nr H2C_GET_H2C_LBK_CMD = 62"
| "h2c_nr H2C_SET_PWR_PARAM_CMD = 63"
| "h2c_nr H2C_WOWWLAN_CONTROL_CMD = 64"
| "h2c_nr H2C_SET_PROBE_REQ_EXTRA_IE_CMD = 65"
| "h2c_nr H2C_SET_ASSOC_REQ_EXTRA_IE_CMD = 66"
| "h2c_nr H2C_SET_PROBE_RSP_EXTRA_IE_CMD = 67"
| "h2c_nr H2C_SET_ASSOC_RSP_EXTRA_IE_CMD = 68"
| "h2c_nr H2C_GET_CURRENT_DATA_RATE_CMD = 69"
| "h2c_nr H2C_GET_TX_RETRY_CNT_CMD = 70"
| "h2c_nr H2C_GET_RX_RETRY_CNT_CMD = 71"
| "h2c_nr H2C_GET_BCN_OK_CNT_CMD = 72"
| "h2c_nr H2C_GET_BCN_ERR_CNT_CMD = 73"
| "h2c_nr H2C_GET_CURRENT_TXPOWER_CMD = 74"
| "h2c_nr H2C_SET_DIG_CMD = 75"
| "h2c_nr H2C_SET_RA_CMD = 76"
| "h2c_nr H2C_SET_PT_CMD = 77"
| "h2c_nr H2C_READ_RSSI_CMD = 78"

lemma h2c_nr_nth: "fw_h2c_cmds ! unat (h2c_nr c) = c"
  by (cases c) (simp_all add: fw_h2c_cmds_def)

instantiation fw_h2c_cmd :: equal
begin

definition equal_fw_h2c_cmd :: "fw_h2c_cmd \<Rightarrow> fw_h2c_cmd \<Rightarrow> bool" where
  "equal_fw_h2c_cmd c d \<longleftrightarrow> h2c_nr c = h2c_nr d"

instance
  by standard (metis equal_fw_h2c_cmd_def h2c_nr_nth)

end

definition c2h_of_nr :: "u8 \<Rightarrow> fw_c2h_event option" where
  "c2h_of_nr n = (if unat n < length fw_c2h_events then Some (fw_c2h_events ! unat n) else None)"

end
