(* ===== verification/R92_Structs.thy ===== *)
theory R92_Structs
  imports R92_Wire
begin

text \<open>
  The packed structures of \<open>h2cc2h.h\<close>. A structure is a record; \<open>put_s\<close> lists the bytes of
  \<open>s\<close> as they are sent and \<open>get_s\<close> reads it back from the front of a buffer. The locale
  \<open>byte_codec\<close> is the contract of such a pair; it is interpreted for every structure that
  the driver both sends and receives.
\<close>

section \<open>Codecs\<close>

definition get_le16 :: "bytes \<Rightarrow> u16" where
  "get_le16 d = le16 (d ! 0) (d ! 1)"

definition get_le32 :: "bytes \<Rightarrow> u32" where
  "get_le32 d = le32 (d ! 0) (d ! 1) (d ! 2) (d ! 3)"

definition get_le64 :: "bytes \<Rightarrow> u64" where
  "get_le64 d = ucast (get_le32 d) OR push_bit 32 (ucast (get_le32 (drop 4 d)))"

locale byte_codec =
  fixes put :: "'a \<Rightarrow> bytes"
    and get :: "bytes \<Rightarrow> 'a"
    and n :: nat
    and ok :: "'a \<Rightarrow> bool"
  assumes length_put: "ok x \<Longrightarrow> length (put x) = n"
    and get_put: "ok x \<Longrightarrow> get (put x @ r) = x"
begin

lemma get_put_at: "ok x \<Longrightarrow> length p = k \<Longrightarrow> get (drop k (p @ put x @ r)) = x"
  using get_put by simp

lemma put_inj: "ok x \<Longrightarrow> ok y \<Longrightarrow> put x = put y \<Longrightarrow> x = y"
  using get_put [of x "[]"] get_put [of y "[]"] by simp

lemma drop_put: "ok x \<Longrightarrow> drop n (put x @ r) = r"
  using length_put by simp

lemma take_put: "ok x \<Longrightarrow> take n (put x @ r) = put x"
  using length_put by simp

end

interpretation cle16: byte_codec put_le16 get_le16 2 "\<lambda>_. True"
  by unfold_locales (simp_all add: put_le16_def get_le16_def le16_put)

interpretation cle32: byte_codec put_le32 get_le32 4 "\<lambda>_. True"
  by unfold_locales (simp_all add: put_le32_def get_le32_def le32_put)

lemma put_le64_le32: "put_le64 w = put_le32 (ucast w) @ put_le32 (ucast (drop_bit 32 w))"
  by (auto simp: put_le64_def put_le32_def intro!: bit_word_eqI simp: bit_simps)

lemma le64_split: "ucast (ucast w :: u32) OR push_bit 32 (ucast (ucast (drop_bit 32 w) :: u32)) = (w :: u64)"
  by (rule bit_word_eqI) (auto simp: bit_simps)

interpretation cle64: byte_codec put_le64 get_le64 8 "\<lambda>_. True"
proof
  fix x :: u64 and r
  have "drop 4 (put_le64 x @ r) = put_le32 (ucast (drop_bit 32 x)) @ r"
    by (simp add: put_le64_le32)
  then show "get_le64 (put_le64 x @ r) = x"
    using cle32.get_put [of "ucast x" "put_le32 (ucast (drop_bit 32 x)) @ r"]
    by (simp add: get_le64_def cle32.get_put put_le64_le32 le64_split)
qed simp

lemmas codec_simps = cle16.get_put cle32.get_put cle64.get_put

section \<open>Structures of the commands\<close>

record h2c_set_power_mode =
  pm_mode :: u8
  pm_flag_low_traffic_en :: u8
  pm_flag_lpnav_en :: u8
  pm_flag_rf_low_snr_en :: u8
  pm_flag_dps_en :: u8
  pm_bcn_rx_en :: u8
  pm_bcn_pass_cnt :: u8
  pm_bcn_to :: u8
  pm_bcn_itv :: u16
  pm_app_itv :: u8
  pm_awake_bcn_itv :: u8
  pm_smart_ps :: u8
  pm_bcn_pass_time :: u8

definition put_set_power_mode :: "h2c_set_power_mode \<Rightarrow> bytes" where
  "put_set_power_mode s = [pm_mode s, pm_flag_low_traffic_en s, pm_flag_lpnav_en s,
     pm_flag_rf_low_snr_en s, pm_flag_dps_en s, pm_bcn_rx_en s, pm_bcn_pass_cnt s, pm_bcn_to s]
     @ put_le16 (pm_bcn_itv s) @
     [pm_app_itv s, pm_awake_bcn_itv s, pm_smart_ps s, pm_bcn_pass_time s]"

record h2c_set_mac =
  sm_mac_addr :: bytes

definition put_set_mac :: "h2c_set_mac \<Rightarrow> bytes" where
  "put_set_mac s = sm_mac_addr s"

abbreviation (input) IEEE80211_MAX_SSID_LEN :: nat where "IEEE80211_MAX_SSID_LEN \<equiv> 32"
abbreviation (input) ETH_ALEN :: nat where "ETH_ALEN \<equiv> 6"

record h2c_site_survey =
  sv_active :: u32
  sv_bsslimit :: u32
  sv_ssidlen :: u32
  sv_ssid :: bytes

definition put_site_survey :: "h2c_site_survey \<Rightarrow> bytes" where
  "put_site_survey s = put_le32 (sv_active s) @ put_le32 (sv_bsslimit s) @
     put_le32 (sv_ssidlen s) @ sv_ssid s"

record h2c_disconnect =
  dc_rsvd0 :: u32

definition put_disconnect :: "h2c_disconnect \<Rightarrow> bytes" where
  "put_disconnect s = put_le32 (dc_rsvd0 s)"

record h2c_set_channel =
  sc_channel :: u32

definition put_set_channel :: "h2c_set_channel \<Rightarrow> bytes" where
  "put_set_channel s = put_le32 (sc_channel s)"

datatype r92su_auth_mode = R92SU_AUTH_OPEN | R92SU_AUTH_SHARED | R92SU_AUTH_8021X

fun auth_mode_nr :: "r92su_auth_mode \<Rightarrow> u8" where
  "auth_mode_nr R92SU_AUTH_OPEN = 0"
| "auth_mode_nr R92SU_AUTH_SHARED = 1"
| "auth_mode_nr R92SU_AUTH_8021X = 2"

datatype r92su_auth_1x = R92SU_WPA_PSK | R92SU_WPA_EAP

fun auth_1x_nr :: "r92su_auth_1x \<Rightarrow> u8" where
  "auth_1x_nr R92SU_WPA_PSK = 0"
| "auth_1x_nr R92SU_WPA_EAP = 1"

record h2c_auth =
  au_mode :: u8
  au_1x :: u8
  au_rsvd2 :: bytes

definition put_auth :: "h2c_auth \<Rightarrow> bytes" where
  "put_auth s = [au_mode s, au_1x s] @ au_rsvd2 s"

record h2c_key =
  hk_algorithm :: u8
  hk_key_id :: u8
  hk_group_key :: u8
  hk_key :: bytes

definition put_key :: "h2c_key \<Rightarrow> bytes" where
  "put_key s = [hk_algorithm s, hk_key_id s, hk_group_key s] @ hk_key s"

record h2c_sta_key =
  sk_mac_addr :: bytes
  sk_algorithm :: u8
  sk_key :: bytes

definition put_sta_key :: "h2c_sta_key \<Rightarrow> bytes" where
  "put_sta_key s = sk_mac_addr s @ [sk_algorithm s] @ sk_key s"

record h2c_add_ba_req =
  ab_tid :: u32

definition put_add_ba_req :: "h2c_add_ba_req \<Rightarrow> bytes" where
  "put_add_ba_req s = put_le32 (ab_tid s)"

datatype h2c_op_modes = OP_AUTO | OP_ADHOC | OP_INFRA

fun op_mode_nr :: "h2c_op_modes \<Rightarrow> u8" where
  "op_mode_nr OP_AUTO = 0"
| "op_mode_nr OP_ADHOC = 1"
| "op_mode_nr OP_INFRA = 2"

record h2c_op_mode =
  om_mode :: u8
  om_padding :: bytes

definition put_op_mode :: "h2c_op_mode \<Rightarrow> bytes" where
  "put_op_mode s = [om_mode s] @ om_padding s"

datatype h2c_network_infrastruct_mode = MODE_IBSS | MODE_BSS | MODE_AUTO | MODE_INFRA_MAX

fun network_mode_nr :: "h2c_network_infrastruct_mode \<Rightarrow> u32" where
  "network_mode_nr MODE_IBSS = 0"
| "network_mode_nr MODE_BSS = 1"
| "network_mode_nr MODE_AUTO = 2"
| "network_mode_nr MODE_INFRA_MAX = 3"

datatype h2c_network_type = TYPE_11FH | TYPE_11DS | TYPE_11OFDM5GHZ | TYPE_11OFDM2GHZ

fun network_type_nr :: "h2c_network_type \<Rightarrow> u32" where
  "network_type_nr TYPE_11FH = 0"
| "network_type_nr TYPE_11DS = 1"
| "network_type_nr TYPE_11OFDM5GHZ = 2"
| "network_type_nr TYPE_11OFDM2GHZ = 3"

section \<open>The description of a network\<close>

record h2c_11fh_network_configuration =
  fh_length :: u32
  fh_hop_pattern :: u32
  fh_hop_set :: u32
  fh_dwell_time :: u32

definition put_fh :: "h2c_11fh_network_configuration \<Rightarrow> bytes" where
  "put_fh s = put_le32 (fh_length s) @ put_le32 (fh_hop_pattern s) @
     put_le32 (fh_hop_set s) @ put_le32 (fh_dwell_time s)"

definition get_fh :: "bytes \<Rightarrow> h2c_11fh_network_configuration" where
  "get_fh d = \<lparr>fh_length = get_le32 d, fh_hop_pattern = get_le32 (drop 4 d),
     fh_hop_set = get_le32 (drop 8 d), fh_dwell_time = get_le32 (drop 12 d)\<rparr>"

interpretation cfh: byte_codec put_fh get_fh 16 "\<lambda>_. True"
  by unfold_locales (simp_all add: put_fh_def get_fh_def codec_simps)

record h2c_network_configuration =
  nc_length :: u32
  nc_beacon_period :: u32
  nc_atim_window :: u32
  nc_frequency :: u32
  nc_fh_config :: h2c_11fh_network_configuration

definition put_config :: "h2c_network_configuration \<Rightarrow> bytes" where
  "put_config s = put_le32 (nc_length s) @ put_le32 (nc_beacon_period s) @
     put_le32 (nc_atim_window s) @ put_le32 (nc_frequency s) @ put_fh (nc_fh_config s)"

definition get_config :: "bytes \<Rightarrow> h2c_network_configuration" where
  "get_config d = \<lparr>nc_length = get_le32 d, nc_beacon_period = get_le32 (drop 4 d),
     nc_atim_window = get_le32 (drop 8 d), nc_frequency = get_le32 (drop 12 d),
     nc_fh_config = get_fh (drop 16 d)\<rparr>"

interpretation cconfig: byte_codec put_config get_config 32 "\<lambda>_. True"
  by unfold_locales (simp_all add: put_config_def get_config_def codec_simps cfh.get_put cfh.length_put)

record h2c_ssid =
  ss_length :: u32
  ss_ssid :: bytes

definition put_ssid :: "h2c_ssid \<Rightarrow> bytes" where
  "put_ssid s = put_le32 (ss_length s) @ ss_ssid s"

definition get_ssid :: "bytes \<Rightarrow> h2c_ssid" where
  "get_ssid d = \<lparr>ss_length = get_le32 d, ss_ssid = take 32 (drop 4 d)\<rparr>"

interpretation cssid: byte_codec put_ssid get_ssid 36 "\<lambda>s. length (ss_ssid s) = 32"
  by unfold_locales (simp_all add: put_ssid_def get_ssid_def codec_simps)

record h2c_fixed_ies =
  fi_timestamp :: u64
  fi_beaconint :: u16
  fi_caps :: u16

definition put_fixed_ies :: "h2c_fixed_ies \<Rightarrow> bytes" where
  "put_fixed_ies s = put_le64 (fi_timestamp s) @ put_le16 (fi_beaconint s) @ put_le16 (fi_caps s)"

definition get_fixed_ies :: "bytes \<Rightarrow> h2c_fixed_ies" where
  "get_fixed_ies d = \<lparr>fi_timestamp = get_le64 d, fi_beaconint = get_le16 (drop 8 d),
     fi_caps = get_le16 (drop 10 d)\<rparr>"

interpretation cfixed: byte_codec put_fixed_ies get_fixed_ies 12 "\<lambda>_. True"
  by unfold_locales (simp_all add: put_fixed_ies_def get_fixed_ies_def codec_simps)

text \<open>\<open>sizeof (struct h2cc2h_bss)\<close> is 128; the information elements follow it.\<close>

record h2cc2h_bss =
  bss_length :: u32
  bss_bssid :: bytes
  bss_padding :: bytes
  bss_ssid :: h2c_ssid
  bss_privacy :: u32
  bss_rssi :: u32
  bss_type :: u32
  bss_config :: h2c_network_configuration
  bss_mode :: u32
  bss_rates :: bytes
  bss_ie_length :: u32
  bss_ies :: h2c_fixed_ies

definition put_bss :: "h2cc2h_bss \<Rightarrow> bytes" where
  "put_bss b = put_le32 (bss_length b) @ bss_bssid b @ bss_padding b @ put_ssid (bss_ssid b) @
     put_le32 (bss_privacy b) @ put_le32 (bss_rssi b) @ put_le32 (bss_type b) @
     put_config (bss_config b) @ put_le32 (bss_mode b) @ bss_rates b @
     put_le32 (bss_ie_length b) @ put_fixed_ies (bss_ies b)"

definition get_bss :: "bytes \<Rightarrow> h2cc2h_bss" where
  "get_bss d = \<lparr>bss_length = get_le32 d, bss_bssid = take 6 (drop 4 d),
     bss_padding = take 2 (drop 10 d), bss_ssid = get_ssid (drop 12 d),
     bss_privacy = get_le32 (drop 48 d), bss_rssi = get_le32 (drop 52 d),
     bss_type = get_le32 (drop 56 d), bss_config = get_config (drop 60 d),
     bss_mode = get_le32 (drop 92 d), bss_rates = take 16 (drop 96 d),
     bss_ie_length = get_le32 (drop 112 d), bss_ies = get_fixed_ies (drop 116 d)\<rparr>"

definition bss_ok :: "h2cc2h_bss \<Rightarrow> bool" where
  "bss_ok b \<longleftrightarrow> length (bss_bssid b) = 6 \<and> length (bss_padding b) = 2 \<and>
     length (ss_ssid (bss_ssid b)) = 32 \<and> length (bss_rates b) = 16"

lemmas struct_simps = codec_simps cfh.get_put cfh.length_put cconfig.get_put cconfig.length_put
  cssid.get_put cssid.length_put cfixed.get_put cfixed.length_put

interpretation cbss: byte_codec put_bss get_bss 128 bss_ok
  by unfold_locales (simp_all add: bss_ok_def put_bss_def get_bss_def struct_simps)

abbreviation (input) SIZEOF_BSS :: nat where "SIZEOF_BSS \<equiv> 128"

section \<open>Structures of the events\<close>

text \<open>The events are read in place: an accessor takes the data of the event.\<close>

definition addsta_mac_addr :: "bytes \<Rightarrow> bytes option" where
  "addsta_mac_addr d = rd_mem d 0 6"

definition addsta_aid :: "bytes \<Rightarrow> u32 option" where
  "addsta_aid d = rd_le32 d 8"

definition delsta_mac_addr :: "bytes \<Rightarrow> bytes option" where
  "delsta_mac_addr d = rd_mem d 0 6"

definition addba_mac_addr :: "bytes \<Rightarrow> bytes option" where
  "addba_mac_addr d = rd_mem d 0 6"

definition addba_ssn :: "bytes \<Rightarrow> u16 option" where
  "addba_ssn d = rd_le16 d 6"

definition addba_tid :: "bytes \<Rightarrow> u8 option" where
  "addba_tid d = rd8 d 8"

definition pwr_state :: "bytes \<Rightarrow> u8 option" where
  "pwr_state d = rd8 d 1"

text \<open>The fields of \<open>c2h_join_bss_event\<close>; its network description starts at byte 28.\<close>

record c2h_join_bss_event =
  jb_head :: u32
  jb_tail :: u32
  jb_network_type :: u32
  jb_fixed :: u32
  jb_last_scanned :: u32
  jb_aid :: u32
  jb_join_result :: u32
  jb_bss :: h2cc2h_bss

definition get_join_bss :: "bytes \<Rightarrow> c2h_join_bss_event" where
  "get_join_bss d = \<lparr>jb_head = get_le32 d, jb_tail = get_le32 (drop 4 d),
     jb_network_type = get_le32 (drop 8 d), jb_fixed = get_le32 (drop 12 d),
     jb_last_scanned = get_le32 (drop 16 d), jb_aid = get_le32 (drop 20 d),
     jb_join_result = get_le32 (drop 24 d), jb_bss = get_bss (drop 28 d)\<rparr>"

definition put_join_bss :: "c2h_join_bss_event \<Rightarrow> bytes" where
  "put_join_bss s = put_le32 (jb_head s) @ put_le32 (jb_tail s) @ put_le32 (jb_network_type s) @
     put_le32 (jb_fixed s) @ put_le32 (jb_last_scanned s) @ put_le32 (jb_aid s) @
     put_le32 (jb_join_result s) @ put_bss (jb_bss s)"

interpretation cjoin: byte_codec put_join_bss get_join_bss 156 "\<lambda>s. bss_ok (jb_bss s)"
  by unfold_locales
    (simp_all add: put_join_bss_def get_join_bss_def codec_simps cbss.get_put cbss.length_put)

text \<open>The header of every command and event, and the power-state bits of the report.\<close>

definition c2h_len :: "bytes \<Rightarrow> u16 option" where "c2h_len d = rd_le16 d 0"
definition c2h_event :: "bytes \<Rightarrow> u8 option" where "c2h_event d = rd8 d 2"
definition c2h_cmd_seq :: "bytes \<Rightarrow> u8 option" where "c2h_cmd_seq d = rd8 d 3"
definition c2h_data :: "bytes \<Rightarrow> bytes" where "c2h_data d = drop H2CC2H_HDR_LEN d"

definition PS_DYNAMIC_POWER_SAVE :: u8 where [wire_defs]: "PS_DYNAMIC_POWER_SAVE = BIT 0"
definition PS_LOW_CLOCK :: u8 where [wire_defs]: "PS_LOW_CLOCK = PS_DYNAMIC_POWER_SAVE"
definition PS_RADIO_OFF :: u8 where [wire_defs]: "PS_RADIO_OFF = BIT 1"
definition PS_ALL_ON :: u8 where [wire_defs]: "PS_ALL_ON = BIT 2"
definition PS_ST_ACTIVE :: u8 where [wire_defs]: "PS_ST_ACTIVE = BIT 3"
definition PS_LOW_PERFORMANCE :: u8 where [wire_defs]: "PS_LOW_PERFORMANCE = BIT 4"
definition PS_STATE_MASK :: u8 where [wire_defs]:
  "PS_STATE_MASK = PS_DYNAMIC_POWER_SAVE OR PS_RADIO_OFF OR PS_ALL_ON OR PS_LOW_PERFORMANCE"
definition PS_TOG :: u8 where [wire_defs]: "PS_TOG = BIT 7"
definition PS_STATE_S4 :: u8 where [wire_defs]: "PS_STATE_S4 = PS_ST_ACTIVE OR PS_ALL_ON"

end
