(* ===== verification/R92_Michael.thy ===== *)
theory R92_Michael
  imports R92_Kernel
begin

text \<open>
  The Michael message integrity code of TKIP (\<open>michael.c\<close>). The context is the pair of
  words \<open>l\<close>, \<open>r\<close>; \<open>michael_mic\<close> returns the eight bytes it stores behind \<open>mic\<close> and is
  \<open>None\<close> when it would read outside the key or the frame. Every block step is a bijection of
  the context, which is what makes the code detect a change of a single block. The last section
  states the function of IEEE 802.11 on its own, checks it on the test vectors of the standard and
  shows that the code computes it.
\<close>

section \<open>The algorithm\<close>

record michael_mic_ctx =
  mic_l :: u32
  mic_r :: u32

definition michael_block :: "michael_mic_ctx \<Rightarrow> u32 \<Rightarrow> michael_mic_ctx" where
  "michael_block c val =
     (let l = mic_l c XOR val;
          r = mic_r c XOR rol32 l 17;
          l = l + r;
          r = r XOR (drop_bit 8 (l AND 0xff00ff00) OR push_bit 8 (l AND 0x00ff00ff));
          l = l + r;
          r = r XOR rol32 l 3;
          l = l + r;
          r = r XOR ror32 l 2;
          l = l + r
      in \<lparr>mic_l = l, mic_r = r\<rparr>)"

abbreviation (input) IEEE80211_QOS_CTL_TID_MASK :: u8 where "IEEE80211_QOS_CTL_TID_MASK \<equiv> 0x0f"
abbreviation (input) MICHAEL_MIC_LEN :: nat where "MICHAEL_MIC_LEN \<equiv> 8"

definition ieee80211_get_DA :: "kapi \<Rightarrow> bytes \<Rightarrow> bytes option" where
  "ieee80211_get_DA K hdr = rd_mem hdr (ieee80211_DA_off K (frame_control hdr)) 6"

definition ieee80211_get_SA :: "kapi \<Rightarrow> bytes \<Rightarrow> bytes option" where
  "ieee80211_get_SA K hdr = rd_mem hdr (ieee80211_SA_off K (frame_control hdr)) 6"

definition qos_ctl0 :: "kapi \<Rightarrow> bytes \<Rightarrow> u8 option" where
  "qos_ctl0 K hdr = rd8 hdr (ieee80211_qos_ctl_off K (frame_control hdr))"

definition michael_mic_hdr :: "kapi \<Rightarrow> bytes \<Rightarrow> bytes \<Rightarrow> michael_mic_ctx option" where
  "michael_mic_hdr K key hdr = do {
     da \<leftarrow> ieee80211_get_DA K hdr;
     sa \<leftarrow> ieee80211_get_SA K hdr;
     tid \<leftarrow> (if ieee80211_is_data_qos K (frame_control hdr) then do {
                q \<leftarrow> qos_ctl0 K hdr; Some (q AND IEEE80211_QOS_CTL_TID_MASK) }
             else Some 0);
     l \<leftarrow> rd_le32 key 0;
     r \<leftarrow> rd_le32 key 4;
     let c = \<lparr>mic_l = l, mic_r = r\<rparr>;
     v \<leftarrow> rd_le32 da 0;
     let c = michael_block c v;
     v \<leftarrow> rd_le16 da 4;
     w \<leftarrow> rd_le16 sa 0;
     let c = michael_block c (ucast v OR push_bit 16 (ucast w));
     v \<leftarrow> rd_le32 sa 2;
     let c = michael_block c v;
     Some (michael_block c (ucast tid)) }"

text \<open>The loop over the full blocks, and the loop that collects the last 0 to 3 bytes.\<close>

fun michael_blocks :: "michael_mic_ctx \<Rightarrow> bytes \<Rightarrow> nat \<Rightarrow> nat \<Rightarrow> michael_mic_ctx option" where
  "michael_blocks c data block 0 = Some c"
| "michael_blocks c data block (Suc n) = do {
     v \<leftarrow> rd_le32 data (block * 4);
     michael_blocks (michael_block c v) data (block + 1) n }"

fun michael_rest :: "bytes \<Rightarrow> nat \<Rightarrow> nat \<Rightarrow> u32 \<Rightarrow> u32 option" where
  "michael_rest data base 0 val = Some val"
| "michael_rest data base (Suc left) val = do {
     b \<leftarrow> rd8 data (base + left);
     michael_rest data base left (push_bit 8 val OR ucast b) }"

definition michael_mic :: "kapi \<Rightarrow> bytes \<Rightarrow> bytes \<Rightarrow> bytes \<Rightarrow> nat \<Rightarrow> bytes option" where
  "michael_mic K key hdr data data_len = do {
     c \<leftarrow> michael_mic_hdr K key hdr;
     let blocks = data_len div 4;
     let left = data_len mod 4;
     c \<leftarrow> michael_blocks c data 0 blocks;
     val \<leftarrow> michael_rest data (blocks * 4) left 0x5a;
     let c = michael_block c val;
     let c = michael_block c 0;
     Some (put_le32 (mic_l c) @ put_le32 (mic_r c)) }"

section \<open>Every block step is a bijection\<close>

definition michael_unblock :: "michael_mic_ctx \<Rightarrow> u32 \<Rightarrow> michael_mic_ctx" where
  "michael_unblock c val =
     (let l = mic_l c; r = mic_r c;
          l = l - r;
          r = r XOR ror32 l 2;
          l = l - r;
          r = r XOR rol32 l 3;
          l = l - r;
          r = r XOR (drop_bit 8 (l AND 0xff00ff00) OR push_bit 8 (l AND 0x00ff00ff));
          l = l - r;
          r = r XOR rol32 l 17;
          l = l XOR val
      in \<lparr>mic_l = l, mic_r = r\<rparr>)"

lemma xor_cancel: "(a XOR b) XOR b = (a :: 'a :: len word)"
  by (simp add: xor.assoc)

lemma michael_unblock_block: "michael_unblock (michael_block c v) v = c"
  by (simp add: michael_unblock_def michael_block_def Let_def xor_cancel)

lemma michael_block_inj: "michael_block c v = michael_block c' v \<longleftrightarrow> c = c'"
  by (metis michael_unblock_block)

text \<open>With the context fixed, the step is injective in the block as well.\<close>

lemma michael_block_inj_val: "michael_block c v = michael_block c w \<Longrightarrow> v = w"
proof -
  assume eq: "michael_block c v = michael_block c w"
  have "mic_l (michael_unblock (michael_block c v) 0) = mic_l c XOR v" for v
    by (simp add: michael_unblock_def michael_block_def Let_def xor_cancel)
  from this [of v] this [of w] eq have "mic_l c XOR v = mic_l c XOR w" by simp
  then show "v = w" by (metis xor_cancel xor.commute)
qed

lemma rd_le32_Some: "i + 4 \<le> length d \<Longrightarrow> \<exists>v. rd_le32 d i = Some v"
  by (auto simp: rd_le32_def rd8_def)

lemma rd_le16_Some: "i + 2 \<le> length d \<Longrightarrow> \<exists>v. rd_le16 d i = Some v"
  by (auto simp: rd_le16_def rd8_def)

lemma rd_le32_cong: "take 4 (drop i a) = take 4 (drop i b) \<Longrightarrow> i + 4 \<le> length a \<Longrightarrow> i + 4 \<le> length b \<Longrightarrow>
   rd_le32 a i = rd_le32 b i"
proof -
  assume eq: "take 4 (drop i a) = take 4 (drop i b)" and l: "i + 4 \<le> length a" "i + 4 \<le> length b"
  have "a ! (i + k) = b ! (i + k)" if "k < 4" for k
    using arg_cong [OF eq, of "\<lambda>x. x ! k"] that l by simp
  from this [of 0] this [of 1] this [of 2] this [of 3] show ?thesis
    using l by (simp add: rd_le32_def rd8_def)
qed

text \<open>\<open>words\<close> reads a buffer as the little-endian words that the loop consumes.\<close>

definition words :: "bytes \<Rightarrow> nat \<Rightarrow> nat \<Rightarrow> u32 list" where
  "words d b n = map (\<lambda>i. le32 (d ! (4 * i)) (d ! (4 * i + 1)) (d ! (4 * i + 2)) (d ! (4 * i + 3))) [b..<b + n]"

lemma michael_blocks_foldl:
  "4 * (b + n) \<le> length d \<Longrightarrow> michael_blocks c d b n = Some (foldl michael_block c (words d b n))"
proof (induction n arbitrary: b c)
  case (Suc n)
  have "rd_le32 d (b * 4) = Some (le32 (d ! (4 * b)) (d ! (4 * b + 1)) (d ! (4 * b + 2)) (d ! (4 * b + 3)))"
    using Suc.prems by (simp add: rd_le32_def rd8_def mult.commute)
  moreover have "words d b (Suc n) =
      le32 (d ! (4 * b)) (d ! (4 * b + 1)) (d ! (4 * b + 2)) (d ! (4 * b + 3)) # words d (b + 1) n"
    by (simp add: words_def upt_conv_Cons del: upt_Suc)
  ultimately show ?case using Suc.IH [of "b + 1"] Suc.prems by simp
qed (simp add: words_def)

lemma foldl_michael_inj: "foldl michael_block c vs = foldl michael_block c' vs \<longleftrightarrow> c = c'"
  by (induction vs arbitrary: c c') (auto simp: michael_block_inj)

text \<open>Changing exactly one word of a message changes the final context.\<close>

lemma foldl_michael_change:
  "length vs = length ws \<Longrightarrow> i < length vs \<Longrightarrow> vs ! i \<noteq> ws ! i \<Longrightarrow>
   (\<forall>j < length vs. j \<noteq> i \<longrightarrow> vs ! j = ws ! j) \<Longrightarrow>
   foldl michael_block c vs \<noteq> foldl michael_block c ws"
proof -
  assume len: "length vs = length ws" and i: "i < length vs" "vs ! i \<noteq> ws ! i"
    and same: "\<forall>j < length vs. j \<noteq> i \<longrightarrow> vs ! j = ws ! j"
  have pre: "take i vs = take i ws" using len i same by (auto intro: nth_equalityI)
  have post: "drop (Suc i) vs = drop (Suc i) ws" using len i same by (auto intro: nth_equalityI)
  have v: "vs = take i vs @ vs ! i # drop (Suc i) vs" using i by (simp add: id_take_nth_drop)
  have w: "ws = take i ws @ ws ! i # drop (Suc i) ws" using i len by (simp add: id_take_nth_drop)
  have "foldl michael_block c vs = foldl michael_block (michael_block (foldl michael_block c (take i vs)) (vs ! i)) (drop (Suc i) vs)"
    by (subst v) simp
  moreover have "foldl michael_block c ws = foldl michael_block (michael_block (foldl michael_block c (take i vs)) (ws ! i)) (drop (Suc i) vs)"
    by (subst w) (simp add: pre post)
  ultimately show ?thesis
    using i(2) by (auto simp: foldl_michael_inj dest: michael_block_inj_val)
qed

lemma michael_rest_Some:
  "base + left \<le> length d \<Longrightarrow> \<exists>w. michael_rest d base left val = Some w"
  by (induction left arbitrary: val) (auto simp: rd8_def)

lemma michael_rest_cong:
  "(\<And>i. i < left \<Longrightarrow> rd8 a (base + i) = rd8 b (base + i)) \<Longrightarrow>
   michael_rest a base left val = michael_rest b base left val"
  by (induction left arbitrary: val) (auto simp: Option.bind_eq_Some_conv split: bind_splits)

lemma michael_mic_hdr_Some:
  assumes "hdr_ok K" "ieee80211_is_data K (frame_control hdr)"
    and "ieee80211_hdrlen K (frame_control hdr) \<le> length hdr" "8 \<le> length key"
  shows "\<exists>c. michael_mic_hdr K key hdr = Some c"
proof -
  let ?fc = "frame_control hdr"
  obtain da where da: "ieee80211_get_DA K hdr = Some da" "length da = 6"
    using assms by (auto simp: hdr_ok_def ieee80211_get_DA_def rd_mem_def)
  obtain sa where sa: "ieee80211_get_SA K hdr = Some sa" "length sa = 6"
    using assms by (auto simp: hdr_ok_def ieee80211_get_SA_def rd_mem_def)
  have "ieee80211_is_data_qos K ?fc \<longrightarrow> (\<exists>q. qos_ctl0 K hdr = Some q)"
    using assms by (auto simp: hdr_ok_def qos_ctl0_def rd8_def)
  then show ?thesis
    using da sa assms(4) rd_le32_Some [of 0 key] rd_le32_Some [of 4 key] rd_le32_Some [of 0 da]
      rd_le16_Some [of 4 da] rd_le16_Some [of 0 sa] rd_le32_Some [of 2 sa]
    by (auto simp: michael_mic_hdr_def Let_def)
qed

definition michael_final :: "michael_mic_ctx \<Rightarrow> u32 \<Rightarrow> bytes" where
  "michael_final c val = (let c = michael_block (michael_block c val) 0 in
     put_le32 (mic_l c) @ put_le32 (mic_r c))"

lemma michael_final_inj: "michael_final c v = michael_final c' v \<longleftrightarrow> c = c'"
proof
  assume eq: "michael_final c v = michael_final c' v"
  let ?f = "\<lambda>c. michael_block (michael_block c v) 0"
  have "put_le32 (mic_l (?f c)) = put_le32 (mic_l (?f c'))" "put_le32 (mic_r (?f c)) = put_le32 (mic_r (?f c'))"
    using eq by (simp_all add: michael_final_def Let_def)
  then have "?f c = ?f c'"
    by (metis put_le32_inj michael_mic_ctx.equality old.unit.exhaust)
  then show "c = c'" by (simp add: michael_block_inj)
qed simp

lemma michael_mic_words:
  assumes "michael_mic_hdr K key hdr = Some c" "n \<le> length data"
  shows "\<exists>v. michael_rest data (n div 4 * 4) (n mod 4) 0x5a = Some v \<and>
     michael_mic K key hdr data n = Some (michael_final (foldl michael_block c (words data 0 (n div 4))) v)"
proof -
  have n: "n div 4 * 4 + n mod 4 = n" by simp
  obtain v where "michael_rest data (n div 4 * 4) (n mod 4) 0x5a = Some v"
    using michael_rest_Some [of "n div 4 * 4" "n mod 4" data "0x5a"] n assms(2) by auto
  moreover have "michael_blocks c data 0 (n div 4) = Some (foldl michael_block c (words data 0 (n div 4)))"
    using assms(2) by (intro michael_blocks_foldl) simp
  ultimately show ?thesis using assms(1) by (simp add: michael_mic_def michael_final_def Let_def)
qed

lemma michael_mic_Some:
  assumes "hdr_ok K" "ieee80211_is_data K (frame_control hdr)"
    and "ieee80211_hdrlen K (frame_control hdr) \<le> length hdr" "8 \<le> length key" "n \<le> length data"
  shows "\<exists>mic. michael_mic K key hdr data n = Some mic \<and> length mic = 8"
  using michael_mic_hdr_Some [OF assms(1-4)] michael_mic_words [OF _ assms(5)]
  by (fastforce simp: michael_final_def Let_def)

section \<open>Properties\<close>

text \<open>The message integrity code changes whenever exactly one full 32-bit word of the
  protected data changes: no corruption or forgery confined to one word goes unnoticed.\<close>

theorem michael_detects_word_change:
  assumes hdr: "michael_mic_hdr K key hdr = Some c"
    and n: "n \<le> length data" "n \<le> length data'"
    and i: "i < n div 4" "words data 0 (n div 4) ! i \<noteq> words data' 0 (n div 4) ! i"
    and same: "\<forall>j < n. j div 4 \<noteq> i \<longrightarrow> data ! j = data' ! j"
  shows "michael_mic K key hdr data n \<noteq> michael_mic K key hdr data' n"
proof -
  let ?W = "\<lambda>d. words d 0 (n div 4)"
  have "?W data ! j = ?W data' ! j" if "j < n div 4" "j \<noteq> i" for j
  proof -
    have "data ! (4 * j + k) = data' ! (4 * j + k)" if "k < 4" for k
    proof -
      have "(4 * j + k) div 4 = j" using that by simp
      moreover have "4 * j + k < n" using that \<open>j < n div 4\<close> by linarith
      ultimately show ?thesis using same [rule_format, of "4 * j + k"] \<open>j \<noteq> i\<close> by simp
    qed
    from this [of 0] this [of 1] this [of 2] this [of 3] show ?thesis
      using \<open>j < n div 4\<close> by (simp add: words_def)
  qed
  then have fold: "foldl michael_block c (?W data) \<noteq> foldl michael_block c (?W data')"
    using i by (intro foldl_michael_change [of _ _ i]) (simp_all add: words_def)
  have "michael_rest data (n div 4 * 4) (n mod 4) 0x5a = michael_rest data' (n div 4 * 4) (n mod 4) 0x5a"
  proof (rule michael_rest_cong)
    fix k assume k: "k < n mod 4"
    then have "n div 4 * 4 + k < n" using div_mult_mod_eq [of n 4] by linarith
    moreover have "(n div 4 * 4 + k) div 4 \<noteq> i" using i(1) k by simp
    ultimately show "rd8 data (n div 4 * 4 + k) = rd8 data' (n div 4 * 4 + k)"
      using same n by (simp add: rd8_def)
  qed
  then show ?thesis
    using michael_mic_words [OF hdr n(1)] michael_mic_words [OF hdr n(2)] fold
    by (auto simp: michael_final_inj)
qed

text \<open>A QoS data frame header for the witnesses.\<close>

definition demo_hdr :: bytes where
  "demo_hdr = [0x88, 0x01, 0, 0, 1,2,3,4,5,6, 7,8,9,10,11,12, 13,14,15,16,17,18, 0x10, 0, 5, 0]"

definition demo_key :: bytes where
  "demo_key = [1,2,3,4,5,6,7,8]"

lemma demo_hdr_fc: "frame_control demo_hdr = 0x188"
  by (simp add: demo_hdr_def frame_control_def le16_def)

lemma demo_michael_hdr: "\<exists>c. michael_mic_hdr linux_kapi demo_key demo_hdr = Some c"
  by (rule michael_mic_hdr_Some)
    (simp_all add: hdr_ok_linux demo_hdr_fc, simp_all add: demo_hdr_def demo_key_def)

theorem michael_detects_word_change_witness:
  "michael_mic linux_kapi demo_key demo_hdr [1,2,3,4,5,6,7,8,9] 9 \<noteq>
   michael_mic linux_kapi demo_key demo_hdr [1,2,3,4,5,0,7,8,9] 9"
proof -
  obtain c where c: "michael_mic_hdr linux_kapi demo_key demo_hdr = Some c"
    using demo_michael_hdr by blast
  show ?thesis
  proof (rule michael_detects_word_change [OF c, of _ _ _ 1])
    show "words [1,2,3,4,5,6,7,8,9] 0 (9 div 4) ! 1 \<noteq> words [1,2,3,4,5,0,7,8,9] 0 (9 div 4) ! 1"
      by (simp add: words_def le32_def)
    show "\<forall>j<9. j div 4 \<noteq> 1 \<longrightarrow> [1,2,3,4,5,6,7,8,9] ! j = ([1,2,3,4,5,0,7,8,9] :: bytes) ! j"
      by (auto simp: nth_Cons split: nat.splits)
  qed simp_all
qed

section \<open>The code of the standard\<close>

text \<open>
  The function as IEEE 802.11 prints it, written without any definition of the code: rotations of
  the library, \<open>xswap\<close> on the four octets of a word, a round over a pair of words, and the message
  padded with the octet 0x5a and four to seven zeros. It is checked below against the test vectors
  of the standard, and the code's \<open>michael_block\<close> is shown to be its round.
\<close>

fun le_words :: "bytes \<Rightarrow> u32 list" where
  "le_words (a # b # c # d # rest) = le32 a b c d # le_words rest"
| "le_words _ = []"

definition xswap :: "u32 \<Rightarrow> u32" where
  "xswap w = le32 (ucast (drop_bit 8 w)) (ucast w) (ucast (drop_bit 24 w)) (ucast (drop_bit 16 w))"

fun michael_round :: "u32 \<times> u32 \<Rightarrow> u32 \<Rightarrow> u32 \<times> u32" where
  "michael_round (l0, r0) m =
     (let l1 = l0 XOR m;
          r1 = r0 XOR word_rotl 17 l1;  l2 = l1 + r1;
          r2 = r1 XOR xswap l2;         l3 = l2 + r2;
          r3 = r2 XOR word_rotl 3 l3;   l4 = l3 + r3;
          r4 = r3 XOR word_rotr 2 l4;   l5 = l4 + r4
      in (l5, r4))"

definition michael_std :: "bytes \<Rightarrow> bytes \<Rightarrow> bytes" where
  "michael_std key msg =
     (let (l, r) = foldl michael_round (le_words key ! 0, le_words key ! 1)
            (le_words (msg @ 0x5a # replicate (7 - length msg mod 4) 0))
      in put_le32 l @ put_le32 r)"

definition michael_reference :: "bytes \<Rightarrow> bytes \<Rightarrow> bytes \<Rightarrow> u8 \<Rightarrow> bytes \<Rightarrow> bytes" where
  "michael_reference key da sa tid data = michael_std key (da @ sa @ [tid, 0, 0, 0] @ data)"

lemma xswap_masks: "xswap w = drop_bit 8 (w AND 0xff00ff00) OR push_bit 8 (w AND 0x00ff00ff)"
proof -
  have m: "(0xff00ff00 :: u32) = push_bit 8 (mask 8) OR push_bit 24 (mask 8)"
    "(0x00ff00ff :: u32) = mask 8 OR push_bit 16 (mask 8)"
    by (simp_all add: mask_eq_exp_minus_1)
  have "bit (xswap w) n = bit (drop_bit 8 (w AND 0xff00ff00) OR push_bit 8 (w AND 0x00ff00ff)) n" if "n < 32" for n
  proof -
    have "n < 8 \<or> (8 \<le> n \<and> n < 16) \<or> (16 \<le> n \<and> n < 24) \<or> 24 \<le> n" by linarith
    then show ?thesis using that unfolding m by (auto simp: xswap_def bit_le32 bit_simps add.commute)
  qed
  then show ?thesis by (intro bit_word_eqI) simp
qed

lemma word_rotl_rol32: "0 < n \<Longrightarrow> n < 32 \<Longrightarrow> word_rotl n w = rol32 w n"
proof (rule bit_word_eqI)
  fix k assume n: "0 < n" "n < 32" and "k < LENGTH(32)"
  then have k: "k < 32" by simp
  have m: "(k + 32 - n) mod 32 = (if n \<le> k then k - n else k + 32 - n)"
    using n k by (auto simp: mod_if [of "k + 32 - n"])
  show "bit (word_rotl n w) k = bit (rol32 w n) k"
    using n k bit_imp_le_length [of w "k + 32 - n"]
    unfolding rol32_def bit_word_rotl_iff bit_or_iff bit_push_bit_iff bit_drop_bit_eq len_num1 len_bit0 
    by (auto simp: m not_less add.commute [of 32])
qed

lemma word_rotr_ror32: "0 < n \<Longrightarrow> n < 32 \<Longrightarrow> word_rotr n w = ror32 w n"
proof (rule bit_word_eqI)
  fix k assume n: "0 < n" "n < 32" and "k < LENGTH(32)"
  then have k: "k < 32" by simp
  have m: "(k + n) mod 32 = (if k + n < 32 then k + n else k + n - 32)"
    using n k by (auto simp: mod_if [of "k + n"])
  show "bit (word_rotr n w) k = bit (ror32 w n) k"
    using n k bit_imp_le_length [of w "k + n"]
    by (auto simp: ror32_def bit_word_rotr_iff bit_simps m not_less add.commute [of n])
qed

text \<open>The round of the standard is the block function of the code.\<close>

lemma michael_round_block:
  "michael_round (mic_l c, mic_r c) m = (mic_l (michael_block c m), mic_r (michael_block c m))"
  by (simp add: michael_block_def Let_def xswap_masks word_rotl_rol32 word_rotr_ror32)

lemma michael_rounds_blocks:
  "foldl michael_round (mic_l c, mic_r c) ms =
   (mic_l (foldl michael_block c ms), mic_r (foldl michael_block c ms))"
  by (induction ms arbitrary: c) (simp_all add: michael_round_block del: michael_round.simps)

text \<open>The test vectors of the standard: every code is the key of the next vector.\<close>

lemma rotations: "word_rotl 17 w = rol32 w 17" "word_rotl 3 w = rol32 w 3" "word_rotr 2 w = ror32 w 2"
  by (simp_all add: word_rotl_rol32 word_rotr_ror32)

lemmas michael_eval = michael_std_def michael_round.simps xswap_masks rotations rol32_def ror32_def
  le32_def put_le32_def Let_def

lemma michael_vector_0:
  "michael_std [0, 0, 0, 0, 0, 0, 0, 0] [] = [0x82, 0x92, 0x5c, 0x1c, 0xa1, 0xd1, 0x30, 0xb8]"
  by code_simp

lemma michael_vector_1:
  "michael_std [0x82, 0x92, 0x5c, 0x1c, 0xa1, 0xd1, 0x30, 0xb8] [0x4d]
   = [0x43, 0x47, 0x21, 0xca, 0x40, 0x63, 0x9b, 0x3f]"
  by code_simp

lemma michael_vector_2:
  "michael_std [0x43, 0x47, 0x21, 0xca, 0x40, 0x63, 0x9b, 0x3f] [0x4d, 0x69]
   = [0xe8, 0xf9, 0xbe, 0xca, 0xe9, 0x7e, 0x5d, 0x29]"
  by code_simp

lemma michael_vector_3:
  "michael_std [0xe8, 0xf9, 0xbe, 0xca, 0xe9, 0x7e, 0x5d, 0x29] [0x4d, 0x69, 0x63]
   = [0x90, 0x03, 0x8f, 0xc6, 0xcf, 0x13, 0xc1, 0xdb]"
  by code_simp

lemma michael_vector_4:
  "michael_std [0x90, 0x03, 0x8f, 0xc6, 0xcf, 0x13, 0xc1, 0xdb] [0x4d, 0x69, 0x63, 0x68]
   = [0xd5, 0x5e, 0x10, 0x05, 0x10, 0x12, 0x89, 0x86]"
  by code_simp

lemma michael_vector_5:
  "michael_std [0xd5, 0x5e, 0x10, 0x05, 0x10, 0x12, 0x89, 0x86] [0x4d, 0x69, 0x63, 0x68, 0x61, 0x65, 0x6c]
   = [0x0a, 0x94, 0x2b, 0x12, 0x4e, 0xca, 0xa5, 0x46]"
  by code_simp

lemma le_words_append: "length xs mod 4 = 0 \<Longrightarrow> le_words (xs @ ys) = le_words xs @ le_words ys"
  by (induction xs rule: le_words.induct) auto

lemma le_words_words: "4 * n \<le> length d \<Longrightarrow> le_words (take (4 * n) d) = words d 0 n"
proof (induction n)
  case (Suc n)
  have "take (4 * Suc n) d = take (4 * n) d @ take 4 (drop (4 * n) d)"
    by (simp flip: take_add add: add.commute)
  also have "take 4 (drop (4 * n) d) = [d ! (4 * n), d ! (4 * n + 1), d ! (4 * n + 2), d ! (4 * n + 3)]"
    using Suc.prems by (auto intro!: nth_equalityI simp: less_Suc_eq numeral_eq_Suc)
  finally show ?case using Suc by (simp add: le_words_append words_def)
qed (simp add: words_def)

lemma le32_pad:
  "le32 0x5a 0 0 0 = 0x5a" "le32 a 0x5a 0 0 = push_bit 8 0x5a OR ucast a"
  "le32 a b 0x5a 0 = push_bit 8 (push_bit 8 0x5a OR ucast b) OR ucast a"
  "le32 a b c 0x5a = push_bit 8 (push_bit 8 (push_bit 8 0x5a OR ucast c) OR ucast b) OR ucast a"
  by (simp_all add: le32_def push_bit_or or.assoc or.commute or.left_commute)

lemma le32_zero: "le32 0 0 0 0 = 0"
  by (simp add: le32_def)

text \<open>The last one to three bytes, the padding byte and the zeros are the two last words.\<close>

lemma michael_tail:
  assumes n: "n \<le> length d" and v: "michael_rest d (n div 4 * 4) (n mod 4) 0x5a = Some v"
  shows "le_words (drop (n div 4 * 4) (take n d) @ 0x5a # replicate (7 - n mod 4) 0) = [v, 0]"
proof -
  define b r where "b = n div 4 * 4" and "r = n mod 4"
  have nb: "n = b + r" "r < 4" by (simp_all add: b_def r_def)
  then consider "r = 0" | "r = 1" | "r = 2" | "r = 3" by linarith
  then show ?thesis
  proof cases
    case 1
    then have "v = le32 0x5a 0 0 0" using v unfolding le32_pad b_def [symmetric] r_def [symmetric] by simp
    with 1 nb show ?thesis unfolding b_def [symmetric] r_def [symmetric] by (simp add: numeral_eq_Suc le32_zero)
  next
    case 2
    have "drop b (take n d) = [d ! b]" using 2 nb n by (auto intro!: nth_equalityI)
    moreover have "v = le32 (d ! b) 0x5a 0 0"
      using 2 nb n v unfolding le32_pad b_def [symmetric] r_def [symmetric] by (simp add: rd8_def)
    ultimately show ?thesis using 2 unfolding b_def [symmetric] r_def [symmetric] by (simp add: numeral_eq_Suc le32_zero)
  next
    case 3
    have "drop b (take n d) = [d ! b, d ! (b + 1)]" using 3 nb n
      by (auto intro!: nth_equalityI simp: less_Suc_eq numeral_eq_Suc)
    moreover have "v = le32 (d ! b) (d ! (b + 1)) 0x5a 0"
      using 3 nb n v unfolding le32_pad b_def [symmetric] r_def [symmetric] by (simp add: rd8_def eval_nat_numeral)
    ultimately show ?thesis using 3 unfolding b_def [symmetric] r_def [symmetric] by (simp add: numeral_eq_Suc le32_zero)
  next
    case 4
    have "drop b (take n d) = [d ! b, d ! (b + 1), d ! (b + 2)]" using 4 nb n
      by (auto intro!: nth_equalityI simp: less_Suc_eq numeral_eq_Suc)
    moreover have "v = le32 (d ! b) (d ! (b + 1)) (d ! (b + 2)) 0x5a"
      using 4 nb n v unfolding le32_pad b_def [symmetric] r_def [symmetric] by (simp add: rd8_def eval_nat_numeral)
    ultimately show ?thesis using 4 unfolding b_def [symmetric] r_def [symmetric] by (simp add: numeral_eq_Suc le32_zero)
  qed
qed

definition frame_tid :: "kapi \<Rightarrow> bytes \<Rightarrow> u8 option" where
  "frame_tid K hdr = (if ieee80211_is_data_qos K (frame_control hdr)
     then map_option (\<lambda>q. q AND IEEE80211_QOS_CTL_TID_MASK) (qos_ctl0 K hdr) else Some 0)"

lemma le_words8: "8 \<le> length key \<Longrightarrow> rd_le32 key 0 = Some (le_words key ! 0) \<and> rd_le32 key 4 = Some (le_words key ! 1)"
proof -
  assume k: "8 \<le> length key"
  have "key = take 4 key @ take 4 (drop 4 key) @ drop 8 key"
    using append_take_drop_id [of 4 "drop 4 key"] by simp
  moreover have "take 4 key = [key ! 0, key ! 1, key ! 2, key ! 3]" "take 4 (drop 4 key) = [key ! 4, key ! 5, key ! 6, key ! 7]"
    using k by (auto intro!: nth_equalityI simp: less_Suc_eq numeral_eq_Suc)
  ultimately have "le_words key = le32 (key ! 0) (key ! 1) (key ! 2) (key ! 3) # le32 (key ! 4) (key ! 5) (key ! 6) (key ! 7) # le_words (drop 8 key)"
    by (metis append_Cons append_Nil le_words.simps(1))
  then show ?thesis using k by (auto simp: rd_le32_def rd8_def numeral_2_eq_2)
qed

lemma six_bytes: "length (a :: bytes) = 6 \<Longrightarrow> \<exists>x y z u v w. a = [x, y, z, u, v, w]"
  by (auto simp: length_Suc_conv numeral_eq_Suc)

lemma le_words_hdr:
  assumes "length da = 6" "length sa = 6" "rd_le32 da 0 = Some d1" "rd_le16 da 4 = Some d2" "rd_le16 sa 0 = Some s1" "rd_le32 sa 2 = Some s2"
  shows "le_words (da @ sa @ tid # 0 # 0 # 0 # xs) = [d1, ucast d2 OR push_bit 16 (ucast s1), s2, ucast tid] @ le_words xs"
proof -
  obtain a b c d e f where "da = [a, b, c, d, e, f]" using six_bytes [OF assms(1)] by blast
  moreover obtain g h i j k l where "sa = [g, h, i, j, k, l]" using six_bytes [OF assms(2)] by blast
  moreover have "le32 e f g h = ucast (le16 e f) OR push_bit 16 (ucast (le16 g h))"
    by (rule bit_word_eqI) (auto simp: bit_le32 bit_le16 bit_simps)
  moreover have "le32 tid 0 0 0 = ucast tid" by (simp add: le32_def)
  ultimately show ?thesis using assms(3-6) by (auto simp: rd_le32_def rd_le16_def rd8_def)
qed

text \<open>C12. For every key of at least eight bytes and every frame whose addresses and traffic class
  can be read, the code computes the Michael function of the standard (michael_std, which shares
  no definition with the code and passes the six test vectors of the standard above) over the
  pseudo header, the data and the padding. Besides the block function, this covers collecting the
  words in place, the packed pseudo header and the padding that is built in a register.\<close>

theorem michael_equals_reference:
  assumes da: "ieee80211_get_DA K hdr = Some da" and sa: "ieee80211_get_SA K hdr = Some sa"
    and tid: "frame_tid K hdr = Some tid" and key: "8 \<le> length key" and n: "n \<le> length data"
  shows "michael_mic K key hdr data n = Some (michael_reference key da sa tid (take n data))"
proof -
  have l: "length da = 6" "length sa = 6" using da sa by (auto simp: ieee80211_get_DA_def ieee80211_get_SA_def rd_mem_def split: if_splits)
  obtain d1 d2 s1 s2 where r: "rd_le32 da 0 = Some d1" "rd_le16 da 4 = Some d2" "rd_le16 sa 0 = Some s1" "rd_le32 sa 2 = Some s2"
    using l rd_le32_Some [of 0 da] rd_le16_Some [of 4 da] rd_le16_Some [of 0 sa] rd_le32_Some [of 2 sa] by auto
  let ?c = "foldl michael_block \<lparr>mic_l = le_words key ! 0, mic_r = le_words key ! 1\<rparr> [d1, ucast d2 OR push_bit 16 (ucast s1), s2, ucast tid]"
  have h: "michael_mic_hdr K key hdr = Some ?c"
    using da sa tid r le_words8 [OF key]
    by (auto simp: michael_mic_hdr_def frame_tid_def Let_def Option.bind_eq_Some_conv split: if_splits)
  obtain v where v: "michael_rest data (n div 4 * 4) (n mod 4) 0x5a = Some v"
    and m: "michael_mic K key hdr data n = Some (michael_final (foldl michael_block ?c (words data 0 (n div 4))) v)"
    using michael_mic_words [OF h n] by blast
  let ?pad = "0x5a # replicate (7 - n mod 4) (0 :: u8)"
  have "take n data @ ?pad = take (4 * (n div 4)) data @ drop (n div 4 * 4) (take n data) @ ?pad"
    using append_take_drop_id [of "4 * (n div 4)" "take n data"] n by (simp add: mult.commute min_def)
  moreover have "length (take (4 * (n div 4)) data) mod 4 = 0" "4 * (n div 4) \<le> length data" using n by simp_all
  ultimately have "le_words (take n data @ ?pad) = words data 0 (n div 4) @ [v, 0]"
    using michael_tail [OF n v] by (simp only: le_words_append le_words_words)
  then have W: "le_words ((da @ sa @ [tid, 0, 0, 0] @ take n data) @ ?pad) =
      [d1, ucast d2 OR push_bit 16 (ucast s1), s2, ucast tid] @ words data 0 (n div 4) @ [v, 0]"
    using le_words_hdr [OF l r, of tid "take n data @ ?pad"] by (simp only: append_assoc append_Cons append_Nil)
  have len: "length (da @ sa @ [tid, 0, 0, 0] @ take n data) mod 4 = n mod 4"
  proof -
    have "length (da @ sa @ [tid, 0, 0, 0] @ take n data) = n + 4 * 4" using l n by simp
    then show ?thesis by (simp only: mod_mult_self2)
  qed
  have fold: "foldl michael_round (le_words key ! 0, le_words key ! 1) ms =
      (let c = foldl michael_block \<lparr>mic_l = le_words key ! 0, mic_r = le_words key ! 1\<rparr> ms in (mic_l c, mic_r c))" for ms
    using michael_rounds_blocks [of "\<lparr>mic_l = le_words key ! 0, mic_r = le_words key ! 1\<rparr>" ms]
    unfolding michael_mic_ctx.simps Let_def .
  show ?thesis
    unfolding m michael_reference_def michael_std_def len W fold
    by (simp add: michael_final_def Let_def)
qed

theorem michael_equals_reference_witness:
  "michael_mic linux_kapi demo_key demo_hdr [1,2,3,4,5] 5 =
   Some (michael_reference demo_key [13,14,15,16,17,18] [7,8,9,10,11,12] 5 [1,2,3,4,5])"
proof -
  have da: "ieee80211_get_DA linux_kapi demo_hdr = Some [13,14,15,16,17,18]"
    by (simp add: ieee80211_get_DA_def demo_hdr_fc rd_mem_def) (simp add: demo_hdr_def)
  have sa: "ieee80211_get_SA linux_kapi demo_hdr = Some [7,8,9,10,11,12]"
    by (simp add: ieee80211_get_SA_def demo_hdr_fc rd_mem_def) (simp add: demo_hdr_def)
  have tid: "frame_tid linux_kapi demo_hdr = Some 5"
    by (simp add: frame_tid_def qos_ctl0_def demo_hdr_fc rd8_def del: rd8_Some_iff) (simp add: demo_hdr_def)
  have "michael_mic linux_kapi demo_key demo_hdr [1,2,3,4,5] 5 =
      Some (michael_reference demo_key [13,14,15,16,17,18] [7,8,9,10,11,12] 5 (take 5 [1,2,3,4,5]))"
    by (rule michael_equals_reference [OF da sa tid]) (simp_all add: demo_key_def)
  then show ?thesis by simp
qed

end
