(* ===== verification/R92_Wep.thy ===== *)
theory R92_Wep
  imports R92_Michael
begin

text \<open>
  WEP payload encryption (\<open>wep.c\<close>). The kernel's crypto API is the record \<open>crypto_api\<close>:
  the ARC4 cipher with its state, the CRC-32 of the kernel's library, and the AEAD transform
  that \<open>aes_ccm.c\<close> uses. \<open>arc4_ok\<close> and \<open>ccm_ok\<close> are what the driver relies on: decryption
  inverts encryption. Buffers are byte lists and the functions work in place at an offset; an
  access outside the buffer is \<open>None\<close>.
\<close>

section \<open>The crypto API of the kernel\<close>

record 'c crypto_api =
  crypto_cipher_setkey :: "bytes \<Rightarrow> 'c"
  crypto_cipher_encrypt_one :: "'c \<Rightarrow> u8 \<Rightarrow> u8 \<times> 'c"
  crypto_cipher_decrypt_one :: "'c \<Rightarrow> u8 \<Rightarrow> u8 \<times> 'c"
  crc32_le :: "u32 \<Rightarrow> bytes \<Rightarrow> u32"
  crypto_aead_encrypt :: "bytes \<Rightarrow> bytes \<Rightarrow> bytes \<Rightarrow> bytes \<Rightarrow> nat \<Rightarrow> bytes"
  crypto_aead_decrypt :: "bytes \<Rightarrow> bytes \<Rightarrow> bytes \<Rightarrow> bytes \<Rightarrow> nat \<Rightarrow> int \<times> bytes"

definition arc4_ok :: "'c crypto_api \<Rightarrow> bool" where
  "arc4_ok C \<longleftrightarrow> (\<forall>c b. crypto_cipher_decrypt_one C c (fst (crypto_cipher_encrypt_one C c b)) =
     (b, snd (crypto_cipher_encrypt_one C c b)))"

definition ccm_ok :: "'c crypto_api \<Rightarrow> bool" where
  "ccm_ok C \<longleftrightarrow>
     (\<forall>key b0 aad p m. length (crypto_aead_encrypt C key b0 aad p m) = length p + m) \<and>
     (\<forall>key b0 aad p m. crypto_aead_decrypt C key b0 aad (crypto_aead_encrypt C key b0 aad p m) m = (0, p)) \<and>
     (\<forall>key b0 aad q m. length (snd (crypto_aead_decrypt C key b0 aad q m)) = length q - m)"

text \<open>A concrete API for the witnesses: a counter key stream and a checksum as the tag.\<close>

definition toy_sum :: "bytes \<Rightarrow> u8" where
  "toy_sum xs = fold (\<lambda>b c. (c + c + b) + 1) xs 7"

definition toy_crypto :: "u8 crypto_api" where
  "toy_crypto = \<lparr>
     crypto_cipher_setkey = toy_sum,
     crypto_cipher_encrypt_one = (\<lambda>c b. (b XOR c, c + 3)),
     crypto_cipher_decrypt_one = (\<lambda>c b. (b XOR c, c + 3)),
     crc32_le = (\<lambda>c xs. fold (\<lambda>b c. rol32 c 5 XOR ucast b) xs c),
     crypto_aead_encrypt = (\<lambda>key b0 aad p m.
        map (\<lambda>b. b XOR toy_sum (key @ b0)) p @ replicate m (toy_sum (key @ b0 @ aad @ p))),
     crypto_aead_decrypt = (\<lambda>key b0 aad q m.
        let p = map (\<lambda>b. b XOR toy_sum (key @ b0)) (take (length q - m) q) in
        (if drop (length q - m) q = replicate m (toy_sum (key @ b0 @ aad @ p)) then 0 else - 74, p)) \<rparr>"

lemma arc4_ok_toy: "arc4_ok toy_crypto"
  by (simp add: arc4_ok_def toy_crypto_def xor_cancel)

lemma ccm_ok_toy: "ccm_ok toy_crypto"
  by (simp add: ccm_ok_def toy_crypto_def Let_def xor_cancel comp_def)

section \<open>Encryption and decryption of a payload\<close>

abbreviation (input) IEEE80211_WEP_IV_LEN :: nat where "IEEE80211_WEP_IV_LEN \<equiv> 4"
abbreviation (input) IEEE80211_WEP_ICV_LEN :: nat where "IEEE80211_WEP_ICV_LEN \<equiv> 4"
abbreviation (input) WLAN_KEY_LEN_WEP40 :: nat where "WLAN_KEY_LEN_WEP40 \<equiv> 5"
abbreviation (input) WLAN_KEY_LEN_WEP104 :: nat where "WLAN_KEY_LEN_WEP104 \<equiv> 13"

text \<open>The byte loops: the cipher state runs along the buffer.\<close>

fun cipher_loop :: "('c \<Rightarrow> u8 \<Rightarrow> u8 \<times> 'c) \<Rightarrow> 'c \<Rightarrow> bytes \<Rightarrow> bytes" where
  "cipher_loop one c [] = []"
| "cipher_loop one c (b # bs) = (case one c b of (x, c') \<Rightarrow> x # cipher_loop one c' bs)"

lemma length_cipher_loop [simp]: "length (cipher_loop one c bs) = length bs"
  by (induction bs arbitrary: c) (auto split: prod.splits)

lemma cipher_loop_inverse:
  "arc4_ok C \<Longrightarrow> cipher_loop (crypto_cipher_decrypt_one C) c
     (cipher_loop (crypto_cipher_encrypt_one C) c bs) = bs"
proof (induction bs arbitrary: c)
  case (Cons b bs)
  have "crypto_cipher_decrypt_one C c (fst (crypto_cipher_encrypt_one C c b)) =
     (b, snd (crypto_cipher_encrypt_one C c b))"
    using Cons.prems by (simp add: arc4_ok_def)
  then show ?case using Cons.IH [OF Cons.prems] by (simp add: case_prod_beta)
qed simp

definition icv_of :: "'c crypto_api \<Rightarrow> bytes \<Rightarrow> bytes" where
  "icv_of C data = put_le32 (NOT (crc32_le C (NOT 0) data))"

lemma length_icv_of [simp]: "length (icv_of C data) = 4"
  by (simp add: icv_of_def)

definition ieee80211_wep_encrypt_data ::
    "'c crypto_api \<Rightarrow> bytes \<Rightarrow> bytes \<Rightarrow> nat \<Rightarrow> nat \<Rightarrow> bytes option" where
  "ieee80211_wep_encrypt_data C rc4key buf off data_len = do {
     data \<leftarrow> rd_mem buf off data_len;
     buf \<leftarrow> wr_mem buf (off + data_len) (icv_of C data);
     let c = crypto_cipher_setkey C rc4key;
     plain \<leftarrow> rd_mem buf off (data_len + IEEE80211_WEP_ICV_LEN);
     wr_mem buf off (cipher_loop (crypto_cipher_encrypt_one C) c plain) }"

text \<open>The result is 0 or -1, as in C, with the buffer decrypted in place.\<close>

definition ieee80211_wep_decrypt_data ::
    "'c crypto_api \<Rightarrow> bool \<Rightarrow> bytes \<Rightarrow> bytes \<Rightarrow> nat \<Rightarrow> nat \<Rightarrow> (int \<times> bytes) option" where
  "ieee80211_wep_decrypt_data C tfm_ok rc4key buf off data_len =
     (if \<not> tfm_ok then Some (- 1, buf)
      else do {
        let c = crypto_cipher_setkey C rc4key;
        enc \<leftarrow> rd_mem buf off (data_len + IEEE80211_WEP_ICV_LEN);
        buf \<leftarrow> wr_mem buf off (cipher_loop (crypto_cipher_decrypt_one C) c enc);
        data \<leftarrow> rd_mem buf off data_len;
        icv \<leftarrow> rd_mem buf (off + data_len) IEEE80211_WEP_ICV_LEN;
        Some (if icv_of C data \<noteq> icv then - 1 else 0, buf) })"

text \<open>The seed of a WEP frame: the 24-bit IV, then the secret key.\<close>

definition wep_rc4key :: "u32 \<Rightarrow> bytes \<Rightarrow> nat \<Rightarrow> bytes" where
  "wep_rc4key iv key keylen = [ucast (drop_bit 16 iv), ucast (drop_bit 8 iv), ucast iv] @ take keylen key"

definition ieee80211_wep_encrypt ::
    "kapi \<Rightarrow> 'c crypto_api \<Rightarrow> 'b sk_buff \<Rightarrow> bytes \<Rightarrow> u32 \<Rightarrow> nat \<Rightarrow> 'b sk_buff option" where
  "ieee80211_wep_encrypt K C skb key iv keylen = do {
     let offset = ieee80211_hdrlen K (frame_control (skb_data skb)) + IEEE80211_WEP_IV_LEN;
     let len = int (skb_len skb) - int offset;
     skb \<leftarrow> skb_put_data skb (replicate IEEE80211_WEP_ICV_LEN 0);
     if len < 0 then None
     else do {
       buf \<leftarrow> ieee80211_wep_encrypt_data C (wep_rc4key iv key keylen) (skb_data skb) offset (nat len);
       Some (skb\<lparr>skb_data := buf\<rparr>) } }"

text \<open>
  The caller has removed the IV, so \<open>offset\<close> is the header length; \<open>len\<close> is what follows
  it. The bytes behind the frame belong to the tailroom of the buffer: \<open>tail\<close> are those
  bytes, which the decryption loop also reads and writes.
\<close>

definition ieee80211_wep_decrypt ::
    "kapi \<Rightarrow> 'c crypto_api \<Rightarrow> bool \<Rightarrow> 'b sk_buff \<Rightarrow> bytes \<Rightarrow> bytes \<Rightarrow> u32 \<Rightarrow> nat \<Rightarrow>
     (int \<times> 'b sk_buff) option" where
  "ieee80211_wep_decrypt K C tfm_ok skb tail key iv keylen = do {
     let offset = ieee80211_hdrlen K (frame_control (skb_data skb));
     let len = int (skb_len skb) - int offset;
     if len < 0 then None
     else do {
       (err, buf) \<leftarrow> ieee80211_wep_decrypt_data C tfm_ok (wep_rc4key iv key keylen)
          (skb_data skb @ tail) offset (nat len);
       Some (err, skb\<lparr>skb_data := take (skb_len skb) buf\<rparr>) } }"

section \<open>Decryption inverts encryption\<close>

lemma rd_mem_app: "rd_mem (pre @ data @ rest) (length pre) (length data) = Some data"
  by (simp add: rd_mem_def)

lemma wr_mem_app: "length new = length old \<Longrightarrow>
   wr_mem (pre @ old @ rest) (length pre) new = Some (pre @ new @ rest)"
  by (simp add: wr_mem_def)

lemma wep_encrypt_data_app:
  assumes "length icv = 4"
  shows "ieee80211_wep_encrypt_data C rc4key (pre @ data @ icv @ rest) (length pre) (length data) =
    Some (pre @ cipher_loop (crypto_cipher_encrypt_one C) (crypto_cipher_setkey C rc4key)
       (data @ icv_of C data) @ rest)"
  using assms rd_mem_app [of pre data "icv @ rest"] rd_mem_app [of pre "data @ icv_of C data" rest]
    wr_mem_app [of "icv_of C data" icv "pre @ data" rest]
    wr_mem_app [of "cipher_loop (crypto_cipher_encrypt_one C) (crypto_cipher_setkey C rc4key)
       (data @ icv_of C data)" "data @ icv_of C data" pre rest]
  by (simp add: ieee80211_wep_encrypt_data_def Let_def)

lemma wep_decrypt_data_app:
  assumes C: "arc4_ok C"
  shows "ieee80211_wep_decrypt_data C True rc4key
    (pre @ cipher_loop (crypto_cipher_encrypt_one C) (crypto_cipher_setkey C rc4key)
       (data @ icv_of C data) @ rest) (length pre) (length data) =
    Some (0, pre @ data @ icv_of C data @ rest)"
  by (simp add: ieee80211_wep_decrypt_data_def rd_mem_def wr_mem_def cipher_loop_inverse [OF C])

text \<open>C28. Decrypting a WEP payload that was encrypted with the same seed gives back the
  payload and accepts its integrity check value, and touches no other byte of the frame.\<close>

theorem wep_data_roundtrip:
  assumes C: "arc4_ok C" and len: "off + data_len + 4 \<le> length buf"
  shows "\<exists>enc. ieee80211_wep_encrypt_data C rc4key buf off data_len = Some enc \<and>
     (\<exists>dec. ieee80211_wep_decrypt_data C True rc4key enc off data_len = Some (0, dec) \<and>
        take (off + data_len) dec = take (off + data_len) buf \<and>
        drop (off + data_len + 4) dec = drop (off + data_len + 4) buf)"
proof -
  define pre data icv rest where "pre = take off buf" and "data = take data_len (drop off buf)"
    and "icv = take 4 (drop (off + data_len) buf)" and "rest = drop (off + data_len + 4) buf"
  have l: "length pre = off" "length data = data_len" "length icv = 4"
    using len by (simp_all add: pre_def data_def icv_def)
  have buf: "buf = pre @ data @ icv @ rest"
    by (simp add: pre_def data_def icv_def rest_def)
      (metis (no_types, lifting) add.assoc append_take_drop_id drop_drop add.commute)
  have "ieee80211_wep_encrypt_data C rc4key buf off data_len =
    Some (pre @ cipher_loop (crypto_cipher_encrypt_one C) (crypto_cipher_setkey C rc4key)
       (data @ icv_of C data) @ rest)" (is "_ = Some ?enc")
    using wep_encrypt_data_app [OF l(3), of C rc4key pre data rest] l by (simp add: buf)
  moreover have "ieee80211_wep_decrypt_data C True rc4key ?enc off data_len =
    Some (0, pre @ data @ icv_of C data @ rest)"
    using wep_decrypt_data_app [OF C, of rc4key pre data rest] l by simp
  ultimately show ?thesis using l by (auto simp: buf)
qed

theorem wep_data_roundtrip_witness:
  "\<exists>enc dec. ieee80211_wep_encrypt_data toy_crypto [1,2,3] [9,9,10,20,30,0,0,0,0] 2 3 = Some enc \<and>
     ieee80211_wep_decrypt_data toy_crypto True [1,2,3] enc 2 3 = Some (0, dec) \<and>
     take 5 dec = [9,9,10,20,30]"
  using wep_data_roundtrip [OF arc4_ok_toy, of 2 3 "[9,9,10,20,30,0,0,0,0]" "[1,2,3]"] by auto

end
