(* ===== verification/R92_Tkip.thy ===== *)
theory R92_Tkip
  imports R92_Wep
begin

text \<open>
  TKIP key mixing and payload encryption (\<open>tkip.c\<close>). The 16-bit words are kept at their
  width; the arrays \<open>p1k\<close> and \<open>ppk\<close> are records of their elements.
\<close>

section \<open>Key mixing\<close>

definition tkip_sbox :: "u16 list" where
  "tkip_sbox = [
    0xC6A5, 0xF884, 0xEE99, 0xF68D, 0xFF0D, 0xD6BD, 0xDEB1, 0x9154,
    0x6050, 0x0203, 0xCEA9, 0x567D, 0xE719, 0xB562, 0x4DE6, 0xEC9A,
    0x8F45, 0x1F9D, 0x8940, 0xFA87, 0xEF15, 0xB2EB, 0x8EC9, 0xFB0B,
    0x41EC, 0xB367, 0x5FFD, 0x45EA, 0x23BF, 0x53F7, 0xE496, 0x9B5B,
    0x75C2, 0xE11C, 0x3DAE, 0x4C6A, 0x6C5A, 0x7E41, 0xF502, 0x834F,
    0x685C, 0x51F4, 0xD134, 0xF908, 0xE293, 0xAB73, 0x6253, 0x2A3F,
    0x080C, 0x9552, 0x4665, 0x9D5E, 0x3028, 0x37A1, 0x0A0F, 0x2FB5,
    0x0E09, 0x2436, 0x1B9B, 0xDF3D, 0xCD26, 0x4E69, 0x7FCD, 0xEA9F,
    0x121B, 0x1D9E, 0x5874, 0x342E, 0x362D, 0xDCB2, 0xB4EE, 0x5BFB,
    0xA4F6, 0x764D, 0xB761, 0x7DCE, 0x527B, 0xDD3E, 0x5E71, 0x1397,
    0xA6F5, 0xB968, 0x0000, 0xC12C, 0x4060, 0xE31F, 0x79C8, 0xB6ED,
    0xD4BE, 0x8D46, 0x67D9, 0x724B, 0x94DE, 0x98D4, 0xB0E8, 0x854A,
    0xBB6B, 0xC52A, 0x4FE5, 0xED16, 0x86C5, 0x9AD7, 0x6655, 0x1194,
    0x8ACF, 0xE910, 0x0406, 0xFE81, 0xA0F0, 0x7844, 0x25BA, 0x4BE3,
    0xA2F3, 0x5DFE, 0x80C0, 0x058A, 0x3FAD, 0x21BC, 0x7048, 0xF104,
    0x63DF, 0x77C1, 0xAF75, 0x4263, 0x2030, 0xE51A, 0xFD0E, 0xBF6D,
    0x814C, 0x1814, 0x2635, 0xC32F, 0xBEE1, 0x35A2, 0x88CC, 0x2E39,
    0x9357, 0x55F2, 0xFC82, 0x7A47, 0xC8AC, 0xBAE7, 0x322B, 0xE695,
    0xC0A0, 0x1998, 0x9ED1, 0xA37F, 0x4466, 0x547E, 0x3BAB, 0x0B83,
    0x8CCA, 0xC729, 0x6BD3, 0x283C, 0xA779, 0xBCE2, 0x161D, 0xAD76,
    0xDB3B, 0x6456, 0x744E, 0x141E, 0x92DB, 0x0C0A, 0x486C, 0xB8E4,
    0x9F5D, 0xBD6E, 0x43EF, 0xC4A6, 0x39A8, 0x31A4, 0xD337, 0xF28B,
    0xD532, 0x8B43, 0x6E59, 0xDAB7, 0x018C, 0xB164, 0x9CD2, 0x49E0,
    0xD8B4, 0xACFA, 0xF307, 0xCF25, 0xCAAF, 0xF48E, 0x47E9, 0x1018,
    0x6FD5, 0xF088, 0x4A6F, 0x5C72, 0x3824, 0x57F1, 0x73C7, 0x9751,
    0xCB23, 0xA17C, 0xE89C, 0x3E21, 0x96DD, 0x61DC, 0x0D86, 0x0F85,
    0xE090, 0x7C42, 0x71C4, 0xCCAA, 0x90D8, 0x0605, 0xF701, 0x1C12,
    0xC2A3, 0x6A5F, 0xAEF9, 0x69D0, 0x1791, 0x9958, 0x3A27, 0x27B9,
    0xD938, 0xEB13, 0x2BB3, 0x2233, 0xD2BB, 0xA970, 0x0789, 0x33A7,
    0x2DB6, 0x3C22, 0x1592, 0xC920, 0x8749, 0xAAFF, 0x5078, 0xA57A,
    0x038F, 0x59F8, 0x0980, 0x1A17, 0x65DA, 0xD731, 0x84C6, 0xD0B8,
    0x82C3, 0x29B0, 0x5A77, 0x1E11, 0x7BCB, 0xA8FC, 0x6DD6, 0x2C3A]"

definition tkipS :: "u16 \<Rightarrow> u16" where
  "tkipS val = tkip_sbox ! unat (val AND 0xff) XOR swab16 (tkip_sbox ! unat (drop_bit 8 val))"

definition write_tkip_iv :: "u16 \<Rightarrow> bytes" where
  "write_tkip_iv iv16 = [ucast (drop_bit 8 iv16), ucast ((drop_bit 8 iv16 OR 0x20) AND 0x7f),
     ucast (iv16 AND 0xFF)]"

record tkip_ctx =
  p1k0 :: u16
  p1k1 :: u16
  p1k2 :: u16
  p1k3 :: u16
  p1k4 :: u16
  p1k_iv32 :: u32

text \<open>The temporal key has sixteen bytes; \<open>tk16 tk i\<close> is \<open>get_unaligned_le16(tk + i)\<close>.\<close>

definition tk16 :: "bytes \<Rightarrow> nat \<Rightarrow> u16" where
  "tk16 tk i = le16 (tk ! i) (tk ! (i + 1))"

text \<open>One round of the first phase, and its loop.\<close>

definition phase1_round :: "bytes \<Rightarrow> nat \<Rightarrow> tkip_ctx \<Rightarrow> tkip_ctx" where
  "phase1_round tk i c =
     (let j = 2 * (i mod 2);
          a0 = p1k0 c + tkipS (p1k4 c XOR tk16 tk (0 + j));
          a1 = p1k1 c + tkipS (a0 XOR tk16 tk (4 + j));
          a2 = p1k2 c + tkipS (a1 XOR tk16 tk (8 + j));
          a3 = p1k3 c + tkipS (a2 XOR tk16 tk (12 + j));
          a4 = p1k4 c + (tkipS (a3 XOR tk16 tk (0 + j)) + of_nat i)
      in c\<lparr>p1k0 := a0, p1k1 := a1, p1k2 := a2, p1k3 := a3, p1k4 := a4\<rparr>)"

abbreviation (input) PHASE1_LOOP_COUNT :: nat where "PHASE1_LOOP_COUNT \<equiv> 8"

definition tkip_mixing_phase1 :: "bytes \<Rightarrow> bytes \<Rightarrow> u32 \<Rightarrow> tkip_ctx" where
  "tkip_mixing_phase1 tk ta tsc_IV32 =
     (let c = \<lparr>p1k0 = ucast (tsc_IV32 AND 0xffff), p1k1 = ucast (drop_bit 16 tsc_IV32),
               p1k2 = tk16 ta 0, p1k3 = tk16 ta 2, p1k4 = tk16 ta 4, p1k_iv32 = 0\<rparr>
      in (fold (phase1_round tk) [0..<PHASE1_LOOP_COUNT] c)\<lparr>p1k_iv32 := tsc_IV32\<rparr>)"

definition tkip_mixing_phase2 :: "bytes \<Rightarrow> tkip_ctx \<Rightarrow> u16 \<Rightarrow> bytes" where
  "tkip_mixing_phase2 tk c tsc_IV16 =
     (let q0 = p1k0 c; q1 = p1k1 c; q2 = p1k2 c; q3 = p1k3 c; q4 = p1k4 c;
          q5 = p1k4 c + tsc_IV16;
          q0 = q0 + tkipS (q5 XOR tk16 tk 0);
          q1 = q1 + tkipS (q0 XOR tk16 tk 2);
          q2 = q2 + tkipS (q1 XOR tk16 tk 4);
          q3 = q3 + tkipS (q2 XOR tk16 tk 6);
          q4 = q4 + tkipS (q3 XOR tk16 tk 8);
          q5 = q5 + tkipS (q4 XOR tk16 tk 10);
          q0 = q0 + ror16 (q5 XOR tk16 tk 12) 1;
          q1 = q1 + ror16 (q0 XOR tk16 tk 14) 1;
          q2 = q2 + ror16 q1 1;
          q3 = q3 + ror16 q2 1;
          q4 = q4 + ror16 q3 1;
          q5 = q5 + ror16 q4 1
      in write_tkip_iv tsc_IV16 @ [ucast (drop_bit 1 (q5 XOR tk16 tk 0) AND 0xFF)] @
         concat (map put_le16 [q0, q1, q2, q3, q4, q5]))"

text \<open>The RC4 key of the packet with number \<open>pn\<close>.\<close>

definition tkip_rc4key :: "bytes \<Rightarrow> bytes \<Rightarrow> u64 \<Rightarrow> bytes" where
  "tkip_rc4key tk ta pn =
     tkip_mixing_phase2 tk (tkip_mixing_phase1 tk ta (ucast (drop_bit 16 pn))) (ucast pn)"

section \<open>Payload encryption\<close>

abbreviation (input) IEEE80211_TKIP_IV_LEN :: nat where "IEEE80211_TKIP_IV_LEN \<equiv> 8"
abbreviation (input) IEEE80211_TKIP_ICV_LEN :: nat where "IEEE80211_TKIP_ICV_LEN \<equiv> 4"
abbreviation (input) WLAN_KEY_LEN_TKIP :: nat where "WLAN_KEY_LEN_TKIP \<equiv> 32"

text \<open>
  \<open>len\<close> is a \<open>size_t\<close>: for a frame that is too short it wraps to a huge value and the
  cipher loop leaves the buffer, which is \<open>None\<close>.
\<close>

definition ieee80211_tkip_encrypt_data ::
    "kapi \<Rightarrow> 'c crypto_api \<Rightarrow> bytes \<Rightarrow> 'b sk_buff \<Rightarrow> u64 \<Rightarrow> 'b sk_buff option" where
  "ieee80211_tkip_encrypt_data K C tk skb pn = do {
     let offset = ieee80211_hdrlen K (frame_control (skb_data skb)) + IEEE80211_TKIP_IV_LEN;
     let len = int (skb_len skb) - int offset - int IEEE80211_TKIP_ICV_LEN;
     if len < 0 then None
     else do {
       addr2 \<leftarrow> rd_mem (skb_data skb) 10 6;
       buf \<leftarrow> ieee80211_wep_encrypt_data C (tkip_rc4key tk addr2 pn) (skb_data skb) offset (nat len);
       Some (skb\<lparr>skb_data := buf\<rparr>) } }"

definition ieee80211_tkip_decrypt_data ::
    "kapi \<Rightarrow> 'c crypto_api \<Rightarrow> bool \<Rightarrow> bytes \<Rightarrow> 'b sk_buff \<Rightarrow> u64 \<Rightarrow> (int \<times> 'b sk_buff) option" where
  "ieee80211_tkip_decrypt_data K C tfm_ok tk skb pn = do {
     let offset = ieee80211_hdrlen K (frame_control (skb_data skb));
     let len = int (skb_len skb) - int offset - int IEEE80211_TKIP_ICV_LEN;
     addr2 \<leftarrow> rd_mem (skb_data skb) 10 6;
     if len < 0 then (if tfm_ok then None else Some (- 1, skb))
     else do {
       (err, buf) \<leftarrow> ieee80211_wep_decrypt_data C tfm_ok (tkip_rc4key tk addr2 pn)
          (skb_data skb) offset (nat len);
       Some (err, skb\<lparr>skb_data := buf\<rparr>) } }"

lemma length_tkip_sbox [simp]: "length tkip_sbox = 256"
  by (simp add: tkip_sbox_def)

text \<open>Both table lookups of \<open>tkipS\<close> are inside the table.\<close>

lemma tkipS_in_table:
  "unat (val AND 0xff :: u16) < length tkip_sbox" "unat (drop_bit 8 (val :: u16)) < length tkip_sbox"
proof -
  have "val AND 0xff = take_bit 8 val"
    using take_bit_eq_mask [of 8 val] by (simp add: mask_eq_exp_minus_1)
  moreover have "uint (take_bit 8 val) < 256"
    by (simp only: unsigned_take_bit_eq) (simp add: take_bit_eq_mod)
  ultimately show "unat (val AND 0xff) < length tkip_sbox" by (intro unat_ltI) simp
  have "uint val < 2 ^ LENGTH(16)" by (rule unsigned_less)
  moreover from this have "uint (drop_bit 8 val) = uint val div 256"
    by (simp only: unsigned_drop_bit_eq) (simp add: drop_bit_eq_div take_bit_eq_mod)
  ultimately show "unat (drop_bit 8 val) < length tkip_sbox" by (intro unat_ltI) simp
qed

lemma length_tkip_rc4key [simp]: "length (tkip_rc4key tk ta pn) = 16"
  by (simp add: tkip_rc4key_def tkip_mixing_phase2_def write_tkip_iv_def Let_def)

text \<open>
  The second seed byte keeps bit 5 set and bit 7 clear, which keeps the seed out of the class
  of weak RC4 keys; the first and third byte carry the low word of the packet number.
\<close>

lemma tkip_seed_head:
  "take 3 (tkip_rc4key tk ta pn) = write_tkip_iv (ucast pn)"
  by (simp add: tkip_rc4key_def tkip_mixing_phase2_def write_tkip_iv_def Let_def)

lemma write_tkip_iv_le16: "le16 (write_tkip_iv w ! 2) (write_tkip_iv w ! 0) = w"
proof (rule bit_word_eqI)
  have m: "(0xFF :: u16) = mask 8" by (simp add: mask_eq_exp_minus_1)
  fix n
  assume "n < LENGTH(16)"
  then show "bit (le16 (write_tkip_iv w ! 2) (write_tkip_iv w ! 0)) n \<longleftrightarrow> bit w n"
    unfolding write_tkip_iv_def m by (auto simp: bit_le16 bit_simps simp del: mask_numeral)
qed

lemma write_tkip_iv_second: "write_tkip_iv w ! 1 \<noteq> 0xFF"
proof
  assume "write_tkip_iv w ! 1 = 0xFF"
  then have "(ucast ((drop_bit 8 w OR 0x20) AND 0x7f) :: u8) = 0xFF" by (simp add: write_tkip_iv_def)
  then have "bit (ucast ((drop_bit 8 w OR 0x20) AND 0x7f) :: u8) 7" by simp
  then show False by (simp add: bit_simps)
qed

text \<open>C29. The RC4 seeds of two packets whose numbers differ in the low 16 bits differ, for all
  keys and addresses, and no seed has the second byte 255 that the weak-key attack on WEP
  needs.\<close>

theorem tkip_seed_fresh:
  assumes "(ucast pn :: u16) \<noteq> ucast pn'"
  shows "tkip_rc4key tk ta pn \<noteq> tkip_rc4key tk' ta' pn' \<and> tkip_rc4key tk ta pn ! 1 \<noteq> 0xFF"
proof
  show "tkip_rc4key tk ta pn \<noteq> tkip_rc4key tk' ta' pn'"
    using assms by (metis tkip_seed_head write_tkip_iv_le16)
  have "tkip_rc4key tk ta pn ! 1 = take 3 (tkip_rc4key tk ta pn) ! 1" by simp
  then show "tkip_rc4key tk ta pn ! 1 \<noteq> 0xFF"
    by (simp only: tkip_seed_head write_tkip_iv_second) simp
qed

theorem tkip_seed_fresh_witness:
  "tkip_rc4key (replicate 16 1) [1, 2, 3, 4, 5, 6] 7 \<noteq> tkip_rc4key (replicate 16 1) [1, 2, 3, 4, 5, 6] 8"
  using tkip_seed_fresh [of 7 8 "replicate 16 1" "[1, 2, 3, 4, 5, 6]" "replicate 16 1" "[1, 2, 3, 4, 5, 6]"] by simp

text \<open>The key, and the context between the rounds, of the published test vector.\<close>

definition vector_tk :: bytes where
  "vector_tk = [0,1,2,3,4,5,6,7,8,9,10,11,12,13,14,15]"

definition vector_ctx :: "u16 \<Rightarrow> u16 \<Rightarrow> u16 \<Rightarrow> u16 \<Rightarrow> u16 \<Rightarrow> tkip_ctx" where
  "vector_ctx a b c d e = \<lparr>p1k0 = a, p1k1 = b, p1k2 = c, p1k3 = d, p1k4 = e, p1k_iv32 = 0\<rparr>"

lemma phase1_vals:
  "phase1_round vector_tk 0 (vector_ctx 0 0 8720 17459 26197) = (vector_ctx 30478 3625 55197 9321 3779)"
  "phase1_round vector_tk 1 (vector_ctx 30478 3625 55197 9321 3779) = (vector_ctx 2379 18844 10128 28382 25261)"
  "phase1_round vector_tk 2 (vector_ctx 2379 18844 10128 28382 25261) = (vector_ctx 12436 43827 47321 53650 28896)"
  "phase1_round vector_tk 3 (vector_ctx 12436 43827 47321 53650 28896) = (vector_ctx 53834 688 43230 54714 18982)"
  "phase1_round vector_tk 4 (vector_ctx 53834 688 43230 54714 18982) = (vector_ctx 3529 13420 39017 47677 46544)"
  "phase1_round vector_tk 5 (vector_ctx 3529 13420 39017 47677 46544) = (vector_ctx 45345 34367 26756 8912 8954)"
  "phase1_round vector_tk 6 (vector_ctx 45345 34367 26756 8912 8954) = (vector_ctx 57692 62891 18409 60311 48278)"
  "phase1_round vector_tk 7 (vector_ctx 57692 62891 18409 60311 48278) = (vector_ctx 15826 366 30452 34455 45800)"
  by (code_simp, code_simp, code_simp, code_simp, code_simp, code_simp, code_simp, code_simp)

text \<open>The key mixing computes the seed of the published TKIP test vector.\<close>

theorem tkip_test_vector:
  "tkip_rc4key vector_tk [0x10,0x22,0x33,0x44,0x55,0x66] 0 =
   [0x00,0x20,0x00,0x33,0xEA,0x8D,0x2F,0x60,0xCA,0x6D,0x13,0x74,0x23,0x4A,0x66,0x0B]"
proof -
  have "fold (phase1_round vector_tk) [0,1,2,3,4,5,6,7] (vector_ctx 0 0 8720 17459 26197) =
     vector_ctx 15826 366 30452 34455 45800"
    by (simp only: fold_simps phase1_vals)
  moreover have "[0..<8] = [0,1,2,3,4,5,6,7]" by (simp add: upt_rec)
  ultimately have "tkip_mixing_phase1 vector_tk [0x10,0x22,0x33,0x44,0x55,0x66] 0 =
     vector_ctx 15826 366 30452 34455 45800"
    by (simp add: tkip_mixing_phase1_def tk16_def le16_def vector_ctx_def)
  moreover have "tkip_mixing_phase2 vector_tk (vector_ctx 15826 366 30452 34455 45800) 0 =
     [0x00,0x20,0x00,0x33,0xEA,0x8D,0x2F,0x60,0xCA,0x6D,0x13,0x74,0x23,0x4A,0x66,0x0B]"
    by code_simp
  ultimately show ?thesis by (simp add: tkip_rc4key_def)
qed

end
