(* ===== verification/R92_Ccm.thy ===== *)
theory R92_Ccm
  imports R92_Wep
begin

text \<open>
  CCMP payload encryption (\<open>aes_ccm.c\<close>): the nonce block \<open>b_0\<close> and the additional
  authenticated data built from the 802.11 header, and the calls of the AEAD transform. The
  transform reads the first 14 bytes of \<open>b_0\<close>; the driver leaves the other two to it.
\<close>

section \<open>Nonce and additional data\<close>

abbreviation (input) IEEE80211_CCMP_HDR_LEN :: nat where "IEEE80211_CCMP_HDR_LEN \<equiv> 8"
abbreviation (input) IEEE80211_CCMP_MIC_LEN :: nat where "IEEE80211_CCMP_MIC_LEN \<equiv> 8"
abbreviation (input) WLAN_KEY_LEN_CCMP :: nat where "WLAN_KEY_LEN_CCMP \<equiv> 16"
abbreviation (input) IEEE80211_FCTL_RETRY :: u16 where "IEEE80211_FCTL_RETRY \<equiv> 0x0800"
abbreviation (input) IEEE80211_FCTL_PM :: u16 where "IEEE80211_FCTL_PM \<equiv> 0x1000"
abbreviation (input) IEEE80211_FCTL_MOREDATA :: u16 where "IEEE80211_FCTL_MOREDATA \<equiv> 0x2000"

definition pn_bytes :: "u64 \<Rightarrow> bytes" where
  "pn_bytes pn = [ucast (drop_bit 40 pn), ucast (drop_bit 32 pn), ucast (drop_bit 24 pn),
     ucast (drop_bit 16 pn), ucast (drop_bit 8 pn), ucast pn]"

definition ccmp_special_blocks :: "kapi \<Rightarrow> bytes \<Rightarrow> nat \<Rightarrow> u64 \<Rightarrow> (bytes \<times> bytes) option" where
  "ccmp_special_blocks K hdr hdrlen pn = do {
     let fc = frame_control hdr;
     let mgmt = ieee80211_is_mgmt K fc;
     let mask_fc = fc AND NOT (IEEE80211_FCTL_RETRY OR IEEE80211_FCTL_PM OR IEEE80211_FCTL_MOREDATA);
     let mask_fc = (if \<not> mgmt then mask_fc AND NOT 0x0070 else mask_fc);
     let mask_fc = mask_fc OR IEEE80211_FCTL_PROTECTED;
     let len_a = (of_nat hdrlen - 2 :: u16);
     let a4_included = ieee80211_has_a4 K fc;
     qos_tid \<leftarrow> (if ieee80211_is_data_qos K fc then do {
                   q \<leftarrow> qos_ctl0 K hdr; Some (q AND IEEE80211_QOS_CTL_TID_MASK) }
                else Some 0);
     addr2 \<leftarrow> rd_mem hdr 10 6;
     let b_0 = [0x1, qos_tid OR push_bit 4 (bool_word mgmt)] @ addr2 @ pn_bytes pn;
     addrs \<leftarrow> rd_mem hdr 4 18;
     sc \<leftarrow> rd8 hdr 22;
     rest \<leftarrow> (if a4_included then do {
                addr4 \<leftarrow> rd_mem hdr 24 6;
                Some (addr4 @ [qos_tid, 0]) }
             else Some (qos_tid # replicate 7 0));
     let aad = put_be16 len_a @ put_le16 mask_fc @ addrs @ [sc AND 0x0f, 0] @ rest;
     Some (b_0, aad) }"

text \<open>The scatter list entry over \<open>aad + 2\<close>, whose length is the word in front of it.\<close>

definition aad_of :: "bytes \<Rightarrow> bytes option" where
  "aad_of aad = rd_mem aad 2 (unat (le16 (aad ! 1) (aad ! 0)))"

section \<open>Encryption and decryption of a frame\<close>

text \<open>\<open>data_len\<close> is a \<open>size_t\<close>; when it wraps, the transform would leave the buffer.\<close>

definition ieee80211_aes_ccm_encrypt ::
    "kapi \<Rightarrow> 'c crypto_api \<Rightarrow> bytes \<Rightarrow> 'b sk_buff \<Rightarrow> u64 \<Rightarrow> nat \<Rightarrow> 'b sk_buff option" where
  "ieee80211_aes_ccm_encrypt K C key skb pn mic_len = do {
     let hdr_len = ieee80211_hdrlen K (frame_control (skb_data skb));
     let data_len = int (skb_len skb) - int hdr_len - int IEEE80211_CCMP_HDR_LEN;
     (b_0, aad) \<leftarrow> ccmp_special_blocks K (skb_data skb) hdr_len pn;
     skb \<leftarrow> skb_put_data skb (replicate mic_len 0);
     if data_len < 0 then None
     else do {
       ad \<leftarrow> aad_of aad;
       data \<leftarrow> rd_mem (skb_data skb) (hdr_len + IEEE80211_CCMP_HDR_LEN) (nat data_len);
       buf \<leftarrow> wr_mem (skb_data skb) (hdr_len + IEEE80211_CCMP_HDR_LEN)
                (crypto_aead_encrypt C key b_0 ad data mic_len);
       Some (skb\<lparr>skb_data := buf\<rparr>) } }"

definition ieee80211_aes_ccm_decrypt ::
    "kapi \<Rightarrow> 'c crypto_api \<Rightarrow> bytes \<Rightarrow> 'b sk_buff \<Rightarrow> u64 \<Rightarrow> nat \<Rightarrow> (int \<times> 'b sk_buff) option" where
  "ieee80211_aes_ccm_decrypt K C key skb pn mic_len = do {
     let hdr_len = ieee80211_hdrlen K (frame_control (skb_data skb));
     let data_len = int (skb_len skb) - int hdr_len - int mic_len;
     if data_len = 0 then Some (- EINVAL, skb)
     else do {
       (b_0, aad) \<leftarrow> ccmp_special_blocks K (skb_data skb) hdr_len pn;
       if data_len < 0 then None
       else do {
         ad \<leftarrow> aad_of aad;
         enc \<leftarrow> rd_mem (skb_data skb) hdr_len (nat data_len + mic_len);
         let (err, data) = crypto_aead_decrypt C key b_0 ad enc mic_len;
         buf \<leftarrow> wr_mem (skb_data skb) hdr_len data;
         Some (err, skb\<lparr>skb_data := buf\<rparr>) } } }"

section \<open>The nonce\<close>

lemma length_pn_bytes [simp]: "length (pn_bytes pn) = 6"
  by (simp add: pn_bytes_def)

lemma pn_bytes_inj:
  assumes "pn_bytes a = pn_bytes b" "take_bit 48 a = a" "take_bit 48 b = b"
  shows "a = b"
proof -
  have byte: "ucast (drop_bit k a) = (ucast (drop_bit k b) :: u8)" if "k \<in> {0, 8, 16, 24, 32, 40}" for k
    using assms(1) that by (auto simp: pn_bytes_def)
  have 48: "bit x n \<Longrightarrow> n < 48" if "take_bit 48 x = x" for x :: u64 and n
    using that by (metis bit_take_bit_iff)
  have "bit a n \<longleftrightarrow> bit b n" if "n < 48" for n
  proof -
    let ?k = "8 * (n div 8)"
    have "n div 8 < 6" using that by simp
    then have "n div 8 \<in> {0, 1, 2, 3, 4, 5}" by auto
    then have k: "?k \<in> {0, 8, 16, 24, 32, 40}" by auto
    have "bit (ucast (drop_bit ?k a) :: u8) (n mod 8) \<longleftrightarrow> bit a (?k + n mod 8)"
      using that by (auto simp: bit_simps)
    moreover have "bit (ucast (drop_bit ?k b) :: u8) (n mod 8) \<longleftrightarrow> bit b (?k + n mod 8)"
      using that by (auto simp: bit_simps)
    moreover have "?k + n mod 8 = n" by simp
    ultimately show ?thesis using byte [OF k] by simp
  qed
  then show ?thesis using 48 [OF assms(2)] 48 [OF assms(3)]
    by (intro bit_word_eqI) blast
qed

lemma ccmp_b_0:
  assumes "ccmp_special_blocks K hdr n pn = Some (b_0, aad)"
  shows "length b_0 = 14 \<and> drop 8 b_0 = pn_bytes pn \<and> length aad = 32"
  using assms
  by (auto simp: ccmp_special_blocks_def rd_mem_def Let_def Option.bind_eq_Some_conv split: if_splits bind_splits)

text \<open>Under one key, two packets with different 48-bit packet numbers never use the same
  CCM nonce, whatever their headers are.\<close>

theorem ccmp_nonce_unique:
  assumes "ccmp_special_blocks K hdr n pn = Some (b_0, aad)"
    and "ccmp_special_blocks K hdr' n' pn' = Some (b_0', aad')"
    and "take_bit 48 pn = pn" "take_bit 48 pn' = pn'" "pn \<noteq> pn'"
  shows "take 14 b_0 \<noteq> take 14 b_0'"
  using assms ccmp_b_0 [OF assms(1)] ccmp_b_0 [OF assms(2)] pn_bytes_inj [of pn pn'] by auto

lemma demo_ccmp_blocks: "\<exists>b_0 aad. ccmp_special_blocks linux_kapi demo_hdr 26 pn = Some (b_0, aad)"
  by (simp add: ccmp_special_blocks_def demo_hdr_fc Let_def bool_word_def)
    (simp add: demo_hdr_def rd_mem_def rd8_def qos_ctl0_def demo_hdr_fc [unfolded demo_hdr_def])

theorem ccmp_nonce_unique_witness:
  "\<exists>b_0 aad b_0' aad'. ccmp_special_blocks linux_kapi demo_hdr 26 5 = Some (b_0, aad) \<and>
     ccmp_special_blocks linux_kapi demo_hdr 26 6 = Some (b_0', aad') \<and> take 14 b_0 \<noteq> take 14 b_0'"
proof -
  obtain b_0 aad where 1: "ccmp_special_blocks linux_kapi demo_hdr 26 5 = Some (b_0, aad)"
    using demo_ccmp_blocks by blast
  obtain b_0' aad' where 2: "ccmp_special_blocks linux_kapi demo_hdr 26 6 = Some (b_0', aad')"
    using demo_ccmp_blocks by blast
  have "take 14 b_0 \<noteq> take 14 b_0'"
    by (rule ccmp_nonce_unique [OF 1 2]) (simp_all add: take_bit_eq_mask mask_eq_exp_minus_1)
  then show ?thesis using 1 2 by blast
qed

end
