(* ===== verification/R92_State.thy ===== *)
theory R92_State
  imports R92_Structs R92_Reorder R92_Tkip R92_Ccm
begin

text \<open>
  The state of the driver (\<open>r92su.h\<close>, \<open>sta.h\<close>). The structures that the C code reaches
  through pointers live in heaps of the record \<open>r92su\<close>: a pointer is an index, a freed object
  is no longer in its heap, and following a dangling pointer is \<open>None\<close>. Objects whose release
  is deferred by RCU wait in \<open>rcu_cbs\<close> until the grace period. Calls into the kernel that
  return nothing to the driver are appended to \<open>log\<close>, in the order of the calls. The record
  \<open>env\<close> is everything outside: the USB core and the device behind it (with its state \<open>'w\<close>),
  the memory allocator and the kernel helpers.
\<close>

section \<open>Life cycle\<close>

datatype r92su_state_t =
  R92SU_DEAD | R92SU_UNLOAD | R92SU_PROBE | R92SU_STOP | R92SU_INIT | R92SU_OPEN | R92SU_CONNECTED

fun state_nr :: "r92su_state_t \<Rightarrow> nat" where
  "state_nr R92SU_DEAD = 0"
| "state_nr R92SU_UNLOAD = 1"
| "state_nr R92SU_PROBE = 2"
| "state_nr R92SU_STOP = 3"
| "state_nr R92SU_INIT = 4"
| "state_nr R92SU_OPEN = 5"
| "state_nr R92SU_CONNECTED = 6"

lemma state_nr_inj: "state_nr a = state_nr b \<Longrightarrow> a = b"
  by (cases a; cases b) simp_all

text \<open>The code compares states with \<open>>=\<close>; the order is that of the enumeration.\<close>

instantiation r92su_state_t :: linorder
begin

definition less_eq_r92su_state_t :: "r92su_state_t \<Rightarrow> r92su_state_t \<Rightarrow> bool" where
  "less_eq_r92su_state_t a b \<longleftrightarrow> state_nr a \<le> state_nr b"

definition less_r92su_state_t :: "r92su_state_t \<Rightarrow> r92su_state_t \<Rightarrow> bool" where
  "less_r92su_state_t a b \<longleftrightarrow> state_nr a < state_nr b"

instance
  by standard (auto simp: less_eq_r92su_state_t_def less_r92su_state_t_def intro: state_nr_inj)

end

lemmas state_order = less_eq_r92su_state_t_def less_r92su_state_t_def

datatype r92su_chip_revision_t = R92SU_FPGA | R92SU_A_CUT | R92SU_B_CUT | R92SU_C_CUT

fun chip_rev_nr :: "r92su_chip_revision_t \<Rightarrow> u8" where
  "chip_rev_nr R92SU_FPGA = 0"
| "chip_rev_nr R92SU_A_CUT = 1"
| "chip_rev_nr R92SU_B_CUT = 2"
| "chip_rev_nr R92SU_C_CUT = 3"

datatype r92su_rf_type_t = R92SU_1T1R | R92SU_1T2R | R92SU_2T2R

fun rf_type_nr :: "r92su_rf_type_t \<Rightarrow> u8" where
  "rf_type_nr R92SU_1T1R = 0x11"
| "rf_type_nr R92SU_1T2R = 0x12"
| "rf_type_nr R92SU_2T2R = 0x22"

datatype r92su_eeprom_type = EEPROM_93C46 | EEPROM_93C56 | EEPROM_BOOT_EFUSE

datatype nl80211_iftype = IFTYPE_STATION | IFTYPE_ADHOC | IFTYPE_MONITOR | IFTYPE_UNSPECIFIED | IFTYPE_OTHER

section \<open>Transmit queues\<close>

datatype rtl8712_queues_t =
  RTL8712_BKQ | RTL8712_BEQ | RTL8712_VIQ | RTL8712_VOQ | RTL8712_H2CCMD | RTL8712_BCNQ |
  RTL8712_BMCQ | RTL8712_MGTQ | RTL8712_RX0FF | RTL8712_C2HCMD

fun queue_nr :: "rtl8712_queues_t \<Rightarrow> nat" where
  "queue_nr RTL8712_BKQ = 1"
| "queue_nr RTL8712_BEQ = 3"
| "queue_nr RTL8712_VIQ = 5"
| "queue_nr RTL8712_VOQ = 7"
| "queue_nr RTL8712_H2CCMD = 8"
| "queue_nr RTL8712_BCNQ = 9"
| "queue_nr RTL8712_BMCQ = 10"
| "queue_nr RTL8712_MGTQ = 11"
| "queue_nr RTL8712_RX0FF = 12"
| "queue_nr RTL8712_C2HCMD = 13"

abbreviation (input) RTL8712_LAST :: nat where "RTL8712_LAST \<equiv> 14"

datatype ieee80211_ac_numbers = IEEE80211_AC_VO | IEEE80211_AC_VI | IEEE80211_AC_BE | IEEE80211_AC_BK

fun ac_nr :: "ieee80211_ac_numbers \<Rightarrow> nat" where
  "ac_nr IEEE80211_AC_VO = 0"
| "ac_nr IEEE80211_AC_VI = 1"
| "ac_nr IEEE80211_AC_BE = 2"
| "ac_nr IEEE80211_AC_BK = 3"

definition ieee802_1d_to_ac :: "ieee80211_ac_numbers list" where
  "ieee802_1d_to_ac = [IEEE80211_AC_BE, IEEE80211_AC_BK, IEEE80211_AC_BK, IEEE80211_AC_BE,
     IEEE80211_AC_VI, IEEE80211_AC_VI, IEEE80211_AC_VO, IEEE80211_AC_VO]"

abbreviation (input) NUM_ACS :: nat where "NUM_ACS \<equiv> 4"
abbreviation (input) IEEE80211_NUM_TIDS :: nat where "IEEE80211_NUM_TIDS \<equiv> 16"
abbreviation (input) MAX_STA :: nat where "MAX_STA \<equiv> 32"

section \<open>Keys\<close>

datatype r92su_enc_alg =
  NO_ENCRYPTION | WEP40_ENCRYPTION | TKIP_ENCRYPTION | TKIP_WTMIC | AESCCMP_ENCRYPTION | WEP104_ENCRYPTION

fun enc_alg_nr :: "r92su_enc_alg \<Rightarrow> u8" where
  "enc_alg_nr NO_ENCRYPTION = 0"
| "enc_alg_nr WEP40_ENCRYPTION = 1"
| "enc_alg_nr TKIP_ENCRYPTION = 2"
| "enc_alg_nr TKIP_WTMIC = 3"
| "enc_alg_nr AESCCMP_ENCRYPTION = 4"
| "enc_alg_nr WEP104_ENCRYPTION = 5"

text \<open>
  The union of the key, tagged by its type: the packet counters keep the widths of their bit
  fields. A TKIP key is the temporal key and the two Michael keys.
\<close>

datatype key_union =
  WepKey "24 word" "24 word" bytes
| TkipKey "48 word" "48 word" bytes
| CcmpKey "48 word" "48 word" bytes
| NoKey

record r92su_key =
  key_mac_addr :: bytes
  key_type :: r92su_enc_alg
  key_len :: nat
  key_uploaded :: bool
  key_pairwise :: bool
  key_index :: u32
  key_u :: key_union

text \<open>The type selects the member of the union.\<close>

fun key_ok_union :: "r92su_enc_alg \<Rightarrow> nat \<Rightarrow> key_union \<Rightarrow> bool" where
  "key_ok_union WEP40_ENCRYPTION n (WepKey tx rx k) \<longleftrightarrow> n = 5 \<and> length k = 13"
| "key_ok_union WEP104_ENCRYPTION n (WepKey tx rx k) \<longleftrightarrow> n = 13 \<and> length k = 13"
| "key_ok_union TKIP_ENCRYPTION n (TkipKey tx rx k) \<longleftrightarrow> n = 32 \<and> length k = 32"
| "key_ok_union AESCCMP_ENCRYPTION n (CcmpKey tx rx k) \<longleftrightarrow> n = 16 \<and> length k = 16"
| "key_ok_union _ _ _ \<longleftrightarrow> False"

definition key_ok :: "r92su_key \<Rightarrow> bool" where
  "key_ok k \<longleftrightarrow> key_ok_union (key_type k) (key_len k) (key_u k)"

definition r92su_get_iv_len :: "r92su_key \<Rightarrow> nat" where
  "r92su_get_iv_len key = (case key_type key of
     WEP40_ENCRYPTION \<Rightarrow> 4 | WEP104_ENCRYPTION \<Rightarrow> 4
   | TKIP_ENCRYPTION \<Rightarrow> 8 | AESCCMP_ENCRYPTION \<Rightarrow> 8
   | _ \<Rightarrow> 0)"

section \<open>Frames, stations and networks\<close>

record r92su_rx_info =
  ri_sta :: "nat option"
  ri_key :: "nat option"
  ri_iv :: u64
  ri_has_protect :: bool
  ri_needs_decrypt :: bool

record r92su_tx_info =
  ti_sta :: "nat option"
  ti_key :: "nat option"
  ti_pn :: u64
  ti_tid :: u8
  ti_low_rate :: bool
  ti_ampdu :: bool
  ti_ht_possible :: bool
  ti_needs_encrypt :: bool

type_synonym rx_skb = "r92su_rx_info sk_buff"
type_synonym tx_skb = "r92su_tx_info sk_buff"

record r92su_defrag_entry =
  df_queue :: "rx_skb list"
  df_size :: u32

record r92su_sta =
  sta_mac_addr :: bytes
  sta_mac_id :: u32
  sta_aid :: u32
  sta_qos_sta :: bool
  sta_ht_sta :: bool
  sta_enc_sta :: bool
  sta_last_connected :: int
  sta_signal :: u32
  sta_last_rx_rate :: u32
  sta_last_rx_rate_flag :: u8
  sta_last_rx_rate_bw :: u8
  sta_rx_seq :: u16
  sta_rx_seq_tid :: "u16 list"
  sta_rx_tid :: "nat option list"
  sta_drop_dup :: u64
  sta_defrag :: "r92su_defrag_entry list"
  sta_key :: "nat option"

record r92su_bss_priv =
  bp_fw_bss :: h2cc2h_bss
  bp_sta :: "nat option"
  bp_assoc_ie :: "nat option"
  bp_assoc_ie_len :: nat
  bp_def_uni_key_idx :: nat
  bp_def_multi_key_idx :: nat
  bp_group_key :: "nat option list"
  bp_addba_issued :: "bool list"
  bp_control_port_ethertype :: u16
  bp_control_port_no_encrypt :: bool
  bp_control_port :: bool
  bp_dtim_period :: u32

record cfg80211_bss =
  cb_bssid :: bytes
  cb_capability :: u16
  cb_beacon_interval :: u16
  cb_signal :: u32
  cb_priv :: r92su_bss_priv

section \<open>The driver and its environment\<close>

text \<open>The HT capabilities of the band, as the driver announces them.\<close>

record ieee80211_sta_ht_cap =
  ht_supported :: bool
  ht_cap :: u16
  ht_ampdu_factor :: u8
  ht_ampdu_density :: u8
  ht_rx_mask :: bytes
  ht_rx_highest :: u16
  ht_tx_params :: u8

datatype work_item = Add_bss_work | Connect_bss_work | Disconnect_work | Survey_done_work | Service_work

datatype rcu_cb = Free_sta nat | Free_tid nat | Free_key nat

datatype effect =
  Netif_carrier_off | Netif_carrier_on
| Netif_tx_stop_all_queues | Netif_tx_start_all_queues
| Queue_work work_item | Queue_delayed_work work_item u64 | Cancel_work work_item
| Netif_rx bytes
| Free_skb bytes
| Michael_mic_failure bytes bool u32
| Cfg80211_scan_done bool
| Cfg80211_disconnected bool
| Cfg80211_connect_result bytes "bytes option" "bytes option" u16
| Cfg80211_ibss_joined bytes
| Cfg80211_unlink_bss nat
| Cfg80211_put_bss nat
| Input_report_key bool
| Complete_scan_done
| Schedule_rx_tasklet
| Rcu_barrier
| Input_unregister_device
| Unregister_debugfs
| Unregister_netdev
| Wiphy_unregister
| Destroy_workqueue
| Wiphy_free

text \<open>The register accesses that were made through debugfs, kept until they are read.\<close>

datatype r92su_mem_type_t = R92SU_8 | R92SU_16 | R92SU_32

record r92su_debug_mem_rbe =
  rbe_reg :: u32
  rbe_value :: u32
  rbe_type :: r92su_mem_type_t

abbreviation (input) R92SU_DEBUG_RING_SIZE :: nat where "R92SU_DEBUG_RING_SIZE \<equiv> 64"

record r92su_debug =
  dbg_ring :: "r92su_debug_mem_rbe list"
  ring_head :: nat
  ring_tail :: nat
  ring_len :: nat

definition zero_debug :: r92su_debug where
  "zero_debug = \<lparr>dbg_ring = replicate R92SU_DEBUG_RING_SIZE \<lparr>rbe_reg = 0, rbe_value = 0, rbe_type = R92SU_8\<rparr>,
     ring_head = 0, ring_tail = 0, ring_len = 0\<rparr>"

text \<open>
  The indices stay inside the ring; as long as it is not full, the entries lie between head and tail.
\<close>

definition ring_ok :: "r92su_debug \<Rightarrow> bool" where
  "ring_ok d \<longleftrightarrow> length (dbg_ring d) = R92SU_DEBUG_RING_SIZE \<and> ring_head d < 64 \<and> ring_tail d < 64 \<and> ring_len d \<le> 64 \<and>
     (ring_len d < 64 \<longrightarrow> ring_tail d = (ring_head d + ring_len d) mod 64)"

text \<open>A USB request block of the transmit path: its endpoint and the bytes of its frame.\<close>

record urb =
  urb_pipe :: nat
  urb_data :: bytes

record 'w r92su =
  world :: 'w
  allocs :: nat
  log :: "effect list"
  jiffies :: u64
  has_netdev :: bool
  r_state :: r92su_state_t
  iftype :: nl80211_iftype
  dev_addr :: bytes
  current_channel :: "u16 option"
  ep_num :: nat
  ep_map :: "nat list"
  tx_pending_urbs :: int
  tx_wait :: "urb list"
  tx_submitted :: "urb list"
  rx_submitted :: nat
  h2c_seq :: "7 word"
  c2h_seq :: "7 word"
  ampdu_reference :: u32
  rx_queue :: "rx_skb list"
  rx_alignment :: nat
  sta_generation :: u32
  sta_num :: u32
  sta_list :: "nat list"
  stas :: "nat \<rightharpoonup> r92su_sta"
  keys :: "nat \<rightharpoonup> r92su_key"
  tids :: "nat \<rightharpoonup> rx_skb rx_tid"
  bsss :: "nat \<rightharpoonup> cfg80211_bss"
  next_ptr :: nat
  rcu_cbs :: "rcu_cb list"
  scan_request :: bool
  bufs :: "nat \<rightharpoonup> bytes"
  connect_result :: "nat option"
  want_connect_bss :: "nat option"
  connect_bss :: "nat option"
  scanned :: bool
  add_bss_list :: "bytes list"
  eeprom :: bytes
  eeprom_type :: r92su_eeprom_type
  chip_rev :: r92su_chip_revision_t
  rf_type :: r92su_rf_type_t
  fw :: "bytes option"
  fw_imem_off :: nat
  fw_sram_off :: nat
  fw_imem_len :: u32
  fw_sram_len :: u32
  fw_version :: u16
  fw_dmem :: bytes
  fw_loaded :: bool
  disable_ht :: bool
  wps_pbc :: bool
  wps_pbc_state :: bool
  rpwm :: u8
  rpwm_tog :: u8
  cpwm :: u8
  cpwm_tog :: u8
  rx_dropped :: nat
  rx_packets :: nat
  rx_bytes :: nat
  tx_dropped :: nat
  tx_packets :: nat
  tx_bytes :: nat
  scan_done :: nat
  n_channels :: nat
  n_bitrates :: nat
  band_ht_cap :: ieee80211_sta_ht_cap
  ndev_type :: u16
  perm_addr :: bytes
  wiphy_registered :: bool
  has_wq :: bool
  dfs :: bool
  debug :: r92su_debug

text \<open>What the driver tells cfg80211 about a network it has found.\<close>

record bss_info =
  inf_channel :: nat
  inf_bssid :: bytes
  inf_tsf :: u64
  inf_capability :: u16
  inf_beacon_interval :: u16
  inf_ie :: bytes
  inf_signal :: u32

text \<open>
  The calls into cfg80211 and the network stack that return something: the conversion between
  802.11 and Ethernet frames, the store of the known networks (a heap entry is created or
  updated by \<open>cfg80211_inform_bss\<close> and found by \<open>cfg80211_get_bss\<close>), the registration calls, and
  whether \<open>cancel_delayed_work\<close> finds the work pending.
\<close>

record 'w env =
  kernel :: kapi
  usb_control_in :: "u16 \<Rightarrow> nat \<Rightarrow> 'w \<Rightarrow> (int \<times> bytes) \<times> 'w"
  usb_control_out :: "u16 \<Rightarrow> bytes \<Rightarrow> 'w \<Rightarrow> int \<times> 'w"
  usb_submit_urb :: "urb \<Rightarrow> 'w \<Rightarrow> int \<times> 'w"
  usb_submit_rx_urb :: "'w \<Rightarrow> int \<times> 'w"
  usb_unbinding :: "'w \<Rightarrow> bool"
  alloc_ok :: "nat \<Rightarrow> bool"
  alloc_slack :: nat
  stack_garbage :: "nat \<Rightarrow> bytes"
  uptime :: "u64 \<Rightarrow> int"
  random_u32 :: "nat \<Rightarrow> u32"
  work_pending :: "work_item \<Rightarrow> 'w \<Rightarrow> bool"
  data_to_8023 :: "bytes \<Rightarrow> nl80211_iftype \<Rightarrow> rx_skb \<Rightarrow> int \<times> rx_skb"
  data_to_8023_exthdr :: "bytes \<Rightarrow> nl80211_iftype \<Rightarrow> rx_skb \<Rightarrow> int \<times> rx_skb"
  amsdu_to_8023s :: "bytes \<Rightarrow> nl80211_iftype \<Rightarrow> rx_skb \<Rightarrow> rx_skb list"
  eth_type_trans :: "rx_skb \<Rightarrow> u16 \<times> rx_skb"
  netif_rx_ok :: "nat \<Rightarrow> bool"
  data_from_8023 :: "bytes \<Rightarrow> nl80211_iftype \<Rightarrow> bytes \<Rightarrow> bool \<Rightarrow> tx_skb \<Rightarrow> int \<times> tx_skb"
  get_radiotap_len :: "bytes \<Rightarrow> u16"
  radiotap_iterate :: "bytes \<Rightarrow> int \<times> nat"
  cfg80211_get_bss :: "nat option \<Rightarrow> bytes option \<Rightarrow> bytes option \<Rightarrow> bool \<Rightarrow> (nat \<rightharpoonup> cfg80211_bss) \<Rightarrow> nat option"
  cfg80211_inform_bss :: "bss_info \<Rightarrow> (nat \<rightharpoonup> cfg80211_bss) \<Rightarrow> nat option \<times> (nat \<rightharpoonup> cfg80211_bss)"
  wiphy_register :: int
  register_netdev :: int
  debugfs_create_dir :: bool
  input_register_device :: int
  modparam_noht :: bool
  modparam_nohwcrypt :: bool
  config_wpc :: bool

text \<open>An allocation asks the allocator and counts itself.\<close>

definition kmalloc :: "'w env \<Rightarrow> 'w r92su \<Rightarrow> bool \<times> 'w r92su" where
  "kmalloc E s = (alloc_ok E (allocs s), s\<lparr>allocs := allocs s + 1\<rparr>)"

definition emit :: "effect \<Rightarrow> 'w r92su \<Rightarrow> 'w r92su" where
  "emit e s = s\<lparr>log := log s @ [e]\<rparr>"

text \<open>
  The small buffers of the connection handling live in the heap \<open>bufs\<close>; the name of a buffer is the
  number of its allocation. Freeing a buffer twice is \<open>None\<close>, and so is reading a freed one.
\<close>

definition kmemdup :: "'w env \<Rightarrow> bytes option \<Rightarrow> 'w r92su \<Rightarrow> (nat option \<times> 'w r92su) option" where
  "kmemdup E src s = (case kmalloc E s of (ok, s) \<Rightarrow>
     if ok then do { d \<leftarrow> src; Some (Some (allocs s), s\<lparr>bufs := (bufs s)(allocs s \<mapsto> d)\<rparr>) } else Some (None, s))"

definition kfree :: "nat option \<Rightarrow> 'w r92su \<Rightarrow> 'w r92su option" where
  "kfree p s = (case p of None \<Rightarrow> Some s
     | Some a \<Rightarrow> if bufs s a = None then None else Some (s\<lparr>bufs := (bufs s)(a := None)\<rparr>))"

section \<open>State predicates\<close>

definition r92su_is_dead :: "'w r92su \<Rightarrow> bool" where
  "r92su_is_dead s \<longleftrightarrow> r_state s = R92SU_DEAD"

definition r92su_is_probing :: "'w r92su \<Rightarrow> bool" where
  "r92su_is_probing s \<longleftrightarrow> R92SU_PROBE \<le> r_state s"

definition r92su_is_initializing :: "'w r92su \<Rightarrow> bool" where
  "r92su_is_initializing s \<longleftrightarrow> R92SU_INIT \<le> r_state s"

definition r92su_is_stopped :: "'w r92su \<Rightarrow> bool" where
  "r92su_is_stopped s \<longleftrightarrow> r_state s = R92SU_STOP"

definition r92su_is_open :: "'w r92su \<Rightarrow> bool" where
  "r92su_is_open s \<longleftrightarrow> R92SU_OPEN \<le> r_state s"

definition r92su_is_connected :: "'w r92su \<Rightarrow> bool" where
  "r92su_is_connected s \<longleftrightarrow> R92SU_CONNECTED \<le> r_state s"

definition r92su_set_state :: "r92su_state_t \<Rightarrow> 'w r92su \<Rightarrow> 'w r92su" where
  "r92su_set_state n s = s\<lparr>r_state := n\<rparr>"

definition r92su_mark_dead :: "'w r92su \<Rightarrow> 'w r92su" where
  "r92su_mark_dead s = (let s = r92su_set_state R92SU_DEAD s in
     if has_netdev s then emit Netif_carrier_off s else s)"

lemmas state_preds = r92su_is_dead_def r92su_is_probing_def r92su_is_initializing_def
  r92su_is_stopped_def r92su_is_open_def r92su_is_connected_def

lemma connected_is_open: "r92su_is_connected s \<Longrightarrow> r92su_is_open s"
  by (auto simp: state_preds state_order)

lemma open_is_probing: "r92su_is_open s \<Longrightarrow> r92su_is_probing s"
  by (auto simp: state_preds state_order)

lemma dead_not_probing: "r92su_is_dead s \<Longrightarrow> \<not> r92su_is_probing s"
  by (auto simp: state_preds state_order)

section \<open>A fresh driver and a register file\<close>

text \<open>The zeroed private data of a new wiphy, over a device in state \<open>w\<close>.\<close>

definition r92su_zero :: "'w \<Rightarrow> 'w r92su" where
  "r92su_zero w = \<lparr>
    world = w, allocs = 0, log = [], jiffies = 0, has_netdev = False, r_state = R92SU_DEAD,
    iftype = IFTYPE_UNSPECIFIED, dev_addr = [], current_channel = None, ep_num = 0,
    ep_map = [], tx_pending_urbs = 0, tx_wait = [], tx_submitted = [], rx_submitted = 0,
    h2c_seq = 0, c2h_seq = 0, ampdu_reference = 0, rx_queue = [], rx_alignment = 0,
    sta_generation = 0, sta_num = 0, sta_list = [], stas = Map.empty, keys = Map.empty,
    tids = Map.empty, bsss = Map.empty, next_ptr = 0, rcu_cbs = [], scan_request = False,
    bufs = (\<lambda>p. None), connect_result = None, want_connect_bss = None, connect_bss = None, scanned = False,
    add_bss_list = [], eeprom = replicate 128 0, eeprom_type = EEPROM_93C46, chip_rev = R92SU_FPGA,
    rf_type = R92SU_1T1R, fw = None, fw_imem_off = 0, fw_sram_off = 0, fw_imem_len = 0,
    fw_sram_len = 0, fw_version = 0, fw_dmem = [], fw_loaded = False, disable_ht = False,
    wps_pbc = False, wps_pbc_state = False, rpwm = 0, rpwm_tog = 0, cpwm = 0, cpwm_tog = 0,
    rx_dropped = 0, rx_packets = 0, rx_bytes = 0, tx_dropped = 0, tx_packets = 0, tx_bytes = 0,
    scan_done = 0, n_channels = 0, n_bitrates = 0,
    band_ht_cap = \<lparr>ht_supported = False, ht_cap = 0, ht_ampdu_factor = 0, ht_ampdu_density = 0,
      ht_rx_mask = replicate 10 0, ht_rx_highest = 0, ht_tx_params = 0\<rparr>,
    ndev_type = 0, perm_addr = [], wiphy_registered = False, has_wq = False, dfs = False, debug = zero_debug\<rparr>"

text \<open>
  A concrete environment for the witnesses: a device that is a plain register file, an
  allocator that succeeds, and the helpers of \<open>linux_kapi\<close>.
\<close>

definition reg_env :: "(u16 \<Rightarrow> u8) env" where
  "reg_env = \<lparr>
     kernel = linux_kapi,
     usb_control_in = (\<lambda>a n w. ((int n, map (\<lambda>i. w (a + of_nat i)) [0..<n]), w)),
     usb_control_out = (\<lambda>a d w. (int (length d), \<lambda>x. if unat (x - a) < length d then d ! unat (x - a) else w x)),
     usb_submit_urb = (\<lambda>u w. (0, w)),
     usb_submit_rx_urb = (\<lambda>w. (0, w)),
     usb_unbinding = (\<lambda>w. False),
     alloc_ok = (\<lambda>n. True),
     alloc_slack = 0,
     stack_garbage = (\<lambda>n. replicate n 0xA5),
     uptime = (\<lambda>j. 0),
     random_u32 = (\<lambda>n. 0x12345678),
     work_pending = (\<lambda>i w. True),
     data_to_8023 = (\<lambda>a t skb. (0, skb\<lparr>skb_data := drop 24 (skb_data skb)\<rparr>)),
     data_to_8023_exthdr = (\<lambda>a t skb. (0, skb\<lparr>skb_data := drop 26 (skb_data skb)\<rparr>)),
     amsdu_to_8023s = (\<lambda>a t skb. [skb]),
     eth_type_trans = (\<lambda>skb. (0x0008, skb\<lparr>skb_data := drop 14 (skb_data skb)\<rparr>)),
     netif_rx_ok = (\<lambda>n. True),
     data_from_8023 = (\<lambda>a t b q skb. (0, skb\<lparr>skb_data := [if q then 0x88 else 0x08, 0x01, 0, 0] @ b @ a @
       take 6 (skb_data skb) @ [0, 0] @ (if q then [0, 0] else []) @ [0xAA, 0xAA, 3, 0, 0, 0] @ drop 12 (skb_data skb)\<rparr>)),
     get_radiotap_len = (\<lambda>d. le16 (d ! 2) (d ! 3)),
     radiotap_iterate = (\<lambda>d. (- ENOENT, unat (le16 (d ! 2) (d ! 3)))),
     cfg80211_get_bss = (\<lambda>chan bssid ssid ess h. if h 0 = None then None else Some 0),
     cfg80211_inform_bss = (\<lambda>i h. (None, h)),
     wiphy_register = 0, register_netdev = 0, debugfs_create_dir = True, input_register_device = 0,
     modparam_noht = False, modparam_nohwcrypt = False, config_wpc = False \<rparr>"

end
