(* ===== verification/R92_Usb.thy ===== *)
theory R92_Usb
  imports R92_State "HOL-Library.Multiset"
begin

text \<open>
  The USB transport (\<open>usb.c\<close>): register access over control messages, the transmit scheduler
  that keeps at most eight request blocks in flight, the receive request blocks and the
  endpoint maps. An operation is a state transformer over \<open>r92su\<close>; a failed register read
  returns what the uninitialised local variable held.
\<close>

section \<open>Errors\<close>

definition r92su_deal_with_usb_errors :: "'w env \<Rightarrow> int \<Rightarrow> ('w r92su, bool) state" where
  "r92su_deal_with_usb_errors E err = do {
     s \<leftarrow> State_Monad.get;
     if err = 0 then ret False
     else if r92su_is_dead s then ret False
     else if usb_unbinding E (world s) then ret False
     else if err \<in> {- ENOENT, - ECONNRESET, - ENODEV, - ESHUTDOWN} then do {
       modify r92su_mark_dead; ret False }
     else if err = - EPROTO then do { modify r92su_mark_dead; ret False }
     else if err = - EMSGSIZE then do { modify r92su_mark_dead; ret True }
     else do { modify r92su_mark_dead; ret True } }"

section \<open>Register access\<close>

definition r92su_sync_write :: "'w env \<Rightarrow> u32 \<Rightarrow> bytes \<Rightarrow> ('w r92su, int) state" where
  "r92su_sync_write E address data = State (\<lambda>s.
     if \<not> r92su_is_probing s then (- EINVAL, s)
     else case kmalloc E s of (ok, s) \<Rightarrow>
       if \<not> ok then (- ENOMEM, s)
       else case usb_control_out E (ucast address) data (world s) of (r, w) \<Rightarrow>
         (if r < 0 then r else if r = int (length data) then 0 else - EMSGSIZE, s\<lparr>world := w\<rparr>))"

text \<open>A read returns the error and the bytes that were copied over \<open>old\<close>.\<close>

definition r92su_sync_read :: "'w env \<Rightarrow> u32 \<Rightarrow> bytes \<Rightarrow> ('w r92su, int \<times> bytes) state" where
  "r92su_sync_read E address old = State (\<lambda>s.
     if \<not> r92su_is_probing s then ((- EINVAL, old), s)
     else case kmalloc E s of (ok, s) \<Rightarrow>
       if \<not> ok then ((- ENOMEM, old), s)
       else case usb_control_in E (ucast address) (length old) (world s) of ((r, d), w) \<Rightarrow>
         let new = (if 0 < r then take (nat r) d @ drop (nat r) old else old) in
         ((if r < 0 then r else if r = int (length old) then 0 else - EMSGSIZE, new),
          s\<lparr>world := w\<rparr>))"

definition r92su_read_helper :: "'w env \<Rightarrow> u32 \<Rightarrow> nat \<Rightarrow> ('w r92su, bytes) state" where
  "r92su_read_helper E address n = do {
     (err, d) \<leftarrow> r92su_sync_read E address (stack_garbage E n);
     _ \<leftarrow> r92su_deal_with_usb_errors E err;
     ret d }"

definition r92su_read8 :: "'w env \<Rightarrow> u32 \<Rightarrow> ('w r92su, u8) state" where
  "r92su_read8 E address = do { d \<leftarrow> r92su_read_helper E address 1; ret (d ! 0) }"

definition r92su_read16 :: "'w env \<Rightarrow> u32 \<Rightarrow> ('w r92su, u16) state" where
  "r92su_read16 E address = do { d \<leftarrow> r92su_read_helper E address 2; ret (get_le16 d) }"

definition r92su_read32 :: "'w env \<Rightarrow> u32 \<Rightarrow> ('w r92su, u32) state" where
  "r92su_read32 E address = do { d \<leftarrow> r92su_read_helper E address 4; ret (get_le32 d) }"

definition r92su_write_helper :: "'w env \<Rightarrow> u32 \<Rightarrow> bytes \<Rightarrow> ('w r92su, unit) state" where
  "r92su_write_helper E address data = do {
     err \<leftarrow> r92su_sync_write E address data;
     _ \<leftarrow> r92su_deal_with_usb_errors E err;
     ret () }"

definition r92su_write8 :: "'w env \<Rightarrow> u32 \<Rightarrow> u8 \<Rightarrow> ('w r92su, unit) state" where
  "r92su_write8 E address data = r92su_write_helper E address [data]"

definition r92su_write16 :: "'w env \<Rightarrow> u32 \<Rightarrow> u16 \<Rightarrow> ('w r92su, unit) state" where
  "r92su_write16 E address data = r92su_write_helper E address (put_le16 data)"

definition r92su_write32 :: "'w env \<Rightarrow> u32 \<Rightarrow> u32 \<Rightarrow> ('w r92su, unit) state" where
  "r92su_write32 E address data = r92su_write_helper E address (put_le32 data)"

section \<open>What register access changes\<close>

text \<open>
  An operation that only does input and output changes the device, the allocation count, the
  life-cycle state and the log. \<open>io_only\<close> collects the operations of the driver that are built
  from register accesses.
\<close>

definition io_rel :: "'w r92su \<Rightarrow> 'w r92su \<Rightarrow> bool" where
  "io_rel s t \<longleftrightarrow> t\<lparr>world := world s, allocs := allocs s, r_state := r_state s, log := log s\<rparr> = s \<and>
     (r_state t = r_state s \<or> r_state t = R92SU_DEAD)"

named_theorems io_only

lemma io_rel_refl [simp]: "io_rel s s"
  by (simp add: io_rel_def)

lemma io_rel_trans: "io_rel s t \<Longrightarrow> io_rel t u \<Longrightarrow> io_rel s u"
proof -
  assume st: "io_rel s t" and tu: "io_rel t u"
  have "u\<lparr>world := world s, allocs := allocs s, r_state := r_state s, log := log s\<rparr> =
      (u\<lparr>world := world t, allocs := allocs t, r_state := r_state t, log := log t\<rparr>)
        \<lparr>world := world s, allocs := allocs s, r_state := r_state s, log := log s\<rparr>" by simp
  also have "\<dots> = t\<lparr>world := world s, allocs := allocs s, r_state := r_state s, log := log s\<rparr>"
    by (simp only: tu [unfolded io_rel_def, THEN conjunct1])
  also have "\<dots> = s" using st by (simp add: io_rel_def)
  finally show ?thesis using st tu by (auto simp: io_rel_def)
qed

interpretation io: frame_relation io_rel
  by unfold_locales (auto intro: io_rel_trans)

abbreviation io_only :: "('w r92su, 'a) state \<Rightarrow> bool" where
  "io_only m \<equiv> changes io_rel m"

lemmas io_rules [io_only] = io.rules

lemma io_only_mark_dead [io_only]: "io_only (modify r92su_mark_dead)"
  by (rule changesI) (simp add: io_rel_def r92su_mark_dead_def r92su_set_state_def emit_def Let_def)

lemma io_only_deal [io_only]: "io_only (r92su_deal_with_usb_errors E err)"
  unfolding r92su_deal_with_usb_errors_def by (intro io_only)

lemma io_only_sync_write [io_only]: "io_only (r92su_sync_write E a d)"
  by (rule changesI) (auto simp: io_rel_def r92su_sync_write_def kmalloc_def split: prod.splits)

lemma io_only_sync_read [io_only]: "io_only (r92su_sync_read E a d)"
  by (rule changesI) (auto simp: io_rel_def r92su_sync_read_def kmalloc_def Let_def split: prod.splits)

lemma io_only_regs [io_only]:
  "io_only (r92su_read8 E a)" "io_only (r92su_read16 E a)" "io_only (r92su_read32 E a)"
  "io_only (r92su_write8 E a b)" "io_only (r92su_write16 E a c)" "io_only (r92su_write32 E a d)"
  unfolding r92su_read8_def r92su_read16_def r92su_read32_def r92su_write8_def r92su_write16_def
    r92su_write32_def r92su_read_helper_def r92su_write_helper_def
  by (intro io_only)+

lemma io_rel_fields:
  assumes "io_rel s t"
  shows "eeprom t = eeprom s" "h2c_seq t = h2c_seq s" "fw t = fw s" "chip_rev t = chip_rev s"
    "ep_num t = ep_num s" "tx_wait t = tx_wait s" "rf_type t = rf_type s" "iftype t = iftype s"
proof -
  let ?t = "t\<lparr>world := world s, allocs := allocs s, r_state := r_state s, log := log s\<rparr>"
  have e: "?t = s" using assms by (simp add: io_rel_def)
  from arg_cong [OF e, of eeprom] show "eeprom t = eeprom s" by simp
  from arg_cong [OF e, of h2c_seq] show "h2c_seq t = h2c_seq s" by simp
  from arg_cong [OF e, of fw] show "fw t = fw s" by simp
  from arg_cong [OF e, of chip_rev] show "chip_rev t = chip_rev s" by simp
  from arg_cong [OF e, of ep_num] show "ep_num t = ep_num s" by simp
  from arg_cong [OF e, of tx_wait] show "tx_wait t = tx_wait s" by simp
  from arg_cong [OF e, of rf_type] show "rf_type t = rf_type s" by simp
  from arg_cong [OF e, of iftype] show "iftype t = iftype s" by simp
qed

section \<open>Transmission\<close>

abbreviation (input) RTL_USB_MAX_TX_URBS_NUM :: int where "RTL_USB_MAX_TX_URBS_NUM \<equiv> 8"
abbreviation (input) RTL_USB_MAX_RX_URBS_NUM :: nat where "RTL_USB_MAX_RX_URBS_NUM \<equiv> 8"
abbreviation (input) RTL92SU_SIZE_MAX_RX_BUFFER :: nat where "RTL92SU_SIZE_MAX_RX_BUFFER \<equiv> 32768"

definition r92su_tx_schedule :: "'w env \<Rightarrow> 'w r92su \<Rightarrow> 'w r92su" where
  "r92su_tx_schedule E s =
     (let s = s\<lparr>tx_pending_urbs := tx_pending_urbs s + 1\<rparr> in
      if RTL_USB_MAX_TX_URBS_NUM < tx_pending_urbs s
      then s\<lparr>tx_pending_urbs := tx_pending_urbs s - 1\<rparr>
      else case tx_wait s of
        [] \<Rightarrow> s\<lparr>tx_pending_urbs := tx_pending_urbs s - 1\<rparr>
      | urb # rest \<Rightarrow>
          (case usb_submit_urb E urb (world s) of (err, w) \<Rightarrow>
             let s = s\<lparr>tx_wait := rest, world := w\<rparr> in
             if err \<noteq> 0 then
               (let s = emit (Free_skb (urb_data urb)) (r92su_mark_dead s) in
                s\<lparr>tx_pending_urbs := tx_pending_urbs s - 1\<rparr>)
             else s\<lparr>tx_submitted := tx_submitted s @ [urb]\<rparr>))"

text \<open>
  Completion of the \<open>i\<close>-th submitted block: the USB core has taken it off the anchor before
  it calls back; \<open>r92su_tx_cb\<close> does nothing.
\<close>

definition r92su_tx_usb_cb :: "'w env \<Rightarrow> nat \<Rightarrow> int \<Rightarrow> 'w r92su \<Rightarrow> 'w r92su" where
  "r92su_tx_usb_cb E i status s =
     (let urb = tx_submitted s ! i;
          s = s\<lparr>tx_submitted := take i (tx_submitted s) @ drop (Suc i) (tx_submitted s)\<rparr>;
          s = s\<lparr>tx_pending_urbs := tx_pending_urbs s - 1\<rparr>;
          s = emit (Free_skb (urb_data urb)) s;
          s = snd (run_state (r92su_deal_with_usb_errors E status) s)
      in r92su_tx_schedule E s)"

definition RTL8712_EP_RX :: nat where "RTL8712_EP_RX = 3"
definition RTL8712_EP_RX9 :: nat where "RTL8712_EP_RX9 = 9"
definition RTL8712_EP_TX4 :: nat where "RTL8712_EP_TX4 = 4"
definition RTL8712_EP_TX5 :: nat where "RTL8712_EP_TX5 = 5"
definition RTL8712_EP_TX6 :: nat where "RTL8712_EP_TX6 = 6"
definition RTL8712_EP_TX7 :: nat where "RTL8712_EP_TX7 = 7"
definition RTL8712_EP_TX10 :: nat where "RTL8712_EP_TX10 = 10"
definition RTL8712_EP_TX11 :: nat where "RTL8712_EP_TX11 = 11"
definition RTL8712_EP_TX12 :: nat where "RTL8712_EP_TX12 = 12"
definition RTL8712_EP_TX13 :: nat where "RTL8712_EP_TX13 = 13"

lemmas ep_defs = RTL8712_EP_RX_def RTL8712_EP_RX9_def RTL8712_EP_TX4_def RTL8712_EP_TX5_def
  RTL8712_EP_TX6_def RTL8712_EP_TX7_def RTL8712_EP_TX10_def RTL8712_EP_TX11_def
  RTL8712_EP_TX12_def RTL8712_EP_TX13_def

text \<open>Entries without an initialiser are 0.\<close>

definition ep4_map :: "nat list" where
  "ep4_map = [0, RTL8712_EP_TX6, 0, RTL8712_EP_TX6, 0, RTL8712_EP_TX4, 0, RTL8712_EP_TX4,
     RTL8712_EP_TX13, RTL8712_EP_TX13, RTL8712_EP_TX13, RTL8712_EP_TX13, RTL8712_EP_RX, RTL8712_EP_RX]"

definition ep6_map :: "nat list" where
  "ep6_map = [0, RTL8712_EP_TX7, 0, RTL8712_EP_TX6, 0, RTL8712_EP_TX5, 0, RTL8712_EP_TX4,
     RTL8712_EP_TX13, RTL8712_EP_TX13, RTL8712_EP_TX13, RTL8712_EP_TX13, RTL8712_EP_RX, RTL8712_EP_RX]"

definition ep11_map :: "nat list" where
  "ep11_map = [0, RTL8712_EP_TX7, 0, RTL8712_EP_TX6, 0, RTL8712_EP_TX5, 0, RTL8712_EP_TX4,
     RTL8712_EP_TX13, RTL8712_EP_TX10, RTL8712_EP_TX11, RTL8712_EP_TX12, RTL8712_EP_RX, RTL8712_EP_RX9]"

definition ep_maps :: "nat list option list" where
  "ep_maps = ((replicate 16 None)[4 := Some ep4_map, 6 := Some ep6_map, 11 := Some ep11_map])"

definition r92su_usb_get_pipe :: "'w r92su \<Rightarrow> rtl8712_queues_t \<Rightarrow> nat" where
  "r92su_usb_get_pipe s queue = ep_map s ! queue_nr queue"

definition r92su_usb_tx :: "'w env \<Rightarrow> bytes \<Rightarrow> rtl8712_queues_t \<Rightarrow> ('w r92su, int) state" where
  "r92su_usb_tx E data queue = State (\<lambda>s.
     if \<not> r92su_is_probing s then (- EINVAL, emit (Free_skb data) s)
     else case kmalloc E s of (ok, s) \<Rightarrow>
       if \<not> ok then (- ENOMEM, emit (Free_skb data) s)
       else (0, r92su_tx_schedule E
              (s\<lparr>tx_wait := tx_wait s @ [\<lparr>urb_pipe = r92su_usb_get_pipe s queue, urb_data = data\<rparr>]\<rparr>)))"

text \<open>
  The in-flight counter equals the number of submitted blocks and is at most eight, and no
  block waits while there is room, unless the device is dead.
\<close>

definition tx_inv :: "'w r92su \<Rightarrow> bool" where
  "tx_inv s \<longleftrightarrow> tx_pending_urbs s = int (length (tx_submitted s)) \<and>
     tx_pending_urbs s \<le> RTL_USB_MAX_TX_URBS_NUM \<and>
     (tx_wait s \<noteq> [] \<longrightarrow> tx_pending_urbs s = RTL_USB_MAX_TX_URBS_NUM \<or> r92su_is_dead s)"

text \<open>What the scheduler leaves, for the invariant before a wait slot or a credit appears.\<close>

definition tx_inv0 :: "'w r92su \<Rightarrow> bool" where
  "tx_inv0 s \<longleftrightarrow> tx_pending_urbs s = int (length (tx_submitted s)) \<and>
     tx_pending_urbs s \<le> RTL_USB_MAX_TX_URBS_NUM"

lemma mark_dead_sel [simp]:
  "r_state (r92su_mark_dead s) = R92SU_DEAD"
  "tx_pending_urbs (r92su_mark_dead s) = tx_pending_urbs s"
  "tx_submitted (r92su_mark_dead s) = tx_submitted s"
  "tx_wait (r92su_mark_dead s) = tx_wait s"
  by (simp_all add: r92su_mark_dead_def r92su_set_state_def emit_def Let_def)

lemma usb_errors_tx [simp]:
  "tx_pending_urbs (snd (run_state (r92su_deal_with_usb_errors E err) s)) = tx_pending_urbs s"
  "tx_submitted (snd (run_state (r92su_deal_with_usb_errors E err) s)) = tx_submitted s"
  "tx_wait (snd (run_state (r92su_deal_with_usb_errors E err) s)) = tx_wait s"
  by (simp_all add: r92su_deal_with_usb_errors_def State_Monad.get_def)

lemma usb_errors_dead [simp]:
  "r_state s = R92SU_DEAD \<Longrightarrow> r_state (snd (run_state (r92su_deal_with_usb_errors E err) s)) = R92SU_DEAD"
  by (simp add: r92su_deal_with_usb_errors_def State_Monad.get_def)

lemma schedule_inv:
  assumes "tx_inv0 s" "length (tx_wait s) \<le> 1 \<or> tx_pending_urbs s = 7 \<or> tx_pending_urbs s = 8 \<or> r92su_is_dead s"
  shows "tx_inv (r92su_tx_schedule E s)"
  using assms
  by (auto simp: tx_inv_def tx_inv0_def r92su_tx_schedule_def Let_def emit_def r92su_is_dead_def
      split: list.splits prod.splits)

lemma usb_tx_inv: "tx_inv s \<Longrightarrow> tx_inv (snd (run_state (r92su_usb_tx E data queue) s))"
proof -
  assume inv: "tx_inv s"
  show ?thesis
  proof (cases "r92su_is_probing s \<and> alloc_ok E (allocs s)")
    case True
    let ?t = "s\<lparr>allocs := allocs s + 1, tx_wait := tx_wait s @
       [\<lparr>urb_pipe = r92su_usb_get_pipe s queue, urb_data = data\<rparr>]\<rparr>"
    have "tx_inv (r92su_tx_schedule E ?t)"
      using inv by (intro schedule_inv) (auto simp: tx_inv_def tx_inv0_def r92su_is_dead_def)
    moreover have "r92su_usb_get_pipe (s\<lparr>allocs := allocs s + 1\<rparr>) queue = r92su_usb_get_pipe s queue"
      by (simp add: r92su_usb_get_pipe_def)
    ultimately show ?thesis using True by (simp add: r92su_usb_tx_def kmalloc_def)
  next
    case False
    then show ?thesis using inv
      by (auto simp: r92su_usb_tx_def kmalloc_def emit_def tx_inv_def r92su_is_dead_def)
  qed
qed

text \<open>
  Handing over a frame changes, beside that, only the bookkeeping of the transmit path, and keeps its
  invariant.
\<close>

definition tx_kept :: "'w r92su \<Rightarrow> 'w r92su \<Rightarrow> bool" where
  "tx_kept s t \<longleftrightarrow> t\<lparr>world := world s, allocs := allocs s, r_state := r_state s, log := log s,
     tx_pending_urbs := tx_pending_urbs s, tx_wait := tx_wait s, tx_submitted := tx_submitted s\<rparr> = s \<and>
     (r_state t = r_state s \<or> r_state t = R92SU_DEAD)"

definition tx_rel :: "'w r92su \<Rightarrow> 'w r92su \<Rightarrow> bool" where
  "tx_rel s t \<longleftrightarrow> tx_kept s t \<and> (tx_inv s \<longrightarrow> tx_inv t)"

named_theorems tx_only

lemma tx_kept_trans:
  assumes "tx_kept s t" "tx_kept t u"
  shows "tx_kept s u"
proof -
  let ?put = "\<lambda>u s. u\<lparr>world := world s, allocs := allocs s, r_state := r_state s, log := log s,
     tx_pending_urbs := tx_pending_urbs s, tx_wait := tx_wait s, tx_submitted := tx_submitted s\<rparr>"
  have "?put u s = ?put (?put u t) s" by simp
  also have "\<dots> = ?put t s" by (simp only: assms(2) [unfolded tx_kept_def, THEN conjunct1])
  also have "\<dots> = s" using assms(1) by (simp add: tx_kept_def)
  finally show ?thesis using assms by (auto simp: tx_kept_def)
qed

lemma tx_rel_trans: "tx_rel s t \<Longrightarrow> tx_rel t u \<Longrightarrow> tx_rel s u"
  by (auto simp: tx_rel_def intro: tx_kept_trans)

interpretation txr: frame_relation tx_rel
proof
  show "tx_rel s s" for s :: "'a r92su" by (simp add: tx_rel_def tx_kept_def)
qed (rule tx_rel_trans)

abbreviation tx_only :: "('w r92su, 'a) state \<Rightarrow> bool" where
  "tx_only m \<equiv> changes tx_rel m"

lemmas tx_rules [tx_only] = txr.rules

lemma tx_inv_cong:
  "tx_pending_urbs t = tx_pending_urbs s \<Longrightarrow> tx_wait t = tx_wait s \<Longrightarrow> tx_submitted t = tx_submitted s \<Longrightarrow>
   r_state t = r_state s \<or> r_state t = R92SU_DEAD \<Longrightarrow> tx_inv s \<Longrightarrow> tx_inv t"
  by (auto simp: tx_inv_def r92su_is_dead_def)

lemma io_rel_tx_rel: "io_rel s t \<Longrightarrow> tx_rel s t"
proof -
  assume io: "io_rel s t"
  then have e: "t\<lparr>world := world s, allocs := allocs s, r_state := r_state s, log := log s\<rparr> = s"
    by (simp add: io_rel_def)
  let ?tx = "\<lambda>t. t\<lparr>tx_pending_urbs := tx_pending_urbs s, tx_wait := tx_wait s, tx_submitted := tx_submitted s\<rparr>"
  from arg_cong [OF e, of ?tx] io have "tx_kept s t" by (simp add: tx_kept_def io_rel_def)
  moreover have "tx_inv s \<Longrightarrow> tx_inv t"
    by (rule tx_inv_cong)
      (use arg_cong [OF e, of tx_pending_urbs] arg_cong [OF e, of tx_wait] arg_cong [OF e, of tx_submitted] io in \<open>simp_all add: io_rel_def\<close>)
  ultimately show ?thesis by (simp add: tx_rel_def)
qed

lemma io_only_tx_only: "io_only m \<Longrightarrow> tx_only m"
  by (erule changes_mono) (rule io_rel_tx_rel)

lemma tx_only_kmalloc [tx_only]: "tx_only (State (kmalloc E))"
  by (rule changesI) (auto simp: tx_rel_def tx_kept_def kmalloc_def intro: tx_inv_cong [rotated -1])

lemma tx_kept_schedule: "tx_kept s (r92su_tx_schedule E s)"
  by (auto simp: tx_kept_def r92su_tx_schedule_def Let_def emit_def r92su_mark_dead_def
      r92su_set_state_def split: list.splits prod.splits)

lemma tx_rel_schedule: "tx_rel s (r92su_tx_schedule E s)"
proof -
  have "tx_inv s \<Longrightarrow> tx_inv (r92su_tx_schedule E s)"
    by (rule schedule_inv) (auto simp: tx_inv_def tx_inv0_def)
  then show ?thesis by (simp add: tx_rel_def tx_kept_schedule)
qed

lemma tx_only_usb_tx [tx_only]: "tx_only (r92su_usb_tx E data queue)"
proof (rule changesI)
  fix s :: "'a r92su"
  let ?q = "s\<lparr>allocs := allocs s + 1, tx_wait := tx_wait s @
     [\<lparr>urb_pipe = r92su_usb_get_pipe (s\<lparr>allocs := allocs s + 1\<rparr>) queue, urb_data = data\<rparr>]\<rparr>"
  have "tx_kept s ?q" by (simp add: tx_kept_def)
  then have "tx_kept s (r92su_tx_schedule E ?q)" by (rule tx_kept_trans) (rule tx_kept_schedule)
  then have "tx_kept s (snd (run_state (r92su_usb_tx E data queue) s))"
    by (auto simp: r92su_usb_tx_def kmalloc_def) (auto simp: tx_kept_def emit_def)
  then show "tx_rel s (snd (run_state (r92su_usb_tx E data queue) s))"
    using usb_tx_inv by (auto simp: tx_rel_def)
qed

lemma tx_rel_inv: "tx_rel s t \<Longrightarrow> tx_inv s \<Longrightarrow> tx_inv t"
  by (simp add: tx_rel_def)

lemma tx_rel_fields:
  assumes "tx_rel s t"
  shows "fw t = fw s" "fw_sram_off t = fw_sram_off s" "fw_sram_len t = fw_sram_len s"
    "fw_dmem t = fw_dmem s" "fw_loaded t = fw_loaded s" "h2c_seq t = h2c_seq s"
    "sta_list t = sta_list s" "stas t = stas s" "keys t = keys s" "tids t = tids s"
    "ep_map t = ep_map s" "iftype t = iftype s" "connect_bss t = connect_bss s" "want_connect_bss t = want_connect_bss s"
    "bsss t = bsss s" "r_state t = r_state s \<or> r_state t = R92SU_DEAD" "has_netdev t = has_netdev s"
    "disable_ht t = disable_ht s" "band_ht_cap t = band_ht_cap s" "rcu_cbs t = rcu_cbs s" "next_ptr t = next_ptr s"
    "sta_num t = sta_num s" "connect_result t = connect_result s" "bufs t = bufs s" "debug t = debug s"
proof -
  let ?t = "t\<lparr>world := world s, allocs := allocs s, r_state := r_state s, log := log s,
     tx_pending_urbs := tx_pending_urbs s, tx_wait := tx_wait s, tx_submitted := tx_submitted s\<rparr>"
  have e: "?t = s" using assms by (simp add: tx_rel_def tx_kept_def)
  from arg_cong [OF e, of fw] show "fw t = fw s" by simp
  from arg_cong [OF e, of fw_sram_off] show "fw_sram_off t = fw_sram_off s" by simp
  from arg_cong [OF e, of fw_sram_len] show "fw_sram_len t = fw_sram_len s" by simp
  from arg_cong [OF e, of fw_dmem] show "fw_dmem t = fw_dmem s" by simp
  from arg_cong [OF e, of fw_loaded] show "fw_loaded t = fw_loaded s" by simp
  from arg_cong [OF e, of h2c_seq] show "h2c_seq t = h2c_seq s" by simp
  from arg_cong [OF e, of sta_list] show "sta_list t = sta_list s" by simp
  from arg_cong [OF e, of stas] show "stas t = stas s" by simp
  from arg_cong [OF e, of keys] show "keys t = keys s" by simp
  from arg_cong [OF e, of tids] show "tids t = tids s" by simp
  from arg_cong [OF e, of ep_map] show "ep_map t = ep_map s" by simp
  from arg_cong [OF e, of iftype] show "iftype t = iftype s" by simp
  from arg_cong [OF e, of connect_bss] show "connect_bss t = connect_bss s" by simp
  from arg_cong [OF e, of want_connect_bss] show "want_connect_bss t = want_connect_bss s" by simp
  from arg_cong [OF e, of bsss] show "bsss t = bsss s" by simp
  from arg_cong [OF e, of has_netdev] show "has_netdev t = has_netdev s" by simp
  from arg_cong [OF e, of disable_ht] show "disable_ht t = disable_ht s" by simp
  from arg_cong [OF e, of band_ht_cap] show "band_ht_cap t = band_ht_cap s" by simp
  from arg_cong [OF e, of rcu_cbs] show "rcu_cbs t = rcu_cbs s" by simp
  from arg_cong [OF e, of next_ptr] show "next_ptr t = next_ptr s" by simp
  from arg_cong [OF e, of sta_num] show "sta_num t = sta_num s" by simp
  from arg_cong [OF e, of connect_result] show "connect_result t = connect_result s" by simp
  from arg_cong [OF e, of bufs] show "bufs t = bufs s" by simp
  from arg_cong [OF e, of debug] show "debug t = debug s" by simp
  show "r_state t = r_state s \<or> r_state t = R92SU_DEAD" using assms by (simp add: tx_rel_def tx_kept_def)
qed

section \<open>Reception and probing\<close>

text \<open>
  A completed receive block: the parser \<open>rx\<close> gets the bytes, then the block is submitted
  again. The result says whether the buffer was freed, so that the block is lost.
\<close>

definition r92su_rx_usb_cb ::
    "'w env \<Rightarrow> ('w r92su \<Rightarrow> bytes \<Rightarrow> 'w r92su option) \<Rightarrow> bytes \<Rightarrow> int \<Rightarrow> 'w r92su \<Rightarrow> 'w r92su option" where
  "r92su_rx_usb_cb E rx buf status s =
     (let s = s\<lparr>rx_submitted := rx_submitted s - 1\<rparr> in
      case run_state (r92su_deal_with_usb_errors E status) s of (bad, s) \<Rightarrow>
      if bad then Some s
      else if \<not> r92su_is_probing s then Some s
      else do {
        s \<leftarrow> rx s buf;
        case usb_submit_rx_urb E (world s) of (err, w) \<Rightarrow>
        let s = s\<lparr>world := w\<rparr> in
        if err \<noteq> 0 then
          Some (r92su_mark_dead (snd (run_state (r92su_deal_with_usb_errors E err) s)))
        else Some (s\<lparr>rx_submitted := rx_submitted s + 1\<rparr>) })"

definition r92su_get_rx_urb :: "'w env \<Rightarrow> 'w r92su \<Rightarrow> bool \<times> 'w r92su" where
  "r92su_get_rx_urb E s = (case kmalloc E s of (ok, s) \<Rightarrow>
     if \<not> ok then (False, s) else kmalloc E s)"

text \<open>The loop of \<open>r92su_usb_init\<close>: \<open>err\<close> is what the variable holds.\<close>

fun usb_init_loop :: "'w env \<Rightarrow> nat \<Rightarrow> int \<Rightarrow> 'w r92su \<Rightarrow> int \<times> 'w r92su" where
  "usb_init_loop E 0 err s = (err, s)"
| "usb_init_loop E (Suc n) err s =
     (case r92su_get_rx_urb E s of (ok, s) \<Rightarrow>
        if \<not> ok then (- ENOMEM, s)
        else case usb_submit_rx_urb E (world s) of (err, w) \<Rightarrow>
          let s = s\<lparr>world := w\<rparr> in
          if err \<noteq> 0 then (err, r92su_mark_dead s)
          else usb_init_loop E n err (s\<lparr>rx_submitted := rx_submitted s + 1\<rparr>))"

definition r92su_usb_init :: "'w env \<Rightarrow> 'w r92su \<Rightarrow> int \<times> 'w r92su" where
  "r92su_usb_init E s = usb_init_loop E RTL_USB_MAX_RX_URBS_NUM (- EINVAL) s"

text \<open>
  The part of \<open>r92su_usb_probe\<close> that selects the endpoint map. The index is not checked
  against the 16 entries of \<open>ep_maps\<close>.
\<close>

definition usb_select_map :: "nat \<Rightarrow> 'w r92su \<Rightarrow> (int \<times> 'w r92su) option" where
  "usb_select_map n s =
     (if length ep_maps \<le> n then None
      else case ep_maps ! n of
        None \<Rightarrow> Some (- EINVAL, s\<lparr>ep_num := n\<rparr>)
      | Some m \<Rightarrow> Some (0, s\<lparr>ep_num := n, ep_map := m\<rparr>))"

section \<open>The transmit scheduler\<close>

text \<open>The steps of the transmit path: a frame is handed over, or a block completes.\<close>

inductive tx_step :: "'w env \<Rightarrow> 'w r92su \<Rightarrow> 'w r92su \<Rightarrow> bool" for E where
  submit: "tx_step E s (snd (run_state (r92su_usb_tx E data queue) s))"
| complete: "i < length (tx_submitted s) \<Longrightarrow> tx_step E s (r92su_tx_usb_cb E i status s)"

inductive_cases tx_stepE: "tx_step E s t"

lemma tx_usb_cb_inv: "tx_inv s \<Longrightarrow> i < length (tx_submitted s) \<Longrightarrow> tx_inv (r92su_tx_usb_cb E i status s)"
  unfolding r92su_tx_usb_cb_def Let_def
  by (intro schedule_inv)
    (auto simp: tx_inv_def tx_inv0_def emit_def r92su_is_dead_def)

definition tx_init :: "'w r92su \<Rightarrow> bool" where
  "tx_init s \<longleftrightarrow> tx_pending_urbs s = 0 \<and> tx_wait s = [] \<and> tx_submitted s = []"

interpretation tx: invariant_system tx_init "tx_step E" tx_inv for E :: "'w env"
proof
  show "tx_init s \<Longrightarrow> tx_inv s" for s :: "'w r92su"
    by (simp add: tx_init_def tx_inv_def)
  show "tx_inv s \<Longrightarrow> tx_step E s t \<Longrightarrow> tx_inv t" for s t
    by (auto elim!: tx_stepE intro: usb_tx_inv tx_usb_cb_inv)
qed

text \<open>The frames the transmit path owns or has freed.\<close>

fun freed :: "effect list \<Rightarrow> bytes list" where
  "freed [] = []"
| "freed (Free_skb d # es) = d # freed es"
| "freed (e # es) = freed es"

lemma freed_append [simp]: "freed (a @ b) = freed a @ freed b"
  by (induction a rule: freed.induct) auto

definition tx_frames :: "'w r92su \<Rightarrow> bytes multiset" where
  "tx_frames s = mset (map urb_data (tx_wait s)) + mset (map urb_data (tx_submitted s)) + mset (freed (log s))"

lemma freed_mark_dead [simp]: "freed (log (r92su_mark_dead s)) = freed (log s)"
  by (simp add: r92su_mark_dead_def r92su_set_state_def emit_def Let_def)

lemma freed_usb_errors [simp]:
  "freed (log (snd (run_state (r92su_deal_with_usb_errors E err) s))) = freed (log s)"
  by (simp add: r92su_deal_with_usb_errors_def State_Monad.get_def)

lemma schedule_frames: "tx_frames (r92su_tx_schedule E s) = tx_frames s"
  by (auto simp: r92su_tx_schedule_def tx_frames_def Let_def emit_def split: list.splits prod.splits)

section \<open>Properties\<close>

text \<open>The transport alone. In every state that hand-overs and completions can reach, the counter equals the
  number of blocks in flight, at most eight are in flight, and a frame waits only while all
  eight are in flight or the device is dead.\<close>

theorem tx_at_most_eight:
  assumes "tx_init s" "(tx_step E)\<^sup>*\<^sup>* s t"
  shows "tx_pending_urbs t = int (length (tx_submitted t)) \<and> length (tx_submitted t) \<le> 8 \<and>
     (tx_wait t \<noteq> [] \<longrightarrow> length (tx_submitted t) = 8 \<or> r92su_is_dead t)"
  using tx.reachable_inv [OF assms] by (auto simp: tx_inv_def)

lemma usb_tx_frames:
  "tx_frames (snd (run_state (r92su_usb_tx E data queue) s)) = add_mset data (tx_frames s)"
  by (auto simp: r92su_usb_tx_def kmalloc_def schedule_frames) (auto simp: tx_frames_def emit_def)

lemma tx_cb_frames:
  assumes i: "i < length (tx_submitted s)"
  shows "tx_frames (r92su_tx_usb_cb E i status s) = tx_frames s"
proof -
  have "mset (tx_submitted s) = add_mset (tx_submitted s ! i)
      (mset (take i (tx_submitted s) @ drop (Suc i) (tx_submitted s)))"
    by (subst id_take_nth_drop [OF i]) simp
  then have "mset (map urb_data (tx_submitted s)) = add_mset (urb_data (tx_submitted s ! i))
      (mset (map urb_data (take i (tx_submitted s) @ drop (Suc i) (tx_submitted s))))"
    by (metis image_mset_add_mset mset_map)
  then show ?thesis
    by (simp add: r92su_tx_usb_cb_def Let_def schedule_frames) (simp add: tx_frames_def emit_def)
qed

text \<open>C21. A frame that is handed to the transport is from then on waiting, in flight or freed,
  exactly once: neither the hand-over nor a completion loses or frees a frame twice.\<close>

theorem usb_tx_conserves:
  "tx_frames (snd (run_state (r92su_usb_tx E data queue) s)) = add_mset data (tx_frames s) \<and>
   (i < length (tx_submitted s) \<longrightarrow> tx_frames (r92su_tx_usb_cb E i status s) = tx_frames s)"
  by (simp add: usb_tx_frames tx_cb_frames)

text \<open>A device with a supported number of endpoints has a bulk endpoint for every queue:
  transmit queues never map to the control or to a receive endpoint.\<close>

theorem endpoints_total:
  assumes "usb_select_map n s = Some (0, s')"
  shows "if queue \<in> {RTL8712_RX0FF, RTL8712_C2HCMD}
     then r92su_usb_get_pipe s' queue \<in> {3, 9}
     else r92su_usb_get_pipe s' queue \<in> {4, 5, 6, 7, 10, 11, 12, 13}"
proof -
  have "ep_map s' \<in> {ep4_map, ep6_map, ep11_map}"
    using assms by (auto simp: usb_select_map_def ep_maps_def nth_list_update split: if_splits option.splits)
  then show ?thesis
    by (cases queue) (auto simp: r92su_usb_get_pipe_def ep4_map_def ep6_map_def ep11_map_def ep_defs)
qed

text \<open>Once the device is dead no register access reaches it: reads and writes leave the
  device as it is, and the driver stays dead.\<close>

theorem dead_no_io:
  assumes "r92su_is_dead s"
  shows "world (snd (run_state (r92su_read_helper E a n) s)) = world s \<and>
     world (snd (run_state (r92su_write_helper E a d) s)) = world s \<and>
     r92su_is_dead (snd (run_state (r92su_read_helper E a n) s)) \<and>
     r92su_is_dead (snd (run_state (r92su_write_helper E a d) s))"
  using assms dead_not_probing [OF assms]
  by (simp add: r92su_read_helper_def r92su_write_helper_def r92su_sync_read_def r92su_sync_write_def
      r92su_deal_with_usb_errors_def State_Monad.get_def)

text \<open>Witnesses on the register-file device.\<close>

definition probed :: "(u16 \<Rightarrow> u8) r92su" where
  "probed = (r92su_zero (\<lambda>_. 0))\<lparr>r_state := R92SU_PROBE, ep_map := ep4_map\<rparr>"

lemma tx_init_probed: "tx_init probed"
  by (simp add: tx_init_def probed_def r92su_zero_def)

theorem tx_at_most_eight_witness:
  "\<exists>t. (tx_step reg_env)\<^sup>*\<^sup>* probed t \<and> length (tx_submitted t) \<le> 8 \<and>
     tx_pending_urbs t = int (length (tx_submitted t)) \<and> t = snd (run_state (r92su_usb_tx reg_env [1,2,3] RTL8712_VOQ) probed)"
proof -
  have "(tx_step reg_env)\<^sup>*\<^sup>* probed (snd (run_state (r92su_usb_tx reg_env [1,2,3] RTL8712_VOQ) probed))"
    by (intro r_into_rtranclp tx_step.submit)
  with tx_at_most_eight [OF tx_init_probed this] show ?thesis by blast
qed

theorem usb_tx_conserves_witness:
  "tx_frames (r92su_tx_usb_cb reg_env 0 0 (probed\<lparr>tx_submitted := [\<lparr>urb_pipe = 4, urb_data = [9]\<rparr>]\<rparr>)) = {#[9]#}"
proof -
  let ?s = "probed\<lparr>tx_submitted := [\<lparr>urb_pipe = 4, urb_data = [9]\<rparr>]\<rparr>"
  have "tx_frames (r92su_tx_usb_cb reg_env 0 0 ?s) = tx_frames ?s"
    using usb_tx_conserves [where E = reg_env and s = ?s and i = 0 and status = 0] by simp
  also have "\<dots> = {#[9]#}" by (simp add: tx_frames_def probed_def r92su_zero_def)
  finally show ?thesis .
qed

theorem endpoints_total_witness:
  "\<exists>s'. usb_select_map 4 probed = Some (0, s') \<and> r92su_usb_get_pipe s' RTL8712_H2CCMD \<in> {4,5,6,7,10,11,12,13}"
proof -
  have "usb_select_map 4 probed = Some (0, probed\<lparr>ep_num := 4, ep_map := ep4_map\<rparr>)"
    by (simp add: usb_select_map_def ep_maps_def)
  from this endpoints_total [OF this, of RTL8712_H2CCMD] show ?thesis by auto
qed

theorem dead_no_io_witness:
  "world (snd (run_state (r92su_write_helper reg_env 0x10 [7]) (r92su_zero (\<lambda>_. 0)))) = (\<lambda>_. 0)"
  using dead_no_io [where s = "r92su_zero (\<lambda>_. 0)" and E = reg_env and a = "0x10" and d = "[7]"]
  by (simp add: r92su_is_dead_def r92su_zero_def)

end
