(* ===== verification/R92_Sta.thy ===== *)
theory R92_Sta
  imports R92_State R92_Usb
begin

text \<open>
  Stations, block-ack sessions and keys (\<open>sta.c\<close>). The objects live in the heaps \<open>stas\<close>,
  \<open>tids\<close> and \<open>keys\<close>; \<open>call_rcu\<close> and \<open>kfree_rcu\<close> append to \<open>rcu_cbs\<close>, and \<open>rcu_step\<close> runs the
  oldest of these callbacks. Following a pointer to an object that is no longer in its heap is
  \<open>None\<close>; the invariant at the end shows that no operation of this file does.
\<close>

section \<open>Release\<close>

definition r92su_free_tid :: "nat option \<Rightarrow> 'w r92su \<Rightarrow> 'w r92su option" where
  "r92su_free_tid tid s = (case tid of
     None \<Rightarrow> Some s
   | Some p \<Rightarrow> do {
       t \<leftarrow> tids s p;
       Some (s\<lparr>tids := (tids s)(p \<mapsto> t\<lparr>rt_sta := None\<rparr>), rcu_cbs := rcu_cbs s @ [Free_tid p]\<rparr>) })"

text \<open>The frames in the buffers are freed in their order; the last step stands for \<open>kfree_rcu\<close>.\<close>

definition r92su_free_tid_rcu :: "nat \<Rightarrow> 'w r92su \<Rightarrow> 'w r92su option" where
  "r92su_free_tid_rcu p s = do {
     t \<leftarrow> tids s p;
     Some (s\<lparr>log := log s @ map (\<lambda>skb. Free_skb (skb_data skb)) (List.map_filter id (rt_buf t)),
             tids := (tids s)(p := None)\<rparr>) }"

definition r92su_key_free :: "nat option \<Rightarrow> 'w r92su \<Rightarrow> 'w r92su option" where
  "r92su_key_free key s = (case key of
     None \<Rightarrow> Some s
   | Some k \<Rightarrow> do {
       _ \<leftarrow> keys s k;
       Some (s\<lparr>rcu_cbs := rcu_cbs s @ [Free_key k]\<rparr>) })"

definition free_key_rcu :: "nat \<Rightarrow> 'w r92su \<Rightarrow> 'w r92su option" where
  "free_key_rcu k s = do { _ \<leftarrow> keys s k; Some (s\<lparr>keys := (keys s)(k := None)\<rparr>) }"

fun free_tids :: "nat option list \<Rightarrow> 'w r92su \<Rightarrow> 'w r92su option" where
  "free_tids [] s = Some s"
| "free_tids (t # ts) s = do { s \<leftarrow> r92su_free_tid t s; free_tids ts s }"

definition r92su_free_sta_rcu :: "nat \<Rightarrow> 'w r92su \<Rightarrow> 'w r92su option" where
  "r92su_free_sta_rcu p s = do {
     sta \<leftarrow> stas s p;
     let s = s\<lparr>log := log s @ map (\<lambda>skb. Free_skb (skb_data skb)) (concat (map df_queue (sta_defrag sta)))\<rparr>;
     s \<leftarrow> free_tids (sta_rx_tid sta) s;
     s \<leftarrow> r92su_key_free (sta_key sta) s;
     Some (s\<lparr>stas := (stas s)(p := None)\<rparr>) }"

text \<open>The end of a grace period for the oldest callback.\<close>

definition rcu_step :: "'w r92su \<Rightarrow> 'w r92su option" where
  "rcu_step s = (case rcu_cbs s of
     [] \<Rightarrow> Some s
   | Free_sta p # rest \<Rightarrow> r92su_free_sta_rcu p (s\<lparr>rcu_cbs := rest\<rparr>)
   | Free_tid p # rest \<Rightarrow> r92su_free_tid_rcu p (s\<lparr>rcu_cbs := rest\<rparr>)
   | Free_key p # rest \<Rightarrow> free_key_rcu p (s\<lparr>rcu_cbs := rest\<rparr>))"

section \<open>Look-up\<close>

text \<open>The walks over the station list; the outer \<open>None\<close> is a dangling list entry.\<close>

fun sta_find :: "(r92su_sta \<Rightarrow> bool) \<Rightarrow> (nat \<rightharpoonup> r92su_sta) \<Rightarrow> nat list \<Rightarrow> nat option option" where
  "sta_find P h [] = Some None"
| "sta_find P h (p # ps) = do {
     sta \<leftarrow> h p;
     if P sta then Some (Some p) else sta_find P h ps }"

definition r92su_sta_get :: "'w r92su \<Rightarrow> bytes \<Rightarrow> nat option option" where
  "r92su_sta_get s mac_addr = sta_find (\<lambda>sta. sta_mac_addr sta = take 6 mac_addr) (stas s) (sta_list s)"

definition r92su_sta_get_by_macid :: "'w r92su \<Rightarrow> u32 \<Rightarrow> nat option option" where
  "r92su_sta_get_by_macid s mac_id = sta_find (\<lambda>sta. sta_mac_id sta = mac_id) (stas s) (sta_list s)"

definition r92su_sta_get_by_idx :: "'w r92su \<Rightarrow> int \<Rightarrow> nat option" where
  "r92su_sta_get_by_idx s idx =
     (if nat idx < length (sta_list s) then Some (sta_list s ! nat idx) else None)"

section \<open>Stations and block-ack sessions\<close>

definition r92su_sta_del :: "u32 \<Rightarrow> 'w r92su \<Rightarrow> 'w r92su option" where
  "r92su_sta_del mac_id s = do {
     found \<leftarrow> r92su_sta_get_by_macid s mac_id;
     (case found of
        None \<Rightarrow> Some s
      | Some p \<Rightarrow> Some (s\<lparr>sta_list := remove1 p (sta_list s), sta_generation := sta_generation s + 1,
                         sta_num := sta_num s - 1, rcu_cbs := rcu_cbs s @ [Free_sta p]\<rparr>)) }"

definition sta_new :: "bytes \<Rightarrow> u32 \<Rightarrow> u32 \<Rightarrow> int \<Rightarrow> r92su_sta" where
  "sta_new mac_addr mac_id aid up = \<lparr>sta_mac_addr = mac_addr, sta_mac_id = mac_id, sta_aid = aid,
     sta_qos_sta = False, sta_ht_sta = False, sta_enc_sta = False, sta_last_connected = up,
     sta_signal = 0, sta_last_rx_rate = 0, sta_last_rx_rate_flag = 0, sta_last_rx_rate_bw = 0,
     sta_rx_seq = 0, sta_rx_seq_tid = replicate IEEE80211_NUM_TIDS 0,
     sta_rx_tid = replicate IEEE80211_NUM_TIDS None, sta_drop_dup = 0,
     sta_defrag = replicate NUM_ACS \<lparr>df_queue = [], df_size = 0\<rparr>, sta_key = None\<rparr>"

definition r92su_sta_alloc ::
    "'w env \<Rightarrow> bytes option \<Rightarrow> u32 \<Rightarrow> u32 \<Rightarrow> 'w r92su \<Rightarrow> (nat option \<times> 'w r92su) option" where
  "r92su_sta_alloc E mac_addr mac_id aid s =
     (case kmalloc E s of (ok, s) \<Rightarrow>
        if \<not> ok then Some (None, s)
        else do {
          mac \<leftarrow> (case mac_addr of None \<Rightarrow> Some (replicate 6 0) | Some m \<Rightarrow> rd_mem m 0 6);
          let p = next_ptr s;
          let s = s\<lparr>next_ptr := p + 1, stas := (stas s)(p \<mapsto> sta_new mac mac_id aid (uptime E (jiffies s)))\<rparr>;
          s \<leftarrow> r92su_sta_del mac_id s;
          Some (Some p, s\<lparr>sta_list := p # sta_list s, sta_generation := sta_generation s + 1,
                          sta_num := sta_num s + 1\<rparr>) })"

definition r92su_sta_alloc_tid :: "'w env \<Rightarrow> nat \<Rightarrow> u8 \<Rightarrow> u16 \<Rightarrow> 'w r92su \<Rightarrow> 'w r92su option" where
  "r92su_sta_alloc_tid E p tid ssn s =
     (case kmalloc E s of (ok, s) \<Rightarrow> do {
        sta \<leftarrow> stas s p;
        old_tid \<leftarrow> (if unat tid < length (sta_rx_tid sta) then Some (sta_rx_tid sta ! unat tid) else None);
        let q = next_ptr s;
        let s = (if ok then s\<lparr>next_ptr := q + 1, tids := (tids s)(q \<mapsto> rx_tid_new (ucast tid) ssn p)\<rparr> else s);
        let s = s\<lparr>stas := (stas s)(p \<mapsto> sta\<lparr>sta_rx_tid :=
                   (sta_rx_tid sta)[unat tid := (if ok then Some q else None)]\<rparr>)\<rparr>;
        r92su_free_tid old_tid s })"

section \<open>Keys\<close>

datatype wlan_cipher = CIPHER_WEP40 | CIPHER_WEP104 | CIPHER_TKIP | CIPHER_CCMP | CIPHER_OTHER u32

text \<open>
  The result is an error or the new key. When the cipher cannot be set up the code reads the
  error from the key it has just freed: \<open>None\<close>.
\<close>

definition r92su_key_alloc ::
    "'w env \<Rightarrow> wlan_cipher \<Rightarrow> u8 \<Rightarrow> bytes option \<Rightarrow> bool \<Rightarrow> bytes \<Rightarrow> 'w r92su \<Rightarrow>
     ((int + nat) \<times> 'w r92su) option" where
  "r92su_key_alloc E cipher idx mac_addr is_pairwise key s =
     (case kmalloc E s of (ok, s) \<Rightarrow>
        if \<not> ok then Some (Inl (- ENOMEM), s)
        else do {
          mac \<leftarrow> (case mac_addr of None \<Rightarrow> Some (replicate 6 0) | Some m \<Rightarrow> rd_mem m 0 6);
          let new_key = \<lparr>key_mac_addr = mac, key_type = NO_ENCRYPTION, key_len = 0, key_uploaded = False,
                         key_pairwise = is_pairwise, key_index = ucast idx, key_u = NoKey\<rparr>;
          new_key \<leftarrow> (case cipher of
              CIPHER_WEP40 \<Rightarrow> do {
                k \<leftarrow> rd_mem key 0 WLAN_KEY_LEN_WEP40;
                Some (Some (new_key\<lparr>key_type := WEP40_ENCRYPTION, key_len := WLAN_KEY_LEN_WEP40,
                  key_u := WepKey (ucast (random_u32 E (allocs s))) 0 (k @ replicate 8 0)\<rparr>)) }
            | CIPHER_WEP104 \<Rightarrow> do {
                k \<leftarrow> rd_mem key 0 WLAN_KEY_LEN_WEP104;
                Some (Some (new_key\<lparr>key_type := WEP104_ENCRYPTION, key_len := WLAN_KEY_LEN_WEP104,
                  key_u := WepKey (ucast (random_u32 E (allocs s))) 0 k\<rparr>)) }
            | CIPHER_TKIP \<Rightarrow> do {
                k \<leftarrow> rd_mem key 0 WLAN_KEY_LEN_TKIP;
                Some (Some (new_key\<lparr>key_type := TKIP_ENCRYPTION, key_len := WLAN_KEY_LEN_TKIP,
                  key_u := TkipKey 1 1 k\<rparr>)) }
            | CIPHER_CCMP \<Rightarrow> do {
                k \<leftarrow> rd_mem key 0 WLAN_KEY_LEN_CCMP;
                Some (Some (new_key\<lparr>key_type := AESCCMP_ENCRYPTION, key_len := WLAN_KEY_LEN_CCMP,
                  key_u := CcmpKey 0 0 k\<rparr>)) }
            | CIPHER_OTHER n \<Rightarrow> Some None);
          (case new_key of
             None \<Rightarrow> Some (Inl (- EINVAL), s)
           | Some k \<Rightarrow> (case kmalloc E s of (tfm_ok, s) \<Rightarrow>
               if \<not> tfm_ok then None
               else Some (Inr (next_ptr s), s\<lparr>next_ptr := next_ptr s + 1, keys := (keys s)(next_ptr s \<mapsto> k)\<rparr>))) })"

section \<open>Station information\<close>

datatype sta_info_field = INFO_CONNECTED_TIME | INFO_RX_BITRATE | INFO_BSS_PARAM | INFO_STA_FLAGS | INFO_SIGNAL
datatype sta_flag = FLAG_ASSOCIATED | FLAG_AUTHENTICATED | FLAG_WME
datatype bss_flag = FLAG_SHORT_PREAMBLE | FLAG_SHORT_SLOT_TIME

abbreviation (input) RATE_INFO_FLAGS_MCS :: u8 where "RATE_INFO_FLAGS_MCS \<equiv> 1"
abbreviation (input) WLAN_CAPABILITY_SHORT_PREAMBLE :: u16 where "WLAN_CAPABILITY_SHORT_PREAMBLE \<equiv> 0x20"
abbreviation (input) WLAN_CAPABILITY_SHORT_SLOT_TIME :: u16 where "WLAN_CAPABILITY_SHORT_SLOT_TIME \<equiv> 0x400"

record station_info =
  si_generation :: u32
  si_filled :: "sta_info_field list"
  si_connected_time :: int
  si_signal :: u32
  si_rate_flags :: u8
  si_rate_bw :: u8
  si_mcs :: "u32 option"
  si_legacy :: "u32 option"
  si_flags_mask :: "sta_flag list"
  si_flags_set :: "sta_flag list"
  si_bss_flags :: "bss_flag list"
  si_dtim_period :: "u32 option"
  si_beacon_interval :: "u16 option"

definition r92su_sta_set_sinfo :: "'w env \<Rightarrow> 'w r92su \<Rightarrow> r92su_sta \<Rightarrow> station_info option" where
  "r92su_sta_set_sinfo E s sta =
     (let sinfo = \<lparr>
        si_generation = sta_generation s,
        si_filled = [INFO_CONNECTED_TIME, INFO_RX_BITRATE, INFO_BSS_PARAM, INFO_STA_FLAGS, INFO_SIGNAL],
        si_connected_time = uptime E (jiffies s) - sta_last_connected sta,
        si_signal = sta_signal sta,
        si_rate_flags = sta_last_rx_rate_flag sta,
        si_rate_bw = sta_last_rx_rate_bw sta,
        si_mcs = (if sta_last_rx_rate_flag sta AND RATE_INFO_FLAGS_MCS \<noteq> 0 then Some (sta_last_rx_rate sta) else None),
        si_legacy = (if sta_last_rx_rate_flag sta AND RATE_INFO_FLAGS_MCS \<noteq> 0 then None else Some (sta_last_rx_rate sta)),
        si_flags_mask = [FLAG_ASSOCIATED, FLAG_AUTHENTICATED, FLAG_WME],
        si_flags_set = [FLAG_ASSOCIATED, FLAG_AUTHENTICATED] @ (if sta_qos_sta sta then [FLAG_WME] else []),
        si_bss_flags = [], si_dtim_period = None, si_beacon_interval = None\<rparr> in
      case connect_bss s of
        None \<Rightarrow> Some sinfo
      | Some b \<Rightarrow> do {
          bss \<leftarrow> bsss s b;
          Some (sinfo\<lparr>
            si_bss_flags := (if cb_capability bss AND WLAN_CAPABILITY_SHORT_PREAMBLE \<noteq> 0 then [FLAG_SHORT_PREAMBLE] else [])
              @ (if cb_capability bss AND WLAN_CAPABILITY_SHORT_SLOT_TIME \<noteq> 0 then [FLAG_SHORT_SLOT_TIME] else []),
            si_dtim_period := Some (bp_dtim_period (cb_priv bss)),
            si_beacon_interval := Some (cb_beacon_interval bss)\<rparr>) })"

section \<open>Ownership of the objects\<close>

fun pend_stas :: "rcu_cb list \<Rightarrow> nat list" where
  "pend_stas [] = []"
| "pend_stas (Free_sta p # cs) = p # pend_stas cs"
| "pend_stas (_ # cs) = pend_stas cs"

fun pend_tids :: "rcu_cb list \<Rightarrow> nat list" where
  "pend_tids [] = []"
| "pend_tids (Free_tid p # cs) = p # pend_tids cs"
| "pend_tids (_ # cs) = pend_tids cs"

fun pend_keys :: "rcu_cb list \<Rightarrow> nat list" where
  "pend_keys [] = []"
| "pend_keys (Free_key p # cs) = p # pend_keys cs"
| "pend_keys (_ # cs) = pend_keys cs"

lemma pend_append [simp]:
  "pend_stas (cs @ ds) = pend_stas cs @ pend_stas ds"
  "pend_tids (cs @ ds) = pend_tids cs @ pend_tids ds"
  "pend_keys (cs @ ds) = pend_keys cs @ pend_keys ds"
proof -
  show "pend_stas (cs @ ds) = pend_stas cs @ pend_stas ds" by (induction cs rule: pend_stas.induct) auto
  show "pend_tids (cs @ ds) = pend_tids cs @ pend_tids ds" by (induction cs rule: pend_tids.induct) auto
  show "pend_keys (cs @ ds) = pend_keys cs @ pend_keys ds" by (induction cs rule: pend_keys.induct) auto
qed

lemma pend_map_tid [simp]:
  "pend_stas (map Free_tid ps) = []" "pend_tids (map Free_tid ps) = ps" "pend_keys (map Free_tid ps) = []"
  by (induction ps) auto

definition tid_of :: "'w r92su \<Rightarrow> nat \<Rightarrow> nat \<Rightarrow> nat \<Rightarrow> bool" where
  "tid_of s p i t \<longleftrightarrow> (\<exists>a. stas s p = Some a \<and> i < length (sta_rx_tid a) \<and> sta_rx_tid a ! i = Some t)"

definition key_of :: "'w r92su \<Rightarrow> nat \<Rightarrow> nat \<Rightarrow> bool" where
  "key_of s p k \<longleftrightarrow> (\<exists>a. stas s p = Some a \<and> sta_key a = Some k)"

text \<open>
  A station is in the list or waits for its release, exactly once, and the listed ones have
  different numbers; a session or key belongs to one slot of one station or waits for its
  release, exactly once.
\<close>

definition mac_ids :: "(nat \<rightharpoonup> r92su_sta) \<Rightarrow> nat list \<Rightarrow> u32 list" where
  "mac_ids h ps = map (\<lambda>p. sta_mac_id (the (h p))) ps"

lemma mac_ids_Cons [simp]: "mac_ids h (p # ps) = sta_mac_id (the (h p)) # mac_ids h ps"
  by (simp add: mac_ids_def)

lemma mac_ids_upd [simp]: "p \<notin> set ps \<Longrightarrow> mac_ids (h(p \<mapsto> a)) ps = mac_ids h ps"
  by (simp add: mac_ids_def)

lemma mac_ids_in: "m \<in> set (mac_ids h ps) \<longleftrightarrow> (\<exists>p \<in> set ps. sta_mac_id (the (h p)) = m)"
  by (auto simp: mac_ids_def)

lemma mac_ids_remove1:
  assumes "distinct (mac_ids h ps)" "distinct ps" "p \<in> set ps"
  shows "distinct (mac_ids h (remove1 p ps))" "sta_mac_id (the (h p)) \<notin> set (mac_ids h (remove1 p ps))"
proof -
  have "inj_on (\<lambda>p. sta_mac_id (the (h p))) (set ps)" using assms(1) by (simp add: mac_ids_def distinct_map)
  moreover have "set (remove1 p ps) = set ps - {p}" using assms(2) by simp
  ultimately show "distinct (mac_ids h (remove1 p ps))"
    "sta_mac_id (the (h p)) \<notin> set (mac_ids h (remove1 p ps))"
    using assms(2,3) by (auto simp: mac_ids_def distinct_map inj_on_def)
qed

definition sta_shape :: "r92su_sta \<Rightarrow> bool" where
  [simp]: "sta_shape a \<longleftrightarrow> length (sta_rx_tid a) = IEEE80211_NUM_TIDS \<and>
     length (sta_rx_seq_tid a) = IEEE80211_NUM_TIDS \<and> length (sta_defrag a) = NUM_ACS"

definition sta_inv :: "'w r92su \<Rightarrow> bool" where
  "sta_inv s \<longleftrightarrow> distinct (sta_list s @ pend_stas (rcu_cbs s)) \<and>
     dom (stas s) = set (sta_list s) \<union> set (pend_stas (rcu_cbs s)) \<and>
     sta_num s = of_nat (length (sta_list s)) \<and>
     distinct (mac_ids (stas s) (sta_list s)) \<and>
     (\<forall>p a. stas s p = Some a \<longrightarrow> p < next_ptr s \<and> sta_shape a)"

definition tid_inv :: "'w r92su \<Rightarrow> bool" where
  "tid_inv s \<longleftrightarrow> distinct (pend_tids (rcu_cbs s)) \<and> set (pend_tids (rcu_cbs s)) \<subseteq> dom (tids s) \<and>
     (\<forall>p i t. tid_of s p i t \<longrightarrow> t \<in> dom (tids s) \<and> t \<notin> set (pend_tids (rcu_cbs s))) \<and>
     (\<forall>p i q j t. tid_of s p i t \<longrightarrow> tid_of s q j t \<longrightarrow> p = q \<and> i = j) \<and>
     (\<forall>t \<in> dom (tids s). t < next_ptr s)"

definition key_inv :: "'w r92su \<Rightarrow> bool" where
  "key_inv s \<longleftrightarrow> distinct (pend_keys (rcu_cbs s)) \<and> set (pend_keys (rcu_cbs s)) \<subseteq> dom (keys s) \<and>
     (\<forall>p k. key_of s p k \<longrightarrow> k \<in> dom (keys s) \<and> k \<notin> set (pend_keys (rcu_cbs s))) \<and>
     (\<forall>p q k. key_of s p k \<longrightarrow> key_of s q k \<longrightarrow> p = q) \<and>
     (\<forall>k \<in> dom (keys s). k < next_ptr s)"

lemma tid_inv_cong:
  "stas s' = stas s \<Longrightarrow> tids s' = tids s \<Longrightarrow> pend_tids (rcu_cbs s') = pend_tids (rcu_cbs s) \<Longrightarrow>
   next_ptr s' = next_ptr s \<Longrightarrow> tid_inv s \<Longrightarrow> tid_inv s'"
  unfolding tid_inv_def tid_of_def by simp

lemma key_inv_cong:
  "stas s' = stas s \<Longrightarrow> keys s' = keys s \<Longrightarrow> pend_keys (rcu_cbs s') = pend_keys (rcu_cbs s) \<Longrightarrow>
   next_ptr s' = next_ptr s \<Longrightarrow> key_inv s \<Longrightarrow> key_inv s'"
  unfolding key_inv_def key_of_def by simp

lemma sta_inv_cong:
  "stas s' = stas s \<Longrightarrow> sta_list s' = sta_list s \<Longrightarrow> sta_num s' = sta_num s \<Longrightarrow>
   pend_stas (rcu_cbs s') = pend_stas (rcu_cbs s) \<Longrightarrow> next_ptr s' = next_ptr s \<Longrightarrow> sta_inv s \<Longrightarrow> sta_inv s'"
  unfolding sta_inv_def by simp

definition heap_inv :: "'w r92su \<Rightarrow> bool" where
  "heap_inv s \<longleftrightarrow> sta_inv s \<and> tid_inv s \<and> key_inv s"

text \<open>
  The proofs below are made once for the whole invariant and for the part of it that does not speak of
  the keys, which the rest of the driver keeps too.
\<close>

definition owned :: "bool \<Rightarrow> 'w r92su \<Rightarrow> bool" where
  "owned full s \<longleftrightarrow> sta_inv s \<and> tid_inv s \<and> (full \<longrightarrow> key_inv s)"

lemma heap_inv_owned: "heap_inv s = owned True s"
  by (simp add: heap_inv_def owned_def)

definition table_inv :: "'w r92su \<Rightarrow> bool" where
  "table_inv s \<longleftrightarrow> sta_inv s \<and> tid_inv s"

lemma table_inv_owned: "table_inv s = owned False s"
  by (simp add: table_inv_def owned_def)

text \<open>Look-up over a list without dangling entries.\<close>

lemma sta_find_ok:
  "set ps \<subseteq> dom h \<Longrightarrow> \<exists>r. sta_find P h ps = Some r \<and>
     (case r of None \<Rightarrow> \<forall>p \<in> set ps. \<not> P (the (h p)) | Some p \<Rightarrow> p \<in> set ps \<and> P (the (h p)))"
proof (induction ps)
  case (Cons p ps)
  then obtain a where a: "h p = Some a" by auto
  obtain r where "sta_find P h ps = Some r \<and>
     (case r of None \<Rightarrow> \<forall>p \<in> set ps. \<not> P (the (h p)) | Some p \<Rightarrow> p \<in> set ps \<and> P (the (h p)))"
    using Cons by auto
  then show ?case using a by (cases "P a") (auto split: option.splits)
qed simp

lemma sta_del_ok:
  assumes "set (sta_list s) \<subseteq> dom (stas s)"
  obtains (none) "r92su_sta_del m s = Some s" "\<forall>p \<in> set (sta_list s). sta_mac_id (the (stas s p)) \<noteq> m"
  | (found) p where "p \<in> set (sta_list s)" "sta_mac_id (the (stas s p)) = m"
      "r92su_sta_del m s = Some (s\<lparr>sta_list := remove1 p (sta_list s), sta_generation := sta_generation s + 1,
         sta_num := sta_num s - 1, rcu_cbs := rcu_cbs s @ [Free_sta p]\<rparr>)"
proof -
  obtain r where r: "r92su_sta_get_by_macid s m = Some r"
    "case r of None \<Rightarrow> \<forall>p \<in> set (sta_list s). sta_mac_id (the (stas s p)) \<noteq> m
       | Some p \<Rightarrow> p \<in> set (sta_list s) \<and> sta_mac_id (the (stas s p)) = m"
    using sta_find_ok [OF assms, of "\<lambda>a. sta_mac_id a = m"] unfolding r92su_sta_get_by_macid_def by blast
  then show ?thesis
    by (cases r) (auto simp: r92su_sta_del_def intro: none found)
qed

text \<open>The pointers in the slots of a station.\<close>

definition slot_ptrs :: "nat option list \<Rightarrow> nat list" where
  "slot_ptrs ts = List.map_filter id ts"

lemma slot_ptrs_simps [simp]:
  "slot_ptrs [] = []" "slot_ptrs (None # ts) = slot_ptrs ts" "slot_ptrs (Some t # ts) = t # slot_ptrs ts"
  by (simp_all add: slot_ptrs_def)

lemma in_slot_ptrs: "t \<in> set (slot_ptrs ts) \<longleftrightarrow> (\<exists>i < length ts. ts ! i = Some t)"
proof -
  have "t \<in> set (slot_ptrs ts) \<longleftrightarrow> Some t \<in> set ts"
    by (induction ts) (auto simp: slot_ptrs_def List.map_filter_simps split: option.splits)
  then show ?thesis by (auto simp: in_set_conv_nth)
qed

lemma distinct_slot_ptrs:
  "(\<And>i j t. i < length ts \<Longrightarrow> j < length ts \<Longrightarrow> ts ! i = Some t \<Longrightarrow> ts ! j = Some t \<Longrightarrow> i = j) \<Longrightarrow>
     distinct (slot_ptrs ts)"
proof (induction ts)
  case (Cons x ts)
  have "distinct (slot_ptrs ts)"
  proof (rule Cons.IH)
    fix i j t assume "i < length ts" "j < length ts" "ts ! i = Some t" "ts ! j = Some t"
    then show "i = j" using Cons.prems [of "Suc i" "Suc j" t] by simp
  qed
  moreover have "x = Some t \<Longrightarrow> t \<notin> set (slot_ptrs ts)" for t
    using Cons.prems [of 0 _ t] by (fastforce simp: in_slot_ptrs)
  ultimately show ?case by (cases x) auto
qed simp

lemma free_tids_ok:
  "set (slot_ptrs ts) \<subseteq> dom (tids s) \<Longrightarrow> \<exists>h. dom h = dom (tids s) \<and>
     free_tids ts s = Some (s\<lparr>tids := h, rcu_cbs := rcu_cbs s @ map Free_tid (slot_ptrs ts)\<rparr>)"
proof (induction ts arbitrary: s)
  case Nil
  then show ?case by (intro exI [where x = "tids s"]) simp
next
  case (Cons x ts)
  show ?case
  proof (cases x)
    case None
    with Cons show ?thesis by (simp add: r92su_free_tid_def)
  next
    case (Some t)
    with Cons.prems obtain a where a: "tids s t = Some a" by auto
    let ?s = "s\<lparr>tids := (tids s)(t \<mapsto> a\<lparr>rt_sta := None\<rparr>), rcu_cbs := rcu_cbs s @ [Free_tid t]\<rparr>"
    have "dom (tids ?s) = dom (tids s)" using a by auto
    with Cons.prems Some have "set (slot_ptrs ts) \<subseteq> dom (tids ?s)" by auto
    from Cons.IH [OF this] obtain h where "dom h = dom (tids ?s)"
      "free_tids ts ?s = Some (?s\<lparr>tids := h, rcu_cbs := rcu_cbs ?s @ map Free_tid (slot_ptrs ts)\<rparr>)" by blast
    with Some a \<open>dom (tids ?s) = dom (tids s)\<close> show ?thesis
      by (intro exI [where x = h]) (simp add: r92su_free_tid_def)
  qed
qed

section \<open>Every operation keeps the ownership\<close>

lemma remove1_list:
  assumes "distinct (xs @ ps)" "p \<in> set xs"
  shows "distinct (remove1 p xs @ ps @ [p])" "set (remove1 p xs) \<union> set (ps @ [p]) = set xs \<union> set ps"
    "length (remove1 p xs) = length xs - 1"
  using assms by (auto simp: length_remove1)

lemma sta_del_owned:
  assumes "owned full s" "r92su_sta_del m s = Some s'"
  shows "owned full s'"
proof -
  have l: "set (sta_list s) \<subseteq> dom (stas s)" using assms(1) by (auto simp: owned_def sta_inv_def)
  show ?thesis
  proof (rule sta_del_ok [OF l, of m])
    assume "r92su_sta_del m s = Some s"
    with assms show ?thesis by simp
  next
    fix p
    assume p: "p \<in> set (sta_list s)"
      and d: "r92su_sta_del m s = Some (s\<lparr>sta_list := remove1 p (sta_list s), sta_generation := sta_generation s + 1,
         sta_num := sta_num s - 1, rcu_cbs := rcu_cbs s @ [Free_sta p]\<rparr>)"
    have inv: "sta_inv s" "tid_inv s" "full \<Longrightarrow> key_inv s" using assms(1) by (auto simp: owned_def)
    let ?s = "s\<lparr>sta_list := remove1 p (sta_list s), sta_generation := sta_generation s + 1,
         sta_num := sta_num s - 1, rcu_cbs := rcu_cbs s @ [Free_sta p]\<rparr>"
    have "distinct (mac_ids (stas s) (remove1 p (sta_list s)))"
      using inv(1) p by (intro mac_ids_remove1) (auto simp: sta_inv_def)
    moreover have "sta_num s - 1 = of_nat (length (sta_list s) - 1)"
      using p inv(1) by (cases "sta_list s") (simp_all add: sta_inv_def)
    ultimately have "sta_inv ?s"
      using inv(1) remove1_list [of "sta_list s" "pend_stas (rcu_cbs s)" p] p by (simp add: sta_inv_def)
    moreover have "tid_inv ?s" using inv(2) by (rule tid_inv_cong [rotated -1]) simp_all
    moreover have "full \<Longrightarrow> key_inv ?s" using inv(3) by (rule key_inv_cong [rotated -1]) simp_all
    ultimately show ?thesis using d assms(2) by (simp add: owned_def)
  qed
qed

lemma sta_alloc_owned:
  assumes "owned full s" "r92su_sta_alloc E mac m aid s = Some (r, s')"
  shows "owned full s'"
proof (cases "alloc_ok E (allocs s)")
  case False
  have inv: "sta_inv s" "tid_inv s" "full \<Longrightarrow> key_inv s" using assms(1) by (auto simp: owned_def)
  have "s' = s\<lparr>allocs := allocs s + 1\<rparr>"
    using assms(2) False by (simp add: r92su_sta_alloc_def kmalloc_def)
  then show ?thesis
    unfolding owned_def
    by (intro conjI impI sta_inv_cong [OF _ _ _ _ _ inv(1)] tid_inv_cong [OF _ _ _ _ inv(2)]
        key_inv_cong [OF _ _ _ _ inv(3)]) simp_all
next
  case True
  have inv: "sta_inv s" "tid_inv s" "full \<Longrightarrow> key_inv s" using assms(1) by (auto simp: owned_def)
  let ?p = "next_ptr s"
  from assms(2) True obtain mc t where t: "s' = t\<lparr>sta_list := ?p # sta_list t,
        sta_generation := sta_generation t + 1, sta_num := sta_num t + 1\<rparr>"
    and d: "r92su_sta_del m (s\<lparr>allocs := allocs s + 1, next_ptr := ?p + 1,
        stas := (stas s)(?p \<mapsto> sta_new mc m aid (uptime E (jiffies s)))\<rparr>) = Some t"
    by (auto simp: r92su_sta_alloc_def kmalloc_def Let_def Option.bind_eq_Some_conv split: option.splits)
  let ?a = "sta_new mc m aid (uptime E (jiffies s))"
  let ?s = "s\<lparr>allocs := allocs s + 1, next_ptr := ?p + 1, stas := (stas s)(?p \<mapsto> ?a)\<rparr>"
  have new: "sta_shape ?a" "sta_key ?a = None" "sta_mac_id ?a = m"
    "i < 16 \<Longrightarrow> sta_rx_tid ?a ! i = None" for i
    by (simp_all add: sta_new_def)
  have fresh: "?p \<notin> dom (stas s)" using inv(1) by (auto simp: sta_inv_def)
  then have nl: "?p \<notin> set (sta_list s)" "?p \<notin> set (pend_stas (rcu_cbs s))"
    using inv(1) by (auto simp: sta_inv_def)
  have tid_same: "tid_of ?s q i x \<longleftrightarrow> tid_of s q i x" for q i x
    using new fresh by (auto simp: tid_of_def)
  have key_same: "key_of ?s q x \<longleftrightarrow> key_of s q x" for q x
    using new fresh by (auto simp: key_of_def)
  have tid: "tid_inv ?s" using inv(2) unfolding tid_inv_def tid_same by (simp add: less_Suc_eq)
  have key: "full \<Longrightarrow> key_inv ?s" using inv(3) unfolding key_inv_def key_same by (simp add: less_Suc_eq)
  have sta: "distinct (sta_list s @ pend_stas (rcu_cbs s))"
      "dom (stas s) = set (sta_list s) \<union> set (pend_stas (rcu_cbs s))"
      "sta_num s = of_nat (length (sta_list s))"
      "distinct (mac_ids (stas s) (sta_list s))"
    using inv(1) by (auto simp: sta_inv_def)
  have ptr: "\<forall>q a. stas ?s q = Some a \<longrightarrow> q < next_ptr ?s \<and> sta_shape a"
    using inv(1) new by (auto simp: sta_inv_def less_Suc_eq)
  have l: "set (sta_list ?s) \<subseteq> dom (stas ?s)" using sta(2) by auto
  show ?thesis
  proof (rule sta_del_ok [OF l, of m])
    assume e: "r92su_sta_del m ?s = Some ?s" "\<forall>q \<in> set (sta_list ?s). sta_mac_id (the (stas ?s q)) \<noteq> m"
    then have "t = ?s" using d by (metis option.inject)
    then have s': "s' = ?s\<lparr>sta_list := ?p # sta_list s, sta_generation := sta_generation s + 1,
        sta_num := sta_num s + 1\<rparr>" unfolding t by simp
    have "m \<notin> set (mac_ids (stas ?s) (sta_list ?s))" using e(2) by (auto simp only: mac_ids_in)
    then have "m \<notin> set (mac_ids (stas s) (sta_list s))" using nl by simp
    then have "distinct (mac_ids (stas s') (sta_list s'))" using sta(4) nl new(3) by (simp add: s')
    moreover have "distinct (sta_list s' @ pend_stas (rcu_cbs s'))" using sta(1) nl by (simp add: s')
    moreover have "dom (stas s') = set (sta_list s') \<union> set (pend_stas (rcu_cbs s'))"
      using sta(2) by (simp add: s')
    moreover have "sta_num s' = of_nat (length (sta_list s'))" using sta(3) by (simp add: s')
    ultimately have "sta_inv s'" unfolding sta_inv_def using ptr by (simp add: s')
    moreover have "tid_inv s'" using tid by (rule tid_inv_cong [rotated -1]) (simp_all add: s')
    moreover have "full \<Longrightarrow> key_inv s'" using key by (rule key_inv_cong [rotated -1]) (simp_all add: s')
    ultimately show ?thesis by (simp add: owned_def)
  next
    fix p
    assume p: "p \<in> set (sta_list ?s)" "sta_mac_id (the (stas ?s p)) = m"
      and e: "r92su_sta_del m ?s = Some (?s\<lparr>sta_list := remove1 p (sta_list ?s),
         sta_generation := sta_generation ?s + 1, sta_num := sta_num ?s - 1,
         rcu_cbs := rcu_cbs ?s @ [Free_sta p]\<rparr>)"
    have s': "s' = ?s\<lparr>sta_list := ?p # remove1 p (sta_list s), sta_generation := sta_generation s + 1 + 1,
        sta_num := sta_num s - 1 + 1, rcu_cbs := rcu_cbs s @ [Free_sta p]\<rparr>"
    proof -
      have "t = ?s\<lparr>sta_list := remove1 p (sta_list ?s), sta_generation := sta_generation ?s + 1,
         sta_num := sta_num ?s - 1, rcu_cbs := rcu_cbs ?s @ [Free_sta p]\<rparr>"
        using d e by (metis option.inject)
      then show ?thesis unfolding t by simp
    qed
    have p': "p \<in> set (sta_list s)" "p \<noteq> ?p" using p(1) nl by auto
    have len: "of_nat (length (sta_list s)) = (of_nat (Suc (length (sta_list s) - 1)) :: u32)"
      using p'(1) by (cases "sta_list s") auto
    have m: "sta_mac_id (the (stas s p)) = m" using p p' by auto
    have dm: "distinct (mac_ids (stas s) (remove1 p (sta_list s)))"
        "m \<notin> set (mac_ids (stas s) (remove1 p (sta_list s)))"
      using mac_ids_remove1 [OF sta(4) _ p'(1)] sta(1) m by auto
    have nr: "?p \<notin> set (remove1 p (sta_list s))" using nl by (auto dest: notin_set_remove1)
    have "distinct (mac_ids (stas s') (sta_list s'))"
      unfolding s' using dm nr new(3) by simp
    moreover have "distinct (sta_list s' @ pend_stas (rcu_cbs s'))"
      unfolding s' using remove1_list(1) [OF sta(1) p'(1)] nl p'(2) by (auto dest: notin_set_remove1)
    moreover have "dom (stas s') = set (sta_list s') \<union> set (pend_stas (rcu_cbs s'))"
      unfolding s' using remove1_list(2) [OF sta(1) p'(1)] sta(2) by auto
    moreover have "sta_num s' = of_nat (length (sta_list s'))"
      unfolding s' using sta(3) len p'(1) by (simp add: length_remove1)
    ultimately have "sta_inv s'" unfolding sta_inv_def using ptr by (simp add: s')
    moreover have "tid_inv s'" using tid by (rule tid_inv_cong [rotated -1]) (simp_all add: s')
    moreover have "full \<Longrightarrow> key_inv s'" using key by (rule key_inv_cong [rotated -1]) (simp_all add: s')
    ultimately show ?thesis by (simp add: owned_def)
  qed
qed

lemma alloc_tid_owned:
  assumes "owned full s" "r92su_sta_alloc_tid E p tid ssn s = Some s'"
  shows "owned full s'"
proof -
  have inv: "sta_inv s" "tid_inv s" "full \<Longrightarrow> key_inv s" using assms(1) by (auto simp: owned_def)
  let ?q = "next_ptr s" and ?i = "unat tid" and ?ok = "alloc_ok E (allocs s)"
  from assms(2) obtain a where a: "stas s p = Some a" and i: "?i < length (sta_rx_tid a)"
    by (auto simp: r92su_sta_alloc_tid_def kmalloc_def Let_def Option.bind_eq_Some_conv split: if_splits)
  define new where "new = (if ?ok then Some ?q else None)"
  define a' where "a' = a\<lparr>sta_rx_tid := (sta_rx_tid a)[?i := new]\<rparr>"
  define h where "h = (if ?ok then (tids s)(?q \<mapsto> rx_tid_new (ucast tid) ssn p) else tids s)"
  let ?s = "s\<lparr>allocs := allocs s + 1, next_ptr := (if ?ok then ?q + 1 else ?q), tids := h,
      stas := (stas s)(p \<mapsto> a')\<rparr>"
  have free: "r92su_free_tid (sta_rx_tid a ! ?i) ?s = Some s'"
    using assms(2) a i
    by (cases ?ok) (simp_all add: r92su_sta_alloc_tid_def kmalloc_def Let_def a'_def h_def new_def)
  have fresh: "?q \<notin> dom (tids s)" using inv(2) by (auto simp: tid_inv_def)
  have old: "x \<noteq> ?q" if "tid_of s p' j x" for p' j x using that inv(2) fresh by (auto simp: tid_inv_def)
  have slots: "tid_of ?s p' j x \<longleftrightarrow>
      (if p' = p \<and> j = ?i then ?ok \<and> x = ?q else tid_of s p' j x)" for p' j x
    using a i by (auto simp: tid_of_def a'_def new_def nth_list_update)
  have keys: "key_of ?s p' x \<longleftrightarrow> key_of s p' x" for p' x
    using a by (auto simp: key_of_def a'_def)
  have macs: "mac_ids (stas ?s) (sta_list s) = mac_ids (stas s) (sta_list s)"
    using a by (auto simp: mac_ids_def a'_def)
  have dom: "dom (stas ?s) = dom (stas s)" using a by auto
  have sta: "sta_inv ?s" using inv(1) a macs dom
    by (auto simp: sta_inv_def a'_def less_Suc_eq split: if_splits)
  have key: "full \<Longrightarrow> key_inv ?s" using inv(3) unfolding key_inv_def keys by (auto simp: less_Suc_eq)
  have ht: "dom (tids s) \<subseteq> dom h" "dom h \<subseteq> insert ?q (dom (tids s))" "?ok \<Longrightarrow> ?q \<in> dom h"
    by (auto simp: h_def)
  have tid: "tid_inv ?s"
    unfolding tid_inv_def
  proof (intro conjI allI impI ballI)
    show "distinct (pend_tids (rcu_cbs ?s))" using inv(2) by (simp add: tid_inv_def)
    have "set (pend_tids (rcu_cbs s)) \<subseteq> dom (tids s)" using inv(2) by (simp add: tid_inv_def)
    then show "set (pend_tids (rcu_cbs ?s)) \<subseteq> dom (tids ?s)" using ht(1) by simp
    show "x \<in> dom (tids ?s)" "x \<notin> set (pend_tids (rcu_cbs ?s))" if x: "tid_of ?s p' j x" for p' j x
    proof -
      have "(?ok \<and> x = ?q) \<or> tid_of s p' j x" using x unfolding slots by (auto split: if_splits)
      then have "x \<in> dom h \<and> x \<notin> set (pend_tids (rcu_cbs s))"
      proof
        assume q: "?ok \<and> x = ?q"
        moreover have "set (pend_tids (rcu_cbs s)) \<subseteq> dom (tids s)" using inv(2) by (simp add: tid_inv_def)
        ultimately show ?thesis using ht(3) fresh by blast
      next
        assume "tid_of s p' j x"
        then have "x \<in> dom (tids s)" "x \<notin> set (pend_tids (rcu_cbs s))"
          using inv(2) unfolding tid_inv_def by blast+
        then show ?thesis using ht(1) by blast
      qed
      then show "x \<in> dom (tids ?s)" "x \<notin> set (pend_tids (rcu_cbs ?s))" by simp_all
    qed
    show "p' = q'" "j = k" if "tid_of ?s p' j x" "tid_of ?s q' k x" for p' j q' k x
      using that inv(2) old unfolding slots tid_inv_def by (auto split: if_splits)
    show "x < next_ptr ?s" if "x \<in> dom (tids ?s)" for x
      using that inv(2) by (auto simp: tid_inv_def h_def less_Suc_eq split: if_splits)
  qed
  show ?thesis
  proof (cases "sta_rx_tid a ! ?i")
    case None
    with free sta tid key show ?thesis by (simp add: r92su_free_tid_def owned_def)
  next
    case (Some t)
    then have of: "tid_of s p ?i t" using a i by (auto simp: tid_of_def)
    then have t: "t \<in> dom (tids s)" "t \<notin> set (pend_tids (rcu_cbs s))" "t \<noteq> ?q"
      using inv(2) old by (auto simp: tid_inv_def)
    then obtain b where b: "h t = Some b" using ht(1) by auto
    have s': "s' = ?s\<lparr>tids := h(t \<mapsto> b\<lparr>rt_sta := None\<rparr>), rcu_cbs := rcu_cbs s @ [Free_tid t]\<rparr>"
      using free Some b by (simp add: r92su_free_tid_def)
    have gone: "\<not> tid_of ?s p' j t" for p' j
      using of t(3) inv(2) unfolding slots by (auto simp: tid_inv_def)
    have same: "tid_of s' p' j x \<longleftrightarrow> tid_of ?s p' j x" for p' j x by (simp add: s' tid_of_def)
    have samek: "key_of s' p' x \<longleftrightarrow> key_of ?s p' x" for p' x by (simp add: s' key_of_def)
    have "tid_inv s'"
      using tid gone t ht b unfolding tid_inv_def same by (auto simp: s')
    moreover have "sta_inv s'" using sta by (simp add: s' sta_inv_def)
    moreover have "full \<Longrightarrow> key_inv s'" using key unfolding key_inv_def samek by (simp add: s')
    ultimately show ?thesis by (simp add: owned_def)
  qed
qed

lemma rcu_step_owned:
  assumes "owned full s" "rcu_step s = Some s'"
  shows "owned full s'"
proof (cases "rcu_cbs s")
  case Nil
  with assms show ?thesis by (simp add: rcu_step_def)
next
  case (Cons c rest)
  have inv: "sta_inv s" "tid_inv s" "full \<Longrightarrow> key_inv s" using assms(1) by (auto simp: owned_def)
  show ?thesis
  proof (cases c)
    case (Free_tid p)
    with Cons assms(2) obtain l where s': "s' = s\<lparr>rcu_cbs := rest, log := l, tids := (tids s)(p := None)\<rparr>"
      by (auto simp: rcu_step_def r92su_free_tid_rcu_def Option.bind_eq_Some_conv)
    have same: "tid_of s' q j x \<longleftrightarrow> tid_of s q j x" "key_of s' q y \<longleftrightarrow> key_of s q y" for q j x y
      by (simp_all add: s' tid_of_def key_of_def)
    have "tid_inv s'" using inv(2) unfolding tid_inv_def same by (auto simp: s' Cons Free_tid)
    moreover have "sta_inv s'" using inv(1) by (simp add: s' sta_inv_def Cons Free_tid)
    moreover have "full \<Longrightarrow> key_inv s'" using inv(3) unfolding key_inv_def same by (simp add: s' Cons Free_tid)
    ultimately show ?thesis by (simp add: owned_def)
  next
    case (Free_key p)
    with Cons assms(2) have s': "s' = s\<lparr>rcu_cbs := rest, keys := (keys s)(p := None)\<rparr>"
      by (auto simp: rcu_step_def free_key_rcu_def Option.bind_eq_Some_conv)
    have same: "tid_of s' q j x \<longleftrightarrow> tid_of s q j x" "key_of s' q y \<longleftrightarrow> key_of s q y" for q j x y
      by (simp_all add: s' tid_of_def key_of_def)
    have "full \<Longrightarrow> key_inv s'" using inv(3) unfolding key_inv_def same by (auto simp: s' Cons Free_key)
    moreover have "sta_inv s'" using inv(1) by (simp add: s' sta_inv_def Cons Free_key)
    moreover have "tid_inv s'" using inv(2) unfolding tid_inv_def same by (simp add: s' Cons Free_key)
    ultimately show ?thesis by (simp add: owned_def)
  next
    case (Free_sta p)
    let ?r = "s\<lparr>rcu_cbs := rest\<rparr>"
    from Cons Free_sta assms(2) obtain a where a: "stas s p = Some a"
      by (auto simp: rcu_step_def r92su_free_sta_rcu_def Option.bind_eq_Some_conv)
    let ?ts = "slot_ptrs (sta_rx_tid a)"
    have own: "tid_of s p i t \<longleftrightarrow> i < length (sta_rx_tid a) \<and> sta_rx_tid a ! i = Some t" for i t
      using a by (simp add: tid_of_def)
    have ts: "t \<in> set ?ts \<longleftrightarrow> (\<exists>i. tid_of s p i t)" for t by (auto simp: in_slot_ptrs own)
    have uniq: "tid_of s q i t \<Longrightarrow> tid_of s q' j t \<Longrightarrow> q = q' \<and> i = j" for q i t q' j
      using inv(2) unfolding tid_inv_def by blast
    have dts: "distinct ?ts" by (rule distinct_slot_ptrs) (metis own uniq)
    have sub: "set ?ts \<subseteq> dom (tids s)"
    proof
      fix t assume "t \<in> set ?ts"
      then obtain i where "tid_of s p i t" using ts by blast
      then show "t \<in> dom (tids s)" using inv(2) unfolding tid_inv_def by blast
    qed
    let ?l = "log s @ map (\<lambda>skb. Free_skb (skb_data skb)) (concat (map df_queue (sta_defrag a)))"
    from sub have "set ?ts \<subseteq> dom (tids (?r\<lparr>log := ?l\<rparr>))" by simp
    from free_tids_ok [OF this] obtain h where h: "dom h = dom (tids s)"
      "free_tids (sta_rx_tid a) (?r\<lparr>log := ?l\<rparr>) =
         Some (?r\<lparr>log := ?l, tids := h, rcu_cbs := rest @ map Free_tid ?ts\<rparr>)" by auto
    define ks where "ks = (case sta_key a of None \<Rightarrow> [] | Some k \<Rightarrow> [Free_key k])"
    have pk: "pend_stas ks = []" "pend_tids ks = []" "pend_keys ks = (case sta_key a of None \<Rightarrow> [] | Some k \<Rightarrow> [k])"
      by (auto simp: ks_def split: option.splits)
    have s': "s' = ?r\<lparr>log := ?l, tids := h, rcu_cbs := rest @ map Free_tid ?ts @ ks, stas := (stas s)(p := None)\<rparr>"
      using assms(2) Cons Free_sta a h(2)
      by (auto simp: rcu_step_def r92su_free_sta_rcu_def r92su_key_free_def ks_def Let_def
          Option.bind_eq_Some_conv split: option.splits)
    have cbs: "pend_stas (rcu_cbs s) = p # pend_stas rest" "pend_tids (rcu_cbs s) = pend_tids rest"
        "pend_keys (rcu_cbs s) = pend_keys rest"
      by (simp_all add: Cons Free_sta)
    have np: "p \<notin> set (sta_list s)" "p \<notin> set (pend_stas rest)"
      using inv(1) by (auto simp: sta_inv_def cbs)
    have macs: "mac_ids ((stas s)(p := None)) (sta_list s) = mac_ids (stas s) (sta_list s)"
      using np(1) by (auto simp: mac_ids_def)
    have "dom (stas s) = set (sta_list s) \<union> insert p (set (pend_stas rest))"
      using inv(1) by (simp add: sta_inv_def cbs)
    then have "dom ((stas s)(p := None)) = set (sta_list s) \<union> set (pend_stas rest)" using np by auto
    then have "sta_inv s'" using inv(1) macs np by (simp add: sta_inv_def s' cbs pk)
    moreover have slots: "tid_of s' q j x \<longleftrightarrow> q \<noteq> p \<and> tid_of s q j x"
        "key_of s' q y \<longleftrightarrow> q \<noteq> p \<and> key_of s q y" for q j x y
      by (auto simp: s' tid_of_def key_of_def)
    have tid: "distinct (pend_tids rest)" "set (pend_tids rest) \<subseteq> dom (tids s)"
      "tid_of s q i t \<Longrightarrow> t \<in> dom (tids s) \<and> t \<notin> set (pend_tids rest)"
      "tid_of s q i t \<Longrightarrow> tid_of s q' j t \<Longrightarrow> q = q' \<and> i = j"
      "t \<in> dom (tids s) \<Longrightarrow> t < next_ptr s" for q i t q' j
      using inv(2) unfolding tid_inv_def cbs by blast+
    have "tid_inv s'"
      unfolding tid_inv_def slots
    proof (intro conjI allI impI ballI)
      show "distinct (pend_tids (rcu_cbs s'))" using tid(1,3) dts ts by (auto simp: s' pk)
      show "set (pend_tids (rcu_cbs s')) \<subseteq> dom (tids s')" using tid(2) sub h(1) by (simp add: s' pk)
      show "x \<in> dom (tids s')" "x \<notin> set (pend_tids (rcu_cbs s'))" if "q \<noteq> p \<and> tid_of s q j x" for q j x
        using that tid(3) [of q j x] tid(4) [of q j x p] ts [of x] h(1) by (auto simp: s' pk)
      show "q = q'" "j = k" if "q \<noteq> p \<and> tid_of s q j x" "q' \<noteq> p \<and> tid_of s q' k x" for q j q' k x
        using that tid(4) by blast+
      show "x < next_ptr s'" if "x \<in> dom (tids s')" for x using that tid(5) [of x] h(1) by (simp add: s')
    qed
    moreover have "key_inv s'" if full
    proof -
      have key: "distinct (pend_keys rest)" "set (pend_keys rest) \<subseteq> dom (keys s)"
        "key_of s q k \<Longrightarrow> k \<in> dom (keys s) \<and> k \<notin> set (pend_keys rest)"
        "key_of s q k \<Longrightarrow> key_of s q' k \<Longrightarrow> q = q'"
        "k \<in> dom (keys s) \<Longrightarrow> k < next_ptr s" for q k q'
        using inv(3) [OF that] unfolding key_inv_def cbs by blast+
      have kp: "key_of s p k \<longleftrightarrow> sta_key a = Some k" for k using a by (simp add: key_of_def)
      show ?thesis
        unfolding key_inv_def slots
      proof (intro conjI allI impI ballI)
        show "distinct (pend_keys (rcu_cbs s'))" using key(1,3) kp by (auto simp: s' pk split: option.splits)
        show "set (pend_keys (rcu_cbs s')) \<subseteq> dom (keys s')"
        proof (cases "sta_key a")
          case (Some k)
          then have "key_of s p k" by (simp add: kp)
          then show ?thesis using Some key(2,3) by (simp add: s' pk)
        qed (use key(2) in \<open>simp add: s' pk\<close>)
        show "x \<in> dom (keys s')" "x \<notin> set (pend_keys (rcu_cbs s'))" if "q \<noteq> p \<and> key_of s q x" for q x
          using that key(3) [of q x] key(4) [of q x p] kp [of x] by (auto simp: s' pk split: option.splits)
        show "q = q'" if "q \<noteq> p \<and> key_of s q x" "q' \<noteq> p \<and> key_of s q' x" for q q' x
          using that key(4) by blast
        show "x < next_ptr s'" if "x \<in> dom (keys s')" for x using that key(5) [of x] by (simp add: s')
      qed
    qed
    ultimately show ?thesis by (simp add: owned_def)
  qed
qed

lemmas sta_del_inv = sta_del_owned [where full = True, folded heap_inv_owned]

lemmas sta_alloc_inv = sta_alloc_owned [where full = True, folded heap_inv_owned]

lemmas alloc_tid_inv = alloc_tid_owned [where full = True, folded heap_inv_owned]

lemmas rcu_step_inv = rcu_step_owned [where full = True, folded heap_inv_owned]

lemmas table_ops = sta_del_owned [where full = False, folded table_inv_owned]
  sta_alloc_owned [where full = False, folded table_inv_owned]
  alloc_tid_owned [where full = False, folded table_inv_owned]
  rcu_step_owned [where full = False, folded table_inv_owned]

section \<open>No operation follows a dangling pointer\<close>

lemma owned_list: "owned full s \<Longrightarrow> set (sta_list s) \<subseteq> dom (stas s)"
  by (auto simp: owned_def sta_inv_def)

lemma sta_get_ok:
  assumes "owned full s"
  shows "\<exists>r. sta_find P (stas s) (sta_list s) = Some r \<and> (\<forall>p. r = Some p \<longrightarrow> p \<in> dom (stas s))"
  using sta_find_ok [OF owned_list [OF assms], of P] owned_list [OF assms]
  by (auto split: option.splits)

lemma sta_del_ex: "owned full s \<Longrightarrow> \<exists>t. r92su_sta_del m s = Some t"
  by (rule sta_del_ok [OF owned_list [of full s], of m]) auto

lemma free_tid_total: "(\<And>t. x = Some t \<Longrightarrow> t \<in> dom (tids s)) \<Longrightarrow> \<exists>s'. r92su_free_tid x s = Some s'"
  by (cases x) (auto simp: r92su_free_tid_def)

lemma alloc_tid_ex:
  assumes inv: "owned full s" and p: "p \<in> dom (stas s)" and tid: "unat tid < IEEE80211_NUM_TIDS"
  shows "\<exists>t. r92su_sta_alloc_tid E p tid ssn s = Some t"
proof -
  from p obtain a where a: "stas s p = Some a" by auto
  have len: "length (sta_rx_tid a) = IEEE80211_NUM_TIDS" using inv a by (auto simp: owned_def sta_inv_def)
  have old: "x \<in> dom (tids s)" if "sta_rx_tid a ! unat tid = Some x" for x
  proof -
    have "tid_of s p (unat tid) x" using that a tid len by (simp add: tid_of_def)
    then show ?thesis using inv unfolding owned_def tid_inv_def by blast
  qed
  show ?thesis
    using a tid len old
    by (auto simp: r92su_sta_alloc_tid_def kmalloc_def Let_def split: if_splits intro!: free_tid_total)
qed

lemma sta_alloc_ex:
  assumes inv: "owned full s" and mac: "\<And>m. mac = Some m \<Longrightarrow> 6 \<le> length m"
  shows "\<exists>r. r92su_sta_alloc E mac mac_id aid s = Some r"
proof -
  have "\<exists>t. r92su_sta_del mac_id (s'\<lparr>next_ptr := n, stas := (stas s)(q \<mapsto> a)\<rparr>) = Some t"
    if "sta_list s' = sta_list s" for s' n q a
  proof -
    let ?u = "s'\<lparr>next_ptr := n, stas := (stas s)(q \<mapsto> a)\<rparr>"
    have "set (sta_list ?u) \<subseteq> dom (stas ?u)" using owned_list [OF inv] that by auto
    then show ?thesis by (rule sta_del_ok [of ?u mac_id]) auto
  qed
  note d = this
  show ?thesis
  proof (cases "alloc_ok E (allocs s)")
    case True
    obtain m where m: "(case mac of None \<Rightarrow> Some (replicate 6 0) | Some m \<Rightarrow> rd_mem m 0 6) = Some m"
      using mac by (cases mac) (auto simp: rd_mem_def)
    show ?thesis
      using d [of "s\<lparr>allocs := allocs s + 1\<rparr>"] True m
      by (auto simp: r92su_sta_alloc_def kmalloc_def Let_def Option.bind_eq_Some_conv)
  qed (simp add: r92su_sta_alloc_def kmalloc_def)
qed

lemmas heap_inv_list = owned_list [where full = True, folded heap_inv_owned]
  and sta_get_total = sta_get_ok [where full = True, folded heap_inv_owned]
  and sta_del_total = sta_del_ex [where full = True, folded heap_inv_owned]
  and alloc_tid_total = alloc_tid_ex [where full = True, folded heap_inv_owned]
  and sta_alloc_total = sta_alloc_ex [where full = True, folded heap_inv_owned]

lemma rcu_step_total:
  assumes inv: "heap_inv s"
  shows "\<exists>t. rcu_step s = Some t"
proof (cases "rcu_cbs s")
  case (Cons c rest)
  have pend: "set (pend_tids (rcu_cbs s)) \<subseteq> dom (tids s)" "set (pend_keys (rcu_cbs s)) \<subseteq> dom (keys s)"
    "set (pend_stas (rcu_cbs s)) \<subseteq> dom (stas s)"
    using inv by (auto simp: heap_inv_def sta_inv_def tid_inv_def key_inv_def)
  show ?thesis
  proof (cases c)
    case (Free_sta p)
    with Cons pend(3) obtain a where a: "stas s p = Some a" by auto
    let ?l = "log s @ map (\<lambda>skb. Free_skb (skb_data skb)) (concat (map df_queue (sta_defrag a)))"
    let ?r = "s\<lparr>rcu_cbs := rest, log := ?l\<rparr>"
    have "set (slot_ptrs (sta_rx_tid a)) \<subseteq> dom (tids ?r)"
    proof
      fix t assume "t \<in> set (slot_ptrs (sta_rx_tid a))"
      then obtain i where "tid_of s p i t" using a by (auto simp: in_slot_ptrs tid_of_def)
      then show "t \<in> dom (tids ?r)" using inv unfolding heap_inv_def tid_inv_def by auto
    qed
    from free_tids_ok [OF this] obtain h where
      f: "free_tids (sta_rx_tid a) ?r = Some (?r\<lparr>tids := h, rcu_cbs := rest @ map Free_tid (slot_ptrs (sta_rx_tid a))\<rparr>)"
      by auto
    have k: "k \<in> dom (keys s)" if "sta_key a = Some k" for k
    proof -
      have "key_of s p k" using that a by (simp add: key_of_def)
      then show ?thesis using inv unfolding heap_inv_def key_inv_def by blast
    qed
    show ?thesis
      using a f k Cons Free_sta
      by (cases "sta_key a")
        (auto simp: rcu_step_def r92su_free_sta_rcu_def r92su_key_free_def Let_def Option.bind_eq_Some_conv)
  next
    case (Free_tid p)
    with Cons pend(1) obtain a where "tids s p = Some a" by auto
    with Cons Free_tid show ?thesis by (simp add: rcu_step_def r92su_free_tid_rcu_def)
  next
    case (Free_key p)
    with Cons pend(2) obtain a where "keys s p = Some a" by auto
    with Cons Free_key show ?thesis by (simp add: rcu_step_def free_key_rcu_def)
  qed
qed (simp add: rcu_step_def)

section \<open>The component as a transition system\<close>

text \<open>
  A new key is not attached to a station yet: \<open>key_alloc\<close> only adds an object to its heap.
\<close>

lemma key_alloc_cases:
  assumes "r92su_key_alloc E cipher idx mac pw key s = Some (r, t)"
  obtains (error) e n where "r = Inl e" "t = s\<lparr>allocs := n\<rparr>"
  | (key) k n where "r = Inr (next_ptr s)" "key_ok k" "key_index k = ucast idx" "key_pairwise k = pw"
      "t = s\<lparr>allocs := n, next_ptr := next_ptr s + 1, keys := (keys s)(next_ptr s \<mapsto> k)\<rparr>"
proof (cases "alloc_ok E (allocs s) \<and> (\<forall>n. cipher \<noteq> CIPHER_OTHER n)")
  case True
  let ?k = "the (keys t (next_ptr s))"
  have "t = s\<lparr>allocs := allocs t, next_ptr := next_ptr s + 1, keys := (keys s)(next_ptr s \<mapsto> ?k)\<rparr> \<and>
      r = Inr (next_ptr s) \<and> key_ok ?k \<and> key_index ?k = ucast idx \<and> key_pairwise ?k = pw"
    using assms True
    by (cases cipher) (auto simp: r92su_key_alloc_def kmalloc_def Let_def Option.bind_eq_Some_conv rd_mem_Some_iff
        key_ok_def split: if_splits)
  then show thesis by (intro key) auto
next
  case False
  then have "\<exists>e. r = Inl e \<and> t = s\<lparr>allocs := allocs t\<rparr>"
    using assms by (cases cipher) (auto simp: r92su_key_alloc_def kmalloc_def Option.bind_eq_Some_conv split: if_splits)
  then show thesis by (auto intro: error)
qed

lemma key_alloc_inv:
  assumes "heap_inv s" "r92su_key_alloc E cipher idx mac pw key s = Some (r, t)"
  shows "heap_inv t"
  using assms(2)
proof (cases rule: key_alloc_cases)
  case error
  then show ?thesis using assms(1) by (simp add: heap_inv_def sta_inv_def tid_inv_def key_inv_def tid_of_def key_of_def)
next
  case (key k n)
  have inv: "sta_inv s" "tid_inv s" "key_inv s" using assms(1) by (auto simp: heap_inv_def)
  have "tid_inv t" using inv(2) by (auto simp: tid_inv_def key(5) tid_of_def less_Suc_eq)
  moreover have "sta_inv t" using inv(1) by (auto simp: sta_inv_def key(5) less_Suc_eq)
  moreover have "key_of t p x \<longleftrightarrow> key_of s p x" for p x by (simp add: key_of_def key(5))
  then have "key_inv t" using inv(3) unfolding key_inv_def by (auto simp: key(5) less_Suc_eq)
  ultimately show ?thesis by (simp add: heap_inv_def)
qed

text \<open>The operations as the rest of the driver calls them, interleaved with grace periods.\<close>

inductive sta_step :: "'w env \<Rightarrow> 'w r92su \<Rightarrow> 'w r92su \<Rightarrow> bool" for E where
  alloc: "r92su_sta_alloc E mac m aid s = Some (r, t) \<Longrightarrow> sta_step E s t"
| del: "r92su_sta_del m s = Some t \<Longrightarrow> sta_step E s t"
| alloc_tid: "r92su_sta_alloc_tid E p tid ssn s = Some t \<Longrightarrow> sta_step E s t"
| alloc_key: "r92su_key_alloc E c i mac pw key s = Some (r, t) \<Longrightarrow> sta_step E s t"
| grace: "rcu_step s = Some t \<Longrightarrow> sta_step E s t"

inductive_cases sta_stepE: "sta_step E s t"

interpretation sta_system: invariant_system "\<lambda>s. \<exists>w. s = r92su_zero w" "sta_step E" heap_inv for E
proof unfold_locales
  show "heap_inv s" if "\<exists>w. s = r92su_zero w" for s :: "'a r92su"
    using that by (auto simp: r92su_zero_def heap_inv_def sta_inv_def tid_inv_def key_inv_def tid_of_def key_of_def mac_ids_def)
  show "heap_inv t" if "heap_inv s" "sta_step E s t" for s t
    using that(2,1)
    by cases (auto intro: sta_alloc_inv sta_del_inv alloc_tid_inv key_alloc_inv rcu_step_inv)
qed

text \<open>In every state that the station operations and the grace periods reach from the zeroed
  driver, no operation follows a dangling pointer: deletion, look-up, allocation, a new block-ack
  session for a live station and the pending releases all succeed.\<close>

theorem sta_no_dangling:
  assumes "(sta_step E)\<^sup>*\<^sup>* (r92su_zero w) s" and "6 \<le> length mac" and "unat tid < 16" and "p \<in> dom (stas s)"
  shows "r92su_sta_get s mac \<noteq> None \<and> r92su_sta_del m s \<noteq> None \<and>
    r92su_sta_alloc E (Some mac) m aid s \<noteq> None \<and> rcu_step s \<noteq> None \<and>
    r92su_sta_alloc_tid E p tid ssn s \<noteq> None"
proof (intro conjI)
  have inv: "heap_inv s" by (rule sta_system.reachable_inv [OF _ assms(1)]) blast
  show "r92su_sta_get s mac \<noteq> None"
    using sta_get_total [OF inv] by (fastforce simp: r92su_sta_get_def)
  show "r92su_sta_del m s \<noteq> None" using sta_del_total [OF inv, of m] by auto
  show "r92su_sta_alloc E (Some mac) m aid s \<noteq> None"
    using sta_alloc_total [OF inv, of "Some mac"] assms(2) by auto
  show "rcu_step s \<noteq> None" using rcu_step_total [OF inv] by auto
  show "r92su_sta_alloc_tid E p tid ssn s \<noteq> None"
    using alloc_tid_total [OF inv assms(4,3)] by auto
qed

definition demo_sta :: "(u16 \<Rightarrow> u8) r92su" where
  "demo_sta = (case r92su_sta_alloc reg_env (Some (replicate 6 7)) 5 5 (r92su_zero (\<lambda>x. 0)) of
     Some (p, s) \<Rightarrow> s | None \<Rightarrow> r92su_zero (\<lambda>x. 0))"

lemma demo_sta:
  "r92su_sta_alloc reg_env (Some (replicate 6 7)) 5 5 (r92su_zero (\<lambda>x. 0)) = Some (Some 0, demo_sta)"
  "0 \<in> dom (stas demo_sta)" "sta_list demo_sta = [0]"
  by (simp_all add: demo_sta_def r92su_sta_alloc_def kmalloc_def reg_env_def rd_mem_def Let_def
      r92su_sta_del_def r92su_sta_get_by_macid_def r92su_zero_def)

theorem sta_no_dangling_witness:
  "rcu_step demo_sta \<noteq> None \<and> r92su_sta_alloc_tid reg_env 0 3 0 demo_sta \<noteq> None"
proof -
  have "(sta_step reg_env)\<^sup>*\<^sup>* (r92su_zero (\<lambda>x. 0)) demo_sta"
    using sta_step.alloc [OF demo_sta(1)] by blast
  from sta_no_dangling [OF this, of "replicate 6 0" 3 0] show ?thesis by (simp add: demo_sta)
qed

text \<open>Look-up after insertion.\<close>

lemma sta_find_Some_iff:
  assumes "set ps \<subseteq> dom h" and "\<And>p q. p \<in> set ps \<Longrightarrow> q \<in> set ps \<Longrightarrow> P (the (h p)) \<Longrightarrow> P (the (h q)) \<Longrightarrow> p = q"
  shows "sta_find P h ps = Some (Some p) \<longleftrightarrow> p \<in> set ps \<and> P (the (h p))"
  using sta_find_ok [OF assms(1), of P] assms(2) by (auto split: option.splits)

lemma by_macid_iff:
  assumes "heap_inv s"
  shows "r92su_sta_get_by_macid s m = Some (Some p) \<longleftrightarrow> p \<in> set (sta_list s) \<and> sta_mac_id (the (stas s p)) = m"
  unfolding r92su_sta_get_by_macid_def
proof (rule sta_find_Some_iff [OF heap_inv_list [OF assms]])
  fix p q assume "p \<in> set (sta_list s)" "q \<in> set (sta_list s)"
    "sta_mac_id (the (stas s p)) = m" "sta_mac_id (the (stas s q)) = m"
  moreover have "distinct (mac_ids (stas s) (sta_list s))" using assms by (auto simp: heap_inv_def sta_inv_def)
  ultimately show "p = q" by (auto simp: mac_ids_def distinct_map inj_on_def)
qed

lemma sta_alloc_effect:
  assumes inv: "heap_inv s" and a: "r92su_sta_alloc E mac m aid s = Some (Some p, t)"
  shows "p = next_ptr s" "sta_list t = p # filter (\<lambda>q. sta_mac_id (the (stas s q)) \<noteq> m) (sta_list s)"
    "stas t = (stas s)(p \<mapsto> sta_new (case mac of None \<Rightarrow> replicate 6 0 | Some x \<Rightarrow> take 6 x) m aid (uptime E (jiffies s)))"
proof -
  let ?p = "next_ptr s" and ?h = "\<lambda>mc. (stas s)(next_ptr s \<mapsto> sta_new mc m aid (uptime E (jiffies s)))"
  from a obtain mc u where mc: "mc = (case mac of None \<Rightarrow> replicate 6 0 | Some x \<Rightarrow> take 6 x)" and ok: "alloc_ok E (allocs s)" and p: "p = ?p"
    and t: "t = u\<lparr>sta_list := p # sta_list u, sta_generation := sta_generation u + 1, sta_num := sta_num u + 1\<rparr>"
    and d: "r92su_sta_del m (s\<lparr>allocs := allocs s + 1, next_ptr := ?p + 1, stas := ?h mc\<rparr>) = Some u"
    by (auto simp: r92su_sta_alloc_def kmalloc_def rd_mem_def Let_def Option.bind_eq_Some_conv split: option.splits if_splits)
  let ?s = "s\<lparr>allocs := allocs s + 1, next_ptr := ?p + 1, stas := ?h mc\<rparr>"
  have l: "set (sta_list s) \<subseteq> dom (stas s)" by (rule heap_inv_list [OF inv])
  have fresh: "?p \<notin> set (sta_list s)" using inv by (auto simp: heap_inv_def sta_inv_def)
  have dist: "distinct (sta_list s)" "distinct (mac_ids (stas s) (sta_list s))"
    using inv by (auto simp: heap_inv_def sta_inv_def)
  have old: "the (?h mc q) = the (stas s q)" if "q \<in> set (sta_list s)" for q using that fresh by auto
  have "set (sta_list ?s) \<subseteq> dom (stas ?s)" using l by auto
  then have "sta_list u = filter (\<lambda>q. sta_mac_id (the (stas s q)) \<noteq> m) (sta_list s) \<and> stas u = ?h mc"
  proof (rule sta_del_ok [of _ m])
    assume n: "r92su_sta_del m ?s = Some ?s" "\<forall>q \<in> set (sta_list ?s). sta_mac_id (the (stas ?s q)) \<noteq> m"
    have "filter (\<lambda>q. sta_mac_id (the (stas s q)) \<noteq> m) (sta_list s) = sta_list s"
      using n(2) old by (simp add: filter_id_conv del: fun_upd_apply)
    moreover have "u = ?s" using d n(1) by (rule option.inject [THEN iffD1, OF trans [OF sym]])
    ultimately show ?thesis by simp
  next
    fix q
    assume q: "q \<in> set (sta_list ?s)" "sta_mac_id (the (stas ?s q)) = m"
      and e: "r92su_sta_del m ?s = Some (?s\<lparr>sta_list := remove1 q (sta_list ?s),
         sta_generation := sta_generation ?s + 1, sta_num := sta_num ?s - 1, rcu_cbs := rcu_cbs ?s @ [Free_sta q]\<rparr>)"
    have u: "u = ?s\<lparr>sta_list := remove1 q (sta_list ?s),
         sta_generation := sta_generation ?s + 1, sta_num := sta_num ?s - 1, rcu_cbs := rcu_cbs ?s @ [Free_sta q]\<rparr>"
      using d e by (rule option.inject [THEN iffD1, OF trans [OF sym]])
    have q': "q \<in> set (sta_list s)" "sta_mac_id (the (stas s q)) = m"
      using q old by (simp_all del: fun_upd_apply)
    have "remove1 q (sta_list s) = filter (\<lambda>x. x \<noteq> q) (sta_list s)"
      using dist(1) by (simp add: distinct_remove1_removeAll removeAll_filter_not_eq neq_commute)
    also have "\<dots> = filter (\<lambda>x. sta_mac_id (the (stas s x)) \<noteq> m) (sta_list s)"
    proof (rule filter_cong [OF refl])
      fix x assume "x \<in> set (sta_list s)"
      then show "(x \<noteq> q) = (sta_mac_id (the (stas s x)) \<noteq> m)"
        using dist(2) q' by (auto simp: mac_ids_def distinct_map inj_on_def)
    qed
    finally show ?thesis unfolding u by simp
  qed
  then show "p = next_ptr s" "sta_list t = p # filter (\<lambda>q. sta_mac_id (the (stas s q)) \<noteq> m) (sta_list s)"
    "stas t = (stas s)(p \<mapsto> sta_new (case mac of None \<Rightarrow> replicate 6 0 | Some x \<Rightarrow> take 6 x) m aid (uptime E (jiffies s)))"
    using p by (simp_all add: t mc)
qed

lemma heap_inv_zero: "heap_inv (r92su_zero w)"
  by (rule sta_system.init_inv) blast

text \<open>
  The specification of the component: a table from station numbers to stations. The list, the
  heap and the deferred releases implement it.
\<close>

definition sta_table :: "'w r92su \<Rightarrow> u32 \<rightharpoonup> r92su_sta" where
  "sta_table s m = (case r92su_sta_get_by_macid s m of Some (Some p) \<Rightarrow> stas s p | _ \<Rightarrow> None)"

lemma sta_table_iff:
  assumes inv: "heap_inv s"
  shows "sta_table s m = Some a \<longleftrightarrow> (\<exists>p \<in> set (sta_list s). stas s p = Some a \<and> sta_mac_id a = m)"
proof -
  obtain r where r: "r92su_sta_get_by_macid s m = Some r"
    using sta_get_total [OF inv] unfolding r92su_sta_get_by_macid_def by blast
  have d: "set (sta_list s) \<subseteq> dom (stas s)" by (rule heap_inv_list [OF inv])
  show ?thesis
  proof (cases r)
    case None
    with r have "p \<notin> set (sta_list s) \<or> sta_mac_id (the (stas s p)) \<noteq> m" for p using by_macid_iff [OF inv, of m p] by auto
    then show ?thesis using r None by (simp add: sta_table_def) (metis option.sel)
  next
    case (Some q)
    with r have q: "q \<in> set (sta_list s)" "sta_mac_id (the (stas s q)) = m" using by_macid_iff [OF inv, of m q] by auto
    moreover have "p = q" if "p \<in> set (sta_list s)" "stas s p = Some a" "sta_mac_id a = m" for p
      using by_macid_iff [OF inv, of m p] that r Some by simp
    moreover have "sta_table s m = stas s q" using r Some by (simp add: sta_table_def)
    ultimately show ?thesis by (metis option.sel)
  qed
qed

lemma sta_table_eqI:
  assumes "heap_inv s" "heap_inv t" "\<And>a m. sta_table t m = Some a \<longleftrightarrow> f m = Some a"
  shows "sta_table t = f"
  by (rule ext) (metis assms(3) not_None_eq)

lemma sta_del_list:
  assumes inv: "heap_inv s" and d: "r92su_sta_del m s = Some t"
  shows "stas t = stas s" "set (sta_list t) = {p \<in> set (sta_list s). sta_mac_id (the (stas s p)) \<noteq> m}"
proof -
  have dist: "distinct (sta_list s)" "distinct (mac_ids (stas s) (sta_list s))"
    using inv by (auto simp: heap_inv_def sta_inv_def)
  have "stas t = stas s \<and> set (sta_list t) = {p \<in> set (sta_list s). sta_mac_id (the (stas s p)) \<noteq> m}"
    by (rule sta_del_ok [OF heap_inv_list [OF inv], of m])
      (use d dist in \<open>auto simp: mac_ids_def distinct_map inj_on_def\<close>)
  then show "stas t = stas s" "set (sta_list t) = {p \<in> set (sta_list s). sta_mac_id (the (stas s p)) \<noteq> m}" by auto
qed

lemma free_tids_stas: "free_tids ts s = Some t \<Longrightarrow> stas t = stas s \<and> sta_list t = sta_list s"
  by (induction ts arbitrary: s)
    (auto simp: r92su_free_tid_def Option.bind_eq_Some_conv split: option.splits)

lemma rcu_step_stas:
  assumes inv: "heap_inv s" and r: "rcu_step s = Some t"
  shows "sta_list t = sta_list s \<and> (\<forall>p \<in> set (sta_list s). stas t p = stas s p)"
proof -
  have "p \<notin> set (sta_list s)" if "rcu_cbs s = Free_sta p # rest" for p rest
    using inv that by (auto simp: heap_inv_def sta_inv_def)
  with r show ?thesis
    by (auto simp: rcu_step_def r92su_free_sta_rcu_def r92su_free_tid_rcu_def free_key_rcu_def r92su_key_free_def Let_def
        Option.bind_eq_Some_conv split: list.splits rcu_cb.splits option.splits dest!: free_tids_stas)
qed

text \<open>C6. The station component implements a table from station numbers to stations: storing a
  station updates the table at its number and nowhere else, deletion removes that entry, a
  look-up by number reads the table, and the deferred releases leave the table alone.\<close>

theorem sta_table_refines:
  assumes inv: "heap_inv s"
  shows "(\<forall>mac aid p t. r92su_sta_alloc E (Some mac) m aid s = Some (Some p, t) \<longrightarrow>
       sta_table t = (sta_table s)(m \<mapsto> sta_new (take 6 mac) m aid (uptime E (jiffies s)))) \<and>
     (\<forall>t. r92su_sta_del m s = Some t \<longrightarrow> sta_table t = (sta_table s)(m := None)) \<and>
     (\<forall>t. rcu_step s = Some t \<longrightarrow> sta_table t = sta_table s)"
proof (intro conjI allI impI)
  fix mac aid p t
  assume a: "r92su_sta_alloc E (Some mac) m aid s = Some (Some p, t)"
  have inv': "heap_inv t" by (rule sta_alloc_inv [OF inv a])
  have fresh: "next_ptr s \<notin> set (sta_list s)" using inv by (auto simp: heap_inv_def sta_inv_def)
  let ?new = "sta_new (take 6 mac) m aid (uptime E (jiffies s))"
  have new: "sta_mac_id ?new = m" by (simp add: sta_new_def)
  have old: "stas t q = stas s q" if "q \<in> set (sta_list s)" for q
    using that fresh sta_alloc_effect(1,3) [OF inv a] by auto
  have "sta_table t n = Some b \<longleftrightarrow> ((sta_table s)(m \<mapsto> ?new)) n = Some b" for b n
  proof -
    have "sta_table t n = Some b \<longleftrightarrow> (n = m \<and> b = ?new) \<or>
        (\<exists>q \<in> set (sta_list s). sta_mac_id (the (stas s q)) \<noteq> m \<and> stas s q = Some b \<and> sta_mac_id b = n)"
      using new old sta_alloc_effect [OF inv a] by (auto simp: sta_table_iff [OF inv'])
    also have "\<dots> \<longleftrightarrow> ((sta_table s)(m \<mapsto> ?new)) n = Some b"
      by (auto simp: sta_table_iff [OF inv]) (metis option.sel)
    finally show ?thesis .
  qed
  then show "sta_table t = (sta_table s)(m \<mapsto> ?new)" by (rule sta_table_eqI [OF inv inv'])
next
  fix t
  assume d: "r92su_sta_del m s = Some t"
  show "sta_table t = (sta_table s)(m := None)"
    by (rule sta_table_eqI [OF inv sta_del_inv [OF inv d]])
      (auto simp: sta_table_iff [OF sta_del_inv [OF inv d]] sta_table_iff [OF inv] sta_del_list [OF inv d])
next
  fix t
  assume r: "rcu_step s = Some t"
  show "sta_table t = sta_table s"
    by (rule sta_table_eqI [OF inv rcu_step_inv [OF inv r]])
      (use rcu_step_stas [OF inv r] in \<open>auto simp: sta_table_iff [OF rcu_step_inv [OF inv r]] sta_table_iff [OF inv]\<close>)
qed

lemma r92su_get_by_macid_zero: "r92su_sta_get_by_macid (r92su_zero w) m = Some None"
  by (simp add: r92su_sta_get_by_macid_def r92su_zero_def)

theorem sta_table_refines_witness:
  "sta_table demo_sta = [5 \<mapsto> sta_new (replicate 6 7) 5 5 0]"
proof -
  have z: "sta_table (r92su_zero (\<lambda>x :: u16. 0 :: u8)) = (\<lambda>m. None)"
    by (rule ext) (simp add: sta_table_def r92su_get_by_macid_zero)
  have "uptime reg_env (jiffies (r92su_zero (\<lambda>x :: u16. 0 :: u8))) = 0" by (simp add: reg_env_def)
  with sta_table_refines [OF heap_inv_zero, of reg_env 5 "\<lambda>x. 0"] demo_sta(1) z show ?thesis by fastforce
qed

text \<open>C32. A key that is allocated is the one its cipher asks for: the type, the length, the member of
  the union (which the code later selects by the type), the counters of a new key and as many bytes of
  the key material as the cipher has, all of them inside the caller's buffer. It carries the index, the
  kind and the address it was asked for with, is not uploaded, and no other key is touched. A cipher that
  the driver does not know gives no key.\<close>

theorem key_alloc_ok:
  assumes "r92su_key_alloc E cipher idx mac pw key s = Some (Inr k, t)"
  shows "\<exists>x. keys t = (keys s)(k \<mapsto> x) \<and> key_ok x \<and> key_index x = ucast idx \<and> key_pairwise x = pw \<and>
     \<not> key_uploaded x \<and> key_mac_addr x = (case mac of None \<Rightarrow> replicate 6 0 | Some m \<Rightarrow> take 6 m) \<and>
     key_len x \<le> length key \<and>
     (case cipher of
        CIPHER_WEP40 \<Rightarrow> key_type x = WEP40_ENCRYPTION \<and> key_len x = 5 \<and>
          (\<exists>tx. key_u x = WepKey tx 0 (take 5 key @ replicate 8 0))
      | CIPHER_WEP104 \<Rightarrow> key_type x = WEP104_ENCRYPTION \<and> key_len x = 13 \<and>
          (\<exists>tx. key_u x = WepKey tx 0 (take 13 key))
      | CIPHER_TKIP \<Rightarrow> key_type x = TKIP_ENCRYPTION \<and> key_len x = 32 \<and> key_u x = TkipKey 1 1 (take 32 key)
      | CIPHER_CCMP \<Rightarrow> key_type x = AESCCMP_ENCRYPTION \<and> key_len x = 16 \<and> key_u x = CcmpKey 0 0 (take 16 key)
      | CIPHER_OTHER n \<Rightarrow> False)"
proof -
  have ok: "alloc_ok E (allocs s)" using assms by (auto simp: r92su_key_alloc_def kmalloc_def split: if_splits)
  let ?x = "the (keys t k)"
  have "keys t = (keys s)(k \<mapsto> ?x) \<and> key_mac_addr ?x = (case mac of None \<Rightarrow> replicate 6 0 | Some m \<Rightarrow> take 6 m)"
    using assms ok by (cases cipher; cases mac)
      (auto simp: r92su_key_alloc_def kmalloc_def Let_def Option.bind_eq_Some_conv rd_mem_Some_iff split: if_splits)
  moreover have "key_ok ?x \<and> key_index ?x = ucast idx \<and> key_pairwise ?x = pw \<and> \<not> key_uploaded ?x \<and> key_len ?x \<le> length key"
    using assms ok by (cases cipher)
      (auto simp: r92su_key_alloc_def kmalloc_def Let_def Option.bind_eq_Some_conv rd_mem_Some_iff key_ok_def split: if_splits)
  ultimately show ?thesis
    using assms ok by (intro exI [of _ ?x], cases cipher)
      (auto simp: r92su_key_alloc_def kmalloc_def Let_def Option.bind_eq_Some_conv rd_mem_Some_iff split: if_splits)
qed

theorem key_alloc_ok_witness:
  "\<exists>k t x. r92su_key_alloc reg_env CIPHER_CCMP 1 None False (replicate 16 3) (r92su_zero (\<lambda>x. 0)) = Some (Inr k, t) \<and>
     keys t k = Some x \<and> key_type x = AESCCMP_ENCRYPTION \<and> key_u x = CcmpKey 0 0 (replicate 16 3)"
proof -
  obtain k t where a: "r92su_key_alloc reg_env CIPHER_CCMP 1 None False (replicate 16 3) (r92su_zero (\<lambda>x. 0)) = Some (Inr k, t)"
    by (simp add: r92su_key_alloc_def kmalloc_def reg_env_def rd_mem_def r92su_zero_def Let_def)
  from key_alloc_ok [OF this] obtain x where "keys t k = Some x"
    "key_type x = AESCCMP_ENCRYPTION" "key_u x = CcmpKey 0 0 (replicate 16 3)" by auto
  with a show ?thesis by (intro exI [of _ k] exI [of _ t] exI [of _ x]) simp
qed

end
