(* ===== verification/R92_Event.thy ===== *)
theory R92_Event
  imports R92_Sta
begin

text \<open>
  The events of the firmware (\<open>event.c\<close>). An event is the rest of the receive buffer from its
  header on; a read behind the end of the buffer is \<open>None\<close>, and so is every misuse of the
  station heaps. The handlers take the data behind the header and the announced length.
\<close>

section \<open>Handlers\<close>

abbreviation (input) FCS_LEN :: nat where "FCS_LEN \<equiv> 4"

text \<open>A print with precision \<open>n\<close> stops at a zero byte or after \<open>n\<close> bytes.\<close>

definition rd_str :: "bytes \<Rightarrow> nat \<Rightarrow> unit option" where
  "rd_str d n = (if n \<le> length d \<or> 0 \<in> set d then Some () else None)"

definition c2h_fwdbg_event :: "bytes \<Rightarrow> 'w r92su \<Rightarrow> 'w r92su option" where
  "c2h_fwdbg_event c2h s = do {
     len \<leftarrow> c2h_len c2h;
     _ \<leftarrow> rd_str (c2h_data c2h) (unat len);
     _ \<leftarrow> rd8 c2h (H2CC2H_HDR_LEN + unat len - 2);
     Some s }"

definition c2h_survey_event :: "'w env \<Rightarrow> bytes \<Rightarrow> 'w r92su \<Rightarrow> 'w r92su option" where
  "c2h_survey_event E c2h s = do {
     let c2h_bss = c2h_data c2h;
     ev_len \<leftarrow> c2h_len c2h;
     length_field \<leftarrow> rd_le32 c2h_bss 0;
     let len = ev_len - of_nat FCS_LEN;
     let bss_len = length_field - of_nat FCS_LEN;
     bad \<leftarrow> (if unat len < SIZEOF_BSS \<or> ucast len \<noteq> bss_len then Some True
            else do { ie_length \<leftarrow> rd_le32 c2h_bss 112; Some (ie_length \<le> 12) });
     (if bad then Some (r92su_mark_dead s)
      else case kmalloc E s of (ok, s) \<Rightarrow>
        if \<not> ok then Some s
        else do {
          fw_bss \<leftarrow> rd_mem c2h_bss 0 (unat len);
          fw_bss \<leftarrow> wr_mem fw_bss 0 (put_le32 (ucast len));
          ie_length \<leftarrow> rd_le32 fw_bss 112;
          fw_bss \<leftarrow> wr_mem fw_bss 112 (put_le32 (ie_length - of_nat FCS_LEN));
          Some (emit (Queue_work Add_bss_work) (s\<lparr>add_bss_list := fw_bss # add_bss_list s\<rparr>)) }) }"

definition c2h_survey_done_event :: "'w env \<Rightarrow> 'w r92su \<Rightarrow> 'w r92su option" where
  "c2h_survey_done_event E s =
     (if \<not> r92su_is_open s then Some s
      else if work_pending E Survey_done_work (world s)
        then Some (emit (Queue_delayed_work Survey_done_work 0) (emit (Cancel_work Survey_done_work) s))
        else Some s)"

definition c2h_join_bss_event :: "'w env \<Rightarrow> bytes \<Rightarrow> 'w r92su \<Rightarrow> 'w r92su option" where
  "c2h_join_bss_event E c2h s =
     (if connect_result s \<noteq> None then Some s
      else do {
        len \<leftarrow> c2h_len c2h;
        (p, s) \<leftarrow> kmemdup E (rd_mem (c2h_data c2h) 0 (unat len)) s;
        Some (emit (Queue_work Connect_bss_work) (s\<lparr>connect_result := p\<rparr>)) })"

definition c2h_add_sta_event :: "'w env \<Rightarrow> bytes \<Rightarrow> 'w r92su \<Rightarrow> 'w r92su option" where
  "c2h_add_sta_event E c2h s = do {
     i \<leftarrow> addsta_aid (c2h_data c2h);
     mac_addr \<leftarrow> addsta_mac_addr (c2h_data c2h);
     (new_sta, s) \<leftarrow> r92su_sta_alloc E (Some mac_addr) i i s;
     Some s }"

definition r92su_disconnect_bss_event :: "'w r92su \<Rightarrow> 'w r92su" where
  "r92su_disconnect_bss_event s =
     emit (Queue_work Disconnect_work) (emit Netif_carrier_off (emit Netif_tx_stop_all_queues s))"

definition c2h_del_sta_event :: "bytes \<Rightarrow> 'w r92su \<Rightarrow> 'w r92su option" where
  "c2h_del_sta_event c2h s = (case iftype s of
     IFTYPE_STATION \<Rightarrow> Some (r92su_disconnect_bss_event s)
   | _ \<Rightarrow> do {
       mac_addr \<leftarrow> delsta_mac_addr (c2h_data c2h);
       found \<leftarrow> r92su_sta_get s mac_addr;
       (case found of
          None \<Rightarrow> Some s
        | Some p \<Rightarrow> do { sta \<leftarrow> stas s p; r92su_sta_del (sta_mac_id sta) s }) })"

definition c2h_atim_done_event :: "'w r92su \<Rightarrow> 'w r92su option" where
  "c2h_atim_done_event s = Some s"

definition c2h_report_pwr_state_event :: "bytes \<Rightarrow> 'w r92su \<Rightarrow> 'w r92su option" where
  "c2h_report_pwr_state_event c2h s = do {
     state \<leftarrow> pwr_state (c2h_data c2h);
     Some (s\<lparr>cpwm := state AND PS_STATE_MASK, cpwm_tog := state AND PS_TOG\<rparr>) }"

definition c2h_wps_pbc_event :: "'w r92su \<Rightarrow> 'w r92su option" where
  "c2h_wps_pbc_event s = Some s"

definition c2h_addba_report_event :: "'w env \<Rightarrow> bytes \<Rightarrow> 'w r92su \<Rightarrow> 'w r92su option" where
  "c2h_addba_report_event E c2h s = do {
     mac_addr \<leftarrow> addba_mac_addr (c2h_data c2h);
     found \<leftarrow> r92su_sta_get s mac_addr;
     (case found of
        None \<Rightarrow> Some s
      | Some p \<Rightarrow> do {
          tid \<leftarrow> addba_tid (c2h_data c2h);
          ssn \<leftarrow> addba_ssn (c2h_data c2h);
          r92su_sta_alloc_tid E p tid ssn s }) }"

section \<open>Dispatch\<close>

text \<open>The expected sequence number has seven bits, the one of the event has eight.\<close>

definition c2h_sequence :: "u8 \<Rightarrow> 'w r92su \<Rightarrow> 'w r92su" where
  "c2h_sequence cmd_seq s =
     (let sequence = c2h_seq s; s = s\<lparr>c2h_seq := c2h_seq s + 1\<rparr> in
      if ucast sequence \<noteq> cmd_seq then s\<lparr>c2h_seq := ucast (cmd_seq + 1)\<rparr> else s)"

definition r92su_c2h_event :: "'w env \<Rightarrow> bytes \<Rightarrow> 'w r92su \<Rightarrow> 'w r92su option" where
  "r92su_c2h_event E c2h s = do {
     cmd_seq \<leftarrow> c2h_cmd_seq c2h;
     let s = c2h_sequence cmd_seq s;
     event \<leftarrow> c2h_event c2h;
     (case c2h_of_nr event of
        Some C2H_FWDBG_EVENT \<Rightarrow> c2h_fwdbg_event c2h s
      | Some C2H_SURVEY_EVENT \<Rightarrow> c2h_survey_event E c2h s
      | Some C2H_SURVEY_DONE_EVENT \<Rightarrow> c2h_survey_done_event E s
      | Some C2H_JOIN_BSS_EVENT \<Rightarrow> c2h_join_bss_event E c2h s
      | Some C2H_ADD_STA_EVENT \<Rightarrow> c2h_add_sta_event E c2h s
      | Some C2H_DEL_STA_EVENT \<Rightarrow> c2h_del_sta_event c2h s
      | Some C2H_ATIM_DONE_EVENT \<Rightarrow> c2h_atim_done_event s
      | Some C2H_REPORT_PWR_STATE_EVENT \<Rightarrow> c2h_report_pwr_state_event c2h s
      | Some C2H_WPS_PBC_EVENT \<Rightarrow> c2h_wps_pbc_event s
      | Some C2H_ADDBA_REPORT_EVENT \<Rightarrow> c2h_addba_report_event E c2h s
      | _ \<Rightarrow> do { len \<leftarrow> c2h_len c2h; _ \<leftarrow> rd_mem c2h 0 (unat len + H2CC2H_HDR_LEN); Some (r92su_mark_dead s) }) }"

section \<open>Events keep the heaps\<close>

lemma owned_cong:
  assumes "stas t = stas s" "sta_list t = sta_list s" "sta_num t = sta_num s" "tids t = tids s" "keys t = keys s"
    "rcu_cbs t = rcu_cbs s" "next_ptr t = next_ptr s"
  shows "owned full t \<longleftrightarrow> owned full s"
  using assms by (simp add: owned_def sta_inv_def tid_inv_def key_inv_def tid_of_def key_of_def)

lemma owned_upd [simp]:
  "owned full (s\<lparr>log := a\<rparr>) = owned full s" "owned full (s\<lparr>allocs := b\<rparr>) = owned full s"
  "owned full (s\<lparr>r_state := c\<rparr>) = owned full s" "owned full (s\<lparr>connect_result := d\<rparr>) = owned full s" "owned full (s\<lparr>bufs := h\<rparr>) = owned full s"
  "owned full (s\<lparr>add_bss_list := e\<rparr>) = owned full s" "owned full (s\<lparr>c2h_seq := f\<rparr>) = owned full s"
  "owned full (s\<lparr>cpwm := g\<rparr>) = owned full s" "owned full (s\<lparr>cpwm_tog := g\<rparr>) = owned full s"
  by (rule owned_cong; simp)+

text \<open>Reads inside a buffer succeed.\<close>

lemma rd_ex:
  "i < length d \<Longrightarrow> \<exists>v. rd8 d i = Some v"
  "i + 2 \<le> length d \<Longrightarrow> \<exists>v. rd_le16 d i = Some v"
  "i + 4 \<le> length d \<Longrightarrow> \<exists>v. rd_le32 d i = Some v"
  "i + n \<le> length d \<Longrightarrow> \<exists>v. rd_mem d i n = Some v \<and> length v = n"
  by (simp_all add: rd8_def rd_le16_def rd_le32_def rd_mem_def)

lemma wr_ex: "i + length x \<le> length d \<Longrightarrow> \<exists>v. wr_mem d i x = Some v \<and> length v = length d"
  by (simp add: wr_mem_def)

text \<open>The station operations touch nothing but the heaps.\<close>

lemma sta_del_frame: "r92su_sta_del m s = Some t \<Longrightarrow> c2h_seq t = c2h_seq s \<and> r_state t = r_state s"
  by (auto simp: r92su_sta_del_def Option.bind_eq_Some_conv split: option.splits)

lemma sta_alloc_frame: "r92su_sta_alloc E mac m aid s = Some (r, t) \<Longrightarrow> c2h_seq t = c2h_seq s \<and> r_state t = r_state s"
  by (auto simp: r92su_sta_alloc_def kmalloc_def Let_def Option.bind_eq_Some_conv split: if_splits dest!: sta_del_frame)

lemma alloc_tid_frame: "r92su_sta_alloc_tid E p tid ssn s = Some t \<Longrightarrow> c2h_seq t = c2h_seq s \<and> r_state t = r_state s"
  by (auto simp: r92su_sta_alloc_tid_def r92su_free_tid_def kmalloc_def Let_def Option.bind_eq_Some_conv
      split: if_splits option.splits)

lemma dead_frame: "owned full (r92su_mark_dead s) = owned full s" "c2h_seq (r92su_mark_dead s) = c2h_seq s"
  by (simp_all add: r92su_mark_dead_def r92su_set_state_def emit_def Let_def)

text \<open>What a handler of an event with announced length \<open>len\<close> guarantees.\<close>

definition handled :: "bool \<Rightarrow> 'w r92su \<Rightarrow> 'w r92su option \<Rightarrow> bool" where
  "handled full s r \<longleftrightarrow> (\<exists>t. r = Some t \<and> owned full t \<and> c2h_seq t = c2h_seq s)"

lemma handledI: "r = Some t \<Longrightarrow> owned full t \<Longrightarrow> c2h_seq t = c2h_seq s \<Longrightarrow> handled full s r"
  by (simp add: handled_def)

lemma handled_dead: "owned full s \<Longrightarrow> handled full s (Some (r92su_mark_dead s))"
  by (rule handledI [OF refl]) (simp_all add: dead_frame)

lemma survey_handled:
  assumes inv: "owned full s" and len: "c2h_len c2h = Some len" "4 \<le> unat len"
    and buf: "H2CC2H_HDR_LEN + max 12 (unat len) \<le> length c2h"
  shows "handled full s (c2h_survey_event E c2h s)"
proof -
  have l: "unat (len - 4) = unat len - 4" using len(2) by (simp add: unat_sub_if')
  have d: "12 \<le> length (c2h_data c2h)" "unat len \<le> length (c2h_data c2h)" using buf by (simp_all add: c2h_data_def)
  then obtain f where f: "rd_le32 (c2h_data c2h) 0 = Some f" using rd_ex(3) [of 0 "c2h_data c2h"] by auto
  define n where "n = unat len - 4"
  have n: "unat (len - 4) = n" "n \<le> length (c2h_data c2h)" using l d by (auto simp: n_def)
  show ?thesis
  proof (cases "n < 128 \<or> ucast (len - 4) \<noteq> f - 4")
    case True
    then have "c2h_survey_event E c2h s = Some (r92su_mark_dead s)"
      using len(1) f n by (auto simp: c2h_survey_event_def)
    then show ?thesis using handled_dead [OF inv] by simp
  next
    case False
    then have big: "128 \<le> n" by simp
    let ?d = "c2h_data c2h"
    obtain ie where ie: "rd_le32 ?d 112 = Some ie" using big n rd_ex(3) [of 112 ?d] by auto
    obtain b0 where b0: "wr_mem (take n ?d) 0 (put_le32 (ucast (len - 4))) = Some b0" "length b0 = n"
      using big n wr_ex [of 0 "put_le32 (ucast (len - 4))" "take n ?d"] by auto
    obtain ie' where ie': "rd_le32 b0 112 = Some ie'" using b0 big rd_ex(3) [of 112 b0] by auto
    obtain b1 where b1: "wr_mem b0 112 (put_le32 (ie' - 4)) = Some b1"
      using b0 big wr_ex [of 112 "put_le32 (ie' - 4)" b0] by auto
    have "c2h_survey_event E c2h s = (if ie \<le> 12 then Some (r92su_mark_dead s)
        else case kmalloc E s of (ok, s) \<Rightarrow> if \<not> ok then Some s
          else Some (emit (Queue_work Add_bss_work) (s\<lparr>add_bss_list := b1 # add_bss_list s\<rparr>)))"
      using len(1) f ie False n b0(1) ie' b1 by (simp add: c2h_survey_event_def rd_mem_def Let_def kmalloc_def)
    also have "handled full s \<dots>"
      using inv handled_dead [OF inv]
      by (auto simp: kmalloc_def emit_def handled_def)
    finally show ?thesis .
  qed
qed

lemma data_len: "20 \<le> length c2h \<Longrightarrow> 12 \<le> length (c2h_data c2h)"
  by (simp add: c2h_data_def)

lemma add_sta_handled:
  assumes "owned full s" "20 \<le> length c2h"
  shows "handled full s (c2h_add_sta_event E c2h s)"
proof -
  obtain a where a: "addsta_aid (c2h_data c2h) = Some a"
    using data_len [OF assms(2)] rd_ex(3) [of 8 "c2h_data c2h"] by (auto simp: addsta_aid_def)
  obtain m where m: "addsta_mac_addr (c2h_data c2h) = Some m" "length m = 6"
    using data_len [OF assms(2)] rd_ex(4) [of 0 6 "c2h_data c2h"] by (auto simp: addsta_mac_addr_def)
  obtain r t where r: "r92su_sta_alloc E (Some m) a a s = Some (r, t)"
    using sta_alloc_ex [OF assms(1), of "Some m"] m(2) by fastforce
  then have "c2h_add_sta_event E c2h s = Some t" using a m by (simp add: c2h_add_sta_event_def)
  then show ?thesis using r sta_alloc_owned [OF assms(1) r] sta_alloc_frame [OF r] by (simp add: handled_def)
qed

lemma del_sta_handled:
  assumes "owned full s" "20 \<le> length c2h"
  shows "handled full s (c2h_del_sta_event c2h s)"
proof (cases "iftype s = IFTYPE_STATION")
  case True
  then show ?thesis
    using assms(1) by (simp add: c2h_del_sta_event_def r92su_disconnect_bss_event_def emit_def handled_def)
next
  case False
  obtain m where m: "delsta_mac_addr (c2h_data c2h) = Some m"
    using data_len [OF assms(2)] rd_ex(4) [of 0 6 "c2h_data c2h"] by (auto simp: delsta_mac_addr_def)
  obtain r where r: "r92su_sta_get s m = Some r" "\<And>p. r = Some p \<Longrightarrow> p \<in> dom (stas s)"
    using sta_get_ok [OF assms(1)] unfolding r92su_sta_get_def by blast
  have e: "c2h_del_sta_event c2h s = (case r of None \<Rightarrow> Some s
      | Some p \<Rightarrow> Option.bind (stas s p) (\<lambda>sta. r92su_sta_del (sta_mac_id sta) s))"
    using False m r(1) by (cases "iftype s") (simp_all add: c2h_del_sta_event_def)
  show ?thesis
  proof (cases r)
    case None
    then show ?thesis using e assms(1) by (simp add: handled_def)
  next
    case (Some p)
    with r(2) obtain a where a: "stas s p = Some a" by auto
    obtain t where t: "r92su_sta_del (sta_mac_id a) s = Some t" using sta_del_ex [OF assms(1)] by blast
    then show ?thesis using e Some a sta_del_owned [OF assms(1) t] sta_del_frame [OF t] by (simp add: handled_def)
  qed
qed

lemma addba_handled:
  assumes "owned full s" "20 \<le> length c2h" and tid: "\<And>t. addba_tid (c2h_data c2h) = Some t \<Longrightarrow> unat t < 16"
  shows "handled full s (c2h_addba_report_event E c2h s)"
proof -
  obtain m where m: "addba_mac_addr (c2h_data c2h) = Some m"
    using data_len [OF assms(2)] rd_ex(4) [of 0 6 "c2h_data c2h"] by (auto simp: addba_mac_addr_def)
  obtain ssn where ssn: "addba_ssn (c2h_data c2h) = Some ssn"
    using data_len [OF assms(2)] rd_ex(2) [of 6 "c2h_data c2h"] by (auto simp: addba_ssn_def)
  obtain t where t: "addba_tid (c2h_data c2h) = Some t" using data_len [OF assms(2)] rd_ex(1) [of 8 "c2h_data c2h"] by (auto simp: addba_tid_def)
  obtain r where r: "r92su_sta_get s m = Some r" "\<And>p. r = Some p \<Longrightarrow> p \<in> dom (stas s)"
    using sta_get_ok [OF assms(1)] unfolding r92su_sta_get_def by blast
  show ?thesis
  proof (cases r)
    case None
    then show ?thesis using r m assms(1) by (simp add: handled_def c2h_addba_report_event_def)
  next
    case (Some p)
    obtain u where u: "r92su_sta_alloc_tid E p t ssn s = Some u"
      using alloc_tid_ex [OF assms(1) r(2) tid [OF t]] Some by blast
    then show ?thesis
      using Some r m t ssn alloc_tid_owned [OF assms(1) u] alloc_tid_frame [OF u]
      by (simp add: handled_def c2h_addba_report_event_def)
  qed
qed

lemma fwdbg_handled:
  assumes "owned full s" "c2h_len c2h = Some len" "H2CC2H_HDR_LEN + unat len \<le> length c2h" "20 \<le> length c2h"
  shows "handled full s (c2h_fwdbg_event c2h s)"
proof -
  have "unat len \<le> length (c2h_data c2h)" using assms(3) by (simp add: c2h_data_def)
  moreover have "6 + unat len < length c2h" using assms(3,4) by simp
  ultimately show ?thesis using assms(1,2) by (simp add: handled_def c2h_fwdbg_event_def rd_str_def rd8_def)
qed

lemma join_bss_handled:
  assumes "owned full s" "c2h_len c2h = Some len" "H2CC2H_HDR_LEN + unat len \<le> length c2h"
  shows "handled full s (c2h_join_bss_event E c2h s)"
proof -
  have "0 + unat len \<le> length (c2h_data c2h)" using assms(3) by (simp add: c2h_data_def)
  then obtain d where "rd_mem (c2h_data c2h) 0 (unat len) = Some d" using rd_ex(4) by blast
  then show ?thesis using assms(1,2) by (simp add: handled_def c2h_join_bss_event_def kmemdup_def kmalloc_def emit_def)
qed

lemma pwr_handled:
  assumes "owned full s" "20 \<le> length c2h"
  shows "handled full s (c2h_report_pwr_state_event c2h s)"
proof -
  obtain x where "pwr_state (c2h_data c2h) = Some x"
    using data_len [OF assms(2)] rd_ex(1) [of 1 "c2h_data c2h"] by (auto simp: pwr_state_def)
  then show ?thesis using assms(1) by (simp add: handled_def c2h_report_pwr_state_event_def)
qed

lemma unat_up: "LENGTH('a::len) \<le> LENGTH('b::len) \<Longrightarrow> unat (ucast (w :: 'a word) :: 'b word) = unat w"
proof -
  assume l: "LENGTH('a) \<le> LENGTH('b)"
  have "unat w < 2 ^ LENGTH('a)" by (rule unsigned_less)
  also have "\<dots> \<le> 2 ^ LENGTH('b)" using l by (simp add: power_increasing)
  finally show ?thesis by (simp add: unsigned_ucast_eq take_bit_nat_eq_self)
qed

lemma seq_inc: "ucast ((q :: u8) + 1) = (ucast q + 1 :: 7 word)"
proof -
  have "Suc x mod 256 mod 128 = Suc (x mod 128) mod 128" for x
    by (simp add: mod_mod_cancel mod_Suc_eq)
  then show ?thesis by (simp add: word_unat_eq_iff unsigned_ucast_eq unat_word_ariths take_bit_eq_mod)
qed

lemma sequence_frame: "owned full (c2h_sequence q s) = owned full s" "c2h_seq (c2h_sequence q s) = ucast q + 1"
proof -
  show "owned full (c2h_sequence q s) = owned full s" by (simp add: c2h_sequence_def Let_def)
  have "ucast (c2h_seq s) = q \<Longrightarrow> c2h_seq s = ucast q"
    by (auto intro!: bit_word_eqI simp: bit_simps)
  then show "c2h_seq (c2h_sequence q s) = ucast q + 1" by (auto simp: c2h_sequence_def Let_def seq_inc)
qed

text \<open>The dispatcher, from the lemmas on its handlers.\<close>

lemma c2h_event_total:
  assumes inv: "owned full s"
    and hdr: "c2h_len c2h = Some len" "c2h_event c2h = Some ev" "c2h_cmd_seq c2h = Some q"
    and buf: "H2CC2H_HDR_LEN + max 12 (unat len) \<le> length c2h"
    and survey: "c2h_of_nr ev = Some C2H_SURVEY_EVENT \<Longrightarrow> 4 \<le> unat len"
    and addba: "\<And>t. addba_tid (c2h_data c2h) = Some t \<Longrightarrow> c2h_of_nr ev = Some C2H_ADDBA_REPORT_EVENT \<Longrightarrow> unat t < 16"
  shows "\<exists>t. r92su_c2h_event E c2h s = Some t \<and> owned full t \<and> c2h_seq t = ucast q + 1"
proof -
  let ?s = "c2h_sequence q s"
  have inv': "owned full ?s" using inv by (simp add: sequence_frame)
  have l: "20 \<le> length c2h" "H2CC2H_HDR_LEN + unat len \<le> length c2h" using buf by simp_all
  then obtain d where d: "rd_mem c2h 0 (unat len + 8) = Some d" using rd_ex(4) [of 0 "unat len + 8" c2h] by auto
  have "handled full ?s (case c2h_of_nr ev of
        Some C2H_FWDBG_EVENT \<Rightarrow> c2h_fwdbg_event c2h ?s
      | Some C2H_SURVEY_EVENT \<Rightarrow> c2h_survey_event E c2h ?s
      | Some C2H_SURVEY_DONE_EVENT \<Rightarrow> c2h_survey_done_event E ?s
      | Some C2H_JOIN_BSS_EVENT \<Rightarrow> c2h_join_bss_event E c2h ?s
      | Some C2H_ADD_STA_EVENT \<Rightarrow> c2h_add_sta_event E c2h ?s
      | Some C2H_DEL_STA_EVENT \<Rightarrow> c2h_del_sta_event c2h ?s
      | Some C2H_ATIM_DONE_EVENT \<Rightarrow> c2h_atim_done_event ?s
      | Some C2H_REPORT_PWR_STATE_EVENT \<Rightarrow> c2h_report_pwr_state_event c2h ?s
      | Some C2H_WPS_PBC_EVENT \<Rightarrow> c2h_wps_pbc_event ?s
      | Some C2H_ADDBA_REPORT_EVENT \<Rightarrow> c2h_addba_report_event E c2h ?s
      | _ \<Rightarrow> do { len \<leftarrow> c2h_len c2h; _ \<leftarrow> rd_mem c2h 0 (unat len + H2CC2H_HDR_LEN); Some (r92su_mark_dead ?s) })"
    using fwdbg_handled [OF inv' hdr(1) l(2,1)] survey_handled [OF inv' hdr(1) _ buf] survey
      join_bss_handled [OF inv' hdr(1) l(2)] add_sta_handled [OF inv' l(1)] del_sta_handled [OF inv' l(1)]
      pwr_handled [OF inv' l(1)] addba_handled [OF inv' l(1)] addba handled_dead [OF inv'] hdr(1) d inv'
    by (simp split: option.split fw_c2h_event.split)
      (simp add: handled_def c2h_survey_done_event_def c2h_atim_done_event_def c2h_wps_pbc_event_def emit_def)
  then show ?thesis using hdr by (simp add: r92su_c2h_event_def Let_def handled_def sequence_frame)
qed

text \<open>C9. An event whose buffer holds the announced length, and at least the largest fixed event
  structure, is handled without a read outside the buffer and without a misuse of the station heaps,
  for a block-ack traffic class below 16 and a survey event that announces at least the checksum. The
  next expected sequence number is the one behind the event's, whatever was expected before.\<close>

theorem event_safe:
  assumes inv: "owned full s"
    and hdr: "c2h_len c2h = Some len" "c2h_event c2h = Some ev" "c2h_cmd_seq c2h = Some q"
    and buf: "H2CC2H_HDR_LEN + max 12 (unat len) \<le> length c2h"
    and survey: "c2h_of_nr ev = Some C2H_SURVEY_EVENT \<Longrightarrow> 4 \<le> unat len"
    and addba: "\<And>t. addba_tid (c2h_data c2h) = Some t \<Longrightarrow> c2h_of_nr ev = Some C2H_ADDBA_REPORT_EVENT \<Longrightarrow> unat t < 16"
  shows "\<exists>t. r92su_c2h_event E c2h s = Some t \<and> owned full t \<and> c2h_seq t = ucast q + 1"
  by (rule c2h_event_total [OF inv hdr buf survey addba])

definition demo_addba :: bytes where
  "demo_addba = [12, 0, 25, 0, 0, 0, 0, 0] @ [7, 7, 7, 7, 7, 7, 0x50, 0, 3, 0, 0, 0]"

theorem event_safe_witness: "\<exists>t. r92su_c2h_event reg_env demo_addba demo_sta = Some t \<and> owned True t \<and> c2h_seq t = 1"
proof -
  have "owned True demo_sta" unfolding heap_inv_owned [symmetric] by (rule sta_alloc_inv [OF heap_inv_zero demo_sta(1)])
  moreover have "c2h_len demo_addba = Some 12" "c2h_event demo_addba = Some 25" "c2h_cmd_seq demo_addba = Some 0"
    "addba_tid (c2h_data demo_addba) = Some 3" "length demo_addba = 20"
    by (simp_all add: demo_addba_def c2h_len_def rd_le16_def rd8_def le16_def c2h_event_def c2h_cmd_seq_def
        addba_tid_def c2h_data_def)
  moreover have "c2h_of_nr 25 = Some C2H_ADDBA_REPORT_EVENT" by (simp add: c2h_of_nr_def fw_c2h_events_def)
  ultimately show ?thesis using event_safe [of True demo_sta demo_addba 12 25 0 reg_env] by simp
qed

section \<open>Survey results\<close>

lemma rd_le32_take: "i + 4 \<le> n \<Longrightarrow> rd_le32 (take n d) i = rd_le32 d i"
  by (simp add: rd_le32_def rd8_def)

text \<open>A survey event is stored exactly when its length field agrees with the announced length,
  the network structure fits, and there are information elements beyond the fixed ones: then the
  entry in front of the list is the structure without the trailing checksum, with both lengths
  corrected. Any other survey event marks the device dead.\<close>

theorem survey_event_stores:
  assumes len: "c2h_len c2h = Some len" "4 \<le> unat len" and buf: "H2CC2H_HDR_LEN + unat len \<le> length c2h"
    and d: "rd_le32 (c2h_data c2h) 0 = Some l" "rd_le32 (c2h_data c2h) 112 = Some ie" and ok: "alloc_ok E (allocs s)"
  shows "c2h_survey_event E c2h s =
     (if SIZEOF_BSS + FCS_LEN \<le> unat len \<and> l = ucast len \<and> 12 < ie
      then Some (emit (Queue_work Add_bss_work) (s\<lparr>allocs := allocs s + 1,
        add_bss_list := (put_le32 (ucast (len - 4)) @ take 108 (drop 4 (c2h_data c2h)) @ put_le32 (ie - 4) @
          take (unat len - 120) (drop 116 (c2h_data c2h))) # add_bss_list s\<rparr>))
      else Some (r92su_mark_dead s))"
proof -
  let ?d = "c2h_data c2h"
  have l4: "unat (len - 4) = unat len - 4" using len(2) by (simp add: unat_sub_if')
  have "ucast (len - 4) = (ucast len - 4 :: u32)"
    using len(2) by (simp add: word_unat_eq_iff unat_sub_if' unat_up)
  then have eq: "ucast (len - 4) = l - 4 \<longleftrightarrow> l = ucast len" by auto
  show ?thesis
  proof (cases "SIZEOF_BSS + FCS_LEN \<le> unat len \<and> l = ucast len")
    case False
    then have "unat (len - 4) < 128 \<or> ucast (len - 4) \<noteq> l - 4" using eq l4 len(2) by linarith
    then show ?thesis using False len(1) d by (auto simp: c2h_survey_event_def)
  next
    case True
    let ?n = "unat len - 4"
    have big: "132 \<le> unat len" using True by simp
    have n: "128 \<le> ?n" using big by linarith
    have n': "?n \<le> length ?d" using buf big by (simp add: c2h_data_def)
    note n = n n'
    let ?b0 = "put_le32 (l - 4) @ drop 4 (take ?n ?d)"
    have m: "rd_mem ?d 0 ?n = Some (take ?n ?d)" using n by (simp add: rd_mem_def)
    have w0: "wr_mem (take ?n ?d) 0 (put_le32 (l - 4)) = Some ?b0" using n by (simp add: wr_mem_def)
    have r: "rd_le32 ?b0 112 = Some ie"
    proof -
      have "rd_le32 ?b0 112 = rd_le32 (take ?n ?d) 112"
        using n by (simp add: rd_le32_def rd8_def nth_append)
      also have "\<dots> = Some ie" using n d(2) by (simp add: rd_le32_take)
      finally show ?thesis .
    qed
    have "take 112 ?b0 = put_le32 (l - 4) @ take 108 (drop 4 ?d)"
      using n by (simp add: take_drop min_def)
    moreover have "drop 116 ?b0 = take (unat len - 120) (drop 116 ?d)"
      using n by (simp add: drop_take)
    ultimately have w1: "wr_mem ?b0 112 (put_le32 (ie - 4)) =
        Some (put_le32 (l - 4) @ take 108 (drop 4 ?d) @ put_le32 (ie - 4) @ take (unat len - 120) (drop 116 ?d))"
      using n by (simp add: wr_mem_def)
    have ge: "\<not> unat (len - 4) < 128" "ucast (len - 4) = l - 4" using l4 n eq True by auto
    have "c2h_survey_event E c2h s = (if ie \<le> 12 then Some (r92su_mark_dead s)
        else Some (emit (Queue_work Add_bss_work) (s\<lparr>allocs := allocs s + 1, add_bss_list :=
          (put_le32 (l - 4) @ take 108 (drop 4 ?d) @ put_le32 (ie - 4) @ take (unat len - 120) (drop 116 ?d)) # add_bss_list s\<rparr>)))"
      using len(1) d ge ok m w0 r w1 by (simp add: c2h_survey_event_def kmalloc_def Let_def l4)
    then show ?thesis using True ge(2) by (auto simp: not_less)
  qed
qed


definition demo_survey :: bytes where
  "demo_survey = [136, 0, 8, 0, 0, 0, 0, 0] @ [136, 0, 0, 0] @ replicate 108 0 @ [20, 0, 0, 0] @ replicate 20 1"

theorem survey_event_stores_witness:
  "\<exists>t. c2h_survey_event reg_env demo_survey (r92su_zero (\<lambda>x. 0)) = Some t \<and> add_bss_list t \<noteq> [] \<and>
     log t = [Queue_work Add_bss_work]"
proof -
  have d: "c2h_data demo_survey = [136, 0, 0, 0] @ replicate 108 0 @ [20, 0, 0, 0] @ replicate 20 1"
    by (simp add: demo_survey_def c2h_data_def)
  have "c2h_len demo_survey = Some 136" by (simp add: demo_survey_def c2h_len_def rd_le16_def rd8_def le16_def)
  moreover have "rd_le32 (c2h_data demo_survey) 0 = Some 136"
    unfolding d by (simp add: rd_le32_def rd8_def le32_def)
  moreover have "rd_le32 (c2h_data demo_survey) 112 = Some 20"
    unfolding d by (simp add: rd_le32_def rd8_def le32_def nth_append)
  moreover have "length demo_survey = 144" by (simp add: demo_survey_def)
  ultimately show ?thesis
    using survey_event_stores [of demo_survey 136 136 20 reg_env "r92su_zero (\<lambda>x. 0)"]
    by (simp add: reg_env_def r92su_zero_def emit_def)
qed

text \<open>
  The two gaps behind the hypotheses of the safety of events: an announced length below the checksum wraps
  around and the copy leaves the buffer; the traffic class of a block-ack report is not checked.
\<close>

lemma survey_length_wraps:
  assumes "c2h_len c2h = Some 0" "length c2h < 65532" "rd_le32 (c2h_data c2h) 0 = Some 65536"
    "rd_le32 (c2h_data c2h) 112 = Some 20" "alloc_ok E (allocs s)"
  shows "c2h_survey_event E c2h s = None"
proof -
  have "\<not> 65532 \<le> length (c2h_data c2h)" using assms(2) by (simp add: c2h_data_def)
  then have "rd_mem (c2h_data c2h) 0 65532 = None" by (simp add: rd_mem_def)
  then show ?thesis using assms by (simp add: c2h_survey_event_def kmalloc_def)
qed

lemma addba_tid_unchecked:
  assumes "heap_inv s" "addba_mac_addr (c2h_data c2h) = Some m" "r92su_sta_get s m = Some (Some p)"
    "addba_tid (c2h_data c2h) = Some t" "16 \<le> unat t" "addba_ssn (c2h_data c2h) = Some ssn"
  shows "c2h_addba_report_event E c2h s = None"
proof -
  have "p \<in> dom (stas s)"
    using assms(3) sta_get_total [OF assms(1), of "\<lambda>sta. sta_mac_addr sta = take 6 m"] by (auto simp: r92su_sta_get_def)
  then obtain a where a: "stas s p = Some a" by auto
  moreover have "length (sta_rx_tid a) = 16" using assms(1) a by (auto simp: heap_inv_def sta_inv_def)
  ultimately show ?thesis
    using assms by (simp add: c2h_addba_report_event_def r92su_sta_alloc_tid_def kmalloc_def)
qed

text \<open>An event with a number the driver does not handle marks the device dead.\<close>

theorem event_unknown_dead:
  assumes "c2h_of_nr ev \<notin> Some ` {C2H_FWDBG_EVENT, C2H_SURVEY_EVENT, C2H_SURVEY_DONE_EVENT, C2H_JOIN_BSS_EVENT,
      C2H_ADD_STA_EVENT, C2H_DEL_STA_EVENT, C2H_ATIM_DONE_EVENT, C2H_REPORT_PWR_STATE_EVENT, C2H_WPS_PBC_EVENT,
      C2H_ADDBA_REPORT_EVENT}"
    and "c2h_event c2h = Some ev" "r92su_c2h_event E c2h s = Some t"
  shows "r92su_is_dead t"
proof -
  obtain q where q: "c2h_cmd_seq c2h = Some q" using assms(3) by (auto simp: r92su_c2h_event_def Option.bind_eq_Some_conv)
  have "r92su_c2h_event E c2h s = do { len \<leftarrow> c2h_len c2h; _ \<leftarrow> rd_mem c2h 0 (unat len + H2CC2H_HDR_LEN);
      Some (r92su_mark_dead (c2h_sequence q s)) }"
  proof (cases "c2h_of_nr ev")
    case (Some e)
    then show ?thesis using q assms(1,2) by (cases e) (simp_all add: r92su_c2h_event_def Let_def)
  qed (use q assms(2) in \<open>simp add: r92su_c2h_event_def Let_def\<close>)
  with assms(3) have "t = r92su_mark_dead (c2h_sequence q s)" by (auto simp: Option.bind_eq_Some_conv)
  then show ?thesis by (simp add: r92su_mark_dead_def r92su_set_state_def r92su_is_dead_def emit_def Let_def)
qed

theorem event_unknown_dead_witness:
  "\<exists>t. r92su_c2h_event reg_env (replicate 20 0) demo_sta = Some t \<and> r92su_is_dead t"
proof -
  have "heap_inv demo_sta" by (rule sta_alloc_inv [OF heap_inv_zero demo_sta(1)])
  then obtain t where "r92su_c2h_event reg_env (replicate 20 0) demo_sta = Some t"
    by (simp add: r92su_c2h_event_def c2h_cmd_seq_def c2h_event_def rd8_def c2h_of_nr_def fw_c2h_events_def
        c2h_len_def rd_le16_def le16_def rd_mem_def Let_def)
  moreover have "c2h_of_nr 0 = Some C2H_READ_MACREG_EVENT" by (simp add: c2h_of_nr_def fw_c2h_events_def)
  moreover have "c2h_event (replicate 20 0) = Some 0" by (simp add: c2h_event_def rd8_def)
  ultimately show ?thesis using event_unknown_dead [of 0 "replicate 20 0" reg_env demo_sta t] by auto
qed

end
