(* ===== verification/R92_Crypt.thy ===== *)
theory R92_Crypt
  imports R92_Event
begin

text \<open>
  Packet numbers, encryption and replay protection: the crypto handlers of \<open>tx.c\<close> and
  \<open>rx.c\<close>. A handler takes the frame and the driver state and returns its verdict with both
  updated; \<open>None\<close> is an access outside the buffer or through a dangling pointer. The bytes
  behind the frame that the code can reach are those of the tailroom.
\<close>

abbreviation (input) NL80211_TKIP_DATA_OFFSET_TX_MIC_KEY :: nat where "NL80211_TKIP_DATA_OFFSET_TX_MIC_KEY \<equiv> 16"
abbreviation (input) NL80211_TKIP_DATA_OFFSET_RX_MIC_KEY :: nat where "NL80211_TKIP_DATA_OFFSET_RX_MIC_KEY \<equiv> 24"
abbreviation (input) MICHAEL_MIC_LEN :: nat where "MICHAEL_MIC_LEN \<equiv> 8"

definition skb_tail :: "'w env \<Rightarrow> 'cb sk_buff \<Rightarrow> bytes" where
  "skb_tail E skb = stack_garbage E (skb_tailroom skb)"

definition is_multicast_ether_addr :: "bytes \<Rightarrow> bool" where
  "is_multicast_ether_addr a \<longleftrightarrow> bit (a ! 0) 0"

section \<open>The packet number on transmission\<close>

datatype r92su_tx_control_t = TX_CONTINUE | TX_DROP

text \<open>
  The IV of the next frame, its packet number and the key with the advanced counter; \<open>None\<close>
  when the type of the key is none of the four ciphers.
\<close>

definition wep_skip_weak :: "24 word \<Rightarrow> nat \<Rightarrow> 24 word" where
  "wep_skip_weak tx_seq len =
     (if tx_seq AND 0xff00 = 0xff00 then
        let B = unat (drop_bit 16 tx_seq) in
        if 3 \<le> B \<and> B < 3 + len then tx_seq + 0x0100 else tx_seq
      else tx_seq)"

definition tx_iv :: "r92su_key \<Rightarrow> (bytes \<times> u64 \<times> r92su_key) option" where
  "tx_iv key = (case (key_type key, key_u key) of
     (WEP40_ENCRYPTION, WepKey tx rx k) \<Rightarrow> (let n = wep_skip_weak tx (key_len key) in
        Some ([ucast (drop_bit 16 n), ucast (drop_bit 8 n), ucast n, ucast (push_bit 6 (key_index key))],
              ucast n, key\<lparr>key_u := WepKey (n + 1) rx k\<rparr>))
   | (WEP104_ENCRYPTION, WepKey tx rx k) \<Rightarrow> (let n = wep_skip_weak tx (key_len key) in
        Some ([ucast (drop_bit 16 n), ucast (drop_bit 8 n), ucast n, ucast (push_bit 6 (key_index key))],
              ucast n, key\<lparr>key_u := WepKey (n + 1) rx k\<rparr>))
   | (TKIP_ENCRYPTION, TkipKey tx rx k) \<Rightarrow>
        Some ([ucast (drop_bit 8 tx), ucast ((drop_bit 8 tx OR 0x20) AND 0x7f), ucast tx,
               ucast (push_bit 6 (key_index key)) OR BIT 5,
               ucast (drop_bit 16 tx), ucast (drop_bit 24 tx), ucast (drop_bit 32 tx), ucast (drop_bit 40 tx)],
              ucast tx, key\<lparr>key_u := TkipKey (tx + 1) rx k\<rparr>)
   | (AESCCMP_ENCRYPTION, CcmpKey tx rx k) \<Rightarrow>
        Some ([ucast tx, ucast (drop_bit 8 tx), 0, ucast (push_bit 6 (key_index key)) OR BIT 5,
               ucast (drop_bit 16 tx), ucast (drop_bit 24 tx), ucast (drop_bit 32 tx), ucast (drop_bit 40 tx)],
              ucast tx, key\<lparr>key_u := CcmpKey (tx + 1) rx k\<rparr>)
   | _ \<Rightarrow> None)"

text \<open>The header moves down by the length of the IV, which fills the gap.\<close>

definition r92su_tx_add_iv ::
    "'w env \<Rightarrow> tx_skb \<Rightarrow> 'w r92su \<Rightarrow> (r92su_tx_control_t \<times> tx_skb \<times> 'w r92su) option" where
  "r92su_tx_add_iv E skb s = (case ti_key (skb_cb skb) of
     None \<Rightarrow> Some (TX_CONTINUE, skb, s)
   | Some k \<Rightarrow> do {
       key \<leftarrow> keys s k;
       let iv_len = r92su_get_iv_len key;
       let hdr_len = ieee80211_hdrlen (kernel E) (frame_control (skb_data skb));
       skb \<leftarrow> skb_push skb iv_len;
       hdr \<leftarrow> rd_mem (skb_data skb) iv_len hdr_len;
       data \<leftarrow> wr_mem (skb_data skb) 0 hdr;
       let skb = skb\<lparr>skb_data := data\<rparr>;
       (case tx_iv key of
          None \<Rightarrow> Some (TX_DROP, skb, s)
        | Some (iv, pn, key) \<Rightarrow> do {
            data \<leftarrow> wr_mem (skb_data skb) hdr_len iv;
            Some (TX_CONTINUE, skb\<lparr>skb_data := data, skb_cb := (skb_cb skb)\<lparr>ti_pn := pn\<rparr>\<rparr>,
                  s\<lparr>keys := (keys s)(k \<mapsto> key)\<rparr>) }) })"

definition r92su_tx_add_crypto ::
    "'w env \<Rightarrow> 'c crypto_api \<Rightarrow> tx_skb \<Rightarrow> 'w r92su \<Rightarrow> (r92su_tx_control_t \<times> tx_skb \<times> 'w r92su) option" where
  "r92su_tx_add_crypto E C skb s = (case ti_key (skb_cb skb) of
     None \<Rightarrow> Some (TX_CONTINUE, skb, s)
   | Some p \<Rightarrow> do {
       key \<leftarrow> keys s p;
       let ti = skb_cb skb;
       (case (key_type key, key_u key) of
          (TKIP_ENCRYPTION, TkipKey tx rx k) \<Rightarrow> do {
            let start = ieee80211_hdrlen (kernel E) (frame_control (skb_data skb)) + r92su_get_iv_len key;
            (if skb_len skb < start then None else Some ());
            mic \<leftarrow> michael_mic (kernel E) (drop NL80211_TKIP_DATA_OFFSET_TX_MIC_KEY k) (skb_data skb)
                    (drop start (skb_data skb)) (skb_len skb - start);
            skb \<leftarrow> skb_put_data skb mic;
            skb \<leftarrow> (if ti_needs_encrypt ti then do {
                     skb \<leftarrow> skb_put_data skb (replicate IEEE80211_TKIP_ICV_LEN 0);
                     ieee80211_tkip_encrypt_data (kernel E) C k skb (ti_pn ti) }
                   else Some skb);
            Some (TX_CONTINUE, skb\<lparr>skb_cb := ti\<lparr>ti_ht_possible := False\<rparr>\<rparr>, s) }
        | (AESCCMP_ENCRYPTION, CcmpKey tx rx k) \<Rightarrow> do {
            skb \<leftarrow> (if ti_needs_encrypt ti
                   then ieee80211_aes_ccm_encrypt (kernel E) C k skb (ti_pn ti) IEEE80211_CCMP_MIC_LEN
                   else Some skb);
            Some (TX_CONTINUE, skb, s) }
        | (_, WepKey tx rx k) \<Rightarrow>
            if key_type key = WEP40_ENCRYPTION \<or> key_type key = WEP104_ENCRYPTION then do {
              skb \<leftarrow> (if ti_needs_encrypt ti
                     then ieee80211_wep_encrypt (kernel E) C skb k (ucast (ti_pn ti)) (key_len key)
                     else Some skb);
              Some (TX_CONTINUE, skb\<lparr>skb_cb := ti\<lparr>ti_ht_possible := False\<rparr>\<rparr>, s) }
            else Some (TX_DROP, skb, s)
        | _ \<Rightarrow> Some (TX_DROP, skb, s)) })"

section \<open>The packet number on reception\<close>

definition iv_seq :: "bytes \<Rightarrow> u64" where
  "iv_seq bs = fold (\<lambda>b seq. push_bit 8 seq + ucast b) bs 0"

definition rd_iv_seq :: "bytes \<Rightarrow> nat \<Rightarrow> nat list \<Rightarrow> u64 option" where
  "rd_iv_seq buf off is = map_option iv_seq (those (map (\<lambda>i. rd8 buf (off + i)) is))"

text \<open>
  What a key accepts of the IV at \<open>off\<close>: the packet number, or nothing for a frame to drop.
\<close>

definition rx_ext_iv :: "bytes \<Rightarrow> nat \<Rightarrow> nat list \<Rightarrow> 48 word \<Rightarrow> u64 option option" where
  "rx_ext_iv buf off is rx = do {
     flags \<leftarrow> rd8 buf (off + 3);
     (if \<not> bit flags 5 then Some None
      else do {
        seq \<leftarrow> rd_iv_seq buf off is;
        Some (if seq \<le> ucast rx then None else Some seq) }) }"

definition rx_iv :: "r92su_key \<Rightarrow> bytes \<Rightarrow> nat \<Rightarrow> u64 option option" where
  "rx_iv key buf off = (case (key_type key, key_u key) of
     (WEP40_ENCRYPTION, WepKey tx rx k) \<Rightarrow> map_option Some (rd_iv_seq buf off [0, 1, 2])
   | (WEP104_ENCRYPTION, WepKey tx rx k) \<Rightarrow> map_option Some (rd_iv_seq buf off [0, 1, 2])
   | (TKIP_ENCRYPTION, TkipKey tx rx k) \<Rightarrow> rx_ext_iv buf off [7, 6, 5, 4, 0, 2] rx
   | (AESCCMP_ENCRYPTION, CcmpKey tx rx k) \<Rightarrow> rx_ext_iv buf off [7, 6, 5, 4, 1, 0] rx
   | _ \<Rightarrow> Some None)"

text \<open>The IV is read before the length is checked: a short frame is read into its tailroom.\<close>

definition r92su_rx_iv_handle ::
    "'w env \<Rightarrow> rx_skb \<Rightarrow> 'w r92su \<Rightarrow> (rx_control \<times> rx_skb) option" where
  "r92su_rx_iv_handle E skb s = (case ri_key (skb_cb skb) of
     None \<Rightarrow> Some (RX_CONTINUE, skb)
   | Some k \<Rightarrow> do {
       key \<leftarrow> keys s k;
       let hdr_len = ieee80211_hdrlen (kernel E) (frame_control (skb_data skb));
       let iv_len = r92su_get_iv_len key;
       seq \<leftarrow> rx_iv key (skb_data skb @ skb_tail E skb) hdr_len;
       (case seq of
          None \<Rightarrow> Some (RX_DROP, skb)
        | Some seq \<Rightarrow>
            let skb = skb\<lparr>skb_cb := (skb_cb skb)\<lparr>ri_iv := seq\<rparr>\<rparr> in
            if skb_len skb \<le> iv_len then Some (RX_DROP, skb)
            else do {
              hdr \<leftarrow> rd_mem (skb_data skb) 0 hdr_len;
              data \<leftarrow> wr_mem (skb_data skb @ skb_tail E skb) iv_len hdr;
              skb \<leftarrow> skb_pull (skb\<lparr>skb_data := take (skb_len skb) data\<rparr>) iv_len;
              Some (RX_CONTINUE, skb) }) })"

definition r92su_rx_tkip_handle ::
    "'w env \<Rightarrow> rx_skb \<Rightarrow> r92su_key \<Rightarrow> bytes \<Rightarrow> 'w r92su \<Rightarrow> (rx_control \<times> 'w r92su) option" where
  "r92su_rx_tkip_handle E skb key k s = do {
     let hdr = skb_data skb;
     let hdr_len = ieee80211_hdrlen (kernel E) (frame_control hdr);
     let data_len = int (skb_len skb) - int hdr_len - int IEEE80211_TKIP_ICV_LEN - int MICHAEL_MIC_LEN;
     (if data_len < 0 then Some (RX_DROP, s)
      else do {
        mic \<leftarrow> michael_mic (kernel E) (drop NL80211_TKIP_DATA_OFFSET_RX_MIC_KEY k) hdr (drop hdr_len hdr) (nat data_len);
        tail \<leftarrow> rd_mem hdr (hdr_len + nat data_len) MICHAEL_MIC_LEN;
        (if mic \<noteq> tail then do {
           addr1 \<leftarrow> rd_mem hdr 4 6;
           addr2 \<leftarrow> rd_mem hdr 10 6;
           Some (RX_DROP, emit (Michael_mic_failure addr2 (is_multicast_ether_addr addr1) (key_index key)) s) }
         else Some (RX_CONTINUE, s)) }) }"

text \<open>The checksum or code behind the payload goes; a frame that is too short is dropped.\<close>

definition rx_remove :: "rx_skb \<Rightarrow> nat \<Rightarrow> 'w r92su \<Rightarrow> (rx_control \<times> rx_skb \<times> 'w r92su) option" where
  "rx_remove skb remove_len s =
     (if skb_len skb \<le> remove_len then Some (RX_DROP, skb, s)
      else Some (RX_CONTINUE, skb_trim skb (skb_len skb - remove_len), s))"

definition r92su_rx_crypto_handle ::
    "'w env \<Rightarrow> 'c crypto_api \<Rightarrow> rx_skb \<Rightarrow> 'w r92su \<Rightarrow> (rx_control \<times> rx_skb \<times> 'w r92su) option" where
  "r92su_rx_crypto_handle E C skb s = (case ri_key (skb_cb skb) of
     None \<Rightarrow> Some (RX_CONTINUE, skb, s)
   | Some p \<Rightarrow> do {
       key \<leftarrow> keys s p;
       let ri = skb_cb skb;
       let accept = (\<lambda>u s. s\<lparr>keys := (keys s)(p \<mapsto> key\<lparr>key_u := u\<rparr>)\<rparr>);
       (case (key_type key, key_u key) of
          (TKIP_ENCRYPTION, TkipKey tx rx k) \<Rightarrow> do {
            (err, skb) \<leftarrow> (if ri_needs_decrypt ri
              then ieee80211_tkip_decrypt_data (kernel E) C True k skb (ri_iv ri) else Some (0, skb));
            (if err \<noteq> 0 then Some (RX_DROP, skb, s)
             else do {
               (res, s) \<leftarrow> r92su_rx_tkip_handle E skb key k s;
               (if res \<noteq> RX_CONTINUE then Some (res, skb, s)
                else rx_remove skb (IEEE80211_TKIP_ICV_LEN + MICHAEL_MIC_LEN) (accept (TkipKey tx (ucast (ri_iv ri)) k) s)) }) }
        | (AESCCMP_ENCRYPTION, CcmpKey tx rx k) \<Rightarrow> do {
            (err, skb) \<leftarrow> (if ri_needs_decrypt ri
              then ieee80211_aes_ccm_decrypt (kernel E) C k skb (ri_iv ri) IEEE80211_CCMP_MIC_LEN else Some (0, skb));
            (if err \<noteq> 0 then Some (RX_DROP, skb, s)
             else rx_remove skb IEEE80211_CCMP_MIC_LEN (accept (CcmpKey tx (ucast (ri_iv ri)) k) s)) }
        | (_, WepKey tx rx k) \<Rightarrow>
            if key_type key = WEP40_ENCRYPTION \<or> key_type key = WEP104_ENCRYPTION then do {
              (err, skb) \<leftarrow> (if ri_needs_decrypt ri
                then ieee80211_wep_decrypt (kernel E) C True skb (skb_tail E skb) k (ucast (ri_iv ri)) (key_len key)
                else Some (0, skb));
              (if err \<noteq> 0 then Some (RX_DROP, skb, s)
               else rx_remove skb IEEE80211_WEP_ICV_LEN (accept (WepKey tx (ucast (ri_iv ri)) k) s)) }
            else Some (RX_DROP, skb, s)
        | _ \<Rightarrow> Some (RX_DROP, skb, s)) })"

section \<open>The number sent is the number received\<close>

lemma shift_add: "push_bit 8 (s :: u64) + ucast (b :: u8) = push_bit 8 s OR ucast b"
proof -
  have "push_bit 8 s AND ucast b = 0" by (rule bit_word_eqI) (auto simp: bit_simps dest: bit_imp_le_length)
  then show ?thesis by (rule disjunctive_add_eq_or)
qed

lemma byte_step:
  "push_bit 8 (ucast (drop_bit 8 m) :: u64) OR ucast (ucast m :: u8) = ucast (m :: 48 word)"
  "push_bit 8 (ucast (drop_bit 8 w) :: u64) OR ucast (ucast w :: u8) = ucast (w :: 24 word)"
proof -
  show "push_bit 8 (ucast (drop_bit 8 m) :: u64) OR ucast (ucast m :: u8) = ucast m"
  proof (rule bit_word_eqI)
    fix i assume "i < LENGTH(64)"
    then show "bit (push_bit 8 (ucast (drop_bit 8 m) :: u64) OR ucast (ucast m :: u8)) i \<longleftrightarrow> bit (ucast m :: u64) i"
      by (cases "i < 8") (auto simp: bit_simps)
  qed
  show "push_bit 8 (ucast (drop_bit 8 w) :: u64) OR ucast (ucast w :: u8) = ucast w"
  proof (rule bit_word_eqI)
    fix i assume "i < LENGTH(64)"
    then show "bit (push_bit 8 (ucast (drop_bit 8 w) :: u64) OR ucast (ucast w :: u8)) i \<longleftrightarrow> bit (ucast w :: u64) i"
      by (cases "i < 8") (auto simp: bit_simps)
  qed
qed

lemma top_byte:
  "ucast (ucast (drop_bit 40 m) :: u8) = (ucast (drop_bit 40 (m :: 48 word)) :: u64)"
  "ucast (ucast (drop_bit 16 w) :: u8) = (ucast (drop_bit 16 (w :: 24 word)) :: u64)"
  by (rule bit_word_eqI; auto simp: bit_simps dest: bit_imp_le_length)+

lemma iv_seq_bytes:
  "iv_seq [ucast (drop_bit 40 n), ucast (drop_bit 32 n), ucast (drop_bit 24 n), ucast (drop_bit 16 n),
     ucast (drop_bit 8 n), ucast n] = ucast (n :: 48 word)"
  using byte_step(1) [of "drop_bit 32 n"] byte_step(1) [of "drop_bit 24 n"] byte_step(1) [of "drop_bit 16 n"]
    byte_step(1) [of "drop_bit 8 n"] byte_step(1) [of n]
  by (simp add: iv_seq_def shift_add top_byte)

lemma iv_seq_wep:
  "iv_seq [ucast (drop_bit 16 n), ucast (drop_bit 8 n), ucast n] = ucast (n :: 24 word)"
  using byte_step(2) [of "drop_bit 8 n"] byte_step(2) [of n]
  by (simp add: iv_seq_def shift_add top_byte)

lemma rd8_at: "rd8 (pre @ xs @ rest) (length pre + i) = (if i < length xs then Some (xs ! i) else rd8 (xs @ rest) i)"
  by (auto simp: rd8_def nth_append)

lemma rd_iv_seq_at:
  "\<forall>i \<in> set is. i < length iv \<Longrightarrow> rd_iv_seq (pre @ iv @ rest) (length pre) is = Some (iv_seq (map ((!) iv) is))"
proof -
  assume a: "\<forall>i \<in> set is. i < length iv"
  then have "those (map (\<lambda>i. rd8 (pre @ iv @ rest) (length pre + i)) is) = Some (map ((!) iv) is)"
    by (induction "is") (simp_all add: rd8_at)
  then show ?thesis by (simp add: rd_iv_seq_def)
qed

text \<open>A key accepts a number that is beyond the last one it has received; WEP has no such rule.\<close>

definition accepts :: "r92su_key \<Rightarrow> u64 \<Rightarrow> bool" where
  "accepts key seq = (case key_u key of
     TkipKey tx rx k \<Rightarrow> ucast rx < seq | CcmpKey tx rx k \<Rightarrow> ucast rx < seq | WepKey tx rx k \<Rightarrow> True | NoKey \<Rightarrow> False)"

lemma tx_iv_len: "tx_iv key = Some (iv, pn, key') \<Longrightarrow> length iv = r92su_get_iv_len key"
  by (auto simp: tx_iv_def r92su_get_iv_len_def Let_def split: r92su_enc_alg.splits key_union.splits)

text \<open>The order of the bytes of a packet number in the IV, by cipher.\<close>

fun iv_order :: "r92su_enc_alg \<Rightarrow> nat list" where
  "iv_order TKIP_ENCRYPTION = [7, 6, 5, 4, 0, 2]"
| "iv_order AESCCMP_ENCRYPTION = [7, 6, 5, 4, 1, 0]"
| "iv_order _ = [0, 1, 2]"

lemma tx_iv_seq:
  assumes "tx_iv key = Some (iv, pn, key')"
  shows "iv_seq (map ((!) iv) (iv_order (key_type key))) = pn"
    and "key_type key \<in> {TKIP_ENCRYPTION, AESCCMP_ENCRYPTION} \<Longrightarrow> bit (iv ! 3) 5"
    and "\<forall>i \<in> set (iv_order (key_type key)). i < length iv"
  using assms
  by (auto simp: tx_iv_def Let_def iv_seq_bytes iv_seq_wep BIT_def bit_simps
      split: r92su_enc_alg.splits key_union.splits)

text \<open>The packet number that the transmit path writes into the IV of a frame is the number the
  receive path reads from it, for all four ciphers, every key index and every position of the IV in
  the buffer, if the receiver's counter is behind.\<close>

theorem iv_roundtrip:
  assumes "key_ok kt" "key_ok kr" "key_type kr = key_type kt"
    and tx: "tx_iv kt = Some (iv, pn, kt')" and acc: "accepts kr pn"
  shows "rx_iv kr (pre @ iv @ rest) (length pre) = Some (Some pn)"
proof -
  have seq: "rd_iv_seq (pre @ iv @ rest) (length pre) (iv_order (key_type kt)) = Some pn"
    using rd_iv_seq_at [OF tx_iv_seq(3) [OF tx]] tx_iv_seq(1) [OF tx] by simp
  have flag: "key_type kt \<in> {TKIP_ENCRYPTION, AESCCMP_ENCRYPTION} \<Longrightarrow>
      rd8 (pre @ iv @ rest) (length pre + 3) = Some (iv ! 3) \<and> bit (iv ! 3) 5"
    using tx_iv_seq(2,3) [OF tx] by (auto simp: rd8_at)
  show ?thesis
    using assms(2,3) seq flag acc
    by (cases "key_type kt"; cases "key_u kr")
      (auto simp: key_ok_def rx_iv_def rx_ext_iv_def accepts_def simp del: rd8_Some_iff)
qed

definition demo_ccmp :: "48 word \<Rightarrow> 48 word \<Rightarrow> r92su_key" where
  "demo_ccmp tx rx = \<lparr>key_mac_addr = replicate 6 0, key_type = AESCCMP_ENCRYPTION, key_len = 16, key_uploaded = False,
     key_pairwise = True, key_index = 1, key_u = CcmpKey tx rx (replicate 16 3)\<rparr>"

lemma demo_ccmp: "key_ok (demo_ccmp tx rx)" "key_type (demo_ccmp tx rx) = AESCCMP_ENCRYPTION"
  "key_u (demo_ccmp tx rx) = CcmpKey tx rx (replicate 16 3)"
  by (simp_all add: demo_ccmp_def key_ok_def)

theorem iv_roundtrip_witness:
  "\<exists>iv k. tx_iv (demo_ccmp 0x123456789A 0) = Some (iv, 0x123456789A, k) \<and>
     rx_iv (demo_ccmp 0 5) ([1, 2, 3] @ iv @ [4]) 3 = Some (Some 0x123456789A)"
proof -
  obtain iv k where t: "tx_iv (demo_ccmp 0x123456789A 0) = Some (iv, 0x123456789A, k)"
    by (simp add: tx_iv_def demo_ccmp)
  have "accepts (demo_ccmp 0 5) 0x123456789A" by (simp add: accepts_def demo_ccmp)
  from iv_roundtrip [OF demo_ccmp(1) demo_ccmp(1) _ t this, of "[1, 2, 3]" "[4]"] t
  show ?thesis by (auto simp: demo_ccmp numeral_3_eq_3)
qed


section \<open>Packet numbers are fresh\<close>

text \<open>The packet numbers of the next \<open>n\<close> frames under a key.\<close>

fun tx_numbers :: "nat \<Rightarrow> r92su_key \<Rightarrow> u64 list" where
  "tx_numbers 0 key = []"
| "tx_numbers (Suc n) key = (case tx_iv key of None \<Rightarrow> [] | Some (iv, pn, key') \<Rightarrow> pn # tx_numbers n key')"

lemma tx_numbers_ccmp:
  "key_type key = AESCCMP_ENCRYPTION \<Longrightarrow> key_u key = CcmpKey tx rx k \<Longrightarrow>
     tx_numbers n key = map (\<lambda>i. ucast (tx + of_nat i)) [0..<n]"
proof (induction n arbitrary: key tx)
  case (Suc n)
  let ?k = "key\<lparr>key_u := CcmpKey (tx + 1) rx k\<rparr>"
  have "tx_numbers n ?k = map (\<lambda>i. ucast ((tx + 1) + of_nat i)) [0..<n]"
    by (rule Suc.IH) (simp_all add: Suc.prems)
  moreover have "map (\<lambda>i. ucast (tx + of_nat i) :: u64) [0..<Suc n] =
      ucast tx # map (\<lambda>i. ucast ((tx + 1) + of_nat i)) [0..<n]"
    by (simp add: upt_conv_Cons map_Suc_upt [symmetric] add.assoc del: upt_Suc)
  moreover have "tx_numbers (Suc n) key = ucast tx # tx_numbers n ?k"
    using Suc.prems by (simp add: tx_iv_def)
  ultimately show ?case by simp
qed simp

lemma ucast48_inj: "(ucast (a :: 48 word) :: u64) = ucast b \<Longrightarrow> a = b"
  by (simp add: word_unat_eq_iff unat_up)

lemma take_bit48: "take_bit 48 (ucast (a :: 48 word) :: u64) = ucast a"
  by (rule bit_word_eqI) (auto simp: bit_simps dest: bit_imp_le_length)

lemma of_nat48_inj:
  assumes "i < 2 ^ 48" "j < 2 ^ 48" "(of_nat i :: 48 word) = of_nat j"
  shows "i = j"
proof -
  have "unat (of_nat i :: 48 word) = i" by (rule of_nat_inverse [OF refl]) (use assms(1) in simp)
  moreover have "unat (of_nat j :: 48 word) = j" by (rule of_nat_inverse [OF refl]) (use assms(2) in simp)
  ultimately show ?thesis using assms(3) by metis
qed

lemma ucast48_back [simp]: "ucast (ucast (a :: 48 word) :: u64) = a"
  by (rule bit_word_eqI) (simp add: bit_simps)

text \<open>C13. Among up to 2^48 frames sent under one CCMP key, no two use the same nonce, whatever their
  headers and wherever the counter starts.\<close>

theorem ccmp_no_nonce_reuse:
  assumes key: "key_type key = AESCCMP_ENCRYPTION" "key_u key = CcmpKey tx rx k"
    and n: "n \<le> 2 ^ 48" "i < j" "j < n"
    and b: "ccmp_special_blocks K hdr m (tx_numbers n key ! i) = Some (b_0, aad)"
      "ccmp_special_blocks K hdr' m' (tx_numbers n key ! j) = Some (b_0', aad')"
  shows "b_0 \<noteq> b_0'"
proof
  assume eq: "b_0 = b_0'"
  have nth: "tx_numbers n key ! x = ucast (tx + of_nat x)" if "x < n" for x
    using that by (simp add: tx_numbers_ccmp [OF key])
  have "pn_bytes (tx_numbers n key ! i) = pn_bytes (tx_numbers n key ! j)"
    using ccmp_b_0 [OF b(1)] ccmp_b_0 [OF b(2)] eq by simp
  then have "tx_numbers n key ! i = tx_numbers n key ! j"
    by (rule pn_bytes_inj) (use n in \<open>simp_all add: nth take_bit48\<close>)
  then have "ucast (tx + of_nat i) = (ucast (tx + of_nat j) :: u64)" using n by (simp add: nth)
  then have "tx + of_nat i = tx + of_nat j" by (rule ucast48_inj)
  then have "of_nat i = (of_nat j :: 48 word)" by simp
  then have "i = j" using n by (intro of_nat48_inj) simp_all
  then show False using n(2) by simp
qed

theorem ccmp_no_nonce_reuse_witness:
  "\<exists>b aad b' aad'. ccmp_special_blocks linux_kapi demo_hdr 26 (tx_numbers 3 (demo_ccmp 0xFFFFFFFFFFFF 0) ! 0) = Some (b, aad) \<and>
     ccmp_special_blocks linux_kapi demo_hdr 26 (tx_numbers 3 (demo_ccmp 0xFFFFFFFFFFFF 0) ! 1) = Some (b', aad') \<and> b \<noteq> b'"
proof -
  obtain b aad b' aad' where
    b: "ccmp_special_blocks linux_kapi demo_hdr 26 (tx_numbers 3 (demo_ccmp 0xFFFFFFFFFFFF 0) ! 0) = Some (b, aad)"
    "ccmp_special_blocks linux_kapi demo_hdr 26 (tx_numbers 3 (demo_ccmp 0xFFFFFFFFFFFF 0) ! 1) = Some (b', aad')"
    using demo_ccmp_blocks by meson
  from ccmp_no_nonce_reuse [OF demo_ccmp(2,3) _ _ _ b] have "b \<noteq> b'" by simp
  with b show ?thesis by blast
qed

section \<open>Replay protection\<close>

text \<open>C10. After a frame with packet number n has passed the crypto handler of a TKIP or CCMP key,
  that key accepts only larger numbers: a replayed or reordered IV is dropped.\<close>

theorem replay_dropped:
  assumes key: "keys s p = Some key" "key_ok key" "key_type key \<in> {TKIP_ENCRYPTION, AESCCMP_ENCRYPTION}"
    and skb: "ri_key (skb_cb skb) = Some p" "ri_iv (skb_cb skb) = ucast (n :: 48 word)"
    and rx: "r92su_rx_crypto_handle E C skb s = Some (RX_CONTINUE, skb', t)"
  shows "\<exists>key'. keys t p = Some key' \<and> key_ok key' \<and> (\<forall>buf off m. rx_iv key' buf off = Some (Some m) \<longrightarrow> ucast n < m)"
proof -
  have rem: "rx_remove a b c = Some (RX_CONTINUE, skb', t) \<Longrightarrow> keys t p = keys c p" for a b c
    by (auto simp: rx_remove_def split: if_splits)
  have ext: "rx_ext_iv buf off is n = Some (Some m) \<Longrightarrow> ucast n < m" for buf off "is" m
    by (auto simp: rx_ext_iv_def Option.bind_eq_Some_conv split: if_splits)
  show ?thesis
  proof (cases "key_u key")
    case (TkipKey tx rx k)
    let ?key = "key\<lparr>key_u := TkipKey tx n k\<rparr>"
    have ty: "key_type key = TKIP_ENCRYPTION" "key_len key = 32" "length k = 32"
      using key(2,3) TkipKey by (auto simp: key_ok_def)
    have "keys t p = Some ?key"
      using rx key(1) skb ty TkipKey
      by (auto simp: r92su_rx_crypto_handle_def Let_def Option.bind_eq_Some_conv split: if_splits dest: rem)
    moreover have "key_ok ?key" using ty by (simp add: key_ok_def)
    moreover have "rx_iv ?key buf off = Some (Some m) \<Longrightarrow> ucast n < m" for buf off m
      using ty by (auto simp: rx_iv_def dest: ext)
    ultimately show ?thesis by blast
  next
    case (CcmpKey tx rx k)
    let ?key = "key\<lparr>key_u := CcmpKey tx n k\<rparr>"
    have ty: "key_type key = AESCCMP_ENCRYPTION" "key_len key = 16" "length k = 16"
      using key(2,3) CcmpKey by (auto simp: key_ok_def)
    have "keys t p = Some ?key"
      using rx key(1) skb ty CcmpKey
      by (auto simp: r92su_rx_crypto_handle_def Let_def Option.bind_eq_Some_conv split: if_splits dest!: rem)
    moreover have "key_ok ?key" using ty by (simp add: key_ok_def)
    moreover have "rx_iv ?key buf off = Some (Some m) \<Longrightarrow> ucast n < m" for buf off m
      using ty by (auto simp: rx_iv_def dest: ext)
    ultimately show ?thesis by blast
  qed (use key(2,3) in \<open>auto simp: key_ok_def\<close>)
qed


definition demo_rx_skb :: "bytes \<Rightarrow> r92su_rx_info \<Rightarrow> rx_skb" where
  "demo_rx_skb d ri = \<lparr>skb_head = replicate 32 0, skb_data = d, skb_tailroom = 16, skb_protocol = 0,
     skb_priority = 0, skb_queue_mapping = 0, skb_cb = ri\<rparr>"

theorem replay_dropped_witness:
  "\<exists>r t key'. r92su_rx_crypto_handle reg_env toy_crypto (demo_rx_skb (replicate 40 0)
       \<lparr>ri_sta = None, ri_key = Some 0, ri_iv = 9, ri_has_protect = True, ri_needs_decrypt = False\<rparr>)
       ((r92su_zero (\<lambda>x. 0))\<lparr>keys := [0 \<mapsto> demo_ccmp 0 5]\<rparr>) = Some (RX_CONTINUE, r, t) \<and>
     keys t 0 = Some key' \<and> (\<forall>buf off m. rx_iv key' buf off = Some (Some m) \<longrightarrow> 9 < m)"
proof -
  let ?skb = "demo_rx_skb (replicate 40 0)
     \<lparr>ri_sta = None, ri_key = Some 0, ri_iv = 9, ri_has_protect = True, ri_needs_decrypt = False\<rparr>"
  let ?s = "(r92su_zero (\<lambda>x. 0 :: u8))\<lparr>keys := [0 \<mapsto> demo_ccmp 0 5]\<rparr>"
  obtain r t where r: "r92su_rx_crypto_handle reg_env toy_crypto ?skb ?s = Some (RX_CONTINUE, r, t)"
    by (simp add: r92su_rx_crypto_handle_def demo_rx_skb_def demo_ccmp Let_def rx_remove_def)
  have "\<exists>key'. keys t 0 = Some key' \<and> key_ok key' \<and>
      (\<forall>buf off m. rx_iv key' buf off = Some (Some m) \<longrightarrow> ucast (9 :: 48 word) < m)"
    by (rule replay_dropped [OF _ _ _ _ _ r, of _ "demo_ccmp 0 5"]) (simp_all add: demo_rx_skb_def demo_ccmp)
  then show ?thesis using r by auto
qed

section \<open>A frame over the air\<close>

lemma frame_control_app: "2 \<le> length hdr \<Longrightarrow> frame_control (hdr @ xs) = frame_control hdr"
  by (cases hdr; cases "tl hdr") (auto simp: frame_control_def)

lemma rd_mem_ext: "rd_mem d i n = Some x \<Longrightarrow> rd_mem (d @ e) i n = Some x"
  by (auto simp: rd_mem_def split: if_splits)

lemma rd8_ext: "rd8 d i = Some x \<Longrightarrow> rd8 (d @ e) i = Some x"
  by (auto simp: nth_append)

text \<open>The special blocks of CCMP depend on the header only.\<close>

lemma ccmp_blocks_ext:
  assumes "24 \<le> length hdr" and b: "ccmp_special_blocks K hdr n pn = Some r"
  shows "ccmp_special_blocks K (hdr @ xs) n pn = Some r"
proof -
  have fc: "frame_control (hdr @ xs) = frame_control hdr" using assms(1) by (simp add: frame_control_app)
  let ?q = "if ieee80211_is_data_qos K (frame_control hdr) then do {
      q \<leftarrow> qos_ctl0 K hdr; Some (q AND IEEE80211_QOS_CTL_TID_MASK) } else Some 0"
  from b obtain q where q: "?q = Some q" by (auto simp: ccmp_special_blocks_def Let_def Option.bind_eq_Some_conv)
  have q': "(if ieee80211_is_data_qos K (frame_control hdr) then do {
      q \<leftarrow> qos_ctl0 K (hdr @ xs); Some (q AND IEEE80211_QOS_CTL_TID_MASK) } else Some 0) = Some q"
    using q fc by (auto simp: qos_ctl0_def Option.bind_eq_Some_conv nth_append simp del: rd8_Some_iff
        intro: rd8_ext split: if_splits)
  obtain a2 where a2: "rd_mem hdr 10 6 = Some a2" using assms(1) by (simp add: rd_mem_def)
  obtain ad where ad: "rd_mem hdr 4 18 = Some ad" using assms(1) by (simp add: rd_mem_def)
  obtain sc where sc: "rd8 hdr 22 = Some sc" using assms(1) by (simp add: rd8_def)
  let ?r = "\<lambda>h. if ieee80211_has_a4 K (frame_control hdr) then do { addr4 \<leftarrow> rd_mem h 24 6; Some (addr4 @ [q, 0]) }
      else Some (q # replicate 7 0)"
  from b have "?r hdr \<noteq> None"
    using q a2 ad sc by (auto simp: ccmp_special_blocks_def Let_def Option.bind_eq_Some_conv split: if_splits)
  then obtain re where re: "?r hdr = Some re" by blast
  then have re': "?r (hdr @ xs) = Some re"
    by (auto simp: Option.bind_eq_Some_conv intro: rd_mem_ext split: if_splits)
  show ?thesis
    using b unfolding ccmp_special_blocks_def fc Let_def q q' a2 rd_mem_ext [OF a2] ad rd_mem_ext [OF ad] sc rd8_ext [OF sc]
    by (simp add: re re')
qed


lemma add_iv_effect:
  assumes key: "keys s p = Some kt" "tx_iv kt = Some (iv, pn, kt')" "length iv = r92su_get_iv_len kt"
    and hdr: "ieee80211_hdrlen (kernel E) (frame_control hdr) = length hdr" "2 \<le> length hdr"
    and skb: "skb_data skb = hdr @ payload" "ti_key (skb_cb skb) = Some p" "length iv \<le> skb_headroom skb"
  shows "\<exists>skb'. r92su_tx_add_iv E skb s = Some (TX_CONTINUE, skb', s\<lparr>keys := (keys s)(p \<mapsto> kt')\<rparr>) \<and>
     skb_data skb' = hdr @ iv @ payload \<and> skb_tailroom skb' = skb_tailroom skb \<and>
     skb_cb skb' = (skb_cb skb)\<lparr>ti_pn := pn\<rparr>"
proof -
  let ?x = "drop (skb_headroom skb - length iv) (skb_head skb)"
  let ?n = "length hdr"
  have fc: "frame_control (skb_data skb) = frame_control hdr" using skb(1) hdr(2) by (simp add: frame_control_app)
  have x: "length ?x = length iv" using skb(3) by simp
  obtain skb1 where push: "skb_push skb (length iv) = Some skb1" "skb_data skb1 = ?x @ hdr @ payload"
    "skb_tailroom skb1 = skb_tailroom skb" "skb_cb skb1 = skb_cb skb"
    using skb(1,3) by (simp add: skb_push_def)
  have rd: "rd_mem (?x @ hdr @ payload) (length iv) ?n = Some hdr" using x by (simp add: rd_mem_def)
  have w1: "wr_mem (?x @ hdr @ payload) 0 hdr = Some (hdr @ drop ?n (?x @ hdr @ payload))"
    by (simp add: wr_mem_def)
  have w2: "wr_mem (hdr @ drop ?n (?x @ hdr @ payload)) ?n iv = Some (hdr @ iv @ payload)"
    using x by (simp add: wr_mem_def add.commute)
  show ?thesis
    using key skb(2) fc hdr(1) push rd w1 w2 by (simp add: r92su_tx_add_iv_def Let_def)
qed

lemma ccmp_air:
  assumes C: "ccm_ok C" and K: "kernel F = kernel E"
    and kt: "keys s p = Some kt" "key_type kt = AESCCMP_ENCRYPTION" "key_u kt = CcmpKey tx rx k"
    and kr: "keys r q = Some kr" "key_type kr = AESCCMP_ENCRYPTION" "key_u kr = CcmpKey tx' rx' k" "key_len kr = 16"
      "length k = 16" "rx' < tx"
    and hdr: "ieee80211_hdrlen (kernel E) (frame_control hdr) = length hdr" "24 \<le> length hdr"
      "ccmp_special_blocks (kernel E) hdr (length hdr) (ucast tx) = Some (b_0, aad)" "aad_of aad = Some ad"
    and skb: "skb_data skb = hdr @ payload" "payload \<noteq> []" "ti_key (skb_cb skb) = Some p"
      "ti_needs_encrypt (skb_cb skb)" "8 \<le> skb_headroom skb" "8 \<le> skb_tailroom skb"
    and add: "r92su_tx_add_iv E skb s = Some (c1, skb1, s1)" "r92su_tx_add_crypto E C skb1 s1 = Some (c2, skb2, s2)"
    and air: "skb_data rskb = skb_data skb2" "ri_key (skb_cb rskb) = Some q" "ri_needs_decrypt (skb_cb rskb)"
  shows "\<exists>r1 r2 t. r92su_rx_iv_handle F rskb r = Some (RX_CONTINUE, r1) \<and>
     r92su_rx_crypto_handle F C r1 r = Some (RX_CONTINUE, r2, t) \<and> skb_data r2 = hdr @ payload \<and>
     keys t q = Some (kr\<lparr>key_u := CcmpKey tx' tx k\<rparr>)"
proof -
  let ?K = "kernel E"
  obtain iv kt' where iv: "tx_iv kt = Some (iv, ucast tx, kt')" and kt': "key_u kt' = CcmpKey (tx + 1) rx k"
    "key_type kt' = AESCCMP_ENCRYPTION" using kt by (simp add: tx_iv_def)
  have ivl: "length iv = r92su_get_iv_len kt" "length iv = 8"
    using tx_iv_len [OF iv] kt(2) by (simp_all add: r92su_get_iv_len_def)
  have h2: "2 \<le> length hdr" using hdr(2) by simp
  have ap: "length iv \<le> skb_headroom skb" using skb(5) ivl by simp
  from add_iv_effect [OF kt(1) iv ivl(1) hdr(1) h2 skb(1,3) ap] add(1)
  have s1: "s1 = s\<lparr>keys := (keys s)(p \<mapsto> kt')\<rparr>" and d1: "skb_data skb1 = hdr @ iv @ payload"
    and t1: "skb_tailroom skb1 = skb_tailroom skb" "skb_cb skb1 = (skb_cb skb)\<lparr>ti_pn := ucast tx\<rparr>" by auto
  have fc: "frame_control (hdr @ xs) = frame_control hdr" for xs using h2 by (rule frame_control_app)
  define enc where "enc = crypto_aead_encrypt C k b_0 ad payload 8"
  have encl: "length enc = length payload + 8" using C by (simp add: ccm_ok_def enc_def)
  have d2: "skb_data skb2 = hdr @ iv @ enc"
  proof -
    have b: "ccmp_special_blocks ?K (hdr @ iv @ payload) (length hdr) (ucast tx) = Some (b_0, aad)"
      by (rule ccmp_blocks_ext [OF hdr(2,3)])
    have "rd_mem (hdr @ iv @ payload @ replicate 8 0) (length hdr + 8) (length payload) = Some payload"
      using ivl by (simp add: rd_mem_def)
    moreover have "wr_mem (hdr @ iv @ payload @ replicate 8 0) (length hdr + 8) enc = Some (hdr @ iv @ enc)"
      using ivl encl by (simp add: wr_mem_def)
    ultimately show ?thesis
      using add(2) skb(3,4,6) t1 s1 kt' fc hdr(1,4) b d1 ivl
      by (auto simp: r92su_tx_add_crypto_def ieee80211_aes_ccm_encrypt_def skb_put_data_def Let_def enc_def [symmetric])
  qed
  have rxiv: "rx_iv kr (hdr @ iv @ enc @ tl) (length hdr) = Some (Some (ucast tx))" for tl
  proof -
    have "rd_iv_seq (hdr @ iv @ enc @ tl) (length hdr) (iv_order (key_type kt)) = Some (ucast tx)"
      using rd_iv_seq_at [OF tx_iv_seq(3) [OF iv], of hdr "enc @ tl"] tx_iv_seq(1) [OF iv] by simp
    moreover have "rd8 (hdr @ iv @ enc @ tl) (length hdr + 3) = Some (iv ! 3)" using ivl by (simp add: rd8_at)
    moreover have "(ucast rx' :: u64) < ucast tx"
      using kr(6) by (simp add: word_less_nat_alt unat_up)
    ultimately show ?thesis
      using kr kt(2) tx_iv_seq(2) [OF iv] by (auto simp: rx_iv_def rx_ext_iv_def simp del: rd8_Some_iff)
  qed
  let ?tl = "skb_tail F rskb"
  define r1 where "r1 = rskb\<lparr>skb_cb := (skb_cb rskb)\<lparr>ri_iv := ucast tx\<rparr>,
      skb_head := skb_head rskb @ take 8 hdr, skb_data := hdr @ enc\<rparr>"
  have h: "r92su_rx_iv_handle F rskb r = Some (RX_CONTINUE, r1)"
  proof -
    have "r92su_get_iv_len kr = 8" using kr(2) by (simp add: r92su_get_iv_len_def)
    moreover have "rd_mem (hdr @ iv @ enc) 0 (length hdr) = Some hdr" by (simp add: rd_mem_def)
    moreover have "wr_mem (hdr @ iv @ enc @ ?tl) 8 hdr = Some (take 8 hdr @ hdr @ enc @ ?tl)"
      using ivl hdr(2) by (simp add: wr_mem_def)
    moreover have "length (take 8 hdr) = 8" using hdr(2) by simp
    ultimately show ?thesis
      using air kr(1) d2 fc hdr(1,2) rxiv [of ?tl] K ivl encl
      by (simp add: r92su_rx_iv_handle_def Let_def skb_pull_def r1_def skb_tail_def)
  qed
  have dec: "ieee80211_aes_ccm_decrypt ?K C k r1 (ucast tx) 8 = Some (0, r1\<lparr>skb_data := hdr @ payload @ drop (length payload) enc\<rparr>)"
  proof -
    have "ccmp_special_blocks ?K (hdr @ enc) (length hdr) (ucast tx) = Some (b_0, aad)"
      by (rule ccmp_blocks_ext [OF hdr(2,3)])
    moreover have "rd_mem (hdr @ enc) (length hdr) (length payload + 8) = Some enc" using encl by (simp add: rd_mem_def)
    moreover have "crypto_aead_decrypt C k b_0 ad enc 8 = (0, payload)" using C by (simp add: ccm_ok_def enc_def)
    moreover have "wr_mem (hdr @ enc) (length hdr) payload = Some (hdr @ payload @ drop (length payload) enc)"
      using encl by (simp add: wr_mem_def)
    ultimately show ?thesis
      using fc hdr(1,4) skb(2) encl by (simp add: ieee80211_aes_ccm_decrypt_def Let_def r1_def)
  qed
  have "r92su_rx_crypto_handle F C r1 r =
      rx_remove (r1\<lparr>skb_data := hdr @ payload @ drop (length payload) enc\<rparr>) 8
        (r\<lparr>keys := (keys r)(q \<mapsto> kr\<lparr>key_u := CcmpKey tx' tx k\<rparr>)\<rparr>)"
    using dec air(2,3) kr K by (simp add: r92su_rx_crypto_handle_def r1_def Let_def)
  also have "\<dots> = Some (RX_CONTINUE, skb_trim (r1\<lparr>skb_data := hdr @ payload @ drop (length payload) enc\<rparr>) (length hdr + length payload),
      r\<lparr>keys := (keys r)(q \<mapsto> kr\<lparr>key_u := CcmpKey tx' tx k\<rparr>)\<rparr>)"
    using encl hdr(2) skb(2) by (auto simp: rx_remove_def)
  finally show ?thesis using h by simp
qed


lemma ccmp_tx_ok:
  assumes C: "ccm_ok C"
    and kt: "keys s p = Some kt" "key_type kt = AESCCMP_ENCRYPTION" "key_u kt = CcmpKey tx rx k"
    and hdr: "ieee80211_hdrlen (kernel E) (frame_control hdr) = length hdr" "24 \<le> length hdr"
      "ccmp_special_blocks (kernel E) hdr (length hdr) (ucast tx) = Some (b_0, aad)" "aad_of aad = Some ad"
    and skb: "skb_data skb = hdr @ payload" "ti_key (skb_cb skb) = Some p" "8 \<le> skb_headroom skb" "8 \<le> skb_tailroom skb"
  shows "\<exists>skb1 s1 skb2 s2. r92su_tx_add_iv E skb s = Some (TX_CONTINUE, skb1, s1) \<and>
     r92su_tx_add_crypto E C skb1 s1 = Some (TX_CONTINUE, skb2, s2)"
proof -
  obtain iv kt' where iv: "tx_iv kt = Some (iv, ucast tx, kt')" and kt': "key_u kt' = CcmpKey (tx + 1) rx k"
    "key_type kt' = AESCCMP_ENCRYPTION" using kt by (simp add: tx_iv_def)
  have ivl: "length iv = r92su_get_iv_len kt" "length iv = 8"
    using tx_iv_len [OF iv] kt(2) by (simp_all add: r92su_get_iv_len_def)
  have h2: "2 \<le> length hdr" and ap: "length iv \<le> skb_headroom skb" using hdr(2) skb(3) ivl by simp_all
  from add_iv_effect [OF kt(1) iv ivl(1) hdr(1) h2 skb(1,2) ap] obtain skb1 where
    1: "r92su_tx_add_iv E skb s = Some (TX_CONTINUE, skb1, s\<lparr>keys := (keys s)(p \<mapsto> kt')\<rparr>)"
    and d1: "skb_data skb1 = hdr @ iv @ payload" "skb_tailroom skb1 = skb_tailroom skb"
      "skb_cb skb1 = (skb_cb skb)\<lparr>ti_pn := ucast tx\<rparr>" by blast
  have fc: "frame_control (hdr @ xs) = frame_control hdr" for xs using h2 by (rule frame_control_app)
  have b: "ccmp_special_blocks (kernel E) (hdr @ iv @ payload) (length hdr) (ucast tx) = Some (b_0, aad)"
    by (rule ccmp_blocks_ext [OF hdr(2,3)])
  have encl: "length (crypto_aead_encrypt C k b_0 ad payload 8) = length payload + 8" using C by (simp add: ccm_ok_def)
  have "rd_mem (hdr @ iv @ payload @ replicate 8 0) (length hdr + 8) (length payload) = Some payload"
    using ivl by (simp add: rd_mem_def)
  moreover have "wr_mem (hdr @ iv @ payload @ replicate 8 0) (length hdr + 8) (crypto_aead_encrypt C k b_0 ad payload 8)
      = Some (hdr @ iv @ crypto_aead_encrypt C k b_0 ad payload 8)"
    using ivl encl by (simp add: wr_mem_def)
  ultimately have "\<exists>skb2 s2. r92su_tx_add_crypto E C skb1 (s\<lparr>keys := (keys s)(p \<mapsto> kt')\<rparr>) = Some (TX_CONTINUE, skb2, s2)"
    using skb(2,4) d1 kt' fc hdr(1,4) b ivl
    by (simp add: r92su_tx_add_crypto_def ieee80211_aes_ccm_encrypt_def skb_put_data_def Let_def)
  with 1 show ?thesis by blast
qed

text \<open>C5. A frame that the transmit path encrypts with a CCMP key is restored, header and payload, by
  the receive path of a peer that has the same key and an older packet number; the IV and the
  message code are gone and the peer's counter is the frame's number.\<close>

theorem ccmp_over_the_air:
  assumes C: "ccm_ok C" and K: "kernel F = kernel E"
    and kt: "keys s p = Some kt" "key_type kt = AESCCMP_ENCRYPTION" "key_u kt = CcmpKey tx rx k"
    and kr: "keys r q = Some kr" "key_type kr = AESCCMP_ENCRYPTION" "key_u kr = CcmpKey tx' rx' k" "key_len kr = 16"
      "length k = 16" "rx' < tx"
    and hdr: "ieee80211_hdrlen (kernel E) (frame_control hdr) = length hdr" "24 \<le> length hdr"
      "ccmp_special_blocks (kernel E) hdr (length hdr) (ucast tx) = Some (b_0, aad)" "aad_of aad = Some ad"
    and skb: "skb_data skb = hdr @ payload" "payload \<noteq> []" "ti_key (skb_cb skb) = Some p"
      "ti_needs_encrypt (skb_cb skb)" "8 \<le> skb_headroom skb" "8 \<le> skb_tailroom skb"
    and air: "ri_key (skb_cb rskb) = Some q" "ri_needs_decrypt (skb_cb rskb)"
  shows "\<exists>skb1 s1 skb2 s2 r1 r2 t.
     r92su_tx_add_iv E skb s = Some (TX_CONTINUE, skb1, s1) \<and>
     r92su_tx_add_crypto E C skb1 s1 = Some (TX_CONTINUE, skb2, s2) \<and>
     r92su_rx_iv_handle F (rskb\<lparr>skb_data := skb_data skb2\<rparr>) r = Some (RX_CONTINUE, r1) \<and>
     r92su_rx_crypto_handle F C r1 r = Some (RX_CONTINUE, r2, t) \<and>
     skb_data r2 = hdr @ payload \<and> keys t q = Some (kr\<lparr>key_u := CcmpKey tx' tx k\<rparr>)"
proof -
  from ccmp_tx_ok [OF C kt hdr skb(1,3,5,6)] obtain skb1 s1 skb2 s2 where
    add: "r92su_tx_add_iv E skb s = Some (TX_CONTINUE, skb1, s1)"
      "r92su_tx_add_crypto E C skb1 s1 = Some (TX_CONTINUE, skb2, s2)" by blast
  have "\<exists>r1 r2 t. r92su_rx_iv_handle F (rskb\<lparr>skb_data := skb_data skb2\<rparr>) r = Some (RX_CONTINUE, r1) \<and>
     r92su_rx_crypto_handle F C r1 r = Some (RX_CONTINUE, r2, t) \<and>
     skb_data r2 = hdr @ payload \<and> keys t q = Some (kr\<lparr>key_u := CcmpKey tx' tx k\<rparr>)"
    by (rule ccmp_air [OF C K kt kr hdr skb add]) (simp_all add: air)
  with add show ?thesis by blast
qed

definition demo_tx_skb :: "bytes \<Rightarrow> r92su_tx_info \<Rightarrow> tx_skb" where
  "demo_tx_skb d ti = \<lparr>skb_head = replicate 64 0, skb_data = d, skb_tailroom = 32, skb_protocol = 0,
     skb_priority = 0, skb_queue_mapping = 0, skb_cb = ti\<rparr>"

lemma demo_blocks:
  "\<exists>b_0 aad ad. ccmp_special_blocks linux_kapi demo_hdr (length demo_hdr) pn = Some (b_0, aad) \<and> aad_of aad = Some ad"
proof -
  obtain b_0 aad where b: "ccmp_special_blocks linux_kapi demo_hdr 26 pn = Some (b_0, aad)"
    using demo_ccmp_blocks by blast
  have "length aad = 32" using ccmp_b_0 [OF b] by simp
  moreover have "\<exists>xs. aad = put_be16 24 @ xs"
    using b by (auto simp: ccmp_special_blocks_def Let_def Option.bind_eq_Some_conv)
  then have "le16 (aad ! 1) (aad ! 0) = 24" by (auto simp: put_be16_def le16_def)
  ultimately have "aad_of aad = Some (take 24 (drop 2 aad))" by (simp add: aad_of_def rd_mem_def)
  moreover have "length demo_hdr = 26" by (simp add: demo_hdr_def)
  ultimately show ?thesis using b by metis
qed

theorem ccmp_over_the_air_witness:
  "\<exists>skb1 s1 skb2 s2 r1 r2 t.
     r92su_tx_add_iv reg_env (demo_tx_skb (demo_hdr @ [1, 2, 3]) \<lparr>ti_sta = None, ti_key = Some 0, ti_pn = 0, ti_tid = 0,
       ti_low_rate = False, ti_ampdu = False, ti_ht_possible = False, ti_needs_encrypt = True\<rparr>)
       ((r92su_zero (\<lambda>x. 0))\<lparr>keys := [0 \<mapsto> demo_ccmp 9 0]\<rparr>) = Some (TX_CONTINUE, skb1, s1) \<and>
     r92su_tx_add_crypto reg_env toy_crypto skb1 s1 = Some (TX_CONTINUE, skb2, s2) \<and>
     r92su_rx_iv_handle reg_env ((demo_rx_skb [] \<lparr>ri_sta = None, ri_key = Some 1, ri_iv = 0, ri_has_protect = True,
       ri_needs_decrypt = True\<rparr>)\<lparr>skb_data := skb_data skb2\<rparr>)
       ((r92su_zero (\<lambda>x. 0 :: u8))\<lparr>keys := [1 \<mapsto> demo_ccmp 4 8]\<rparr>) = Some (RX_CONTINUE, r1) \<and>
     r92su_rx_crypto_handle reg_env toy_crypto r1 ((r92su_zero (\<lambda>x. 0))\<lparr>keys := [1 \<mapsto> demo_ccmp 4 8]\<rparr>) =
       Some (RX_CONTINUE, r2, t) \<and>
     skb_data r2 = demo_hdr @ [1, 2, 3]"
proof -
  obtain b_0 aad ad where b: "ccmp_special_blocks linux_kapi demo_hdr (length demo_hdr) (ucast (9 :: 48 word)) = Some (b_0, aad)"
    "aad_of aad = Some ad" using demo_blocks by blast
  have k: "kernel reg_env = linux_kapi" by (simp add: reg_env_def)
  have h: "length demo_hdr = 26" by (simp add: demo_hdr_def)
  show ?thesis
    using ccmp_over_the_air [OF ccm_ok_toy refl, of
        "(r92su_zero (\<lambda>x. 0 :: u8))\<lparr>keys := [0 \<mapsto> demo_ccmp 9 0]\<rparr>" 0 "demo_ccmp 9 0" 9 0 "replicate 16 3"
        "(r92su_zero (\<lambda>x. 0 :: u8))\<lparr>keys := [1 \<mapsto> demo_ccmp 4 8]\<rparr>" 1 "demo_ccmp 4 8" 4 8 reg_env demo_hdr b_0 aad ad
        "demo_tx_skb (demo_hdr @ [1, 2, 3]) \<lparr>ti_sta = None, ti_key = Some 0, ti_pn = 0, ti_tid = 0,
          ti_low_rate = False, ti_ampdu = False, ti_ht_possible = False, ti_needs_encrypt = True\<rparr>" "[1, 2, 3]"
        "demo_rx_skb [] \<lparr>ri_sta = None, ri_key = Some 1, ri_iv = 0, ri_has_protect = True, ri_needs_decrypt = True\<rparr>"]
      b h by (auto simp: k demo_ccmp demo_hdr_fc demo_tx_skb_def demo_rx_skb_def demo_ccmp_def)
qed

end
