(* ===== verification/R92_Rx.thy ===== *)
theory R92_Rx
  imports R92_Crypt
begin

text \<open>
  The handlers of the receive path (\<open>rx.c\<close>) from the header check to the delivery. A handler
  returns its verdict with the frame and the driver state; \<open>None\<close> is an access outside a buffer,
  through a NULL or dangling pointer, or a kernel assertion. The macro \<open>__RX_HANDLER\<close> is
  \<open>RX_HANDLER\<close>: the next handler runs on \<open>RX_CONTINUE\<close> only.
\<close>

abbreviation (input) IEEE80211_QOS_CTL_TAG1D_MASK :: u8 where "IEEE80211_QOS_CTL_TAG1D_MASK \<equiv> 7"
abbreviation (input) SIZEOF_HDR :: nat where "SIZEOF_HDR \<equiv> 30"
abbreviation (input) RATE_INFO_BW_20 :: u8 where "RATE_INFO_BW_20 \<equiv> 0"
abbreviation (input) RATE_INFO_BW_40 :: u8 where "RATE_INFO_BW_40 \<equiv> 3"

type_synonym 'w rx_result = "(rx_control \<times> rx_skb \<times> 'w r92su) option"

definition RX_HANDLER :: "'w rx_result \<Rightarrow> (rx_skb \<Rightarrow> 'w r92su \<Rightarrow> 'w rx_result) \<Rightarrow> 'w rx_result" where
  "RX_HANDLER m f = do {
     (c, skb, s) \<leftarrow> m;
     (if c = RX_CONTINUE then f skb s else Some (c, skb, s)) }"

section \<open>Statistics and delivery\<close>

definition r92su_rx_dropped :: "nat \<Rightarrow> 'w r92su \<Rightarrow> 'w r92su" where
  "r92su_rx_dropped n s = s\<lparr>rx_dropped := rx_dropped s + n\<rparr>"

definition dev_kfree_skb_any :: "'cb sk_buff \<Rightarrow> 'w r92su \<Rightarrow> 'w r92su" where
  "dev_kfree_skb_any skb s = emit (Free_skb (skb_data skb)) s"

definition skb_queue_purge :: "'cb sk_buff list \<Rightarrow> 'w r92su \<Rightarrow> 'w r92su" where
  "skb_queue_purge q s = fold dev_kfree_skb_any q s"

text \<open>
  The frame belongs to the stack once \<open>netif_rx\<close> has it; its length is read afterwards, as if it
  were still the driver's.
\<close>

definition rx_deliver_skb :: "'w env \<Rightarrow> rx_skb \<Rightarrow> 'w r92su \<Rightarrow> 'w r92su" where
  "rx_deliver_skb E skb s =
     (let ok = netif_rx_ok E (length (log s)); s = emit (Netif_rx (skb_data skb)) s in
      if ok then s\<lparr>rx_packets := rx_packets s + 1, rx_bytes := rx_bytes s + skb_len skb\<rparr>
      else r92su_rx_dropped 1 s)"

definition r92su_rx_deliver :: "'w env \<Rightarrow> rx_skb \<Rightarrow> 'w r92su \<Rightarrow> 'w r92su" where
  "r92su_rx_deliver E skb s =
     (case eth_type_trans E skb of (proto, skb) \<Rightarrow> rx_deliver_skb E (skb\<lparr>skb_protocol := proto\<rparr>) s)"

section \<open>Header checks and the sending station\<close>

definition get_tid_h :: "kapi \<Rightarrow> bytes \<Rightarrow> nat option" where
  "get_tid_h K hdr = map_option (\<lambda>q. unat (q AND IEEE80211_QOS_CTL_TID_MASK)) (qos_ctl0 K hdr)"

definition r92su_get_priority :: "kapi \<Rightarrow> rx_skb \<Rightarrow> (nat \<times> rx_skb) option" where
  "r92su_get_priority K skb = do {
     prio \<leftarrow> (if ieee80211_is_data_qos K (frame_control (skb_data skb))
             then map_option (\<lambda>q. unat (q AND IEEE80211_QOS_CTL_TAG1D_MASK)) (qos_ctl0 K (skb_data skb))
             else Some 0);
     Some (ac_nr (ieee802_1d_to_ac ! prio), skb\<lparr>skb_priority := of_nat prio\<rparr>) }"

definition rx_info_zero :: r92su_rx_info where
  "rx_info_zero = \<lparr>ri_sta = None, ri_key = None, ri_iv = 0, ri_has_protect = False, ri_needs_decrypt = False\<rparr>"

definition r92su_rx_hw_header_check :: "'w env \<Rightarrow> bytes \<Rightarrow> rx_skb \<Rightarrow> 'w r92su \<Rightarrow> 'w rx_result" where
  "r92su_rx_hw_header_check E rx skb s =
     (if skb_len skb < SIZEOF_HDR + FCS_LEN then Some (RX_DROP, skb, s)
      else let skb = skb_trim skb (skb_len skb - FCS_LEN);
               fc = frame_control (skb_data skb); K = kernel E in
        if GET_RX_DESC_CRC32 rx \<noteq> 0 then Some (RX_DROP, skb, s)
        else let has_protect = ieee80211_has_protected K fc;
                 needs_decrypt = (has_protect \<and> GET_RX_DESC_SWDEC rx \<noteq> 0) in
          if \<not> (ieee80211_is_data_present K fc \<or> ieee80211_is_mgmt K fc) then Some (RX_DROP, skb, s)
          else let skb = skb\<lparr>skb_cb := rx_info_zero\<rparr> in
            if skb_len skb < ieee80211_hdrlen K fc then Some (RX_DROP, skb, s)
            else do {
              (ac, skb) \<leftarrow> r92su_get_priority K skb;
              Some (RX_CONTINUE, skb\<lparr>skb_queue_mapping := of_nat ac,
                skb_cb := (skb_cb skb)\<lparr>ri_has_protect := has_protect, ri_needs_decrypt := needs_decrypt\<rparr>\<rparr>, s) })"

definition r92su_rx_find_sta :: "'w env \<Rightarrow> r92su_bss_priv \<Rightarrow> rx_skb \<Rightarrow> 'w r92su \<Rightarrow> 'w rx_result" where
  "r92su_rx_find_sta E bp skb s = do {
     sa \<leftarrow> ieee80211_get_SA (kernel E) (skb_data skb);
     found \<leftarrow> r92su_sta_get s sa;
     let sta = (case found of None \<Rightarrow> bp_sta bp | Some p \<Rightarrow> Some p);
     Some (RX_CONTINUE, skb\<lparr>skb_cb := (skb_cb skb)\<lparr>ri_sta := sta\<rparr>\<rparr>, s) }"

definition r92su_rx_deduplicate :: "'w env \<Rightarrow> rx_skb \<Rightarrow> 'w r92su \<Rightarrow> 'w rx_result" where
  "r92su_rx_deduplicate E skb s = (case ri_sta (skb_cb skb) of
     None \<Rightarrow> Some (RX_CONTINUE, skb, s)
   | Some p \<Rightarrow> do {
       sta \<leftarrow> stas s p;
       let sc = seq_ctrl (skb_data skb);
       (if ieee80211_is_data_qos (kernel E) (frame_control (skb_data skb)) then do {
          tid \<leftarrow> get_tid_h (kernel E) (skb_data skb);
          rx_seq \<leftarrow> (if tid < length (sta_rx_seq_tid sta) then Some (sta_rx_seq_tid sta ! tid) else None);
          (if rx_seq = sc then Some (RX_DROP, skb, s\<lparr>stas := (stas s)(p \<mapsto> sta\<lparr>sta_drop_dup := sta_drop_dup sta + 1\<rparr>)\<rparr>)
           else Some (RX_CONTINUE, skb, s\<lparr>stas := (stas s)(p \<mapsto> sta\<lparr>sta_rx_seq_tid := (sta_rx_seq_tid sta)[tid := sc]\<rparr>)\<rparr>)) }
        else if sta_rx_seq sta = sc then Some (RX_DROP, skb, s\<lparr>stas := (stas s)(p \<mapsto> sta\<lparr>sta_drop_dup := sta_drop_dup sta + 1\<rparr>)\<rparr>)
        else Some (RX_CONTINUE, skb, s\<lparr>stas := (stas s)(p \<mapsto> sta\<lparr>sta_rx_seq := sc\<rparr>)\<rparr>)) })"

text \<open>The bit rates of the band, in units of 100 kbit/s (\<open>r92su_ratetable\<close> of \<open>main.c\<close>).\<close>

definition r92su_ratetable :: "u32 list" where
  "r92su_ratetable = [10, 20, 55, 110, 60, 90, 120, 180, 240, 360, 480, 540]"

definition bitrate_of :: "'w r92su \<Rightarrow> u32 \<Rightarrow> u32 option" where
  "bitrate_of s i = (if unat i < n_bitrates s \<and> unat i < length r92su_ratetable then Some (r92su_ratetable ! unat i) else None)"

definition r92su_rx_sta_stats :: "bytes \<Rightarrow> rx_skb \<Rightarrow> 'w r92su \<Rightarrow> 'w rx_result" where
  "r92su_rx_sta_stats rx skb s = do {
     let mcs = GET_RX_DESC_RX_MCS rx;
     (flag, bw, rate) \<leftarrow> (if GET_RX_DESC_RX_HT rx \<noteq> 0
        then Some (RATE_INFO_FLAGS_MCS, if GET_RX_DESC_BW rx \<noteq> 0 then RATE_INFO_BW_40 else RATE_INFO_BW_20, mcs)
        else do { rate \<leftarrow> bitrate_of s mcs; Some (0, RATE_INFO_BW_20, rate) });
     p \<leftarrow> ri_sta (skb_cb skb);
     sta \<leftarrow> stas s p;
     Some (RX_CONTINUE, skb, s\<lparr>stas := (stas s)(p \<mapsto>
       sta\<lparr>sta_last_rx_rate_bw := bw, sta_last_rx_rate_flag := flag, sta_last_rx_rate := rate\<rparr>)\<rparr>) }"

definition r92su_rx_handle_mgmt :: "'w env \<Rightarrow> rx_skb \<Rightarrow> 'w r92su \<Rightarrow> 'w rx_result" where
  "r92su_rx_handle_mgmt E skb s =
     (if ieee80211_is_mgmt (kernel E) (frame_control (skb_data skb))
      then Some (RX_QUEUE, skb, dev_kfree_skb_any skb s)
      else Some (RX_CONTINUE, skb, s))"

section \<open>Key selection\<close>

definition sta_key_of :: "'w r92su \<Rightarrow> nat option \<Rightarrow> nat option option" where
  "sta_key_of s p = do { p \<leftarrow> p; sta \<leftarrow> stas s p; Some (sta_key sta) }"

definition r92su_rx_find_key :: "'w env \<Rightarrow> r92su_bss_priv \<Rightarrow> rx_skb \<Rightarrow> 'w r92su \<Rightarrow> 'w rx_result" where
  "r92su_rx_find_key E bp skb s =
     (if \<not> ri_has_protect (skb_cb skb) then Some (RX_CONTINUE, skb, s)
      else do {
        b \<leftarrow> rd8 (skb_data skb @ skb_tail E skb) (ieee80211_hdrlen (kernel E) (frame_control (skb_data skb)) + 3);
        let idx = unat (drop_bit 6 b);
        group \<leftarrow> (if idx < length (bp_group_key bp) then Some (bp_group_key bp ! idx) else None);
        key \<leftarrow> (if group \<noteq> None then Some group else sta_key_of s (ri_sta (skb_cb skb)));
        key \<leftarrow> (if key \<noteq> None then Some key else sta_key_of s (bp_sta bp));
        (case key of
           None \<Rightarrow> Some (RX_DROP, skb, s)
         | Some k \<Rightarrow> Some (RX_CONTINUE, skb\<lparr>skb_cb := (skb_cb skb)\<lparr>ri_key := Some k\<rparr>\<rparr>, s)) })"

definition r92su_rx_port_check :: "r92su_bss_priv \<Rightarrow> rx_skb \<Rightarrow> 'w r92su \<Rightarrow> rx_control option" where
  "r92su_rx_port_check bp skb s = do {
     p \<leftarrow> bp_sta bp;
     sta \<leftarrow> stas s p;
     Some (if sta_enc_sta sta \<and> \<not> ri_has_protect (skb_cb skb) \<and> bp_control_port_no_encrypt bp \<and>
              skb_protocol skb \<noteq> bp_control_port_ethertype bp then RX_DROP else RX_CONTINUE) }"

section \<open>Fragments\<close>

definition frame_frag :: "bytes \<Rightarrow> u16" where
  "frame_frag d = seq_ctrl d AND IEEE80211_SCTL_FRAG"

text \<open>The queued fragments of an access category of a station.\<close>

definition r92su_check_if_match ::
    "'w r92su \<Rightarrow> rx_skb \<Rightarrow> rx_skb list \<Rightarrow> nat option \<Rightarrow> bool option" where
  "r92su_check_if_match s new_skb dq key = (case dq of
     [] \<Rightarrow> Some False
   | _ # _ \<Rightarrow>
       let tmp = last dq; cur = skb_data new_skb; old = skb_data tmp in
       if frame_seq old \<noteq> frame_seq cur \<and> frame_frag cur \<noteq> 1 + frame_frag old then Some False
       else (case key of
         None \<Rightarrow> Some True
       | Some k \<Rightarrow> do {
           key \<leftarrow> keys s k;
           Some (\<not> (key_type key = AESCCMP_ENCRYPTION \<and> ri_iv (skb_cb tmp) + 1 \<noteq> ri_iv (skb_cb new_skb))) }))"

definition set_defrag :: "nat \<Rightarrow> nat \<Rightarrow> r92su_defrag_entry \<Rightarrow> 'w r92su \<Rightarrow> 'w r92su option" where
  "set_defrag p qidx e s = do {
     sta \<leftarrow> stas s p;
     (if qidx < length (sta_defrag sta)
      then Some (s\<lparr>stas := (stas s)(p \<mapsto> sta\<lparr>sta_defrag := (sta_defrag sta)[qidx := e]\<rparr>)\<rparr>) else None) }"

definition r92su_defrag_drop :: "nat \<Rightarrow> nat \<Rightarrow> r92su_defrag_entry \<Rightarrow> 'w r92su \<Rightarrow> 'w r92su option" where
  "r92su_defrag_drop p qidx e s =
     set_defrag p qidx \<lparr>df_queue = [], df_size = 0\<rparr>
       (skb_queue_purge (df_queue e) (r92su_rx_dropped (length (df_queue e)) s))"

text \<open>The control block of a queued fragment is cleared, its packet number included.\<close>

definition r92su_defrag_add :: "'w env \<Rightarrow> nat \<Rightarrow> nat \<Rightarrow> r92su_defrag_entry \<Rightarrow> rx_skb \<Rightarrow> 'w r92su \<Rightarrow> 'w r92su option" where
  "r92su_defrag_add E p qidx e skb s =
     set_defrag p qidx \<lparr>df_queue = df_queue e @ [skb\<lparr>skb_cb := rx_info_zero\<rparr>],
       df_size = df_size e + of_nat (skb_len skb) - of_nat (ieee80211_hdrlen (kernel E) (frame_control (skb_data skb)))\<rparr> s"

text \<open>
  The loop that puts the queued fragments in front of the last one, from the tail of the queue:
  the header of the frame so far makes room for the whole queued fragment.
\<close>

fun defrag_join :: "kapi \<Rightarrow> rx_skb list \<Rightarrow> rx_skb \<Rightarrow> rx_skb option" where
  "defrag_join K [] skb = Some skb"
| "defrag_join K (tmp # rest) skb = do {
     skb \<leftarrow> skb_pull skb (ieee80211_hdrlen K (frame_control (skb_data skb)));
     skb \<leftarrow> skb_push skb (skb_len tmp);
     data \<leftarrow> wr_mem (skb_data skb) 0 (skb_data tmp);
     defrag_join K rest (skb\<lparr>skb_data := data\<rparr>) }"

text \<open>\<open>pskb_expand_head\<close> adds headroom; a negative amount is an assertion of the kernel.\<close>

definition pskb_expand_head :: "'w env \<Rightarrow> 'cb sk_buff \<Rightarrow> int \<Rightarrow> int \<Rightarrow> 'w r92su \<Rightarrow> (int \<times> 'cb sk_buff \<times> 'w r92su) option" where
  "pskb_expand_head E skb nhead ntail s =
     (if nhead < 0 then None
      else case kmalloc E s of (ok, s) \<Rightarrow>
        Some (if ok then (0, skb\<lparr>skb_head := replicate (nat nhead) 0 @ skb_head skb,
                                 skb_tailroom := nat (int (skb_tailroom skb) + ntail)\<rparr>, s)
              else (- ENOMEM, skb, s)))"

definition r92su_rx_defrag :: "'w env \<Rightarrow> rx_skb \<Rightarrow> 'w r92su \<Rightarrow> 'w rx_result" where
  "r92su_rx_defrag E skb s = do {
     let K = kernel E;
     let hdr = skb_data skb;
     p \<leftarrow> ri_sta (skb_cb skb);
     sta \<leftarrow> stas s p;
     let qidx = unat (skb_queue_mapping skb);
     e \<leftarrow> (if qidx < length (sta_defrag sta) then Some (sta_defrag sta ! qidx) else None);
     let dropped = (\<lambda>skb s. map_option (\<lambda>s. (RX_DROP, skb, s)) (r92su_defrag_drop p qidx e s));
     (if ieee80211_has_morefrags K (frame_control hdr) then
        if frame_frag hdr = 0 then do {
          s \<leftarrow> r92su_defrag_drop p qidx e s;
          s \<leftarrow> r92su_defrag_add E p qidx \<lparr>df_queue = [], df_size = 0\<rparr> skb s;
          Some (RX_QUEUE, skb, s) }
        else do {
          matches \<leftarrow> r92su_check_if_match s skb (df_queue e) (ri_key (skb_cb skb));
          (if \<not> matches then dropped skb s
           else do { s \<leftarrow> r92su_defrag_add E p qidx e skb s; Some (RX_QUEUE, skb, s) }) }
      else if frame_frag hdr = 0 then do {
        s \<leftarrow> r92su_defrag_drop p qidx e s;
        Some (RX_CONTINUE, skb, s) }
      else do {
        matches \<leftarrow> r92su_check_if_match s skb (df_queue e) (ri_key (skb_cb skb));
        (if \<not> matches then dropped skb s
         else do {
           let size = df_size e + of_nat (skb_len skb) - of_nat (ieee80211_hdrlen K (frame_control hdr));
           s \<leftarrow> set_defrag p qidx (e\<lparr>df_size := size\<rparr>) s;
           (err, skb, s) \<leftarrow> pskb_expand_head E skb (sint (size - of_nat (skb_len skb))) 0 s;
           (if err \<noteq> 0 then dropped skb s
            else do {
              skb \<leftarrow> defrag_join K (rev (df_queue e)) skb;
              s \<leftarrow> set_defrag p qidx \<lparr>df_queue = [], df_size = size\<rparr> (skb_queue_purge (rev (df_queue e)) s);
              Some (RX_CONTINUE, skb, s) }) }) }) }"

section \<open>Conversion to Ethernet\<close>

text \<open>The result tells whether the frame is still the caller's, and the queue of converted frames.\<close>

definition r92su_rx_data_to_8023 ::
    "'w env \<Rightarrow> rx_skb \<Rightarrow> rx_skb list \<Rightarrow> 'w r92su \<Rightarrow> (rx_control \<times> rx_skb option \<times> rx_skb list) option" where
  "r92su_rx_data_to_8023 E skb queue s = do {
     let fc = frame_control (skb_data skb);
     is_amsdu \<leftarrow> (if ieee80211_is_data_qos (kernel E) fc
       then map_option (\<lambda>q. bit q 7) (qos_ctl0 (kernel E) (skb_data skb)) else Some False);
     (if is_amsdu then
        case data_to_8023_exthdr E (dev_addr s) (iftype s) skb of (err, skb') \<Rightarrow>
          if err \<noteq> 0 then Some (RX_DROP, Some skb', queue)
          else let queue = queue @ amsdu_to_8023s E (dev_addr s) (iftype s) skb' in
            if queue = [] then Some (RX_DROP, None, queue)
            else Some (RX_CONTINUE, None, map (\<lambda>f. f\<lparr>skb_cb := skb_cb skb\<rparr>) queue)
      else case data_to_8023 E (dev_addr s) (iftype s) skb of (err, skb) \<Rightarrow>
        if err \<noteq> 0 then Some (RX_DROP, Some skb, queue)
        else Some (RX_CONTINUE, None, queue @ [skb])) }"

section \<open>The frames behind the reorder buffer\<close>

definition rx_prep_frame ::
    "'w env \<Rightarrow> 'c crypto_api \<Rightarrow> r92su_bss_priv \<Rightarrow> rx_skb \<Rightarrow> rx_skb list \<Rightarrow> 'w r92su \<Rightarrow>
     (rx_control \<times> rx_skb option \<times> rx_skb list \<times> 'w r92su) option" where
  "rx_prep_frame E C bp skb frames s = do {
     (c, skb, s) \<leftarrow>
       RX_HANDLER (r92su_rx_find_key E bp skb s) (\<lambda>skb s.
       RX_HANDLER (map_option (\<lambda>(c, skb). (c, skb, s)) (r92su_rx_iv_handle E skb s)) (\<lambda>skb s.
       RX_HANDLER (r92su_rx_crypto_handle E C skb s) (r92su_rx_defrag E)));
     (if c \<noteq> RX_CONTINUE then Some (c, Some skb, frames, s)
      else do {
        (c, skb, frames) \<leftarrow> r92su_rx_data_to_8023 E skb frames s;
        Some (c, skb, frames, s) }) }"

definition rx_drop :: "rx_skb option \<Rightarrow> 'w r92su \<Rightarrow> 'w r92su" where
  "rx_drop skb s = (case skb of None \<Rightarrow> r92su_rx_dropped 1 s
                              | Some skb \<Rightarrow> dev_kfree_skb_any skb (r92su_rx_dropped 1 s))"

fun rx_prep ::
    "'w env \<Rightarrow> 'c crypto_api \<Rightarrow> r92su_bss_priv \<Rightarrow> rx_skb list \<Rightarrow> rx_skb list \<Rightarrow> 'w r92su \<Rightarrow>
     (rx_skb list \<times> 'w r92su) option" where
  "rx_prep E C bp [] frames s = Some (frames, s)"
| "rx_prep E C bp (skb # queue) frames s = do {
     (c, skb, frames, s) \<leftarrow> rx_prep_frame E C bp skb frames s;
     rx_prep E C bp queue frames (if c = RX_DROP then rx_drop skb s else s) }"

fun rx_main :: "'w env \<Rightarrow> r92su_bss_priv \<Rightarrow> rx_skb list \<Rightarrow> 'w r92su \<Rightarrow> 'w r92su option" where
  "rx_main E bp [] s = Some s"
| "rx_main E bp (skb # frames) s = do {
     c \<leftarrow> r92su_rx_port_check bp skb s;
     rx_main E bp frames (if c = RX_DROP then rx_drop (Some skb) s else r92su_rx_deliver E skb s) }"

definition r92su_rx_handler ::
    "'w env \<Rightarrow> 'c crypto_api \<Rightarrow> r92su_bss_priv \<Rightarrow> rx_skb list \<Rightarrow> 'w r92su \<Rightarrow> 'w r92su option" where
  "r92su_rx_handler E C bp queue s = do {
     (frames, s) \<leftarrow> rx_prep E C bp queue [] s;
     rx_main E bp frames s }"

section \<open>The reorder buffer\<close>

text \<open>
  The third result is what the handler puts on the queue; on \<open>RX_DROP\<close> the frame stays with
  the caller.
\<close>

definition r92su_rx_reorder_ampdu ::
    "'w env \<Rightarrow> rx_skb \<Rightarrow> 'w r92su \<Rightarrow> (rx_control \<times> rx_skb list \<times> 'w r92su) option" where
  "r92su_rx_reorder_ampdu E skb s =
     (let K = kernel E; hdr = skb_data skb; fc = frame_control hdr in
      if \<not> ieee80211_is_data_qos K fc \<or> ieee80211_is_qos_nullfunc K fc then Some (RX_CONTINUE, [skb], s)
      else case ri_sta (skb_cb skb) of
        None \<Rightarrow> Some (RX_CONTINUE, [skb], s)
      | Some p \<Rightarrow> do {
          sta \<leftarrow> stas s p;
          i \<leftarrow> get_tid_h K hdr;
          slot \<leftarrow> (if i < length (sta_rx_tid sta) then Some (sta_rx_tid sta ! i) else None);
          (case slot of
             None \<Rightarrow> Some (RX_CONTINUE, [skb], s)
           | Some t \<Rightarrow> do {
               tid \<leftarrow> tids s t;
               (c, tid, queue) \<leftarrow> reorder_ampdu_locked K (jiffies s) tid (frame_seq hdr) skb [];
               Some (c, queue, s\<lparr>tids := (tids s)(t \<mapsto> tid)\<rparr>) }) })"

definition rx_front :: "'w env \<Rightarrow> r92su_bss_priv \<Rightarrow> bytes \<Rightarrow> rx_skb \<Rightarrow> 'w r92su \<Rightarrow> 'w rx_result" where
  "rx_front E bp rx skb s =
     RX_HANDLER (r92su_rx_hw_header_check E rx skb s) (\<lambda>skb s.
     RX_HANDLER (r92su_rx_find_sta E bp skb s) (\<lambda>skb s.
     RX_HANDLER (r92su_rx_deduplicate E skb s) (\<lambda>skb s.
     RX_HANDLER (r92su_rx_sta_stats rx skb s) (r92su_rx_handle_mgmt E))))"

definition r92su_rx_data :: "'w env \<Rightarrow> 'c crypto_api \<Rightarrow> bytes \<Rightarrow> rx_skb \<Rightarrow> 'w r92su \<Rightarrow> 'w r92su option" where
  "r92su_rx_data E C rx skb s =
     (case (if r92su_is_connected s then connect_bss s else None) of
        None \<Rightarrow> Some (rx_drop (Some skb) s)
      | Some b \<Rightarrow> do {
          bss \<leftarrow> bsss s b;
          let bp = cb_priv bss;
          (c, skb, s) \<leftarrow> rx_front E bp rx skb s;
          (case c of
             RX_QUEUE \<Rightarrow> Some s
           | RX_DROP \<Rightarrow> Some (rx_drop (Some skb) s)
           | RX_CONTINUE \<Rightarrow> do {
               (c, queue, s) \<leftarrow> r92su_rx_reorder_ampdu E skb s;
               (if c = RX_DROP
                then Some (dev_kfree_skb_any skb (skb_queue_purge queue (r92su_rx_dropped 1 s)))
                else r92su_rx_handler E C bp queue s) }) })"

definition r92su_reorder_tid_timer :: "'w env \<Rightarrow> 'c crypto_api \<Rightarrow> nat \<Rightarrow> 'w r92su \<Rightarrow> 'w r92su option" where
  "r92su_reorder_tid_timer E C t s = do {
     tid \<leftarrow> tids s t;
     (case (if r92su_is_connected s then connect_bss s else None, rt_sta tid) of
        (Some b, Some p) \<Rightarrow> do {
          bss \<leftarrow> bsss s b;
          (tid, frames) \<leftarrow> r92su_reorder_sta_release (kernel E) (jiffies s) tid [];
          r92su_rx_handler E C (cb_priv bss) frames (s\<lparr>tids := (tids s)(t \<mapsto> tid)\<rparr>) }
      | _ \<Rightarrow> Some s) }"

section \<open>Reassembly\<close>

definition hdr_len :: "kapi \<Rightarrow> 'cb sk_buff \<Rightarrow> nat" where
  "hdr_len K skb = ieee80211_hdrlen K (frame_control (skb_data skb))"

definition payload :: "kapi \<Rightarrow> 'cb sk_buff \<Rightarrow> bytes" where
  "payload K skb = drop (hdr_len K skb) (skb_data skb)"

text \<open>What the loop needs: complete headers, and headroom for all that it pushes.\<close>

definition frag_ok :: "kapi \<Rightarrow> 'cb sk_buff \<Rightarrow> bool" where
  "frag_ok K skb \<longleftrightarrow> 2 \<le> hdr_len K skb \<and> hdr_len K skb \<le> skb_len skb"

lemma hdr_len_prefix:
  "frag_ok K tmp \<Longrightarrow> skb_data skb = skb_data tmp @ xs \<Longrightarrow>
     hdr_len K skb = hdr_len K tmp \<and> frag_ok K skb \<and> payload K skb = payload K tmp @ xs"
  by (auto simp: hdr_len_def frag_ok_def payload_def frame_control_app)

lemma defrag_join_data:
  "\<forall>f \<in> set fs. frag_ok K f \<Longrightarrow> frag_ok K skb \<Longrightarrow> fs \<noteq> [] \<Longrightarrow>
   sum_list (map (\<lambda>f. length (payload K f)) fs) + hdr_len K (last fs) \<le> skb_headroom skb + hdr_len K skb \<Longrightarrow>
   (\<forall>f \<in> set fs. hdr_len K f \<le> hdr_len K (last fs)) \<Longrightarrow>
   \<exists>skb'. defrag_join K fs skb = Some skb' \<and>
     skb_data skb' = skb_data (last fs) @ concat (map (payload K) (rev (butlast fs))) @ payload K skb \<and>
     skb_cb skb' = skb_cb skb"
proof (induction fs arbitrary: skb)
  case (Cons f fs)
  let ?h = "hdr_len K skb"
  have f: "frag_ok K f" "?h \<le> skb_len skb" using Cons.prems(1,2) by (auto simp: frag_ok_def)
  obtain skb1 where pull: "skb_pull skb ?h = Some skb1" "skb_data skb1 = payload K skb"
    "skb_headroom skb1 = skb_headroom skb + ?h" "skb_cb skb1 = skb_cb skb"
    using f(2) by (simp add: skb_pull_def payload_def)
  have lf: "skb_len f = length (payload K f) + hdr_len K f" using f(1) by (simp add: payload_def frag_ok_def)
  have room: "skb_len f \<le> skb_headroom skb1"
    using Cons.prems(4,5) lf pull(3) by (cases "fs = []") (auto dest: bspec)
  then obtain skb2 where push: "skb_push skb1 (skb_len f) = Some skb2"
    "skb_data skb2 = drop (skb_headroom skb1 - skb_len f) (skb_head skb1) @ payload K skb"
    "skb_headroom skb2 = skb_headroom skb1 - skb_len f" "skb_cb skb2 = skb_cb skb"
    using pull by (simp add: skb_push_def)
  have wr: "wr_mem (skb_data skb2) 0 (skb_data f) = Some (skb_data f @ payload K skb)"
    using push(2) room by (simp add: wr_mem_def)
  let ?skb = "skb2\<lparr>skb_data := skb_data f @ payload K skb\<rparr>"
  have step: "defrag_join K (f # fs) skb = defrag_join K fs ?skb"
    using pull push wr by (simp add: hdr_len_def)
  have pre: "hdr_len K ?skb = hdr_len K f" "frag_ok K ?skb" "payload K ?skb = payload K f @ payload K skb"
    using hdr_len_prefix [OF f(1), of ?skb "payload K skb"] by auto
  show ?case
  proof (cases "fs = []")
    case True
    then show ?thesis using step push(4) by simp
  next
    case False
    have "\<exists>skb'. defrag_join K fs ?skb = Some skb' \<and>
        skb_data skb' = skb_data (last fs) @ concat (map (payload K) (rev (butlast fs))) @ payload K ?skb \<and>
        skb_cb skb' = skb_cb ?skb"
    proof (rule Cons.IH)
      show "sum_list (map (\<lambda>f. length (payload K f)) fs) + hdr_len K (last fs) \<le> skb_headroom ?skb + hdr_len K ?skb"
        using Cons.prems(4) False push(3) pull(3) lf pre(1) room by simp
    qed (use Cons.prems False pre in auto)
    then show ?thesis using step False pre(3) push(4) by simp
  qed
qed simp

text \<open>When the last fragment of a frame arrives and matches the queue, the frame that leaves is the
  first fragment, header and payload, followed by the payloads of the others in the order of their
  arrival, and the queue is empty.\<close>

lemma defrag_last:
  assumes sta: "ri_sta (skb_cb skb) = Some p" "stas s p = Some sta" "unat (skb_queue_mapping skb) < length (sta_defrag sta)"
      "sta_defrag sta ! unat (skb_queue_mapping skb) = e"
    and frag: "\<not> ieee80211_has_morefrags (kernel E) (frame_control (skb_data skb))" "frame_frag (skb_data skb) \<noteq> 0"
      "r92su_check_if_match s skb (df_queue e) (ri_key (skb_cb skb)) = Some True"
    and q: "df_queue e = f # fs" "\<forall>f \<in> set (df_queue e). frag_ok (kernel E) f" "frag_ok (kernel E) skb"
      "\<forall>g \<in> set fs. hdr_len (kernel E) g \<le> hdr_len (kernel E) f" "hdr_len (kernel E) f \<le> skb_headroom skb"
    and size: "df_size e = of_nat (sum_list (map (\<lambda>f. length (payload (kernel E) f)) (df_queue e)))"
      "hdr_len (kernel E) skb \<le> sum_list (map (\<lambda>f. length (payload (kernel E) f)) (df_queue e))"
      "sum_list (map (\<lambda>f. length (payload (kernel E) f)) (df_queue e)) < 2 ^ 31"
    and mem: "alloc_ok E (allocs s)"
  shows "\<exists>skb' t sta'. r92su_rx_defrag E skb s = Some (RX_CONTINUE, skb', t) \<and>
     skb_data skb' = skb_data f @ concat (map (payload (kernel E)) fs) @ payload (kernel E) skb \<and>
     stas t p = Some sta' \<and> df_queue (sta_defrag sta' ! unat (skb_queue_mapping skb)) = []"
proof -
  let ?K = "kernel E" and ?i = "unat (skb_queue_mapping skb)"
  let ?sum = "sum_list (map (\<lambda>f. length (payload ?K f)) (df_queue e))"
  let ?size = "df_size e + of_nat (skb_len skb) - of_nat (hdr_len ?K skb)"
  let ?n = "?sum - hdr_len ?K skb"
  have "?size - of_nat (skb_len skb) = (of_nat ?n :: u32)" using size(1,2) by (simp add: of_nat_diff)
  moreover have "sint (of_nat ?n :: u32) = int ?n"
  proof -
    have "?n < 2 ^ 31" using size(3) by simp
    then show ?thesis by (simp add: signed_of_nat signed_take_bit_int_eq_self)
  qed
  ultimately have n: "sint (?size - of_nat (skb_len skb)) = int ?n" by simp
  let ?skb = "skb\<lparr>skb_head := replicate ?n 0 @ skb_head skb\<rparr>"
  have same: "hdr_len ?K ?skb = hdr_len ?K skb" "payload ?K ?skb = payload ?K skb" "frag_ok ?K ?skb"
    using q(3) by (auto simp: hdr_len_def payload_def frag_ok_def)
  have l: "last (rev (df_queue e)) = f" "rev (butlast (rev (df_queue e))) = fs"
    by (simp_all add: q(1) butlast_rev)
  have "\<exists>skb'. defrag_join ?K (rev (df_queue e)) ?skb = Some skb' \<and>
     skb_data skb' = skb_data (last (rev (df_queue e))) @
       concat (map (payload ?K) (rev (butlast (rev (df_queue e))))) @ payload ?K ?skb \<and> skb_cb skb' = skb_cb ?skb"
  proof (rule defrag_join_data)
    show "sum_list (map (\<lambda>f. length (payload ?K f)) (rev (df_queue e))) + hdr_len ?K (last (rev (df_queue e)))
        \<le> skb_headroom ?skb + hdr_len ?K ?skb"
      using size(2) q(5) same(1) l(1) by (simp add: rev_map [symmetric] sum_list_rev)
  qed (use q same l in auto)
  then obtain skb' where j: "defrag_join ?K (rev (df_queue e)) ?skb = Some skb'"
    "skb_data skb' = skb_data f @ concat (map (payload ?K) fs) @ payload ?K skb"
    unfolding l same by blast
  have purge: "stas (skb_queue_purge xs u) = stas u" for xs :: "rx_skb list" and u :: "'a r92su"
    by (induction xs arbitrary: u) (simp_all add: skb_queue_purge_def dev_kfree_skb_any_def emit_def)
  have exp: "pskb_expand_head E skb (int ?n) 0 u = Some (0, ?skb, u\<lparr>allocs := allocs u + 1\<rparr>)"
    if "allocs u = allocs s" for u using mem that by (simp add: pskb_expand_head_def kmalloc_def)
  show ?thesis
    using sta frag n exp j(1) purge
    by (simp add: r92su_rx_defrag_def Let_def set_defrag_def hdr_len_def j(2))
qed

text \<open>
  A fragment of the frame with sequence number \<open>sn\<close> from station \<open>p\<close>, in the queue of access
  category \<open>i\<close>, decrypted with key \<open>k\<close>, whose header has \<open>n\<close> bytes.
\<close>

definition fragment_of :: "kapi \<Rightarrow> nat \<Rightarrow> nat \<Rightarrow> nat option \<Rightarrow> u16 \<Rightarrow> nat \<Rightarrow> rx_skb \<Rightarrow> bool" where
  "fragment_of K p i k sn n f \<longleftrightarrow> ri_sta (skb_cb f) = Some p \<and> unat (skb_queue_mapping f) = i \<and>
     ri_key (skb_cb f) = k \<and> frame_seq (skb_data f) = sn \<and> hdr_len K f = n \<and> 2 \<le> n \<and> n \<le> skb_len f"

text \<open>The handler on all fragments but the last, which it keeps.\<close>

fun defrag_queue :: "'w env \<Rightarrow> rx_skb list \<Rightarrow> 'w r92su \<Rightarrow> 'w r92su option" where
  "defrag_queue E [] s = Some s"
| "defrag_queue E (f # fs) s = do {
     (c, f, s) \<leftarrow> r92su_rx_defrag E f s;
     (if c = RX_QUEUE then defrag_queue E fs s else None) }"

definition frags_queued :: "rx_skb list \<Rightarrow> rx_skb list" where
  "frags_queued xs = map (\<lambda>f. f\<lparr>skb_cb := rx_info_zero\<rparr>) xs"

definition frags_total :: "kapi \<Rightarrow> rx_skb list \<Rightarrow> nat" where
  "frags_total K xs = sum_list (map (\<lambda>f. length (payload K f)) xs)"

definition defrag_state :: "kapi \<Rightarrow> nat \<Rightarrow> nat \<Rightarrow> rx_skb list \<Rightarrow> 'w r92su \<Rightarrow> bool" where
  "defrag_state K p i xs s \<longleftrightarrow> (\<exists>sta. stas s p = Some sta \<and> i < length (sta_defrag sta) \<and>
     sta_defrag sta ! i = \<lparr>df_queue = frags_queued xs, df_size = of_nat (frags_total K xs)\<rparr>)"

lemma frag_cb_simps [simp]:
  "payload K (f\<lparr>skb_cb := c\<rparr>) = payload K f" "hdr_len K (f\<lparr>skb_cb := c\<rparr>) = hdr_len K f"
  "frag_ok K (f\<lparr>skb_cb := c\<rparr>) = frag_ok K f"
  by (simp_all add: payload_def hdr_len_def frag_ok_def)

lemma purge_keeps [simp]:
  "stas (skb_queue_purge xs u) = stas u" "keys (skb_queue_purge xs u) = keys u" "allocs (skb_queue_purge xs u) = allocs u"
  by (induction xs arbitrary: u) (simp_all add: skb_queue_purge_def dev_kfree_skb_any_def emit_def)

lemma frags_total_snoc:
  "fragment_of K p i k sn n f \<Longrightarrow>
   (of_nat (frags_total K xs) + of_nat (skb_len f) - of_nat (ieee80211_hdrlen K (frame_control (skb_data f))) :: u32) =
     of_nat (frags_total K (xs @ [f]))"
  by (auto simp: fragment_of_def frags_total_def payload_def hdr_len_def)

lemma defrag_first:
  assumes sta: "stas s p = Some sta" "i < length (sta_defrag sta)" and f: "fragment_of (kernel E) p i k sn n f"
    and more: "ieee80211_has_morefrags (kernel E) (frame_control (skb_data f))" "frame_frag (skb_data f) = 0"
  shows "\<exists>t. r92su_rx_defrag E f s = Some (RX_QUEUE, f, t) \<and> defrag_state (kernel E) p i [f] t \<and>
     keys t = keys s \<and> allocs t = allocs s"
  using sta more f frags_total_snoc [OF f, of "[]"]
  by (auto simp: r92su_rx_defrag_def Let_def fragment_of_def r92su_defrag_drop_def r92su_defrag_add_def set_defrag_def
      r92su_rx_dropped_def defrag_state_def frags_queued_def frags_total_def)

lemma check_match:
  assumes "xs \<noteq> []" "fragment_of K p i k sn n (last xs)" "fragment_of K p i k sn n f"
    and key: "\<And>k'. k = Some k' \<Longrightarrow> \<exists>key. keys s k' = Some key \<and> key_type key \<noteq> AESCCMP_ENCRYPTION"
  shows "r92su_check_if_match s f (frags_queued xs) (ri_key (skb_cb f)) = Some True"
proof -
  obtain y ys where q: "frags_queued xs = y # ys" using assms(1) by (cases xs) (auto simp: frags_queued_def)
  have "last (frags_queued xs) = (last xs)\<lparr>skb_cb := rx_info_zero\<rparr>" using assms(1) by (simp add: frags_queued_def last_map)
  then have "skb_data (last (y # ys)) = skb_data (last xs)" by (simp add: q)
  then show ?thesis using assms(2,3) key
    by (auto simp: r92su_check_if_match_def q Let_def fragment_of_def simp del: last.simps split: option.split)
qed

lemma defrag_next:
  assumes state: "defrag_state (kernel E) p i xs s" "xs \<noteq> []" "fragment_of (kernel E) p i k sn n (last xs)"
    and f: "fragment_of (kernel E) p i k sn n f"
    and more: "ieee80211_has_morefrags (kernel E) (frame_control (skb_data f))" "frame_frag (skb_data f) \<noteq> 0"
    and key: "\<And>k'. k = Some k' \<Longrightarrow> \<exists>key. keys s k' = Some key \<and> key_type key \<noteq> AESCCMP_ENCRYPTION"
  shows "\<exists>t. r92su_rx_defrag E f s = Some (RX_QUEUE, f, t) \<and> defrag_state (kernel E) p i (xs @ [f]) t \<and>
     keys t = keys s \<and> allocs t = allocs s"
proof -
  have m: "r92su_check_if_match s f (frags_queued xs) (ri_key (skb_cb f)) = Some True"
    by (rule check_match [OF state(2,3) f key])
  obtain sta where sta: "stas s p = Some sta" "i < length (sta_defrag sta)"
    "sta_defrag sta ! i = \<lparr>df_queue = frags_queued xs, df_size = of_nat (frags_total (kernel E) xs)\<rparr>"
    using state(1) by (auto simp: defrag_state_def)
  show ?thesis
    using sta f more m frags_total_snoc [OF f, of xs]
    by (auto simp: r92su_rx_defrag_def Let_def fragment_of_def r92su_defrag_add_def set_defrag_def defrag_state_def frags_queued_def)
qed

lemma defrag_queue_state:
  assumes "defrag_state (kernel E) p i xs s" "xs \<noteq> []" "fragment_of (kernel E) p i k sn n (last xs)"
    and "\<forall>f \<in> set fs. fragment_of (kernel E) p i k sn n f \<and>
       ieee80211_has_morefrags (kernel E) (frame_control (skb_data f)) \<and> frame_frag (skb_data f) \<noteq> 0"
    and "\<And>k'. k = Some k' \<Longrightarrow> \<exists>key. keys s k' = Some key \<and> key_type key \<noteq> AESCCMP_ENCRYPTION"
  shows "\<exists>t. defrag_queue E fs s = Some t \<and> defrag_state (kernel E) p i (xs @ fs) t \<and> keys t = keys s \<and> allocs t = allocs s"
  using assms
proof (induction fs arbitrary: xs s)
  case (Cons f fs)
  obtain u where u: "r92su_rx_defrag E f s = Some (RX_QUEUE, f, u)" "defrag_state (kernel E) p i (xs @ [f]) u"
    "keys u = keys s" "allocs u = allocs s"
    using defrag_next [OF Cons.prems(1-3) _ _ _ Cons.prems(5), of f] Cons.prems(4) by auto
  have "\<exists>t. defrag_queue E fs u = Some t \<and> defrag_state (kernel E) p i ((xs @ [f]) @ fs) t \<and> keys t = keys u \<and> allocs t = allocs u"
    by (rule Cons.IH [OF u(2)]) (use Cons.prems(4,5) u(3) in auto)
  then show ?case using u by auto
qed auto

text \<open>C14. A fragmented frame of a station, without encryption or under a WEP or TKIP key: two to
  sixteen fragments with the same sequence number and the numbers 0, 1, 2 and so on, all but the last
  marked as having a successor, arrive one after the other, whatever the queue of their access category
  holds before. The handler keeps all but the last and turns the last into the frame: the first fragment,
  header and payload, followed by the payloads of the others in order; the queue is empty again. The
  headers have the same length, which the last fragment has as head room, the kept payloads are
  together at least as long as a header (with less the driver asks for a negative room) and shorter than 2 GB, and
  memory is available. CCMP is excluded: there the packet number of a kept fragment is lost.\<close>

theorem defrag_reassembles:
  assumes sta: "stas s p = Some sta" "i < length (sta_defrag sta)"
    and frames: "\<forall>x \<in> set (f # fs @ [skb]). fragment_of (kernel E) p i k sn n x"
    and numbers: "map (\<lambda>x. frame_frag (skb_data x)) (f # fs @ [skb]) = map of_nat [0..<length fs + 2]" "length fs + 2 \<le> 16"
    and more: "\<forall>x \<in> set (f # fs). ieee80211_has_morefrags (kernel E) (frame_control (skb_data x))"
      "\<not> ieee80211_has_morefrags (kernel E) (frame_control (skb_data skb))"
    and key: "\<And>k'. k = Some k' \<Longrightarrow> \<exists>key. keys s k' = Some key \<and> key_type key \<noteq> AESCCMP_ENCRYPTION"
    and size: "n \<le> sum_list (map (\<lambda>f. length (payload (kernel E) f)) (f # fs))"
      "sum_list (map (\<lambda>f. length (payload (kernel E) f)) (f # fs)) < 2 ^ 31"
    and room: "n \<le> skb_headroom skb" and mem: "alloc_ok E (allocs s)"
  shows "\<exists>s' skb' t sta'. defrag_queue E (f # fs) s = Some s' \<and>
     r92su_rx_defrag E skb s' = Some (RX_CONTINUE, skb', t) \<and>
     skb_data skb' = skb_data f @ concat (map (payload (kernel E)) fs) @ payload (kernel E) skb \<and>
     stas t p = Some sta' \<and> df_queue (sta_defrag sta' ! i) = []"
proof -
  let ?K = "kernel E"
  have nr: "frame_frag (skb_data ((f # fs @ [skb]) ! j)) = of_nat j" if "j < length fs + 2" for j
  proof -
    have "map (\<lambda>x. frame_frag (skb_data x)) (f # fs @ [skb]) ! j = map of_nat [0..<length fs + 2] ! j"
      by (simp only: numbers(1))
    then show ?thesis using that by (subst (asm) (1 2) nth_map) (simp_all del: upt_Suc)
  qed
  have nz: "frame_frag (skb_data ((f # fs @ [skb]) ! j)) \<noteq> 0" if "0 < j" "j < length fs + 2" for j
  proof -
    have "unat (of_nat j :: u16) = j" using that numbers(2) by (simp add: unat_of_nat take_bit_nat_eq_self)
    then show ?thesis using nr [OF that(2)] that(1) by (metis unat_0 less_irrefl)
  qed
  have f0: "frame_frag (skb_data f) = 0" using nr [of 0] by simp
  have mid: "\<forall>x \<in> set fs. frame_frag (skb_data x) \<noteq> 0"
  proof
    fix x assume "x \<in> set fs"
    then obtain j where "j < length fs" "x = fs ! j" by (auto simp: in_set_conv_nth)
    then show "frame_frag (skb_data x) \<noteq> 0" using nz [of "Suc j"] by (simp add: nth_append)
  qed
  have fin: "frame_frag (skb_data skb) \<noteq> 0" using nz [of "Suc (length fs)"] by (simp add: nth_append)
  obtain u where u: "r92su_rx_defrag E f s = Some (RX_QUEUE, f, u)" "defrag_state ?K p i [f] u" "keys u = keys s" "allocs u = allocs s"
    using defrag_first [OF sta, of E k sn n f] frames more(1) f0 by auto
  have "\<exists>t. defrag_queue E fs u = Some t \<and> defrag_state ?K p i ([f] @ fs) t \<and> keys t = keys u \<and> allocs t = allocs u"
    by (rule defrag_queue_state [OF u(2), of k sn n]) (use frames more(1) mid key u(3) in auto)
  then obtain v where v: "defrag_queue E fs u = Some v" "defrag_state ?K p i (f # fs) v" "keys v = keys s" "allocs v = allocs s"
    using u(3,4) by auto
  obtain sta2 where sta2: "stas v p = Some sta2" "i < length (sta_defrag sta2)"
    "sta_defrag sta2 ! i = \<lparr>df_queue = frags_queued (f # fs), df_size = of_nat (frags_total ?K (f # fs))\<rparr>"
    using v(2) by (auto simp: defrag_state_def)
  let ?e = "\<lparr>df_queue = frags_queued (f # fs), df_size = of_nat (frags_total ?K (f # fs))\<rparr>"
  let ?c = "\<lambda>f :: rx_skb. f\<lparr>skb_cb := rx_info_zero\<rparr>"
  have last: "fragment_of ?K p i k sn n (last (f # fs))" "fragment_of ?K p i k sn n skb" using frames by auto
  have i: "unat (skb_queue_mapping skb) = i" "ri_sta (skb_cb skb) = Some p" using last(2) by (simp_all add: fragment_of_def)
  have match: "r92su_check_if_match v skb (df_queue ?e) (ri_key (skb_cb skb)) = Some True"
    using check_match [OF _ last, of v] key v(3) by simp
  have ok: "\<forall>x \<in> set (f # fs @ [skb]). frag_ok ?K x \<and> hdr_len ?K x = n"
    using frames by (auto simp: fragment_of_def frag_ok_def)
  have tot: "sum_list (map (\<lambda>f. length (payload ?K f)) (df_queue ?e)) = frags_total ?K (f # fs)"
    by (simp add: frags_queued_def frags_total_def comp_def)
  have "\<exists>skb' t sta'. r92su_rx_defrag E skb v = Some (RX_CONTINUE, skb', t) \<and>
     skb_data skb' = skb_data (?c f) @ concat (map (payload ?K) (frags_queued fs)) @ payload ?K skb \<and>
     stas t p = Some sta' \<and> df_queue (sta_defrag sta' ! unat (skb_queue_mapping skb)) = []"
  proof (rule defrag_last [OF i(2) sta2(1) _ _ more(2) fin match])
    show "df_queue ?e = ?c f # frags_queued fs" by (simp add: frags_queued_def)
    show "\<forall>x \<in> set (df_queue ?e). frag_ok ?K x" "frag_ok ?K skb" using ok by (auto simp: frags_queued_def)
    show "\<forall>g \<in> set (frags_queued fs). hdr_len ?K g \<le> hdr_len ?K (?c f)" using ok by (auto simp: frags_queued_def)
    show "hdr_len ?K (?c f) \<le> skb_headroom skb" using ok room by simp
    show "df_size ?e = of_nat (sum_list (map (\<lambda>f. length (payload ?K f)) (df_queue ?e)))" unfolding tot by simp
    show "hdr_len ?K skb \<le> sum_list (map (\<lambda>f. length (payload ?K f)) (df_queue ?e))"
      "sum_list (map (\<lambda>f. length (payload ?K f)) (df_queue ?e)) < 2 ^ 31"
      unfolding tot using ok size by (simp_all add: frags_total_def)
  qed (use sta2 i mem v(4) in simp_all)
  moreover have "concat (map (payload ?K) (frags_queued fs)) = concat (map (payload ?K) fs)" by (simp add: frags_queued_def comp_def)
  ultimately show ?thesis using u(1) v(1) i(1) by fastforce
qed

definition demo_frag :: "u8 \<Rightarrow> u8 \<Rightarrow> bytes \<Rightarrow> rx_skb" where
  "demo_frag fc1 frag pl = demo_rx_skb ([8, fc1, 0,0, 1,2,3,4,5,6, 7,8,9,10,11,12, 13,14,15,16,17,18, 16 + frag, 0] @ pl)
     (rx_info_zero\<lparr>ri_sta := Some 0\<rparr>)"

lemma demo_frag:
  "skb_data (demo_frag fc1 frag pl) = [8, fc1, 0,0, 1,2,3,4,5,6, 7,8,9,10,11,12, 13,14,15,16,17,18, 16 + frag, 0] @ pl"
  "skb_cb (demo_frag fc1 frag pl) = rx_info_zero\<lparr>ri_sta := Some 0\<rparr>" "skb_queue_mapping (demo_frag fc1 frag pl) = 0"
  "skb_headroom (demo_frag fc1 frag pl) = 32"
  by (simp_all add: demo_frag_def demo_rx_skb_def)

lemma demo_frag_hdr:
  "frame_control (skb_data (demo_frag fc1 frag pl)) = le16 8 fc1" "seq_ctrl (skb_data (demo_frag fc1 frag pl)) = le16 (16 + frag) 0"
  by (simp_all add: demo_frag frame_control_def seq_ctrl_def)

theorem defrag_reassembles_witness:
  "\<exists>s' skb' t. defrag_queue reg_env [demo_frag 4 0 (replicate 30 1), demo_frag 4 1 [7, 8]]
        ((r92su_zero (\<lambda>x. 0))\<lparr>stas := [0 \<mapsto> sta_new (replicate 6 7) 5 5 0]\<rparr>) = Some s' \<and>
     r92su_rx_defrag reg_env (demo_frag 0 2 [5, 6]) s' = Some (RX_CONTINUE, skb', t) \<and>
     drop 24 (skb_data skb') = replicate 30 1 @ [7, 8] @ [5, 6]"
proof -
  let ?f = "demo_frag 4 0 (replicate 30 1)" and ?g = "demo_frag 4 1 [7, 8]" and ?l = "demo_frag 0 2 [5, 6]"
  let ?s = "(r92su_zero ((\<lambda>x. 0) :: u16 \<Rightarrow> u8))\<lparr>stas := [0 \<mapsto> sta_new (replicate 6 7) 5 5 0]\<rparr>"
  have k: "kernel reg_env = linux_kapi" by (simp add: reg_env_def)
  have fc: "le16 8 4 = 0x408" "le16 8 0 = 8" "le16 16 0 = 16" "le16 17 0 = 17" "le16 18 0 = 18" by (simp_all add: le16_def)
  have h: "hdr_len linux_kapi ?f = 24" "hdr_len linux_kapi ?g = 24" "hdr_len linux_kapi ?l = 24"
    by (simp_all add: hdr_len_def demo_frag_hdr fc)
  have len: "skb_len ?f = 54" "skb_len ?g = 26" "skb_len ?l = 26" by (simp_all add: demo_frag)
  have pay: "length (payload linux_kapi ?f) = 30" "length (payload linux_kapi ?g) = 2" by (simp_all add: payload_def h len)
  have "\<exists>s' skb' t sta'. defrag_queue reg_env (?f # [?g]) ?s = Some s' \<and>
     r92su_rx_defrag reg_env ?l s' = Some (RX_CONTINUE, skb', t) \<and>
     skb_data skb' = skb_data ?f @ concat (map (payload (kernel reg_env)) [?g]) @ payload (kernel reg_env) ?l \<and>
     stas t 0 = Some sta' \<and> df_queue (sta_defrag sta' ! 0) = []"
  proof (rule defrag_reassembles [where k = None and sn = 1 and n = 24])
    show "stas ?s 0 = Some (sta_new (replicate 6 7) 5 5 0)" "0 < length (sta_defrag (sta_new (replicate 6 7) 5 5 0))"
      by (simp_all add: sta_new_def)
    show "\<forall>x \<in> set (?f # [?g] @ [?l]). fragment_of (kernel reg_env) 0 0 None 1 24 x"
      by (simp add: fragment_of_def k h len demo_frag(2,3) frame_seq_def demo_frag_hdr fc rx_info_zero_def)
    show "map (\<lambda>x. frame_frag (skb_data x)) (?f # [?g] @ [?l]) = map of_nat [0..<length [?g] + 2]"
      by (simp add: frame_frag_def demo_frag_hdr fc upt_rec)
    show "\<forall>x \<in> set (?f # [?g]). ieee80211_has_morefrags (kernel reg_env) (frame_control (skb_data x))"
      "\<not> ieee80211_has_morefrags (kernel reg_env) (frame_control (skb_data ?l))"
      by (simp_all add: k demo_frag_hdr fc)
    show "alloc_ok reg_env (allocs ?s)" by (simp add: reg_env_def)
  qed (simp_all add: k pay demo_frag(4))
  then show ?thesis by (fastforce simp: payload_def k h demo_frag(1))
qed

section \<open>Duplicates\<close>

text \<open>A frame that has passed the duplicate check is dropped when it arrives again from the same
  station with the same traffic class, and counted as a duplicate.\<close>

theorem duplicate_dropped:
  assumes inv: "stas s p = Some sta" "length (sta_rx_seq_tid sta) = IEEE80211_NUM_TIDS"
    and skb: "ri_sta (skb_cb skb) = Some p" and first: "r92su_rx_deduplicate E skb s = Some (RX_CONTINUE, skb, t)"
  shows "\<exists>u sta'. r92su_rx_deduplicate E skb t = Some (RX_DROP, skb, u) \<and> stas u p = Some sta' \<and>
     sta_drop_dup sta' = sta_drop_dup sta + 1"
proof (cases "ieee80211_is_data_qos (kernel E) (frame_control (skb_data skb))")
  case True
  with first obtain tid where tid: "get_tid_h (kernel E) (skb_data skb) = Some tid" "tid < length (sta_rx_seq_tid sta)"
    and t: "t = s\<lparr>stas := (stas s)(p \<mapsto> sta\<lparr>sta_rx_seq_tid := (sta_rx_seq_tid sta)[tid := seq_ctrl (skb_data skb)]\<rparr>)\<rparr>"
    using inv(1) skb by (auto simp: r92su_rx_deduplicate_def Let_def Option.bind_eq_Some_conv split: if_splits)
  show ?thesis using tid skb True by (simp add: r92su_rx_deduplicate_def t Let_def)
next
  case False
  with first have "t = s\<lparr>stas := (stas s)(p \<mapsto> sta\<lparr>sta_rx_seq := seq_ctrl (skb_data skb)\<rparr>)\<rparr>"
    using inv(1) skb by (auto simp: r92su_rx_deduplicate_def Let_def split: if_splits)
  then show ?thesis using skb False by (simp add: r92su_rx_deduplicate_def Let_def)
qed

theorem duplicate_dropped_witness:
  "\<exists>t u. r92su_rx_deduplicate reg_env (demo_frag 0 0 []) ((r92su_zero (\<lambda>x. 0))\<lparr>stas := [0 \<mapsto> sta_new (replicate 6 7) 5 5 0]\<rparr>)
      = Some (RX_CONTINUE, demo_frag 0 0 [], t) \<and>
     r92su_rx_deduplicate reg_env (demo_frag 0 0 []) t = Some (RX_DROP, demo_frag 0 0 [], u)"
proof -
  let ?s = "(r92su_zero (\<lambda>x. 0 :: u8))\<lparr>stas := [0 \<mapsto> sta_new (replicate 6 7) 5 5 0]\<rparr>"
  obtain t where t: "r92su_rx_deduplicate reg_env (demo_frag 0 0 []) ?s = Some (RX_CONTINUE, demo_frag 0 0 [], t)"
    by (simp add: r92su_rx_deduplicate_def demo_frag(2) demo_frag_hdr le16_def reg_env_def sta_new_def Let_def)
  from duplicate_dropped [OF _ _ _ t, of 0 "sta_new (replicate 6 7) 5 5 0"] t show ?thesis
    by (auto simp: demo_frag(2) sta_new_def)
qed

text \<open>
  The check starts from zero, so the first frame of a station with sequence number and fragment
  number zero is taken for a duplicate.
\<close>

lemma first_frame_dropped:
  assumes "stas s p = Some (sta_new mac m aid up)" "ri_sta (skb_cb skb) = Some p" "seq_ctrl (skb_data skb) = 0"
    "\<not> ieee80211_is_data_qos (kernel E) (frame_control (skb_data skb))"
  shows "\<exists>t. r92su_rx_deduplicate E skb s = Some (RX_DROP, skb, t)"
  using assms by (simp add: r92su_rx_deduplicate_def Let_def sta_new_def)


section \<open>Arbitrary frames\<close>

text \<open>The accessor of the source address points to one of the four addresses.\<close>

definition sa_ok :: "kapi \<Rightarrow> bool" where
  "sa_ok K \<longleftrightarrow> (\<forall>fc. ieee80211_SA_off K fc + 6 \<le> 30)"

lemma sa_ok_linux: "sa_ok linux_kapi"
  by (simp add: sa_ok_def)

definition sta_wf :: "(nat \<rightharpoonup> r92su_sta) \<Rightarrow> bool" where
  "sta_wf h \<longleftrightarrow> (\<forall>p a. h p = Some a \<longrightarrow>
     length (sta_rx_seq_tid a) = IEEE80211_NUM_TIDS \<and> length (sta_defrag a) = NUM_ACS)"

text \<open>What a handler keeps, and what it grants to the next one.\<close>

definition rx_ok :: "(rx_skb \<Rightarrow> 'w r92su \<Rightarrow> bool) \<Rightarrow> 'w rx_result \<Rightarrow> bool" where
  "rx_ok P r \<longleftrightarrow> (\<exists>c skb s. r = Some (c, skb, s) \<and> (c = RX_CONTINUE \<longrightarrow> P skb s))"

lemma RX_HANDLER_ok:
  "rx_ok P m \<Longrightarrow> (\<And>skb s. P skb s \<Longrightarrow> rx_ok Q (f skb s)) \<Longrightarrow> rx_ok Q (RX_HANDLER m f)"
  unfolding rx_ok_def RX_HANDLER_def by fastforce

definition checked :: "'w env \<Rightarrow> 'w r92su \<Rightarrow> rx_skb \<Rightarrow> 'w r92su \<Rightarrow> bool" where
  "checked E s0 skb s \<longleftrightarrow> 30 \<le> skb_len skb \<and> hdr_len (kernel E) skb \<le> skb_len skb \<and>
     dom (stas s) = dom (stas s0) \<and> sta_wf (stas s) \<and> stas s = stas s0 \<and> sta_list s = sta_list s0 \<and> n_bitrates s = n_bitrates s0"

definition checked_sta :: "'w env \<Rightarrow> 'w r92su \<Rightarrow> rx_skb \<Rightarrow> 'w r92su \<Rightarrow> bool" where
  "checked_sta E s0 skb s \<longleftrightarrow> 30 \<le> skb_len skb \<and> hdr_len (kernel E) skb \<le> skb_len skb \<and>
     dom (stas s) = dom (stas s0) \<and> sta_wf (stas s) \<and> n_bitrates s = n_bitrates s0 \<and>
     (\<exists>p \<in> dom (stas s). ri_sta (skb_cb skb) = Some p)"

lemma qos_readable:
  assumes "hdr_ok K" "ieee80211_is_data_qos K (frame_control d)" "ieee80211_hdrlen K (frame_control d) \<le> length d"
  shows "\<exists>q. qos_ctl0 K d = Some q"
proof -
  have "ieee80211_qos_ctl_off K (frame_control d) + 2 \<le> ieee80211_hdrlen K (frame_control d)"
    using assms(1,2) by (simp add: hdr_ok_def)
  then show ?thesis using assms(3) by (simp add: qos_ctl0_def rd8_def)
qed

lemma priority_lt: "unat (q AND 7 :: u8) < 8"
proof -
  have "q AND 7 \<le> 7" by (rule word_and_le1)
  then have "unat (q AND 7) \<le> unat (7 :: u8)" by (simp only: word_le_nat_alt)
  then show ?thesis by simp
qed

lemma header_check_ok:
  assumes "hdr_ok (kernel E)" "sta_wf (stas s)"
  shows "rx_ok (checked E s) (r92su_rx_hw_header_check E rx skb s)"
proof (cases "skb_len skb < 34")
  case False
  let ?d = "take (skb_len skb - 4) (skb_data skb)"
  have len: "length ?d = skb_len skb - 4" "30 \<le> skb_len skb - 4" using False by auto
  show ?thesis
  proof (cases "ieee80211_hdrlen (kernel E) (frame_control ?d) \<le> length ?d")
    case True
    have "\<exists>ac skb'. r92su_get_priority (kernel E) (skb_trim skb (skb_len skb - 4) \<lparr>skb_cb := rx_info_zero\<rparr>) = Some (ac, skb') \<and>
        skb_data skb' = ?d"
      using qos_readable [OF assms(1) _ True] by (fastforce simp: r92su_get_priority_def)
    then show ?thesis
      using False len True assms(2)
      by (auto simp: rx_ok_def r92su_rx_hw_header_check_def Let_def checked_def hdr_len_def)
  next
    case False2: False
    then show ?thesis using False len by (auto simp: rx_ok_def r92su_rx_hw_header_check_def Let_def)
  qed
qed (simp add: rx_ok_def r92su_rx_hw_header_check_def)

lemma find_sta_ok:
  assumes "sa_ok (kernel E)" "owned full s0" "bp_sta bp = Some b" "b \<in> dom (stas s0)" "checked E s0 skb s"
  shows "rx_ok (checked_sta E s0) (r92su_rx_find_sta E bp skb s)"
proof -
  have "ieee80211_SA_off (kernel E) (frame_control (skb_data skb)) + 6 \<le> skb_len skb"
  proof -
    have "ieee80211_SA_off (kernel E) (frame_control (skb_data skb)) \<le> 24"
      using assms(1) by (simp add: sa_ok_def)
    moreover have "30 \<le> skb_len skb" using assms(5) by (simp add: checked_def)
    ultimately show ?thesis by linarith
  qed
  then obtain sa where sa: "ieee80211_get_SA (kernel E) (skb_data skb) = Some sa"
    by (simp add: ieee80211_get_SA_def rd_mem_def)
  obtain r where "r92su_sta_get s sa = Some r" "\<And>p. r = Some p \<Longrightarrow> p \<in> dom (stas s0)"
    using sta_get_ok [OF assms(2), of "\<lambda>a. sta_mac_addr a = take 6 sa"] assms(5)
    by (auto simp: r92su_sta_get_def checked_def)
  then show ?thesis
    using sa assms(3-5)
    by (cases r) (auto simp: rx_ok_def r92su_rx_find_sta_def checked_def checked_sta_def hdr_len_def)
qed

lemma dedup_ok:
  assumes "hdr_ok (kernel E)" "checked_sta E s0 skb s"
  shows "rx_ok (checked_sta E s0) (r92su_rx_deduplicate E skb s)"
proof -
  from assms(2) obtain p a where p: "ri_sta (skb_cb skb) = Some p" "stas s p = Some a"
    by (auto simp: checked_sta_def)
  have wf: "length (sta_rx_seq_tid a) = 16" "length (sta_defrag a) = 4" "sta_wf (stas s)" "dom (stas s) = dom (stas s0)"
    using assms(2) p(2) by (auto simp: checked_sta_def sta_wf_def)
  have upd: "sta_wf ((stas s)(p \<mapsto> a\<lparr>sta_drop_dup := x\<rparr>))" "sta_wf ((stas s)(p \<mapsto> a\<lparr>sta_rx_seq := y\<rparr>))"
    "sta_wf ((stas s)(p \<mapsto> a\<lparr>sta_rx_seq_tid := (sta_rx_seq_tid a)[i := y]\<rparr>))" for x y i
    using wf by (auto simp: sta_wf_def)
  have dom: "dom ((stas s)(p \<mapsto> z)) = dom (stas s0)" for z using p(2) wf(4) by auto
  have base: "30 \<le> skb_len skb" "hdr_len (kernel E) skb \<le> skb_len skb" "n_bitrates s = n_bitrates s0"
    using assms(2) by (auto simp: checked_sta_def)
  show ?thesis
  proof (cases "ieee80211_is_data_qos (kernel E) (frame_control (skb_data skb))")
    case True
    obtain q where q: "qos_ctl0 (kernel E) (skb_data skb) = Some q"
      using qos_readable [OF assms(1) True] base(2) by (auto simp: hdr_len_def)
    have "unat (q AND 15) < 16"
    proof -
      have "q AND 15 \<le> 15" by (rule word_and_le1)
      then have "unat (q AND 15) \<le> unat (15 :: u8)" by (simp only: word_le_nat_alt)
      then show ?thesis by simp
    qed
    then show ?thesis
      using True q p wf upd dom base
      by (auto simp: rx_ok_def r92su_rx_deduplicate_def get_tid_h_def Let_def checked_sta_def)
  next
    case False
    then show ?thesis
      using p wf upd dom base by (auto simp: rx_ok_def r92su_rx_deduplicate_def Let_def checked_sta_def)
  qed
qed

lemma sta_stats_ok:
  assumes "GET_RX_DESC_RX_HT rx \<noteq> 0 \<or> unat (GET_RX_DESC_RX_MCS rx) < 12" "n_bitrates s0 = 12" "checked_sta E s0 skb s"
  shows "rx_ok (checked_sta E s0) (r92su_rx_sta_stats rx skb s)"
proof -
  from assms(3) obtain p a where p: "ri_sta (skb_cb skb) = Some p" "stas s p = Some a"
    by (auto simp: checked_sta_def)
  have wf: "length (sta_rx_seq_tid a) = 16" "length (sta_defrag a) = 4" "sta_wf (stas s)" "dom (stas s) = dom (stas s0)"
    using assms(3) p(2) by (auto simp: checked_sta_def sta_wf_def)
  have pd: "p \<in> dom (stas s0)" using p(2) wf(4) by auto
  have "sta_wf ((stas s)(p \<mapsto> a\<lparr>sta_last_rx_rate_bw := z, sta_last_rx_rate_flag := y, sta_last_rx_rate := x\<rparr>))" for x y z
    using wf by (auto simp: sta_wf_def)
  moreover have "dom ((stas s)(p \<mapsto> z)) = dom (stas s0)" for z using p(2) wf(4) by auto
  moreover have "GET_RX_DESC_RX_HT rx = 0 \<Longrightarrow> \<exists>r. bitrate_of s (GET_RX_DESC_RX_MCS rx) = Some r"
    using assms by (auto simp: bitrate_of_def r92su_ratetable_def checked_sta_def)
  ultimately show ?thesis
    using p assms(3) pd
    by (cases "GET_RX_DESC_RX_HT rx = 0") (auto simp: rx_ok_def r92su_rx_sta_stats_def Let_def checked_sta_def)
qed

lemma rx_front_total:
  assumes "hdr_ok (kernel E)" "sa_ok (kernel E)" "owned full s" "n_bitrates s = 12"
    and "bp_sta bp = Some b" "b \<in> dom (stas s)"
    and "GET_RX_DESC_RX_HT rx \<noteq> 0 \<or> unat (GET_RX_DESC_RX_MCS rx) < 12"
  shows "rx_front E bp rx skb s \<noteq> None"
proof -
  have wf: "sta_wf (stas s)" using assms(3) by (auto simp: owned_def sta_inv_def sta_wf_def)
  have "rx_ok (\<lambda>_ _. True) (rx_front E bp rx skb s)"
    unfolding rx_front_def
  proof (rule RX_HANDLER_ok [OF header_check_ok [OF assms(1) wf]], rule RX_HANDLER_ok [OF find_sta_ok [OF assms(2,3,5,6)]],
      assumption, rule RX_HANDLER_ok [OF dedup_ok [OF assms(1)]], assumption,
      rule RX_HANDLER_ok [OF sta_stats_ok [OF assms(7,4)]], assumption)
    show "rx_ok (\<lambda>_ _. True) (r92su_rx_handle_mgmt E f t)" for f t
      by (simp add: rx_ok_def r92su_rx_handle_mgmt_def)
  qed
  then show ?thesis by (auto simp: rx_ok_def)
qed

text \<open>C19. Whatever bytes and descriptor the device delivers, the handlers in front of the reorder
  buffer stay inside the frame and follow no dangling pointer, if the station heaps are in order, the
  network's station is alive and the reported legacy rate is one of the twelve that exist.\<close>

theorem rx_front_safe:
  assumes "hdr_ok (kernel E)" "sa_ok (kernel E)" "owned full s" "n_bitrates s = 12"
    and "bp_sta bp = Some b" "b \<in> dom (stas s)"
    and "GET_RX_DESC_RX_HT rx \<noteq> 0 \<or> unat (GET_RX_DESC_RX_MCS rx) < 12"
  shows "rx_front E bp rx skb s \<noteq> None"
  by (rule rx_front_total [OF assms])

lemma demo_sta_inv: "heap_inv demo_sta"
  by (rule sta_alloc_inv [OF heap_inv_zero demo_sta(1)])

definition bss_priv_zero :: r92su_bss_priv where
  "bss_priv_zero = \<lparr>bp_fw_bss = get_bss (replicate 116 0), bp_sta = None, bp_assoc_ie = None, bp_assoc_ie_len = 0,
     bp_def_uni_key_idx = 0, bp_def_multi_key_idx = 0, bp_group_key = [None, None, None, None],
     bp_addba_issued = replicate 16 False, bp_control_port_ethertype = 0, bp_control_port_no_encrypt = False,
     bp_control_port = False, bp_dtim_period = 0\<rparr>"

theorem rx_front_safe_witness:
  "rx_front reg_env (bss_priv_zero\<lparr>bp_sta := Some 0\<rparr>) (replicate 24 0)
     (demo_rx_skb (replicate 40 5) rx_info_zero) (demo_sta\<lparr>n_bitrates := 12\<rparr>) \<noteq> None"
proof (rule rx_front_safe [where b = 0 and full = True])
  show "hdr_ok (kernel reg_env)" "sa_ok (kernel reg_env)"
    by (simp_all only: reg_env_def env.simps hdr_ok_linux sa_ok_linux)
  have "owned True (demo_sta\<lparr>n_bitrates := 12\<rparr>) = owned True demo_sta" by (rule owned_cong) simp_all
  then show "owned True (demo_sta\<lparr>n_bitrates := 12\<rparr>)" using demo_sta_inv by (simp add: heap_inv_owned)
  have "dword (replicate 24 0) 3 = 0"
    by (simp add: dword_def le32_def eval_nat_numeral)
  then have "GET_RX_DESC_RX_MCS (replicate 24 0) = 0"
    by (simp add: GET_RX_DESC_RX_MCS_def SHIFT_AND_MASK_LE_def)
  then show "GET_RX_DESC_RX_HT (replicate 24 0) \<noteq> 0 \<or> unat (GET_RX_DESC_RX_MCS (replicate 24 0)) < 12" by simp
qed (use demo_sta(2) in \<open>simp_all\<close>)

end
