(* ===== verification/R92_RxAgg.thy ===== *)
theory R92_RxAgg
  imports R92_Rx R92_Event
begin

text \<open>
  The two ends of the receive path (\<open>rx.c\<close>): \<open>r92su_rx\<close> takes the bytes of a completed
  USB block apart into events and frames, the tasklet hands the queued frames to the handlers or,
  in monitor mode, to the network stack behind a radiotap header. The buffer \<open>buf\<close> is the
  whole allocation of the block, \<open>len\<close> the length the device has filled; a position in it stands
  for the pointer of the code.
\<close>

section \<open>Taking a block apart\<close>

abbreviation (input) NET_IP_ALIGN :: nat where "NET_IP_ALIGN \<equiv> 2"

definition rx92su_rx_copy_data ::
    "'w env \<Rightarrow> bytes \<Rightarrow> nat \<Rightarrow> nat \<Rightarrow> nat \<Rightarrow> nat \<Rightarrow> 'w r92su \<Rightarrow> (rx_skb option \<times> 'w r92su) option" where
  "rx92su_rx_copy_data E buf rx rx_len frame frame_len s = do {
     fc \<leftarrow> map_option frame_control (rd_mem buf frame 2);
     qos \<leftarrow> (if ieee80211_is_data_qos (kernel E) fc
            then map_option (\<lambda>q. NET_IP_ALIGN + (if bit q 7 then NET_IP_ALIGN else 0)) (qos_ctl0 (kernel E) (drop frame buf))
            else Some 0);
     let reserved = qos + (if ieee80211_has_a4 (kernel E) fc then NET_IP_ALIGN else 0);
     let reserved = 32 + (reserved AND NET_IP_ALIGN);
     (case kmalloc E s of (ok, s) \<Rightarrow>
        if \<not> ok then Some (None, s)
        else do {
          hdr \<leftarrow> rd_mem buf rx rx_len;
          skb \<leftarrow> skb_put_data (skb_new (rx_len + frame_len + reserved + alloc_slack E) reserved rx_info_zero) hdr;
          body \<leftarrow> rd_mem buf frame frame_len;
          skb \<leftarrow> skb_put_data skb body;
          Some (Some skb, s) }) }"

text \<open>
  The loop of \<open>r92su_rx\<close>; the number of packets left decreases. The result is false when the
  rest of the block is garbage. A frame that arrives while the driver is not connected leaves the
  position where it is.
\<close>

fun rx_loop :: "'w env \<Rightarrow> bytes \<Rightarrow> nat \<Rightarrow> nat \<Rightarrow> nat \<Rightarrow> nat \<Rightarrow> 'w r92su \<Rightarrow> (bool \<times> 'w r92su) option" where
  "rx_loop E buf e len 0 pos s = Some (True, s)"
| "rx_loop E buf e len (Suc n) pos s =
     (if e \<le> pos then Some (True, s)
      else do {
        rx \<leftarrow> rd_mem buf pos RX_DESC_SIZE;
        let drvinfo = unat (GET_RX_DESC_DRVINFO_SIZE rx) * RX_DRV_INFO_SIZE_UNIT;
        let shift = unat (GET_RX_DESC_SHIFT rx);
        let pkt_len = unat (GET_RX_DESC_PKT_LEN rx);
        let hdr_len = RX_DESC_SIZE + drvinfo;
        let next = pos + ALIGN (hdr_len + pkt_len) (rx_alignment s);
        (if e < pos + pkt_len + hdr_len + shift then Some (False, s)
         else if GET_RX_DESC_IS_CMD rx then do {
           c2h_length \<leftarrow> rd_le16 buf (pos + RX_DESC_SIZE);
           (if of_nat len - of_nat RX_DESC_SIZE < (ucast c2h_length :: u64) + of_nat H2CC2H_HDR_LEN
            then rx_loop E buf e len n next (r92su_mark_dead s)
            else do {
              s \<leftarrow> r92su_c2h_event E (drop (pos + RX_DESC_SIZE) buf) s;
              rx_loop E buf e len n next s }) }
         else if \<not> r92su_is_connected s then rx_loop E buf e len n pos s
         else do {
           (skb, s) \<leftarrow> rx92su_rx_copy_data E buf pos hdr_len (pos + hdr_len + shift) pkt_len s;
           rx_loop E buf e len n next
             (case skb of Some skb \<Rightarrow> s\<lparr>rx_queue := rx_queue s @ [skb]\<rparr> | None \<Rightarrow> r92su_rx_dropped 1 s) }) })"

definition rx_end :: "nat \<Rightarrow> nat" where
  "rx_end len = min len (RTL92SU_SIZE_MAX_RX_BUFFER - RX_DESC_SIZE)"

definition r92su_rx :: "'w env \<Rightarrow> bytes \<Rightarrow> nat \<Rightarrow> 'w r92su \<Rightarrow> 'w r92su option" where
  "r92su_rx E buf len s = do {
     rx \<leftarrow> rd_mem buf 0 RX_DESC_SIZE;
     (good, s) \<leftarrow> rx_loop E buf (rx_end len) len (max (unat (GET_RX_DESC_PKTCNT rx)) 1) 0 s;
     Some (if good \<and> r92su_is_connected s then emit Schedule_rx_tasklet s else s) }"

section \<open>Monitor mode\<close>

abbreviation (input) IEEE80211_RADIOTAP_F_SHORTPRE :: u8 where "IEEE80211_RADIOTAP_F_SHORTPRE \<equiv> 0x02"
abbreviation (input) IEEE80211_RADIOTAP_F_FCS :: u8 where "IEEE80211_RADIOTAP_F_FCS \<equiv> 0x10"
abbreviation (input) IEEE80211_RADIOTAP_F_BADFCS :: u8 where "IEEE80211_RADIOTAP_F_BADFCS \<equiv> 0x40"
abbreviation (input) IEEE80211_CHAN_CCK :: u16 where "IEEE80211_CHAN_CCK \<equiv> 0x0020"
abbreviation (input) IEEE80211_CHAN_OFDM :: u16 where "IEEE80211_CHAN_OFDM \<equiv> 0x0040"
abbreviation (input) IEEE80211_CHAN_2GHZ :: u16 where "IEEE80211_CHAN_2GHZ \<equiv> 0x0080"
abbreviation (input) IEEE80211_CHAN_DYN :: u16 where "IEEE80211_CHAN_DYN \<equiv> 0x0400"
abbreviation (input) SIZEOF_RADIOTAP_HEADER :: nat where "SIZEOF_RADIOTAP_HEADER \<equiv> 8"
abbreviation (input) ETH_P_802_2 :: u16 where "ETH_P_802_2 \<equiv> 0x0004"

definition r92su_rx_calc_radiotap_len :: "bytes \<Rightarrow> nat" where
  "r92su_rx_calc_radiotap_len rx =
     (let rtap_len = SIZEOF_RADIOTAP_HEADER;
          rtap_len = rtap_len + 9;
          rtap_len = ALIGN rtap_len 8;
          rtap_len = rtap_len + 8;
          rtap_len = ALIGN rtap_len 2;
          rtap_len = (if GET_RX_DESC_RX_HT rx \<noteq> 0 then rtap_len + 3 else rtap_len)
      in if GET_RX_DESC_PAGGR rx \<noteq> 0 then ALIGN rtap_len 4 + 8 else rtap_len)"

text \<open>The bits of \<open>it_present\<close>: TSFT 0, FLAGS 1, RATE 2, CHANNEL 3, ANTENNA 11, RX_FLAGS 14,
  MCS 19, AMPDU_STATUS 20. A field is written at the position the code has reached.\<close>

definition r92su_rx_add_radiotap :: "bytes \<Rightarrow> rx_skb \<Rightarrow> nat \<Rightarrow> 'w r92su \<Rightarrow> (rx_skb \<times> 'w r92su) option" where
  "r92su_rx_add_radiotap rx skb rtap_len s = do {
     skb \<leftarrow> skb_push skb rtap_len;
     let present = (BIT 1 OR BIT 3 OR BIT 11 OR BIT 14 OR BIT 0 :: u32);
     d \<leftarrow> wr_mem (skb_data skb) 0 ([0, 0] @ put_le16 (of_nat rtap_len) @ put_le32 present);
     let pos = SIZEOF_RADIOTAP_HEADER;
     d \<leftarrow> wr_mem d pos (replicate (ALIGN pos 8 - pos) 0);
     let pos = ALIGN pos 8;
     d \<leftarrow> wr_mem d pos (put_le64 (ucast (GET_RX_DESC_TSFL rx)));
     let pos = pos + 8;
     d \<leftarrow> wr_mem d pos [IEEE80211_RADIOTAP_F_FCS OR
            (if GET_RX_DESC_CRC32 rx \<noteq> 0 then IEEE80211_RADIOTAP_F_BADFCS else 0) OR
            (if GET_RX_DESC_SPLCP rx \<noteq> 0 then IEEE80211_RADIOTAP_F_SHORTPRE else 0)];
     let pos = pos + 1;
     let rx_mcs = GET_RX_DESC_RX_MCS rx;
     let ht = (GET_RX_DESC_RX_HT rx \<noteq> 0);
     (present, rate) \<leftarrow> (if ht then Some (present, 0)
        else do { r \<leftarrow> bitrate_of s rx_mcs; Some (present OR BIT 2, ucast (r div 5)) });
     d \<leftarrow> wr_mem d pos [rate];
     let pos = pos + 1;
     freq \<leftarrow> current_channel s;
     d \<leftarrow> wr_mem d pos (put_le16 freq);
     let pos = pos + 2;
     d \<leftarrow> wr_mem d pos (put_le16 (if ht then IEEE80211_CHAN_DYN OR IEEE80211_CHAN_2GHZ
            else if 3 < rx_mcs then IEEE80211_CHAN_OFDM OR IEEE80211_CHAN_2GHZ
            else IEEE80211_CHAN_CCK OR IEEE80211_CHAN_2GHZ));
     let pos = pos + 2;
     d \<leftarrow> wr_mem d pos [0];
     let pos = pos + 1;
     (d, pos) \<leftarrow> (if odd pos then map_option (\<lambda>d. (d, pos + 1)) (wr_mem d pos [0]) else Some (d, pos));
     d \<leftarrow> wr_mem d pos (put_le16 0);
     let pos = pos + 2;
     (d, pos, present) \<leftarrow> (if ht then do {
          d \<leftarrow> wr_mem d pos [0x03, if GET_RX_DESC_BW rx \<noteq> 0 then 1 else 0, ucast rx_mcs];
          Some (d, pos + 3, present OR BIT 19) }
        else Some (d, pos, present));
     (d, present, s) \<leftarrow> (if GET_RX_DESC_PAGGR rx \<noteq> 0 then do {
          let pos = ALIGN pos 4;
          let s = (if GET_RX_DESC_FAGGR rx \<noteq> 0 then s\<lparr>ampdu_reference := ampdu_reference s + 1\<rparr> else s);
          d \<leftarrow> wr_mem d pos (put_le32 (ampdu_reference s) @ put_le16 0 @ [0, 0]);
          Some (d, present OR BIT 20, s) }
        else Some (d, present, s));
     d \<leftarrow> wr_mem d 4 (put_le32 present);
     Some (skb\<lparr>skb_data := d\<rparr>, s) }"

definition r92su_rx_monitor :: "'w env \<Rightarrow> bytes \<Rightarrow> rx_skb \<Rightarrow> 'w r92su \<Rightarrow> 'w r92su option" where
  "r92su_rx_monitor E rx skb s = do {
     (skb, s) \<leftarrow> r92su_rx_add_radiotap rx skb (r92su_rx_calc_radiotap_len rx) s;
     Some (rx_deliver_skb E (skb\<lparr>skb_protocol := swab16 ETH_P_802_2\<rparr>) s) }"

section \<open>The tasklet\<close>

text \<open>A failed \<open>skb_pull\<close> returns NULL and leaves the frame as it is; the pointer is not used.\<close>

definition rx_tasklet_step :: "'w env \<Rightarrow> 'c crypto_api \<Rightarrow> rx_skb \<Rightarrow> 'w r92su \<Rightarrow> 'w r92su option" where
  "rx_tasklet_step E C skb s = do {
     rx \<leftarrow> rd_mem (skb_data skb) 0 RX_DESC_SIZE;
     let skb = (case skb_pull skb (RX_DESC_SIZE + unat (GET_RX_DESC_DRVINFO_SIZE rx) * 8) of
                  None \<Rightarrow> skb | Some skb \<Rightarrow> skb);
     (if iftype s = IFTYPE_MONITOR then r92su_rx_monitor E rx skb s
      else r92su_rx_data E C rx skb s) }"

fun rx_tasklet_loop :: "'w env \<Rightarrow> 'c crypto_api \<Rightarrow> rx_skb list \<Rightarrow> 'w r92su \<Rightarrow> 'w r92su option" where
  "rx_tasklet_loop E C [] s = Some s"
| "rx_tasklet_loop E C (skb # q) s = do {
     s \<leftarrow> rx_tasklet_step E C skb (s\<lparr>rx_queue := q\<rparr>);
     rx_tasklet_loop E C q s }"

definition r92su_rx_tasklet :: "'w env \<Rightarrow> 'c crypto_api \<Rightarrow> 'w r92su \<Rightarrow> 'w r92su option" where
  "r92su_rx_tasklet E C s = rx_tasklet_loop E C (rx_queue s) s"

definition r92su_rx_init :: "'w r92su \<Rightarrow> 'w r92su" where
  "r92su_rx_init s = s\<lparr>rx_queue := []\<rparr>"

definition r92su_rx_deinit :: "'w r92su \<Rightarrow> 'w r92su" where
  "r92su_rx_deinit s = (skb_queue_purge (rx_queue s) s)\<lparr>rx_queue := []\<rparr>"

section \<open>Information elements\<close>

text \<open>
  The walk over the elements of \<open>ies\<close> up to \<open>len\<close>. The length byte is read before anything is
  known of it, one byte behind the end if a single byte is left.
\<close>

function find_ie_from :: "bytes \<Rightarrow> nat \<Rightarrow> u8 \<Rightarrow> nat \<Rightarrow> nat option option" where
  "find_ie_from ies len ie pos =
     (if len \<le> pos then Some None
      else case rd8 ies (pos + 1) of
        None \<Rightarrow> None
      | Some n \<Rightarrow>
          if len < pos + 2 + unat n then Some None
          else case rd8 ies pos of
            None \<Rightarrow> None
          | Some t \<Rightarrow> if t = ie then Some (Some pos) else find_ie_from ies len ie (pos + 2 + unat n))"
  by pat_completeness auto
termination by (relation "measure (\<lambda>(ies, len, ie, pos). len - pos)") auto

declare find_ie_from.simps [simp del]

definition r92su_find_ie :: "bytes \<Rightarrow> nat \<Rightarrow> u8 \<Rightarrow> nat option option" where
  "r92su_find_ie ies len ie = find_ie_from ies len ie 0"

section \<open>Any block\<close>

lemma copy_data_total:
  assumes "hdr_ok (kernel E)" "frame + 40 \<le> length buf" "rx + rx_len \<le> length buf" "frame + frame_len \<le> length buf"
  shows "\<exists>skb. rx92su_rx_copy_data E buf rx rx_len frame frame_len s = Some (skb, s\<lparr>allocs := allocs s + 1\<rparr>) \<and>
     (alloc_ok E (allocs s) \<longrightarrow> map_option skb_data skb = Some (take rx_len (drop rx buf) @ take frame_len (drop frame buf)))"
proof -
  let ?d = "drop frame buf" and ?K = "kernel E"
  have len: "40 \<le> length ?d" using assms(2) by simp
  have fc: "frame_control (take 2 ?d) = frame_control ?d" by (simp add: frame_control_def)
  have "ieee80211_is_data_qos ?K (frame_control ?d) \<Longrightarrow> \<exists>q. qos_ctl0 ?K ?d = Some q"
    using assms(1) len by (intro qos_readable) (auto simp: hdr_ok_def intro: order_trans)
  then show ?thesis
    using assms len fc
    by (auto simp: rx92su_rx_copy_data_def rd_mem_def Let_def kmalloc_def skb_put_data_def skb_new_def)
qed

text \<open>What two event handlers do not check themselves.\<close>

definition event_ok :: "bytes \<Rightarrow> bool" where
  "event_ok c2h \<longleftrightarrow> (\<forall>len ev. c2h_len c2h = Some len \<longrightarrow> c2h_event c2h = Some ev \<longrightarrow>
     (c2h_of_nr ev = Some C2H_SURVEY_EVENT \<longrightarrow> 4 \<le> unat len) \<and>
     (c2h_of_nr ev = Some C2H_ADDBA_REPORT_EVENT \<longrightarrow> (\<forall>t. addba_tid (c2h_data c2h) = Some t \<longrightarrow> unat t < 16)))"

lemma owned_rx [simp]:
  "owned full (s\<lparr>rx_queue := q\<rparr>) = owned full s" "owned full (s\<lparr>rx_dropped := n\<rparr>) = owned full s"
  by (rule owned_cong; simp)+

lemma owned_dead [simp]: "owned full (r92su_mark_dead s) = owned full s"
  by (simp add: r92su_mark_dead_def r92su_set_state_def emit_def Let_def)

lemma block_event:
  assumes "owned full s" "event_ok (drop p buf)" "p + 8 + max 12 (unat n) \<le> length buf" "rd_le16 buf p = Some n"
  shows "\<exists>t. r92su_c2h_event E (drop p buf) s = Some t \<and> owned full t"
proof -
  let ?c = "drop p buf"
  have l: "20 \<le> length ?c" "c2h_len ?c = Some n" using assms(3,4) by (auto simp: c2h_len_def rd_le16_def rd8_def)
  obtain ev q where e: "c2h_event ?c = Some ev" "c2h_cmd_seq ?c = Some q"
    using l(1) by (auto simp: c2h_event_def c2h_cmd_seq_def rd8_def)
  have "\<exists>t. r92su_c2h_event E ?c s = Some t \<and> owned full t \<and> c2h_seq t = ucast q + 1"
    by (rule c2h_event_total [OF assms(1) l(2) e]) (use assms(2,3) l e in \<open>auto simp: event_ok_def\<close>)
  then show ?thesis by blast
qed

lemma clip_check:
  assumes "\<not> of_nat len - of_nat RX_DESC_SIZE < (ucast (n :: u16) :: u64) + of_nat H2CC2H_HDR_LEN"
    "RX_DESC_SIZE \<le> len" "len < 2 ^ 32"
  shows "RX_DESC_SIZE + H2CC2H_HDR_LEN + unat n \<le> len"
proof -
  have n: "unat n < 2 ^ 16" using unsigned_less [of n] by simp
  have a: "unat (ucast n + 8 :: u64) = unat n + 8"
    using n by (simp add: unat_word_ariths unat_up)
  have b: "unat (of_nat len - 24 :: u64) = len - 24"
    using assms(2,3) by (simp add: unat_sub word_le_nat_alt unat_of_nat take_bit_eq_mod)
  show ?thesis using assms(1,2) a b by (simp add: word_less_nat_alt)
qed

lemma rx_loop_total:
  assumes K: "hdr_ok (kernel E)" and e: "e \<le> len" and len: "len < 2 ^ 32" "2 * len + 64 \<le> length buf"
    and ev: "\<And>p. event_ok (drop p buf)"
  shows "owned full s \<Longrightarrow> \<exists>g t. rx_loop E buf e len n pos s = Some (g, t) \<and> owned full t"
proof (induction n arbitrary: pos s)
  case (Suc n)
  show ?case
  proof (cases "e \<le> pos")
    case False
    define rx where "rx = take 24 (drop pos buf)"
    have rx: "rd_mem buf pos 24 = Some rx" using False e len(2) by (simp add: rd_mem_def rx_def)
    define h where "h = 24 + unat (GET_RX_DESC_DRVINFO_SIZE rx) * 8"
    let ?sh = "unat (GET_RX_DESC_SHIFT rx)" and ?l = "unat (GET_RX_DESC_PKT_LEN rx)"
    let ?next = "pos + ALIGN (h + ?l) (rx_alignment s)"
    note IH = Suc.IH
    show ?thesis
    proof (cases "e < pos + ?l + h + ?sh")
      case True
      then show ?thesis using False rx Suc.prems by (auto simp: Let_def h_def)
    next
      case fits: False
      have h: "24 \<le> h" by (simp add: h_def)
      show ?thesis
      proof (cases "GET_RX_DESC_IS_CMD rx")
        case cmd: True
        obtain n' where n': "rd_le16 buf (pos + 24) = Some n'"
          using fits e len(2) h by (auto simp: rd_le16_def rd8_def)
        show ?thesis
        proof (cases "of_nat len - of_nat 24 < (ucast n' :: u64) + of_nat 8")
          case True
          then show ?thesis
            using False rx fits cmd n' IH [of "r92su_mark_dead s" ?next] Suc.prems
            by (simp add: Let_def h_def)
        next
          case clip: False
          have "24 + 8 + unat n' \<le> len"
            by (rule clip_check [OF clip _ len(1)]) (use fits h e in linarith)
          then have "pos + 24 + 8 + max 12 (unat n') \<le> length buf" using fits h e len(2) by simp
          then obtain t where t: "r92su_c2h_event E (drop (pos + 24) buf) s = Some t" "owned full t"
            using block_event [OF Suc.prems ev _ n'] by blast
          then show ?thesis
            using False rx fits cmd n' clip IH [of t ?next] by (simp add: Let_def h_def)
        qed
      next
        case data: False
        show ?thesis
        proof (cases "r92su_is_connected s")
          case True
          obtain skb where skb: "rx92su_rx_copy_data E buf pos h (pos + h + ?sh) ?l s = Some (skb, s\<lparr>allocs := allocs s + 1\<rparr>)"
            using copy_data_total [OF K, of "pos + h + ?sh" buf pos h ?l s] fits e len(2) by auto
          let ?t = "case skb of Some k \<Rightarrow> s\<lparr>allocs := allocs s + 1, rx_queue := rx_queue s @ [k]\<rparr>
            | None \<Rightarrow> r92su_rx_dropped 1 (s\<lparr>allocs := allocs s + 1\<rparr>)"
          have "owned full ?t" using Suc.prems by (simp add: r92su_rx_dropped_def split: option.split)
          then show ?thesis
            using False rx fits data True skb IH [of ?t ?next] by (simp add: Let_def h_def split: option.splits)
        next
          case False2: False
          then show ?thesis using False rx fits data IH [OF Suc.prems, of pos] by (simp add: Let_def h_def)
        qed
      qed
    qed
  qed (use Suc.prems in auto)
qed auto

lemma rx_block_total:
  assumes "hdr_ok (kernel E)" "owned full s" "2 * len + 64 \<le> length buf" "length buf = RTL92SU_SIZE_MAX_RX_BUFFER"
    and "\<And>p. event_ok (drop p buf)"
  shows "\<exists>t. r92su_rx E buf len s = Some t \<and> owned full t"
proof -
  obtain rx where rx: "rd_mem buf 0 24 = Some rx" using assms(4) by (simp add: rd_mem_def)
  have "\<exists>g t. rx_loop E buf (rx_end len) len (max (unat (GET_RX_DESC_PKTCNT rx)) 1) 0 s = Some (g, t) \<and> owned full t"
    by (rule rx_loop_total [OF assms(1) _ _ assms(3,5,2)]) (use assms(3,4) in \<open>auto simp: rx_end_def\<close>)
  then show ?thesis using rx by (auto simp: r92su_rx_def emit_def)
qed

text \<open>
  The check of the length of an event uses the length of the whole block, so that an event behind other
  packets may reach beyond the end of the block, but not of a buffer that is twice as long.
\<close>

lemma rx_block_example: "\<exists>t. r92su_rx reg_env (replicate 32768 0) 4096 demo_sta = Some t \<and> owned True t"
proof (rule rx_block_total)
  show "hdr_ok (kernel reg_env)" by (simp only: reg_env_def env.simps hdr_ok_linux)
  have "c2h_of_nr 0 \<notin> {Some C2H_SURVEY_EVENT, Some C2H_ADDBA_REPORT_EVENT}"
    by (simp add: c2h_of_nr_def fw_c2h_events_def)
  then show "event_ok (drop p (replicate 32768 0))" for p
    by (auto simp: event_ok_def c2h_event_def)
qed (simp_all add: demo_sta_inv [unfolded heap_inv_owned])

section \<open>Aggregated frames\<close>

text \<open>A block as the device lays it out: descriptor, driver information and frame of each packet,
  padded to the alignment.\<close>

type_synonym rx_item = "bytes \<times> bytes \<times> bytes"

definition rx_item_ok :: "rx_item \<Rightarrow> bool" where
  "rx_item_ok i = (case i of (d, v, p) \<Rightarrow> length d = RX_DESC_SIZE \<and> \<not> GET_RX_DESC_IS_CMD d \<and> GET_RX_DESC_SHIFT d = 0 \<and>
     unat (GET_RX_DESC_DRVINFO_SIZE d) * 8 = length v \<and> unat (GET_RX_DESC_PKT_LEN d) = length p)"

definition rx_item_bytes :: "rx_item \<Rightarrow> bytes" where
  "rx_item_bytes i = (case i of (d, v, p) \<Rightarrow> d @ v @ p)"

definition put_rx_item :: "nat \<Rightarrow> rx_item \<Rightarrow> bytes" where
  "put_rx_item a i = (let b = rx_item_bytes i in b @ replicate (ALIGN (length b) a - length b) 0)"

definition put_rx_block :: "nat \<Rightarrow> rx_item list \<Rightarrow> bytes" where
  "put_rx_block a items = concat (map (put_rx_item a) items)"

lemma length_put_rx_item: "0 < a \<Longrightarrow> length (put_rx_item a i) = ALIGN (length (rx_item_bytes i)) a"
  using ALIGN_ge [of a "length (rx_item_bytes i)"] by (simp add: put_rx_item_def Let_def)

lemma rx_loop_items:
  assumes K: "hdr_ok (kernel E)" "\<And>k. alloc_ok E k"
  shows "\<lbrakk> buf = pre @ put_rx_block a items @ rest; a = rx_alignment s; 0 < a; e = length pre + length (put_rx_block a items);
     e + 40 \<le> length buf; \<forall>i \<in> set items. rx_item_ok i; r92su_is_connected s \<rbrakk> \<Longrightarrow>
    \<exists>skbs. rx_loop E buf e len (length items) (length pre) s =
       Some (True, s\<lparr>allocs := allocs s + length items, rx_queue := rx_queue s @ skbs\<rparr>) \<and>
     map skb_data skbs = map rx_item_bytes items"
proof (induction items arbitrary: pre s)
  case (Cons i items)
  obtain d v p where i: "i = (d, v, p)" by (cases i)
  let ?b = "rx_item_bytes i" and ?pre = "pre @ put_rx_item a i"
  let ?h = "24 + length v"
  have ok: "length d = 24" "\<not> GET_RX_DESC_IS_CMD d" "GET_RX_DESC_SHIFT d = 0"
      "unat (GET_RX_DESC_DRVINFO_SIZE d) * 8 = length v" "unat (GET_RX_DESC_PKT_LEN d) = length p"
    using Cons.prems(6) by (simp_all add: i rx_item_ok_def)
  have lb: "length ?b = ?h + length p" using ok by (simp add: rx_item_bytes_def i)
  have li: "length (put_rx_item a i) = ALIGN (?h + length p) a" "?h + length p \<le> ALIGN (?h + length p) a"
    using length_put_rx_item [OF Cons.prems(3), of i] ALIGN_ge [OF Cons.prems(3)] by (simp_all add: lb)
  have buf: "buf = ?pre @ put_rx_block a items @ rest" using Cons.prems(1) by (simp add: put_rx_block_def)
  have e: "e = length ?pre + length (put_rx_block a items)" using Cons.prems(4) by (simp add: put_rx_block_def)
  obtain z where z: "drop (length pre) buf = d @ v @ p @ z"
    using buf by (simp add: put_rx_item_def Let_def rx_item_bytes_def i)
  have rx: "rd_mem buf (length pre) 24 = Some d" using z ok(1) Cons.prems(5) e li by (simp add: rd_mem_def)
  have part: "take ?h (drop (length pre) buf) @ take (length p) (drop (length pre + ?h) buf) = ?b"
  proof -
    have "drop (length pre + ?h) buf = drop ?h (drop (length pre) buf)" by (simp add: add.commute)
    then show ?thesis using z ok(1) by (simp add: rx_item_bytes_def i)
  qed
  obtain skb where skb: "rx92su_rx_copy_data E buf (length pre) ?h (length pre + ?h) (length p) s =
      Some (Some skb, s\<lparr>allocs := allocs s + 1\<rparr>)" "skb_data skb = ?b"
    using copy_data_total [OF K(1), of "length pre + ?h" buf "length pre" ?h "length p" s] K(2) part Cons.prems(5) e li
    by auto
  let ?s = "s\<lparr>allocs := allocs s + 1, rx_queue := rx_queue s @ [skb]\<rparr>"
  have c: "r92su_is_connected ?s" using Cons.prems(7) by (simp add: r92su_is_connected_def)
  have "\<exists>skbs. rx_loop E buf e len (length items) (length ?pre) ?s =
       Some (True, ?s\<lparr>allocs := allocs ?s + length items, rx_queue := rx_queue ?s @ skbs\<rparr>) \<and>
     map skb_data skbs = map rx_item_bytes items"
    by (rule Cons.IH [OF buf _ _ e]) (use Cons.prems c in simp_all)
  then obtain skbs where rest: "rx_loop E buf e len (length items) (length ?pre) ?s =
       Some (True, ?s\<lparr>allocs := allocs ?s + length items, rx_queue := rx_queue ?s @ skbs\<rparr>)"
      "map skb_data skbs = map rx_item_bytes items" by blast
  have pos: "\<not> e \<le> length pre" "\<not> e < length pre + length p + ?h" using e li by simp_all
  have "rx_loop E buf e len (length (i # items)) (length pre) s = rx_loop E buf e len (length items) (length ?pre) ?s"
    using rx pos ok Cons.prems(2,7) skb(1) li(1) by (simp add: Let_def add_ac)
  then show ?case using rest skb(2) by (intro exI [of _ "skb # skbs"]) simp
next
  case Nil
  have "rx_loop E buf e len (length ([] :: rx_item list)) (length pre) s = Some (True, s)" by simp
  then show ?case by (intro exI [of _ "[]"] conjI) simp_all
qed

text \<open>C8. A block of aggregated frames, as the device builds it, is taken apart into exactly these
  frames, each with its descriptor and driver information, in order, and the tasklet is scheduled.\<close>

theorem rx_block_disaggregates:
  assumes K: "hdr_ok (kernel E)" "\<And>k. alloc_ok E k" and s: "r92su_is_connected s" "0 < rx_alignment s"
    and items: "\<forall>i \<in> set items. rx_item_ok i" "items = (d, v, p) # others" "unat (GET_RX_DESC_PKTCNT d) = length items"
    and buf: "buf = put_rx_block (rx_alignment s) items @ rest" "len = length (put_rx_block (rx_alignment s) items)"
      "length buf = RTL92SU_SIZE_MAX_RX_BUFFER" "len + 40 \<le> length buf"
  shows "\<exists>t. r92su_rx E buf len s = Some t \<and>
     map skb_data (rx_queue t) = map skb_data (rx_queue s) @ map rx_item_bytes items \<and>
     log t = log s @ [Schedule_rx_tasklet]"
proof -
  have e: "rx_end len = length ([] :: bytes) + length (put_rx_block (rx_alignment s) items)"
    using buf by (simp add: rx_end_def)
  obtain skbs where run: "rx_loop E buf (rx_end len) len (length items) 0 s =
       Some (True, s\<lparr>allocs := allocs s + length items, rx_queue := rx_queue s @ skbs\<rparr>)"
     "map skb_data skbs = map rx_item_bytes items"
    using rx_loop_items [OF K, of buf "[]" "rx_alignment s" items rest s "rx_end len" len] buf e s items(1) by auto
  have d: "length d = 24" using items(1,2) by (simp add: rx_item_ok_def)
  then have "rd_mem buf 0 24 = Some d"
    using buf items(2) by (simp add: rd_mem_def put_rx_block_def put_rx_item_def rx_item_bytes_def Let_def)
  moreover have "max (unat (GET_RX_DESC_PKTCNT d)) 1 = length items" using items(2,3) by simp
  ultimately show ?thesis
    using run s(1) by (simp add: r92su_rx_def emit_def r92su_is_connected_def)
qed

definition demo_item :: rx_item where
  "demo_item = ([4, 0, 0, 0, 0, 0, 0, 0, 0, 0, 1, 0, 0, 0, 0, 0, 0, 0, 0, 0, 0, 0, 0, 0], [], [8, 0, 1, 2])"

lemma demo_item: "rx_item_ok demo_item" "unat (GET_RX_DESC_PKTCNT (fst demo_item)) = 1"
  by (simp_all add: demo_item_def rx_item_ok_def desc_defs SHIFT_AND_MASK_LE_def dword_def le32_def BIT_LEN_MASK_32_def)

theorem rx_block_disaggregates_witness:
  "\<exists>t. r92su_rx reg_env (put_rx_block 128 [demo_item] @ replicate 32640 0) 128
       ((r92su_zero (\<lambda>x. 0))\<lparr>r_state := R92SU_CONNECTED, rx_alignment := 128\<rparr>) = Some t \<and>
     map skb_data (rx_queue t) = [rx_item_bytes demo_item]"
proof -
  let ?s = "(r92su_zero (\<lambda>x. 0) :: (u16 \<Rightarrow> u8) r92su)\<lparr>r_state := R92SU_CONNECTED, rx_alignment := 128\<rparr>"
  let ?b = "put_rx_block (rx_alignment ?s) [demo_item]"
  have l: "length ?b = 128"
    by (simp add: put_rx_block_def length_put_rx_item) (simp add: demo_item_def rx_item_bytes_def ALIGN_def)
  obtain d v p where i: "demo_item = (d, v, p)" by (cases demo_item)
  have "\<exists>t. r92su_rx reg_env (?b @ replicate 32640 0) 128 ?s = Some t \<and>
     map skb_data (rx_queue t) = map skb_data (rx_queue ?s) @ map rx_item_bytes [demo_item] \<and>
     log t = log ?s @ [Schedule_rx_tasklet]"
  proof (rule rx_block_disaggregates [where d = d and v = v and p = p and others = "[]"])
    show "hdr_ok (kernel reg_env)" by (simp only: reg_env_def env.simps hdr_ok_linux)
    show "unat (GET_RX_DESC_PKTCNT d) = length [demo_item]" using demo_item(2) [unfolded i] by simp
    show "alloc_ok reg_env k" for k by (simp add: reg_env_def)
    show "[demo_item] = [(d, v, p)]" using i by simp
    show "\<forall>i \<in> set [demo_item]. rx_item_ok i" using demo_item(1) by simp
    show "128 = length ?b" "length (?b @ replicate 32640 0) = 32768" "128 + 40 \<le> length (?b @ replicate 32640 (0 :: u8))"
      using l by simp_all
  qed (simp_all add: r92su_is_connected_def)
  then show ?thesis by (auto simp: r92su_zero_def)
qed

section \<open>The radiotap header\<close>

text \<open>Computations that succeed with a result in \<open>P\<close>.\<close>

definition okay :: "('a \<Rightarrow> bool) \<Rightarrow> 'a option \<Rightarrow> bool" where
  "okay P m \<longleftrightarrow> (\<exists>x. m = Some x \<and> P x)"

lemma okay_bind: "okay Q m \<Longrightarrow> (\<And>x. Q x \<Longrightarrow> okay P (f x)) \<Longrightarrow> okay P (Option.bind m f)"
  by (auto simp: okay_def)

text \<open>A header of \<open>n\<close> bytes with the length field \<open>l\<close> in front of the frame.\<close>

definition tap_front :: "nat \<Rightarrow> bytes \<Rightarrow> bytes \<Rightarrow> bytes \<Rightarrow> bool" where
  "tap_front n l frame d \<longleftrightarrow> (\<exists>x. length x = n \<and> drop 2 (take 4 x) = l \<and> d = x @ frame)"

lemma tap_write:
  assumes "tap_front n l frame d" "4 \<le> pos" "pos + length bs \<le> n"
  shows "okay (tap_front n l frame) (wr_mem d pos bs)"
proof -
  obtain x where x: "length x = n" "drop 2 (take 4 x) = l" "d = x @ frame" using assms(1) by (auto simp: tap_front_def)
  have "wr_mem d pos bs = Some ((take pos x @ bs @ drop (pos + length bs) x) @ frame)"
    using x assms(3) by (simp add: wr_mem_def)
  moreover have "drop 2 (take 4 (take pos x @ bs @ drop (pos + length bs) x)) = l"
    using x(1,2) assms(2,3) by (simp add: min_def)
  ultimately show ?thesis using x(1) assms(3) by (auto simp: okay_def tap_front_def)
qed

lemma tap_start:
  assumes "length h = n" "8 \<le> n"
  shows "okay (tap_front n l frame) (wr_mem (h @ frame) 0 ([0, 0] @ put_le16 w @ put_le32 p)) \<longleftrightarrow> l = put_le16 w"
  using assms by (auto simp: okay_def tap_front_def wr_mem_def put_le16_def)

lemma radiotap_ok:
  assumes rate: "GET_RX_DESC_RX_HT rx \<noteq> 0 \<or> unat (GET_RX_DESC_RX_MCS rx) < 12" "n_bitrates s = 12"
    and s: "current_channel s = Some freq" and n: "n = r92su_rx_calc_radiotap_len rx" "n \<le> skb_headroom skb"
  shows "okay (\<lambda>(skb', t). tap_front n (put_le16 (of_nat n)) (skb_data skb) (skb_data skb')) (r92su_rx_add_radiotap rx skb n s)"
proof -
  have m: "n = (if GET_RX_DESC_PAGGR rx = 0 then (if GET_RX_DESC_RX_HT rx = 0 then 32 else 35)
      else (if GET_RX_DESC_RX_HT rx = 0 then 40 else 44))"
    by (simp add: n(1) r92su_rx_calc_radiotap_len_def Let_def ALIGN_def)
  obtain skb1 h where p: "skb_push skb n = Some skb1" "skb_data skb1 = h @ skb_data skb" "length h = n"
    using n(2) by (simp add: skb_push_def)
  have b: "GET_RX_DESC_RX_HT rx = 0 \<Longrightarrow> \<exists>r. bitrate_of s (GET_RX_DESC_RX_MCS rx) = Some r"
    using rate by (auto simp: bitrate_of_def r92su_ratetable_def)
  let ?P = "tap_front n (put_le16 (of_nat n)) (skb_data skb)"
  have st: "okay ?P (wr_mem (h @ skb_data skb) 0 ([0, 0] @ put_le16 (of_nat n) @ put_le32 w))" for w
    using tap_start [OF p(3)] m by simp
  have fin: "okay (\<lambda>(skb', t). ?P (skb_data skb')) (Some (k\<lparr>skb_data := d\<rparr>, t))" if "?P d" for k :: rx_skb and d t
    using that by (simp add: okay_def)
  show ?thesis
  proof (cases "GET_RX_DESC_RX_HT rx = 0")
    case True
    then obtain r where r: "bitrate_of s (GET_RX_DESC_RX_MCS rx) = Some r" using b by blast
    show ?thesis unfolding r92su_rx_add_radiotap_def Let_def p(1) s Option.bind.simps(2) p(2)
      apply (rule okay_bind [OF st])
      apply (simp add: True r ALIGN_def bind_map_option comp_def split del: if_split)
      apply (rule okay_bind [OF tap_write], assumption, simp, simp add: m True)+
      apply (cases "GET_RX_DESC_PAGGR rx = 0"; simp add: ALIGN_def split del: if_split)
       apply (rule okay_bind [OF tap_write], assumption, simp, simp add: m True, simp add: fin)
      apply (rule okay_bind [OF tap_write], assumption, simp, simp add: m True)+
      apply (simp add: fin)
      done
  next
    case False
    show ?thesis unfolding r92su_rx_add_radiotap_def Let_def p(1) s Option.bind.simps(2) p(2)
      apply (rule okay_bind [OF st])
      apply (simp add: False ALIGN_def bind_map_option comp_def split del: if_split)
      apply (rule okay_bind [OF tap_write], assumption, simp, simp add: m False)+
      apply (cases "GET_RX_DESC_PAGGR rx = 0"; simp add: ALIGN_def split del: if_split)
       apply (rule okay_bind [OF tap_write], assumption, simp, simp add: m False, simp add: fin)
      apply (rule okay_bind [OF tap_write], assumption, simp, simp add: m False)+
      apply (simp add: fin)
      done
  qed
qed

text \<open>C33. For a legal rate, the radiotap header is written inside the room made for it: the frame
  behind it is untouched and the length field of the header says where it starts.\<close>

theorem radiotap_keeps_frame:
  assumes "GET_RX_DESC_RX_HT rx \<noteq> 0 \<or> unat (GET_RX_DESC_RX_MCS rx) < 12" "n_bitrates s = 12"
    and "current_channel s = Some freq" "r92su_rx_calc_radiotap_len rx \<le> skb_headroom skb"
  shows "\<exists>h skb' t. r92su_rx_add_radiotap rx skb (r92su_rx_calc_radiotap_len rx) s = Some (skb', t) \<and>
     skb_data skb' = h @ skb_data skb \<and> length h = r92su_rx_calc_radiotap_len rx \<and>
     rd_le16 (skb_data skb') 2 = Some (of_nat (length h))"
proof -
  obtain skb' t x where x: "r92su_rx_add_radiotap rx skb (r92su_rx_calc_radiotap_len rx) s = Some (skb', t)"
    "skb_data skb' = x @ skb_data skb" "length x = r92su_rx_calc_radiotap_len rx"
    "drop 2 (take 4 x) = put_le16 (of_nat (r92su_rx_calc_radiotap_len rx))"
    using radiotap_ok [OF assms(1-3) refl assms(4)] by (auto simp: okay_def tap_front_def)
  have "32 \<le> length x" using x(3) by (simp add: r92su_rx_calc_radiotap_len_def Let_def ALIGN_def)
  moreover from this have "drop 2 (take 4 x) = [x ! 2, x ! 3]"
    by (intro nth_equalityI) (auto simp: less_Suc_eq numeral_2_eq_2 numeral_3_eq_3)
  ultimately have "32 \<le> length x" "x ! 2 = ucast (of_nat (length x) :: u16)" "x ! 3 = ucast (drop_bit 8 (of_nat (length x) :: u16))"
    using x(3,4) by (simp_all add: put_le16_def)
  then have "rd_le16 (x @ skb_data skb) 2 = Some (of_nat (length x))"
    by (simp add: rd_le16_def rd8_def nth_append le16_put)
  then show ?thesis using x by auto
qed

text \<open>
  The descriptor of a frame without HT and aggregation: the header has 32 bytes, of which the code
  writes 26. The rest keeps what was in the buffer.
\<close>

theorem radiotap_keeps_frame_witness:
  "\<exists>h skb' t. r92su_rx_add_radiotap (fst demo_item) (demo_rx_skb [8, 0, 1, 2] rx_info_zero)
       (r92su_rx_calc_radiotap_len (fst demo_item))
       ((r92su_zero (\<lambda>x :: u16. 0 :: u8))\<lparr>n_bitrates := 12, current_channel := Some 2412\<rparr>) = Some (skb', t) \<and>
     skb_data skb' = h @ [8, 0, 1, 2] \<and> length h = 32"
proof -
  let ?s = "(r92su_zero (\<lambda>x :: u16. 0 :: u8))\<lparr>n_bitrates := 12, current_channel := Some 2412\<rparr>"
  have d: "GET_RX_DESC_RX_MCS (fst demo_item) = 0" "GET_RX_DESC_RX_HT (fst demo_item) = 0" "GET_RX_DESC_PAGGR (fst demo_item) = 0"
    by (simp_all add: demo_item_def desc_defs SHIFT_AND_MASK_LE_def dword_def le32_def)
  have l: "r92su_rx_calc_radiotap_len (fst demo_item) = 32"
    by (simp add: r92su_rx_calc_radiotap_len_def d Let_def ALIGN_def)
  show ?thesis
    using radiotap_keeps_frame [of "fst demo_item" ?s 2412 "demo_rx_skb [8, 0, 1, 2] rx_info_zero"]
    by (auto simp: d l demo_rx_skb_def)
qed

section \<open>Elements of a well-formed list are found\<close>

definition put_ies :: "(u8 \<times> bytes) list \<Rightarrow> bytes" where
  "put_ies es = concat (map (\<lambda>(t, d). t # of_nat (length d) # d) es)"

lemma find_ie_put:
  "\<forall>e \<in> set es. length (snd e) < 256 \<Longrightarrow> ies = pre @ put_ies es @ rest \<Longrightarrow> len = length pre + length (put_ies es) \<Longrightarrow>
   find_ie_from ies len ie (length pre) = Some (if ie \<in> fst ` set es
     then Some (length pre + length (put_ies (takeWhile (\<lambda>e. fst e \<noteq> ie) es))) else None)"
proof (induction es arbitrary: pre)
  case Nil
  then show ?case by (subst find_ie_from.simps) (simp add: put_ies_def)
next
  case (Cons e es)
  obtain t d where e: "e = (t, d)" by (cases e)
  have n: "unat (of_nat (length d) :: u8) = length d"
    using Cons.prems(1) by (simp add: e unat_of_nat take_bit_eq_mod)
  let ?pre = "pre @ t # of_nat (length d) # d"
  have len: "length ?pre = length pre + 2 + length d" by simp
  have buf: "ies = ?pre @ put_ies es @ rest" "len = length ?pre + length (put_ies es)"
    using Cons.prems(2,3) by (simp_all add: e put_ies_def)
  have rd: "rd8 ies (Suc (length pre)) = Some (of_nat (length d))" "rd8 ies (length pre) = Some t"
    using buf(1) by (simp_all add: rd8_def nth_append)
  have "find_ie_from ies len ie (length pre) =
      (if t = ie then Some (Some (length pre)) else find_ie_from ies len ie (length ?pre))"
    by (subst find_ie_from.simps) (simp add: rd n buf(2) del: rd8_Some_iff)
  moreover have "find_ie_from ies len ie (length ?pre) = Some (if ie \<in> fst ` set es
     then Some (length ?pre + length (put_ies (takeWhile (\<lambda>e. fst e \<noteq> ie) es))) else None)"
    by (rule Cons.IH [OF _ buf]) (use Cons.prems(1) in simp)
  ultimately show ?case by (auto simp: e put_ies_def)
qed

text \<open>In a list of complete information elements, the search returns the first element with the
  wanted identifier, and nothing if there is none, whatever follows the list.\<close>

theorem find_ie_first:
  assumes "\<forall>e \<in> set es. length (snd e) < 256"
  shows "r92su_find_ie (put_ies es @ rest) (length (put_ies es)) ie = Some (if ie \<in> fst ` set es
     then Some (length (put_ies (takeWhile (\<lambda>e. fst e \<noteq> ie) es))) else None)"
  using find_ie_put [OF assms, of _ "[]"] by (simp add: r92su_find_ie_def)

theorem find_ie_first_witness:
  "r92su_find_ie [0, 2, 65, 66, 221, 1, 9, 45, 0] 9 221 = Some (Some 4)"
proof -
  let ?es = "[(0, [65, 66]), (221, [9]), (45, [])] :: (u8 \<times> bytes) list"
  have p: "put_ies ?es = [0, 2, 65, 66, 221, 1, 9, 45, 0]" "length [0, 2, 65, 66, 221, 1, 9, 45, 0 :: u8] = 9"
    "takeWhile (\<lambda>e. fst e \<noteq> 221) ?es = [(0, [65, 66])]" "length (put_ies [(0, [65, 66])]) = 4"
    by (simp_all add: put_ies_def)
  have "\<forall>e \<in> set ?es. length (snd e) < 256" "221 \<in> fst ` set ?es" by simp_all
  then show ?thesis using find_ie_first [of ?es "[]" 221] by (simp only: p append_Nil2 if_True simp_thms)
qed

text \<open>A single byte behind the last element makes the search read one byte behind the end.\<close>

lemma find_ie_reads_behind: "r92su_find_ie [0, 0, 7] 3 221 = None"
  by (simp add: r92su_find_ie_def find_ie_from.simps [of _ _ _ 0] find_ie_from.simps [of _ _ _ "Suc (Suc 0)"] rd8_def)

end
