(* ===== verification/R92_Regs.thy ===== *)
theory R92_Regs
  imports R92_Prelude
begin

text \<open>
  The register file (\<open>reg.h\<close>): the addresses and bits that the driver's own code uses. An
  address is the 32-bit number of the header, of which \<open>r92su_sync_read\<close> and
  \<open>r92su_sync_write\<close> keep the low 16 bits; a bit mask has the width of its use.
\<close>

section \<open>Addresses\<close>

definition RTL8712_IOBASE_IOREG :: u32 where [reg_defs]: "RTL8712_IOBASE_IOREG = 0x10250000"
definition RTL8712_SYSCFG_base :: u32 where [reg_defs]: "RTL8712_SYSCFG_base = RTL8712_IOBASE_IOREG + 0x0"
definition RTL8712_CMDCTRL_base :: u32 where [reg_defs]: "RTL8712_CMDCTRL_base = RTL8712_IOBASE_IOREG + 0x40"
definition RTL8712_FIFOCTRL_base :: u32 where [reg_defs]: "RTL8712_FIFOCTRL_base = RTL8712_IOBASE_IOREG + 0xa0"
definition RTL8712_GP_base :: u32 where [reg_defs]: "RTL8712_GP_base = RTL8712_IOBASE_IOREG + 0x2e0"
definition RTL8712_IOCMD_base :: u32 where [reg_defs]: "RTL8712_IOCMD_base = RTL8712_IOBASE_IOREG + 0x370"
definition RTL8712_USB_base :: u32 where [reg_defs]: "RTL8712_USB_base = RTL8712_IOBASE_IOREG + 0xfe00"

definition REG_SYS_ISO_CTRL :: u32 where [reg_defs]: "REG_SYS_ISO_CTRL = RTL8712_SYSCFG_base + 0x0"
definition REG_SYS_FUNC_EN :: u32 where [reg_defs]: "REG_SYS_FUNC_EN = RTL8712_SYSCFG_base + 0x2"
definition REG_PMC_FSM :: u32 where [reg_defs]: "REG_PMC_FSM = RTL8712_SYSCFG_base + 0x4"
definition REG_SYS_CLKR :: u32 where [reg_defs]: "REG_SYS_CLKR = RTL8712_SYSCFG_base + 0x8"
definition REG_EEPROM_CMD :: u32 where [reg_defs]: "REG_EEPROM_CMD = RTL8712_SYSCFG_base + 0xa"
definition REG_AFE_MISC :: u32 where [reg_defs]: "REG_AFE_MISC = RTL8712_SYSCFG_base + 0x10"
definition REG_SPS0_CTRL :: u32 where [reg_defs]: "REG_SPS0_CTRL = RTL8712_SYSCFG_base + 0x11"
definition REG_RF_CTRL :: u32 where [reg_defs]: "REG_RF_CTRL = RTL8712_SYSCFG_base + 0x1f"
definition REG_LDOA15_CTRL :: u32 where [reg_defs]: "REG_LDOA15_CTRL = RTL8712_SYSCFG_base + 0x20"
definition REG_LDOV12D_CTRL :: u32 where [reg_defs]: "REG_LDOV12D_CTRL = RTL8712_SYSCFG_base + 0x21"
definition REG_AFE_XTAL_CTRL :: u32 where [reg_defs]: "REG_AFE_XTAL_CTRL = RTL8712_SYSCFG_base + 0x26"
definition REG_AFE_PLL_CTRL :: u32 where [reg_defs]: "REG_AFE_PLL_CTRL = RTL8712_SYSCFG_base + 0x28"
definition REG_EFUSE_CTRL :: u32 where [reg_defs]: "REG_EFUSE_CTRL = RTL8712_SYSCFG_base + 0x30"
definition REG_EFUSE_TEST :: u32 where [reg_defs]: "REG_EFUSE_TEST = RTL8712_SYSCFG_base + 0x34"
definition REG_EFUSE_CLK_CTRL :: u32 where [reg_defs]: "REG_EFUSE_CLK_CTRL = RTL8712_SYSCFG_base + 0x2f8"
definition REG_CR :: u32 where [reg_defs]: "REG_CR = RTL8712_CMDCTRL_base + 0x0"
definition REG_TXPAUSE :: u32 where [reg_defs]: "REG_TXPAUSE = RTL8712_CMDCTRL_base + 0x2"
definition REG_LBKMD_SEL :: u32 where [reg_defs]: "REG_LBKMD_SEL = RTL8712_CMDCTRL_base + 0x3"
definition REG_TCR :: u32 where [reg_defs]: "REG_TCR = RTL8712_CMDCTRL_base + 0x4"
definition REG_RCR :: u32 where [reg_defs]: "REG_RCR = RTL8712_CMDCTRL_base + 0x8"
definition REG_PBP :: u32 where [reg_defs]: "REG_PBP = RTL8712_FIFOCTRL_base + 0x15"
definition REG_RXDMA_RXCTRL :: u32 where [reg_defs]: "REG_RXDMA_RXCTRL = RTL8712_FIFOCTRL_base + 0x1d"
definition REG_RXDMA_AGG_PG_TH :: u32 where [reg_defs]: "REG_RXDMA_AGG_PG_TH = RTL8712_FIFOCTRL_base + 0x39"
definition REG_RXFLTMAP0 :: u32 where [reg_defs]: "REG_RXFLTMAP0 = RTL8712_FIFOCTRL_base + 0x76"
definition REG_RXFLTMAP1 :: u32 where [reg_defs]: "REG_RXFLTMAP1 = RTL8712_FIFOCTRL_base + 0x78"
definition REG_RXFLTMAP2 :: u32 where [reg_defs]: "REG_RXFLTMAP2 = RTL8712_FIFOCTRL_base + 0x7a"
definition REG_GPIO_CTRL :: u32 where [reg_defs]: "REG_GPIO_CTRL = RTL8712_GP_base + 0xc"
definition REG_GPIO_IO_SEL :: u32 where [reg_defs]: "REG_GPIO_IO_SEL = RTL8712_GP_base + 0xe"
definition REG_MAC_PINMUX_CTRL :: u32 where [reg_defs]: "REG_MAC_PINMUX_CTRL = RTL8712_GP_base + 0x11"
definition REG_IOCMD_CTRL :: u32 where [reg_defs]: "REG_IOCMD_CTRL = RTL8712_IOCMD_base + 0x0"
definition REG_IOCMD_DATA :: u32 where [reg_defs]: "REG_IOCMD_DATA = RTL8712_IOCMD_base + 0x4"
definition REG_USB_MAGIC :: u32 where [reg_defs]: "REG_USB_MAGIC = RTL8712_USB_base + 0x1c"
definition REG_USB_HRPWM :: u32 where [reg_defs]: "REG_USB_HRPWM = RTL8712_USB_base + 0x58"
definition REG_USB_DMA_AGG_TO :: u32 where [reg_defs]: "REG_USB_DMA_AGG_TO = RTL8712_USB_base + 0x5b"
definition REG_USB_AGG_TO :: u32 where [reg_defs]: "REG_USB_AGG_TO = RTL8712_USB_base + 0x5c"

section \<open>Bits\<close>

definition ISO_PWC_DV2RP :: "'a::len word" where [reg_defs]: "ISO_PWC_DV2RP = BIT 11"
definition FEN_CPUEN :: "'a::len word" where [reg_defs]: "FEN_CPUEN = BIT 10"
definition PCM_FSM_VER :: "'a::len word" where [reg_defs]: "PCM_FSM_VER = 0xf8000"
definition SYS_CPU_CLKSEL :: "'a::len word" where [reg_defs]: "SYS_CPU_CLKSEL = BIT 2"
definition SYS_SWHW_SEL :: "'a::len word" where [reg_defs]: "SYS_SWHW_SEL = BIT 14"
definition SYS_FWHW_SEL :: "'a::len word" where [reg_defs]: "SYS_FWHW_SEL = BIT 15"
definition EEPROM_CMD_93C46 :: "'a::len word" where [reg_defs]: "EEPROM_CMD_93C46 = BIT 4"
definition EEPROM_CMD_AUTOLOAD_OK :: "'a::len word" where [reg_defs]:
  "EEPROM_CMD_AUTOLOAD_OK = BIT 5"
definition AFE_BGEN :: "'a::len word" where [reg_defs]: "AFE_BGEN = BIT 0"
definition AFE_MBEN :: "'a::len word" where [reg_defs]: "AFE_MBEN = BIT 1"
definition AFE_MISC_I32_EN :: "'a::len word" where [reg_defs]: "AFE_MISC_I32_EN = BIT 3"
definition LDA15_EN :: "'a::len word" where [reg_defs]: "LDA15_EN = BIT 0"
definition LDV12_EN :: "'a::len word" where [reg_defs]: "LDV12_EN = BIT 0"
definition HCI_TXDMA_EN :: "'a::len word" where [reg_defs]: "HCI_TXDMA_EN = BIT 2"
definition HCI_RXDMA_EN :: "'a::len word" where [reg_defs]: "HCI_RXDMA_EN = BIT 3"
definition TXDMA_EN :: "'a::len word" where [reg_defs]: "TXDMA_EN = BIT 4"
definition RXDMA_EN :: "'a::len word" where [reg_defs]: "RXDMA_EN = BIT 5"
definition FW2HW_EN :: "'a::len word" where [reg_defs]: "FW2HW_EN = BIT 6"
definition DDMA_EN :: "'a::len word" where [reg_defs]: "DDMA_EN = BIT 7"
definition MACTXEN :: "'a::len word" where [reg_defs]: "MACTXEN = BIT 8"
definition MACRXEN :: "'a::len word" where [reg_defs]: "MACRXEN = BIT 9"
definition SCHEDULE_EN :: "'a::len word" where [reg_defs]: "SCHEDULE_EN = BIT 10"
definition BB_GLB_RSTN :: "'a::len word" where [reg_defs]: "BB_GLB_RSTN = BIT 12"
definition BBRSTN :: "'a::len word" where [reg_defs]: "BBRSTN = BIT 13"
definition STOPBK :: "'a::len word" where [reg_defs]: "STOPBK = BIT 0"
definition STOPBE :: "'a::len word" where [reg_defs]: "STOPBE = BIT 1"
definition STOPVI :: "'a::len word" where [reg_defs]: "STOPVI = BIT 2"
definition STOPVO :: "'a::len word" where [reg_defs]: "STOPVO = BIT 3"
definition STOPMGT :: "'a::len word" where [reg_defs]: "STOPMGT = BIT 4"
definition STOPHIGH :: "'a::len word" where [reg_defs]: "STOPHIGH = BIT 5"
definition STOPHCCA :: "'a::len word" where [reg_defs]: "STOPHCCA = BIT 6"
definition LBK_NORMAL :: "'a::len word" where [reg_defs]: "LBK_NORMAL = 0x0"
definition IMEM_CODE_DONE :: "'a::len word" where [reg_defs]: "IMEM_CODE_DONE = BIT 0"
definition IMEM_CHK_RPT :: "'a::len word" where [reg_defs]: "IMEM_CHK_RPT = BIT 1"
definition EMEM_CODE_DONE :: "'a::len word" where [reg_defs]: "EMEM_CODE_DONE = BIT 2"
definition EMEM_CHK_RPT :: "'a::len word" where [reg_defs]: "EMEM_CHK_RPT = BIT 3"
definition EXT_IMEM_CHK_RPT :: "'a::len word" where [reg_defs]: "EXT_IMEM_CHK_RPT = BIT 3"
definition DMEM_CODE_DONE :: "'a::len word" where [reg_defs]: "DMEM_CODE_DONE = BIT 4"
definition IMEM_RDY :: "'a::len word" where [reg_defs]: "IMEM_RDY = BIT 5"
definition BASECHG :: "'a::len word" where [reg_defs]: "BASECHG = BIT 6"
definition FWRDY :: "'a::len word" where [reg_defs]: "FWRDY = BIT 7"
definition TCR_ICV :: "'a::len word" where [reg_defs]: "TCR_ICV = BIT 19"
definition LOAD_FW_READY :: "'a::len word" where [reg_defs]:
  "LOAD_FW_READY = IMEM_CODE_DONE OR IMEM_CHK_RPT OR EMEM_CODE_DONE OR EMEM_CHK_RPT OR DMEM_CODE_DONE OR IMEM_RDY OR BASECHG OR FWRDY"
definition TXDMA_INIT_VALUE :: "'a::len word" where [reg_defs]:
  "TXDMA_INIT_VALUE = IMEM_CHK_RPT OR EXT_IMEM_CHK_RPT"
definition RCR_AAP :: "'a::len word" where [reg_defs]: "RCR_AAP = BIT 0"
definition RCR_APM :: "'a::len word" where [reg_defs]: "RCR_APM = BIT 1"
definition RCR_AM :: "'a::len word" where [reg_defs]: "RCR_AM = BIT 2"
definition RCR_AB :: "'a::len word" where [reg_defs]: "RCR_AB = BIT 3"
definition RCR_AICV :: "'a::len word" where [reg_defs]: "RCR_AICV = BIT 12"
definition RCR_APP_ICV :: "'a::len word" where [reg_defs]: "RCR_APP_ICV = BIT 16"
definition RCR_APP_MIC :: "'a::len word" where [reg_defs]: "RCR_APP_MIC = BIT 17"
definition RCR_ADF :: "'a::len word" where [reg_defs]: "RCR_ADF = BIT 18"
definition RCR_ACF :: "'a::len word" where [reg_defs]: "RCR_ACF = BIT 19"
definition RCR_AMF :: "'a::len word" where [reg_defs]: "RCR_AMF = BIT 20"
definition RCR_ADD3 :: "'a::len word" where [reg_defs]: "RCR_ADD3 = BIT 21"
definition RCR_APWRMGT :: "'a::len word" where [reg_defs]: "RCR_APWRMGT = BIT 22"
definition RCR_CBSSID :: "'a::len word" where [reg_defs]: "RCR_CBSSID = BIT 23"
definition RCR_APP_PHYST_STAFF :: "'a::len word" where [reg_defs]: "RCR_APP_PHYST_STAFF = BIT 24"
definition RCR_APP_PHYST_RXFF :: "'a::len word" where [reg_defs]: "RCR_APP_PHYST_RXFF = BIT 25"
definition RCR_APPFCS :: "'a::len word" where [reg_defs]: "RCR_APPFCS = BIT 31"
definition PBP_PAGE_128B :: "'a::len word" where [reg_defs]: "PBP_PAGE_128B = BIT 0"
definition RXDMA_AGG_EN :: "'a::len word" where [reg_defs]: "RXDMA_AGG_EN = BIT 7"
definition HAL_8192S_HW_GPIO_WPS_BIT :: "'a::len word" where [reg_defs]:
  "HAL_8192S_HW_GPIO_WPS_BIT = BIT 4"
definition GPIOSEL_GPIO :: "'a::len word" where [reg_defs]: "GPIOSEL_GPIO = 0"
definition GPIOMUX_EN :: "'a::len word" where [reg_defs]: "GPIOMUX_EN = BIT 3"
definition USB_MAGIC_BIT7 :: "'a::len word" where [reg_defs]: "USB_MAGIC_BIT7 = BIT 7"

text \<open>\<open>GET_VAL(PCM_FSM_VER, value)\<close>\<close>

definition GET_PCM_FSM_VER :: "u32 \<Rightarrow> u32" where
  "GET_PCM_FSM_VER v = drop_bit 15 (v AND PCM_FSM_VER)"

end
