(* ===== verification/R92_Hw.thy ===== *)
theory R92_Hw
  imports R92_Usb R92_Regs
begin

text \<open>
  The hardware set-up (\<open>hw.c\<close>): power-on sequence, receive filter, chip version, the signal
  scale and the periodic service work. The delays are not modelled. A sequence of register
  accesses is a do-block in the order of the code; a poll is a recursion on the tries that are
  left.
\<close>

section \<open>Power-on\<close>

abbreviation (input) PS_ACTIVE :: u8 where "PS_ACTIVE \<equiv> 0"

fun sysclk_wait :: "'w env \<Rightarrow> nat \<Rightarrow> ('w r92su, bool) state" where
  "sysclk_wait E 0 = ret False"
| "sysclk_wait E (Suc tries) = do {
     clk \<leftarrow> r92su_read16 E REG_SYS_CLKR;
     if clk AND SYS_SWHW_SEL \<noteq> 0 then ret True else sysclk_wait E tries }"

definition r92su_halset_sysclk :: "'w env \<Rightarrow> u16 \<Rightarrow> ('w r92su, bool) state" where
  "r92su_halset_sysclk E clk_set = do {
     r92su_write16 E REG_SYS_CLKR clk_set;
     clk \<leftarrow> r92su_read16 E REG_SYS_CLKR;
     if clk_set AND (SYS_SWHW_SEL OR SYS_FWHW_SEL) = 0 then sysclk_wait E 100
     else ret (clk AND SYS_FWHW_SEL = clk_set AND SYS_FWHW_SEL) }"

text \<open>The poll for the transmit DMA: the result says whether a try was left.\<close>

fun txdma_wait :: "'w env \<Rightarrow> nat \<Rightarrow> ('w r92su, bool) state" where
  "txdma_wait E 0 = ret False"
| "txdma_wait E (Suc tries) = do {
     tmpu1b \<leftarrow> r92su_read8 E REG_TCR;
     if tmpu1b AND TXDMA_INIT_VALUE = TXDMA_INIT_VALUE then ret True else txdma_wait E tries }"

text \<open>The power sequence up to the last switch of the clock.\<close>

definition cut_reset :: "'w env \<Rightarrow> ('w r92su, int) state" where
  "cut_reset E = do {
     r92su_write8 E (REG_EFUSE_TEST + 3) 0xb0;
     r92su_write8 E (REG_EFUSE_TEST + 3) 0x30;
     tmpu2b \<leftarrow> r92su_read16 E REG_SYS_CLKR;
     ok \<leftarrow> (if tmpu2b AND SYS_FWHW_SEL \<noteq> 0
        then r92su_halset_sysclk E (tmpu2b AND NOT (SYS_SWHW_SEL OR SYS_FWHW_SEL))
        else ret True);
     ret (if ok then 0 else - EIO) }"

definition cut_power :: "'w env \<Rightarrow> ('w r92su, unit) state" where
  "cut_power E = do {
     tmpu1b \<leftarrow> r92su_read8 E (REG_SYS_FUNC_EN + 1);
     r92su_write8 E (REG_SYS_FUNC_EN + 1) (tmpu1b AND 0x73);
     r92su_write8 E (REG_SPS0_CTRL + 1) 0x53;
     r92su_write8 E REG_SPS0_CTRL 0x57;
     tmpu1b \<leftarrow> r92su_read8 E REG_AFE_MISC;
     r92su_write8 E REG_AFE_MISC (tmpu1b OR AFE_BGEN);
     tmpu1b \<leftarrow> r92su_read8 E REG_AFE_MISC;
     r92su_write8 E REG_AFE_MISC (tmpu1b OR AFE_BGEN OR AFE_MBEN OR AFE_MISC_I32_EN);
     tmpu1b \<leftarrow> r92su_read8 E REG_LDOA15_CTRL;
     r92su_write8 E REG_LDOA15_CTRL (tmpu1b OR LDA15_EN);
     tmpu1b \<leftarrow> r92su_read8 E REG_LDOV12D_CTRL;
     r92su_write8 E REG_LDOV12D_CTRL (tmpu1b OR LDV12_EN);
     tmpu2b \<leftarrow> r92su_read16 E REG_SYS_ISO_CTRL;
     r92su_write16 E REG_SYS_ISO_CTRL (tmpu2b OR ISO_PWC_DV2RP);
     tmpu2b \<leftarrow> r92su_read16 E REG_SYS_FUNC_EN;
     r92su_write16 E REG_SYS_FUNC_EN (tmpu2b OR BIT 13);
     tmpu1b \<leftarrow> r92su_read8 E (REG_SYS_ISO_CTRL + 1);
     r92su_write8 E (REG_SYS_ISO_CTRL + 1) (tmpu1b AND 0x68);
     tmpu1b \<leftarrow> r92su_read8 E REG_AFE_XTAL_CTRL;
     r92su_write8 E REG_AFE_XTAL_CTRL (tmpu1b OR 0x01);
     tmpu1b \<leftarrow> r92su_read8 E (REG_AFE_XTAL_CTRL + 1);
     r92su_write8 E (REG_AFE_XTAL_CTRL + 1) (tmpu1b AND 0xfb);
     tmpu1b \<leftarrow> r92su_read8 E REG_AFE_PLL_CTRL;
     r92su_write8 E REG_AFE_PLL_CTRL (tmpu1b OR BIT 0 OR BIT 4);
     r92su_write8 E REG_AFE_PLL_CTRL (tmpu1b OR BIT 0 OR BIT 4 OR BIT 6);
     r92su_write8 E REG_AFE_PLL_CTRL (tmpu1b OR BIT 0 OR BIT 4);
     tmpu1b \<leftarrow> r92su_read8 E REG_SYS_ISO_CTRL;
     r92su_write8 E REG_SYS_ISO_CTRL (tmpu1b AND 0xee);
     r92su_write8 E REG_SYS_CLKR 0x00;
     tmpu1b \<leftarrow> r92su_read8 E REG_SYS_CLKR;
     r92su_write8 E REG_SYS_CLKR (tmpu1b OR 0xa0) }"

definition cut_enable :: "'w env \<Rightarrow> ('w r92su, unit) state" where
  "cut_enable E = do {
     r92su_write8 E REG_PMC_FSM 0x02;
     tmpu2b \<leftarrow> r92su_read16 E REG_SYS_FUNC_EN;
     r92su_write16 E REG_SYS_FUNC_EN (tmpu2b OR BIT 11);
     tmpu2b \<leftarrow> r92su_read16 E REG_SYS_FUNC_EN;
     r92su_write16 E REG_SYS_FUNC_EN (tmpu2b OR BIT 15) }"

definition cut_dma :: "'w env \<Rightarrow> ('w r92su, unit) state" where
  "cut_dma E = do {
     r92su_write16 E REG_CR (HCI_TXDMA_EN OR HCI_RXDMA_EN OR TXDMA_EN OR RXDMA_EN OR FW2HW_EN OR
       DDMA_EN OR MACTXEN OR MACRXEN OR SCHEDULE_EN OR BB_GLB_RSTN OR BBRSTN);
     tmpu1b \<leftarrow> r92su_read8 E REG_USB_AGG_TO;
     r92su_write8 E REG_USB_AGG_TO (tmpu1b OR BIT 7) }"

definition cut_finish :: "'w env \<Rightarrow> ('w r92su, unit) state" where
  "cut_finish E = do {
     r92su_write8 E REG_USB_MAGIC USB_MAGIC_BIT7;
     ready \<leftarrow> txdma_wait E 20;
     if ready then ret ()
     else do {
       tmpu1b \<leftarrow> r92su_read8 E REG_CR;
       r92su_write8 E REG_CR (tmpu1b AND NOT TXDMA_EN);
       r92su_write8 E REG_CR (tmpu1b OR TXDMA_EN) } }"

definition r92su_usb_init_b_and_c_cut :: "'w env \<Rightarrow> ('w r92su, int) state" where
  "r92su_usb_init_b_and_c_cut E = do {
     err \<leftarrow> cut_reset E;
     if err \<noteq> 0 then ret err
     else do {
       cut_power E;
       tmpu2b \<leftarrow> r92su_read16 E REG_SYS_CLKR;
       ok \<leftarrow> r92su_halset_sysclk E (tmpu2b OR (BIT 12 OR BIT 11));
       if \<not> ok then ret (- EIO)
       else do {
         cut_enable E;
         tmpu2b \<leftarrow> r92su_read16 E REG_SYS_CLKR;
         ok \<leftarrow> r92su_halset_sysclk E ((tmpu2b OR SYS_FWHW_SEL) AND NOT SYS_SWHW_SEL);
         if \<not> ok then ret (- EIO)
         else do {
           cut_dma E;
           tmpu2b \<leftarrow> r92su_read16 E REG_SYS_CLKR;
           ok \<leftarrow> r92su_halset_sysclk E (tmpu2b AND NOT SYS_CPU_CLKSEL);
           if \<not> ok then ret (- EIO)
           else do { cut_finish E; ret 0 } } } } }"

definition r92su_hw_early_mac_setup :: "'w env \<Rightarrow> ('w r92su, int) state" where
  "r92su_hw_early_mac_setup E = do {
     r92su_write8 E REG_USB_HRPWM PS_ACTIVE;
     s \<leftarrow> State_Monad.get;
     (case chip_rev s of
        R92SU_C_CUT \<Rightarrow> r92su_usb_init_b_and_c_cut E
      | R92SU_B_CUT \<Rightarrow> r92su_usb_init_b_and_c_cut E
      | _ \<Rightarrow> ret (- EOPNOTSUPP)) }"

section \<open>After the firmware has started\<close>

definition r92su_upload_finish :: "'w env \<Rightarrow> ('w r92su, int) state" where
  "r92su_upload_finish E = do {
     cr \<leftarrow> r92su_read32 E REG_TCR;
     r92su_write32 E REG_TCR (cr AND NOT TCR_ICV);
     cr \<leftarrow> r92su_read32 E REG_RCR;
     r92su_write32 E REG_RCR (cr OR (RCR_APP_PHYST_RXFF OR RCR_APP_ICV OR RCR_APP_MIC));
     r92su_write8 E REG_LBKMD_SEL LBK_NORMAL;
     ret 0 }"

definition r92su_usb_final_macconfig :: "'w env \<Rightarrow> ('w r92su, int) state" where
  "r92su_usb_final_macconfig E = do {
     tmp \<leftarrow> r92su_read8 E REG_PBP;
     r92su_write8 E REG_PBP (tmp OR PBP_PAGE_128B);
     modify (\<lambda>s. s\<lparr>rx_alignment := 128\<rparr>);
     tmp \<leftarrow> r92su_read8 E REG_RXDMA_RXCTRL;
     r92su_write8 E REG_RXDMA_RXCTRL (tmp OR RXDMA_AGG_EN);
     r92su_write8 E REG_RXDMA_AGG_PG_TH 48;
     r92su_write8 E REG_USB_DMA_AGG_TO 0x04;
     tmp \<leftarrow> r92su_read8 E REG_USB_AGG_TO;
     r92su_write8 E REG_USB_AGG_TO (tmp OR BIT 7);
     ret 0 }"

definition r92su_macconfig_after_fwdownload :: "'w env \<Rightarrow> ('w r92su, int) state" where
  "r92su_macconfig_after_fwdownload E = do {
     tmp16 \<leftarrow> r92su_read16 E REG_TXPAUSE;
     r92su_write16 E REG_TXPAUSE (tmp16 AND NOT (STOPBK OR STOPBE OR STOPVI OR STOPVO OR STOPMGT OR
       STOPHIGH OR STOPHCCA OR BIT 7));
     ret 0 }"

definition r92su_wps_cfg_inputmethod :: "'w env \<Rightarrow> ('w r92su, int) state" where
  "r92su_wps_cfg_inputmethod E = do {
     r92su_write8 E REG_MAC_PINMUX_CTRL (GPIOMUX_EN OR GPIOSEL_GPIO);
     u1tmp \<leftarrow> r92su_read8 E REG_GPIO_IO_SEL;
     r92su_write8 E REG_GPIO_IO_SEL (u1tmp AND NOT HAL_8192S_HW_GPIO_WPS_BIT);
     ret 0 }"

definition r92su_wps_detect :: "'w env \<Rightarrow> ('w r92su, bool) state" where
  "r92su_wps_detect E = do {
     r92su_write8 E REG_MAC_PINMUX_CTRL (GPIOMUX_EN OR GPIOSEL_GPIO);
     u1tmp \<leftarrow> r92su_read8 E REG_GPIO_IO_SEL;
     r92su_write8 E REG_GPIO_IO_SEL (u1tmp AND NOT HAL_8192S_HW_GPIO_WPS_BIT);
     u1tmp \<leftarrow> r92su_read8 E REG_GPIO_CTRL;
     ret (u1tmp AND HAL_8192S_HW_GPIO_WPS_BIT \<noteq> 0) }"

definition r92su_hw_late_mac_setup :: "'w env \<Rightarrow> ('w r92su, int) state" where
  "r92su_hw_late_mac_setup E = do {
     err \<leftarrow> r92su_upload_finish E;
     if err \<noteq> 0 then ret err
     else do {
       err \<leftarrow> r92su_macconfig_after_fwdownload E;
       if err \<noteq> 0 then ret err
       else do {
         err \<leftarrow> r92su_usb_final_macconfig E;
         if err \<noteq> 0 then ret err
         else r92su_wps_cfg_inputmethod E } } }"

definition r92su_hw_mac_deinit :: "'w env \<Rightarrow> ('w r92su, int) state" where
  "r92su_hw_mac_deinit E = do {
     r92su_write8 E REG_RF_CTRL 0x00;
     r92su_write8 E (REG_SYS_CLKR + 1) 0x38;
     r92su_write8 E (REG_SYS_FUNC_EN + 1) 0x70;
     r92su_write8 E REG_PMC_FSM 0x06;
     r92su_write8 E REG_SYS_ISO_CTRL 0xF9;
     r92su_write8 E (REG_SYS_ISO_CTRL + 1) 0xe8;
     r92su_write8 E REG_AFE_PLL_CTRL 0x00;
     r92su_write8 E REG_LDOA15_CTRL 0x54;
     r92su_write8 E (REG_SYS_FUNC_EN + 1) 0x50;
     r92su_write8 E REG_LDOV12D_CTRL 0x24;
     r92su_write8 E REG_AFE_MISC 0x30;
     r92su_write8 E REG_SPS0_CTRL 0x56;
     r92su_write8 E (REG_SPS0_CTRL + 1) 0x43;
     ret 0 }"

section \<open>The receive filter\<close>

text \<open>The new value of the receive configuration register.\<close>

definition rcr_value :: "bool \<Rightarrow> bool \<Rightarrow> bool \<Rightarrow> u32 \<Rightarrow> u32" where
  "rcr_value data ctrl monitor rcr =
     (let rcr = (if data then rcr OR RCR_ADF else rcr AND NOT RCR_ADF);
          rcr = (if ctrl then rcr OR RCR_ACF else rcr AND NOT RCR_ACF);
          rcr = rcr OR RCR_AMF;
          rcr = (if monitor then rcr OR (RCR_AAP OR RCR_CBSSID)
                 else rcr AND NOT (RCR_AAP OR RCR_CBSSID))
      in rcr OR (RCR_APPFCS OR RCR_APWRMGT OR RCR_APP_MIC OR RCR_APP_ICV OR RCR_AICV OR
           RCR_AB OR RCR_AM OR RCR_APM OR RCR_APP_PHYST_STAFF))"

definition r92su_hw_mac_set_rx_filter ::
    "'w env \<Rightarrow> bool \<Rightarrow> bool \<Rightarrow> bool \<Rightarrow> bool \<Rightarrow> ('w r92su, int) state" where
  "r92su_hw_mac_set_rx_filter E data all_mgt ctrl monitor = do {
     rcr \<leftarrow> r92su_read32 E REG_RCR;
     r92su_write32 E REG_RCR (rcr_value data ctrl monitor rcr);
     r92su_write16 E REG_RXFLTMAP2 (if data then 0 else 0xffff);
     r92su_write16 E REG_RXFLTMAP1 (if ctrl then 0 else 0xffff);
     r92su_write16 E REG_RXFLTMAP0 (if all_mgt then 0 else 0x3f3f);
     ret 0 }"

section \<open>Signal strength and service work\<close>

definition r92su_hw_queue_service_work :: "'w env \<Rightarrow> 'w r92su \<Rightarrow> 'w r92su" where
  "r92su_hw_queue_service_work E s = emit (Queue_delayed_work Service_work (2 * HZ (kernel E))) s"

definition r92su_signal_scale_mapping :: "u32 \<Rightarrow> u32" where
  "r92su_signal_scale_mapping raw =
     (if 51 \<le> raw \<and> raw \<le> 100 then 100
      else if 41 \<le> raw \<and> raw \<le> 50 then 80 + (raw - 40) * 2
      else if 31 \<le> raw \<and> raw \<le> 40 then 36 + raw
      else if 21 \<le> raw \<and> raw \<le> 30 then 34 + raw
      else if 10 \<le> raw \<and> raw \<le> 20 then 42 + ((raw - 10) * 3) div 2
      else if 5 \<le> raw \<and> raw \<le> 9 then 22 + ((raw - 5) * 3) div 2
      else if 1 \<le> raw \<and> raw \<le> 4 then 6 + ((raw - 1) * 3) div 2
      else raw)"

fun phy_status_wait :: "'w env \<Rightarrow> nat \<Rightarrow> ('w r92su, bool) state" where
  "phy_status_wait E 0 = ret False"
| "phy_status_wait E (Suc tries) = do {
     v \<leftarrow> r92su_read32 E REG_IOCMD_CTRL;
     if v = 0 then ret True else phy_status_wait E tries }"

text \<open>The update of the connected network and of its station; a dangling pointer is \<open>None\<close>.\<close>

definition set_signal :: "u32 \<Rightarrow> 'w r92su \<Rightarrow> 'w r92su option" where
  "set_signal qual s = (case connect_bss s of
     None \<Rightarrow> Some s
   | Some b \<Rightarrow> do {
       bss \<leftarrow> bsss s b;
       let s = s\<lparr>bsss := (bsss s)(b \<mapsto> bss\<lparr>cb_signal := qual\<rparr>)\<rparr>;
       case bp_sta (cb_priv bss) of
         None \<Rightarrow> Some s
       | Some i \<Rightarrow> do {
           sta \<leftarrow> stas s i;
           Some (s\<lparr>stas := (stas s)(i \<mapsto> sta\<lparr>sta_signal := qual\<rparr>)\<rparr>) } })"

definition r92su_query_fw_rx_phy_status :: "'w env \<Rightarrow> 'w r92su \<Rightarrow> 'w r92su option" where
  "r92su_query_fw_rx_phy_status E s =
     (case run_state (do {
          r92su_write32 E REG_IOCMD_CTRL 0xf4000001;
          ready \<leftarrow> phy_status_wait E 50;
          if \<not> ready then ret None
          else do { v \<leftarrow> r92su_read32 E REG_IOCMD_DATA; ret (Some (drop_bit 4 v)) } }) s of
        (None, s) \<Rightarrow> Some s
      | (Some raw, s) \<Rightarrow> set_signal (r92su_signal_scale_mapping raw) s)"

definition wps_poll :: "'w env \<Rightarrow> 'w r92su \<Rightarrow> 'w r92su" where
  "wps_poll E s =
     (if \<not> wps_pbc s then s
      else case run_state (r92su_wps_detect E) s of (state, s) \<Rightarrow>
        if wps_pbc_state s \<noteq> state
        then emit (Input_report_key state) (s\<lparr>wps_pbc_state := state\<rparr>) else s)"

definition r92su_hw_service_work :: "'w env \<Rightarrow> 'w r92su \<Rightarrow> 'w r92su option" where
  "r92su_hw_service_work E s =
     (if \<not> r92su_is_initializing s then Some s
      else do {
        s \<leftarrow> r92su_query_fw_rx_phy_status E ((wps_poll E s)\<lparr>scanned := False\<rparr>);
        Some (r92su_hw_queue_service_work E s) })"

section \<open>Chip version\<close>

text \<open>The enumeration value of a revision number.\<close>

definition chip_rev_of :: "u8 \<Rightarrow> r92su_chip_revision_t" where
  "chip_rev_of n = (if n = 0 then R92SU_FPGA else if n = 1 then R92SU_A_CUT
     else if n = 2 then R92SU_B_CUT else R92SU_C_CUT)"

definition chip_decode :: "u32 \<Rightarrow> r92su_chip_revision_t option" where
  "chip_decode ver = (let rev = (ucast ver :: u8);
     rev = (if rev \<noteq> 3 then drop_bit 1 rev + 1 else rev)
   in if 3 < rev then None else Some (chip_rev_of rev))"

definition r92su_hw_read_chip_version :: "'w env \<Rightarrow> ('w r92su, int) state" where
  "r92su_hw_read_chip_version E = do {
     v \<leftarrow> r92su_read32 E REG_PMC_FSM;
     (case chip_decode (GET_PCM_FSM_VER v) of
        None \<Rightarrow> ret (- EINVAL)
      | Some r \<Rightarrow> do { modify (\<lambda>s. s\<lparr>chip_rev := r\<rparr>); ret 0 }) }"

section \<open>A device that keeps its registers\<close>

text \<open>
  The documented behaviour of the register file: \<open>regs w\<close> are the bytes of the registers in
  device state \<open>w\<close>; a read returns them and changes none, a write replaces the bytes it covers,
  and no transfer fails.
\<close>

definition reg_device :: "'w env \<Rightarrow> ('w \<Rightarrow> u16 \<Rightarrow> u8) \<Rightarrow> bool" where
  "reg_device E regs \<longleftrightarrow>
     (\<forall>n. alloc_ok E n) \<and>
     (\<forall>a n w. fst (usb_control_in E a n w) = (int n, map (\<lambda>i. regs w (a + of_nat i)) [0..<n]) \<and>
        regs (snd (usb_control_in E a n w)) = regs w) \<and>
     (\<forall>a d w. fst (usb_control_out E a d w) = int (length d) \<and>
        regs (snd (usb_control_out E a d w)) =
          (\<lambda>x. if unat (x - a) < length d then d ! unat (x - a) else regs w x))"

lemma reg_device_reg_env: "reg_device reg_env (\<lambda>w. w)"
  by (simp add: reg_device_def reg_env_def)

definition reg16 :: "(u16 \<Rightarrow> u8) \<Rightarrow> u32 \<Rightarrow> u16" where
  "reg16 r a = get_le16 [r (ucast a), r (ucast a + 1)]"

definition reg32 :: "(u16 \<Rightarrow> u8) \<Rightarrow> u32 \<Rightarrow> u32" where
  "reg32 r a = get_le32 [r (ucast a), r (ucast a + 1), r (ucast a + 2), r (ucast a + 3)]"

lemma get_le32_length4: "length d = 4 \<Longrightarrow> d = [d ! 0, d ! 1, d ! 2, d ! 3]"
  by (rule nth_equalityI) (auto simp: less_Suc_eq numeral_eq_Suc)

text \<open>Register access on such a device, for a driver that has not lost it.\<close>

lemma reg_write_helper:
  assumes "reg_device E regs" "r92su_is_probing s"
  shows "\<exists>s'. run_state (r92su_write_helper E a d) s = ((), s') \<and> r92su_is_probing s' \<and>
     regs (world s') = (\<lambda>x. if unat (x - ucast a) < length d then d ! unat (x - ucast a) else regs (world s) x)"
proof -
  obtain r w where c: "usb_control_out E (ucast a) d (world s) = (r, w)" by fastforce
  have "fst (usb_control_out E (ucast a) d (world s)) = int (length d)"
      "regs (snd (usb_control_out E (ucast a) d (world s))) =
        (\<lambda>x. if unat (x - ucast a) < length d then d ! unat (x - ucast a) else regs (world s) x)"
    using assms(1) unfolding reg_device_def by blast+
  then have "r = int (length d)" "regs w = (\<lambda>x. if unat (x - ucast a) < length d then d ! unat (x - ucast a) else regs (world s) x)"
    by (simp_all add: c)
  moreover have "alloc_ok E (allocs s)" using assms(1) by (simp add: reg_device_def)
  ultimately show ?thesis using assms(2) c
    by (simp add: r92su_write_helper_def r92su_sync_write_def kmalloc_def
        r92su_deal_with_usb_errors_def State_Monad.get_def r92su_is_probing_def)
qed

lemma reg_read_helper:
  assumes "reg_device E regs" "r92su_is_probing s" "length (stack_garbage E n) = n" "0 < n"
  shows "\<exists>s'. run_state (r92su_read_helper E a n) s =
       (map (\<lambda>i. regs (world s) (ucast a + of_nat i)) [0..<n], s') \<and> r92su_is_probing s' \<and>
     regs (world s') = regs (world s)"
proof -
  obtain r d w where c: "usb_control_in E (ucast a) n (world s) = ((r, d), w)"
    by (metis prod.collapse)
  have "fst (usb_control_in E (ucast a) n (world s)) =
        (int n, map (\<lambda>i. regs (world s) (ucast a + of_nat i)) [0..<n])"
      "regs (snd (usb_control_in E (ucast a) n (world s))) = regs (world s)"
    using assms(1) unfolding reg_device_def by blast+
  then have "r = int n" "d = map (\<lambda>i. regs (world s) (ucast a + of_nat i)) [0..<n]"
      "regs w = regs (world s)"
    by (simp_all add: c)
  moreover have "alloc_ok E (allocs s)" using assms(1) by (simp add: reg_device_def)
  ultimately show ?thesis using assms(2-4) c
    by (simp add: r92su_read_helper_def r92su_sync_read_def kmalloc_def Let_def
        r92su_deal_with_usb_errors_def State_Monad.get_def r92su_is_probing_def)
qed

definition garbage_ok :: "'w env \<Rightarrow> bool" where
  "garbage_ok E \<longleftrightarrow> (\<forall>n. length (stack_garbage E n) = n)"

lemma garbage_ok_reg_env: "garbage_ok reg_env"
  by (simp add: garbage_ok_def reg_env_def)

lemma reg_write32:
  assumes "reg_device E regs" "r92su_is_probing s"
  shows "\<exists>s'. run_state (r92su_write32 E a v) s = ((), s') \<and> r92su_is_probing s' \<and>
     regs (world s') = (\<lambda>x. if unat (x - ucast a) < 4 then put_le32 v ! unat (x - ucast a) else regs (world s) x)"
  using reg_write_helper [OF assms, of a "put_le32 v"] by (simp add: r92su_write32_def)

lemma reg_write16:
  assumes "reg_device E regs" "r92su_is_probing s"
  shows "\<exists>s'. run_state (r92su_write16 E a v) s = ((), s') \<and> r92su_is_probing s' \<and>
     regs (world s') = (\<lambda>x. if unat (x - ucast a) < 2 then put_le16 v ! unat (x - ucast a) else regs (world s) x)"
  using reg_write_helper [OF assms, of a "put_le16 v"] by (simp add: r92su_write16_def)

lemma reg_read32:
  assumes "reg_device E regs" "r92su_is_probing s" "garbage_ok E"
  shows "\<exists>s'. run_state (r92su_read32 E a) s = (reg32 (regs (world s)) a, s') \<and> r92su_is_probing s' \<and>
     regs (world s') = regs (world s)"
  using reg_read_helper [OF assms(1,2), of 4 a] assms(3)
  by (auto simp: r92su_read32_def reg32_def garbage_ok_def upt_rec numeral_eq_Suc)

lemma reg_put:
  "get_le32 (put_le32 v) = v" "get_le16 (put_le16 v') = v'"
  using cle32.get_put [of v "[]"] cle16.get_put [of v' "[]"] by simp_all

lemma reg32_write: "reg32 (\<lambda>x. if unat (x - ucast a) < 4 then put_le32 v ! unat (x - ucast a) else r x) a = v"
proof -
  have "reg32 (\<lambda>x. if unat (x - ucast a) < 4 then put_le32 v ! unat (x - ucast a) else r x) a = get_le32 (put_le32 v)"
    by (simp add: reg32_def put_le32_def)
  then show ?thesis by (simp add: reg_put)
qed

lemma reg16_write: "reg16 (\<lambda>x. if unat (x - ucast a) < 2 then put_le16 v ! unat (x - ucast a) else r x) a = v"
proof -
  have "reg16 (\<lambda>x. if unat (x - ucast a) < 2 then put_le16 v ! unat (x - ucast a) else r x) a = get_le16 (put_le16 v)"
    by (simp add: reg16_def put_le16_def)
  then show ?thesis by (simp add: reg_put)
qed

lemma bit_BIT: "bit (BIT k :: u32) i \<longleftrightarrow> i = k \<and> k < 32"
  by (auto simp: BIT_def bit_simps)

text \<open>The bits of the filter register: what it accepts follows the arguments, the bits the driver
  always needs are set, and the rest is kept.\<close>

lemma rcr_value_bit:
  "i < 32 \<Longrightarrow> bit (rcr_value data ctrl monitor rcr) i \<longleftrightarrow>
     (if i = 18 then data else if i = 19 then ctrl else if i \<in> {0, 23} then monitor
      else if i \<in> {1, 2, 3, 12, 16, 17, 20, 22, 24, 31} then True else bit rcr i)"
  by (auto simp: rcr_value_def Let_def reg_defs bit_simps bit_BIT)

text \<open>C30. On a device that keeps its registers, setting the receive filter makes the receive
  configuration accept data frames, control frames and foreign frames exactly as asked, keeps
  every bit that is not part of the filter, and opens or closes the three frame-type maps.\<close>

theorem rx_filter_registers:
  assumes "reg_device E regs" "garbage_ok E" "r92su_is_probing s"
  shows "\<exists>s'. run_state (r92su_hw_mac_set_rx_filter E data all_mgt ctrl monitor) s = (0, s') \<and>
     reg16 (regs (world s')) REG_RXFLTMAP2 = (if data then 0 else 0xffff) \<and>
     reg16 (regs (world s')) REG_RXFLTMAP1 = (if ctrl then 0 else 0xffff) \<and>
     reg16 (regs (world s')) REG_RXFLTMAP0 = (if all_mgt then 0 else 0x3f3f) \<and>
     (\<forall>i < 32. bit (reg32 (regs (world s')) REG_RCR) i =
       (if i = 18 then data else if i = 19 then ctrl else if i \<in> {0, 23} then monitor
        else if i \<in> {1, 2, 3, 12, 16, 17, 20, 22, 24, 31} then True
        else bit (reg32 (regs (world s)) REG_RCR) i))"
proof -
  let ?v = "rcr_value data ctrl monitor (reg32 (regs (world s)) REG_RCR)"
  obtain s1 where 1: "run_state (r92su_read32 E REG_RCR) s = (reg32 (regs (world s)) REG_RCR, s1)"
    "r92su_is_probing s1" "regs (world s1) = regs (world s)"
    using reg_read32 [OF assms(1,3,2)] by blast
  obtain s2 where 2: "run_state (r92su_write32 E REG_RCR ?v) s1 = ((), s2)" "r92su_is_probing s2"
    "regs (world s2) = (\<lambda>x. if unat (x - ucast REG_RCR) < 4 then put_le32 ?v ! unat (x - ucast REG_RCR) else regs (world s1) x)"
    using reg_write32 [OF assms(1) 1(2)] by blast
  let ?m2 = "if data then 0 else 0xffff :: u16"
  obtain s3 where 3: "run_state (r92su_write16 E REG_RXFLTMAP2 ?m2) s2 = ((), s3)" "r92su_is_probing s3"
    "regs (world s3) = (\<lambda>x. if unat (x - ucast REG_RXFLTMAP2) < 2 then put_le16 ?m2 ! unat (x - ucast REG_RXFLTMAP2) else regs (world s2) x)"
    using reg_write16 [OF assms(1) 2(2)] by blast
  let ?m1 = "if ctrl then 0 else 0xffff :: u16"
  obtain s4 where 4: "run_state (r92su_write16 E REG_RXFLTMAP1 ?m1) s3 = ((), s4)" "r92su_is_probing s4"
    "regs (world s4) = (\<lambda>x. if unat (x - ucast REG_RXFLTMAP1) < 2 then put_le16 ?m1 ! unat (x - ucast REG_RXFLTMAP1) else regs (world s3) x)"
    using reg_write16 [OF assms(1) 3(2)] by blast
  let ?m0 = "if all_mgt then 0 else 0x3f3f :: u16"
  obtain s5 where 5: "run_state (r92su_write16 E REG_RXFLTMAP0 ?m0) s4 = ((), s5)" "r92su_is_probing s5"
    "regs (world s5) = (\<lambda>x. if unat (x - ucast REG_RXFLTMAP0) < 2 then put_le16 ?m0 ! unat (x - ucast REG_RXFLTMAP0) else regs (world s4) x)"
    using reg_write16 [OF assms(1) 4(2)] by blast
  have run: "run_state (r92su_hw_mac_set_rx_filter E data all_mgt ctrl monitor) s = (0, s5)"
    by (simp add: r92su_hw_mac_set_rx_filter_def 1(1) 2(1) 3(1) 4(1) 5(1))
  have m0: "reg16 (regs (world s5)) REG_RXFLTMAP0 = ?m0" unfolding 5(3) by (rule reg16_write)
  have "reg16 (regs (world s5)) REG_RXFLTMAP1 = reg16 (regs (world s4)) REG_RXFLTMAP1"
    unfolding 5(3) by (simp add: reg16_def reg_defs)
  also have "\<dots> = ?m1" unfolding 4(3) by (rule reg16_write)
  finally have m1: "reg16 (regs (world s5)) REG_RXFLTMAP1 = ?m1" .
  have "reg16 (regs (world s5)) REG_RXFLTMAP2 = reg16 (regs (world s3)) REG_RXFLTMAP2"
    unfolding 5(3) 4(3) by (simp add: reg16_def reg_defs)
  also have "\<dots> = ?m2" unfolding 3(3) by (rule reg16_write)
  finally have m2: "reg16 (regs (world s5)) REG_RXFLTMAP2 = ?m2" .
  have "reg32 (regs (world s5)) REG_RCR = reg32 (regs (world s2)) REG_RCR"
    unfolding 5(3) 4(3) 3(3) by (simp add: reg32_def reg_defs)
  also have "\<dots> = ?v" unfolding 2(3) by (rule reg32_write)
  finally have v: "reg32 (regs (world s5)) REG_RCR = ?v" .
  show ?thesis by (intro exI [where x = s5] conjI run m0 m1 m2 allI impI) (simp only: v rcr_value_bit)
qed

theorem rx_filter_registers_witness:
  "\<exists>s'. run_state (r92su_hw_mac_set_rx_filter reg_env True False False False) probed = (0, s') \<and>
     bit (reg32 (world s') REG_RCR) 18"
proof -
  have "r92su_is_probing probed" by (simp add: probed_def state_preds state_order)
  from rx_filter_registers [OF reg_device_reg_env garbage_ok_reg_env this, of True False False False]
  show ?thesis by auto
qed

text \<open>The signal scale maps the raw range 0 to 100 into 0 to 100 and 0 only to 0; but it is not
  monotone: a raw signal of 21 is reported weaker than one of 20.\<close>

theorem signal_scale_range:
  "(raw \<le> 100 \<longrightarrow> r92su_signal_scale_mapping raw \<le> 100 \<and> (r92su_signal_scale_mapping raw = 0 \<longleftrightarrow> raw = 0)) \<and>
   r92su_signal_scale_mapping 21 < r92su_signal_scale_mapping 20"
proof
  show "raw \<le> 100 \<longrightarrow> r92su_signal_scale_mapping raw \<le> 100 \<and> (r92su_signal_scale_mapping raw = 0 \<longleftrightarrow> raw = 0)"
  proof
    assume "raw \<le> 100"
    then have "unat raw \<le> 100" by (simp add: word_le_nat_alt)
    then have "unat raw \<in> set [0..<101]" by simp
    then have "raw \<in> set (map of_nat [0..<101])" by (metis image_eqI list.set_map of_nat_unat ucast_id)
    moreover have "list_all (\<lambda>r. r92su_signal_scale_mapping r \<le> 100 \<and> (r92su_signal_scale_mapping r = 0 \<longleftrightarrow> r = 0))
        (map of_nat [0..<101])" by code_simp
    ultimately show "r92su_signal_scale_mapping raw \<le> 100 \<and> (r92su_signal_scale_mapping raw = 0 \<longleftrightarrow> raw = 0)"
      by (auto simp only: list_all_iff)
  qed
  show "r92su_signal_scale_mapping 21 < r92su_signal_scale_mapping 20" by code_simp
qed

theorem signal_scale_range_witness: "r92su_signal_scale_mapping 37 \<le> 100"
  using signal_scale_range [of 37] by simp

lemma GET_PCM_FSM_VER_less: "GET_PCM_FSM_VER v < 32"
proof -
  have m: "(0xF8000 :: u32) = push_bit 15 (mask 5)" by (simp add: push_bit_eq_mult mask_eq_exp_minus_1)
  have "GET_PCM_FSM_VER v = take_bit 5 (drop_bit 15 v)"
    unfolding GET_PCM_FSM_VER_def PCM_FSM_VER_def m
    by (rule bit_word_eqI) (simp add: bit_drop_bit_eq bit_and_iff bit_push_bit_iff bit_mask_iff bit_take_bit_iff, auto)
  moreover have "unat (take_bit 5 (drop_bit 15 v) :: u32) < 2 ^ 5"
    unfolding unsigned_take_bit_eq by (rule take_bit_nat_less_exp)
  ultimately show ?thesis by (simp only: word_less_nat_alt) simp
qed

text \<open>The chip version is derived from the five version bits of the chip: 0 and 1 are the A
  cut, 2 the B cut, 3 to 5 the C cut; for every other value the driver refuses the chip and keeps
  its old version.\<close>

theorem chip_version_table:
  assumes "run_state (r92su_read32 E REG_PMC_FSM) s = (v, s1)"
  shows "GET_PCM_FSM_VER v < 32 \<and>
     run_state (r92su_hw_read_chip_version E) s =
       (if GET_PCM_FSM_VER v \<le> 1 then (0, s1\<lparr>chip_rev := R92SU_A_CUT\<rparr>)
        else if GET_PCM_FSM_VER v = 2 then (0, s1\<lparr>chip_rev := R92SU_B_CUT\<rparr>)
        else if GET_PCM_FSM_VER v \<le> 5 then (0, s1\<lparr>chip_rev := R92SU_C_CUT\<rparr>)
        else (- EINVAL, s1))"
proof -
  let ?t = "\<lambda>n::u32. if n \<le> 1 then Some R92SU_A_CUT else if n = 2 then Some R92SU_B_CUT
     else if n \<le> 5 then Some R92SU_C_CUT else None"
  have lt: "GET_PCM_FSM_VER v < 32" by (rule GET_PCM_FSM_VER_less)
  then have "unat (GET_PCM_FSM_VER v) < 32" by (simp add: word_less_nat_alt)
  then have "unat (GET_PCM_FSM_VER v) \<in> set [0..<32]" by simp
  then have "GET_PCM_FSM_VER v \<in> set (map of_nat [0..<32])"
    by (metis image_eqI list.set_map of_nat_unat ucast_id)
  moreover have "list_all (\<lambda>n. chip_decode n = ?t n) (map of_nat [0..<32])" by code_simp
  ultimately have "chip_decode (GET_PCM_FSM_VER v) = ?t (GET_PCM_FSM_VER v)" by (auto simp only: list_all_iff)
  with lt assms show ?thesis by (simp add: r92su_hw_read_chip_version_def)
qed

theorem chip_version_table_witness:
  "fst (run_state (r92su_hw_read_chip_version reg_env) probed) = 0"
proof -
  have "r92su_is_probing probed" by (simp add: probed_def state_preds state_order)
  from reg_read32 [OF reg_device_reg_env this garbage_ok_reg_env, of REG_PMC_FSM]
  obtain s1 where "run_state (r92su_read32 reg_env REG_PMC_FSM) probed = (reg32 (world probed) REG_PMC_FSM, s1)"
    by blast
  moreover have "reg32 (world probed) REG_PMC_FSM = 0"
    by (simp add: probed_def r92su_zero_def reg32_def get_le32_def le32_def)
  ultimately have "run_state (r92su_read32 reg_env REG_PMC_FSM) probed = (0, s1)" by simp
  from chip_version_table [OF this] show ?thesis by (simp add: GET_PCM_FSM_VER_def)
qed

end
