(* ===== verification/R92_Cmd.thy ===== *)
theory R92_Cmd
  imports R92_Usb R92_Regs R92_Desc R92_Kernel R92_Hw
begin

text \<open>
  The commands to the firmware (\<open>cmd.c\<close>) and the power control that uses them (\<open>pwr.c\<close>). A
  command is a socket buffer with room for the transmit descriptor and the command header in
  front of its data. The operations pass the state explicitly; \<open>None\<close> is a panic of the
  buffer functions or an access outside an object. The allocator may round a buffer up:
  \<open>alloc_slack\<close> is what it adds.
\<close>

section \<open>Buffers and headers\<close>

abbreviation (input) QSLT_CMD :: u32 where "QSLT_CMD \<equiv> 0x13"

definition r92su_cmd_init :: "'w r92su \<Rightarrow> 'w r92su" where
  "r92su_cmd_init s = s\<lparr>h2c_seq := 1, c2h_seq := 0\<rparr>"

definition r92su_h2c_alloc :: "'w env \<Rightarrow> nat \<Rightarrow> 'w r92su \<Rightarrow> unit sk_buff option \<times> 'w r92su" where
  "r92su_h2c_alloc E len s =
     (let new_len = ALIGN (len + TX_DESC_SIZE + H2CC2H_HDR_LEN) H2CC2H_HDR_LEN in
      case kmalloc E s of (ok, s) \<Rightarrow>
        (if ok then Some (skb_new (new_len + alloc_slack E) (TX_DESC_SIZE + H2CC2H_HDR_LEN) ()) else None, s))"

text \<open>The bytes of \<open>struct h2cc2h\<close>.\<close>

record h2cc2h =
  h_len :: u16
  h_event :: u8
  h_cmd_seq :: u8
  h_agg_num :: u8
  h_unkn :: u8
  h_agg_total_len :: u16

definition put_h2c :: "h2cc2h \<Rightarrow> bytes" where
  "put_h2c h = put_le16 (h_len h) @ [h_event h, h_cmd_seq h, h_agg_num h, h_unkn h] @
     put_le16 (h_agg_total_len h)"

definition get_h2c :: "bytes \<Rightarrow> h2cc2h" where
  "get_h2c d = \<lparr>h_len = get_le16 d, h_event = d ! 2, h_cmd_seq = d ! 3, h_agg_num = d ! 4,
     h_unkn = d ! 5, h_agg_total_len = get_le16 (drop 6 d)\<rparr>"

interpretation ch2c: byte_codec put_h2c get_h2c 8 "\<lambda>_. True"
  by unfold_locales (simp_all add: put_h2c_def get_h2c_def put_le16_def get_le16_def le16_put)

text \<open>\<open>skb_push\<close> followed by the writes that fill the pushed bytes.\<close>

definition skb_push_put :: "'cb sk_buff \<Rightarrow> bytes \<Rightarrow> 'cb sk_buff option" where
  "skb_push_put skb d = do {
     skb' \<leftarrow> skb_push skb (length d);
     Some (skb'\<lparr>skb_data := d @ skb_data skb\<rparr>) }"

definition r92su_h2c_fill_header ::
    "'w r92su \<Rightarrow> unit sk_buff \<Rightarrow> nat \<Rightarrow> fw_h2c_cmd \<Rightarrow> bool \<Rightarrow> (unit sk_buff \<times> 'w r92su) option" where
  "r92su_h2c_fill_header s skb len cmd is_last =
     (let seq = (ucast (h2c_seq s) :: u8);
          h = \<lparr>h_len = of_nat (ALIGN len H2CC2H_HDR_LEN), h_event = h2c_nr cmd,
               h_cmd_seq = (if is_last then seq OR 0x80 else seq),
               h_agg_num = 0, h_unkn = 0, h_agg_total_len = 0\<rparr>
      in do {
        skb \<leftarrow> skb_push_put skb (put_h2c h);
        Some (skb, s\<lparr>h2c_seq := h2c_seq s + 1\<rparr>) })"

definition tx_fill_header :: "bytes \<Rightarrow> nat \<Rightarrow> bool \<Rightarrow> bool \<Rightarrow> u32 \<Rightarrow> bytes" where
  "tx_fill_header hdr len is_first is_last qsel =
     (let hdr = SET_TX_DESC_PKT_SIZE hdr (of_nat len);
          hdr = SET_TX_DESC_OFFSET hdr (of_nat TX_DESC_SIZE);
          hdr = SET_TX_DESC_LAST_SEG hdr (bool_word is_last);
          hdr = SET_TX_DESC_FIRST_SEG hdr (bool_word is_first);
          hdr = SET_TX_DESC_OWN hdr 1
      in SET_TX_DESC_QUEUE_SEL hdr qsel)"

definition r92su_tx_fill_header :: "unit sk_buff \<Rightarrow> nat \<Rightarrow> bool \<Rightarrow> bool \<Rightarrow> unit sk_buff option" where
  "r92su_tx_fill_header skb len is_first is_last =
     skb_push_put skb (tx_fill_header (replicate TX_DESC_SIZE 0) len is_first is_last QSLT_CMD)"

definition r92su_h2c_submit ::
    "'w env \<Rightarrow> unit sk_buff \<Rightarrow> fw_h2c_cmd \<Rightarrow> 'w r92su \<Rightarrow> (int \<times> 'w r92su) option" where
  "r92su_h2c_submit E skb cmd s = do {
     (skb, s) \<leftarrow> r92su_h2c_fill_header s skb (skb_len skb) cmd True;
     skb \<leftarrow> r92su_tx_fill_header skb (skb_len skb) True True;
     Some (run_state (r92su_usb_tx E (skb_data skb) RTL8712_H2CCMD) s) }"

definition r92su_h2c_copy ::
    "'w env \<Rightarrow> fw_h2c_cmd \<Rightarrow> bytes \<Rightarrow> 'w r92su \<Rightarrow> (int \<times> 'w r92su) option" where
  "r92su_h2c_copy E cmd data s =
     (case r92su_h2c_alloc E (length data) s of
        (None, s) \<Rightarrow> Some (- ENOMEM, s)
      | (Some skb, s) \<Rightarrow> do {
          let rest = H2CC2H_HDR_LEN - length data mod H2CC2H_HDR_LEN;
          skb \<leftarrow> skb_put_data skb data;
          skb \<leftarrow> skb_put_data skb (replicate rest 0);
          r92su_h2c_submit E skb cmd s })"

section \<open>The commands\<close>

definition r92su_h2c_set_mac_addr :: "'w env \<Rightarrow> bytes \<Rightarrow> 'w r92su \<Rightarrow> (int \<times> 'w r92su) option" where
  "r92su_h2c_set_mac_addr E addr s = do {
     mac \<leftarrow> rd_mem addr 0 ETH_ALEN;
     r92su_h2c_copy E H2C_SET_MAC_ADDRESS_CMD (put_set_mac \<lparr>sm_mac_addr = mac\<rparr>) s }"

definition r92su_h2c_set_opmode :: "'w env \<Rightarrow> h2c_op_modes \<Rightarrow> 'w r92su \<Rightarrow> (int \<times> 'w r92su) option" where
  "r92su_h2c_set_opmode E mode s = r92su_h2c_copy E H2C_SETOPMODE_CMD
     (put_op_mode \<lparr>om_mode = op_mode_nr mode, om_padding = [0, 0, 0]\<rparr>) s"

definition r92su_h2c_set_channel :: "'w env \<Rightarrow> u32 \<Rightarrow> 'w r92su \<Rightarrow> (int \<times> 'w r92su) option" where
  "r92su_h2c_set_channel E channel s = r92su_h2c_copy E H2C_SETCHANNEL_CMD
     (put_set_channel \<lparr>sc_channel = channel\<rparr>) s"

fun iocmd_wait :: "'w env \<Rightarrow> nat \<Rightarrow> ('w r92su, int) state" where
  "iocmd_wait E 0 = ret (- ETIMEDOUT)"
| "iocmd_wait E (Suc tries) =
     (if tries = 0 then ret (- ETIMEDOUT)
      else do {
        v \<leftarrow> r92su_read32 E REG_IOCMD_CTRL;
        if v \<noteq> 0 then iocmd_wait E tries else ret 0 })"

definition r92su_fw_iocmd :: "'w env \<Rightarrow> u32 \<Rightarrow> ('w r92su, int) state" where
  "r92su_fw_iocmd E cmd = do {
     r92su_write32 E REG_IOCMD_CTRL cmd;
     iocmd_wait E 25 }"

definition r92su_h2c_survey :: "'w env \<Rightarrow> bytes option \<Rightarrow> 'w r92su \<Rightarrow> (int \<times> 'w r92su) option" where
  "r92su_h2c_survey E ssid s = do {
     let survey = \<lparr>sv_active = bool_word (ssid \<noteq> None), sv_bsslimit = 48, sv_ssidlen = 0,
                   sv_ssid = replicate IEEE80211_MAX_SSID_LEN 0\<rparr>;
     survey \<leftarrow> (case ssid of
         None \<Rightarrow> Some survey
       | Some name \<Rightarrow> do {
           d \<leftarrow> wr_mem (sv_ssid survey) 0 name;
           Some (survey\<lparr>sv_ssidlen := of_nat (length name), sv_ssid := d\<rparr>) });
     r92su_h2c_copy E H2C_SITESURVEY_CMD (put_site_survey survey) s }"

definition r92su_h2c_disconnect :: "'w env \<Rightarrow> 'w r92su \<Rightarrow> (int \<times> 'w r92su) option" where
  "r92su_h2c_disconnect E s = r92su_h2c_copy E H2C_DISCONNECT_CMD
     (put_disconnect \<lparr>dc_rsvd0 = 0\<rparr>) s"

definition r92su_h2c_connect ::
    "'w env \<Rightarrow> h2cc2h_bss \<Rightarrow> bool \<Rightarrow> bytes option \<Rightarrow> nat \<Rightarrow> 'w r92su \<Rightarrow> (int \<times> 'w r92su) option" where
  "r92su_h2c_connect E orig_bss join ie ie_len s =
     (case r92su_h2c_alloc E (SIZEOF_BSS + ie_len) s of
        (None, s) \<Rightarrow> Some (- ENOMEM, s)
      | (Some skb, s) \<Rightarrow> do {
          ies \<leftarrow> (case ie of None \<Rightarrow> Some [] | Some d \<Rightarrow> if 0 < ie_len then rd_mem d 0 ie_len else Some []);
          let len = SIZEOF_BSS + length ies;
          let bss = orig_bss\<lparr>bss_ie_length := 12 + of_nat ie_len, bss_length := of_nat len\<rparr>;
          skb \<leftarrow> skb_put_data skb (put_bss bss);
          skb \<leftarrow> skb_put_data skb ies;
          let rest = H2CC2H_HDR_LEN - len mod H2CC2H_HDR_LEN;
          skb \<leftarrow> skb_put_data skb (replicate rest 0);
          r92su_h2c_submit E skb (if join then H2C_JOINBSS_CMD else H2C_CREATEBSS_CMD) s })"

fun r92su_enc_alg_len :: "r92su_enc_alg \<Rightarrow> nat" where
  "r92su_enc_alg_len NO_ENCRYPTION = 0"
| "r92su_enc_alg_len WEP40_ENCRYPTION = WLAN_KEY_LEN_WEP40"
| "r92su_enc_alg_len WEP104_ENCRYPTION = WLAN_KEY_LEN_WEP104"
| "r92su_enc_alg_len TKIP_ENCRYPTION = 16"
| "r92su_enc_alg_len TKIP_WTMIC = 16"
| "r92su_enc_alg_len AESCCMP_ENCRYPTION = WLAN_KEY_LEN_CCMP"

definition r92su_h2c_set_key ::
    "'w env \<Rightarrow> r92su_enc_alg \<Rightarrow> u8 \<Rightarrow> bool \<Rightarrow> bytes \<Rightarrow> 'w r92su \<Rightarrow> (int \<times> 'w r92su) option" where
  "r92su_h2c_set_key E algo key_id group_key keydata s = do {
     k \<leftarrow> rd_mem keydata 0 (r92su_enc_alg_len algo);
     k \<leftarrow> wr_mem (replicate 16 0) 0 k;
     r92su_h2c_copy E H2C_SETKEY_CMD (put_key \<lparr>hk_algorithm = enc_alg_nr algo, hk_key_id = key_id,
       hk_group_key = bool_word group_key, hk_key = k\<rparr>) s }"

definition r92su_h2c_set_sta_key ::
    "'w env \<Rightarrow> r92su_enc_alg \<Rightarrow> bytes \<Rightarrow> bytes \<Rightarrow> 'w r92su \<Rightarrow> (int \<times> 'w r92su) option" where
  "r92su_h2c_set_sta_key E algo mac_addr keydata s = do {
     mac \<leftarrow> rd_mem mac_addr 0 ETH_ALEN;
     k \<leftarrow> rd_mem keydata 0 (r92su_enc_alg_len algo);
     k \<leftarrow> wr_mem (replicate 16 0) 0 k;
     r92su_h2c_copy E H2C_SETSTAKEY_CMD (put_sta_key \<lparr>sk_mac_addr = mac,
       sk_algorithm = enc_alg_nr algo, sk_key = k\<rparr>) s }"

definition r92su_h2c_set_auth ::
    "'w env \<Rightarrow> r92su_auth_mode \<Rightarrow> r92su_auth_1x \<Rightarrow> 'w r92su \<Rightarrow> (int \<times> 'w r92su) option" where
  "r92su_h2c_set_auth E mode x s = r92su_h2c_copy E H2C_SETAUTH_CMD
     (put_auth \<lparr>au_mode = auth_mode_nr mode, au_1x = auth_1x_nr x, au_rsvd2 = [0, 0]\<rparr>) s"

definition r92su_h2c_start_ba :: "'w env \<Rightarrow> u32 \<Rightarrow> 'w r92su \<Rightarrow> (int \<times> 'w r92su) option" where
  "r92su_h2c_start_ba E tid s = r92su_h2c_copy E H2C_ADDBA_REQ_CMD
     (put_add_ba_req \<lparr>ab_tid = tid\<rparr>) s"

definition r92su_h2c_set_power_mode :: "'w env \<Rightarrow> u8 \<Rightarrow> u8 \<Rightarrow> 'w r92su \<Rightarrow> (int \<times> 'w r92su) option" where
  "r92su_h2c_set_power_mode E ps_mode smart_ps s = r92su_h2c_copy E H2C_SETPWRMODE_CMD
     (put_set_power_mode \<lparr>pm_mode = ps_mode, pm_flag_low_traffic_en = 0, pm_flag_lpnav_en = 0,
        pm_flag_rf_low_snr_en = 0, pm_flag_dps_en = 0, pm_bcn_rx_en = 0, pm_bcn_pass_cnt = 0,
        pm_bcn_to = 0, pm_bcn_itv = 0, pm_app_itv = 0, pm_awake_bcn_itv = 0,
        pm_smart_ps = smart_ps, pm_bcn_pass_time = 0\<rparr>) s"

section \<open>Power\<close>

abbreviation (input) PS_MODE_ACTIVE :: u8 where "PS_MODE_ACTIVE \<equiv> 0"
abbreviation (input) PS_MODE_RADIO_OFF :: u8 where "PS_MODE_RADIO_OFF \<equiv> 9"

definition PS_STATE_S2 :: u8 where [wire_defs]: "PS_STATE_S2 = PS_RADIO_OFF"

definition r92su_set_rpwn :: "'w env \<Rightarrow> u8 \<Rightarrow> 'w r92su \<Rightarrow> 'w r92su" where
  "r92su_set_rpwn E mode s =
     (let s = s\<lparr>rpwm_tog := rpwm_tog s XOR 0x80\<rparr>;
          v = mode OR rpwm_tog s;
          s = s\<lparr>rpwm := v, cpwm := mode\<rparr>
      in snd (run_state (r92su_write8 E REG_USB_HRPWM v) s))"

definition r92su_set_power :: "'w env \<Rightarrow> bool \<Rightarrow> 'w r92su \<Rightarrow> 'w r92su option" where
  "r92su_set_power E on s =
     (if on then map_option snd (r92su_h2c_set_power_mode E PS_MODE_ACTIVE 0 (r92su_set_rpwn E PS_STATE_S4 s))
      else map_option snd (r92su_h2c_set_power_mode E PS_MODE_RADIO_OFF 1 (r92su_set_rpwn E PS_STATE_S2 s)))"

section \<open>What a command sends\<close>

lemma skb_push_put_Some:
  "skb_push_put skb d = Some skb' \<longleftrightarrow> length d \<le> skb_headroom skb \<and>
     skb' = skb\<lparr>skb_head := take (skb_headroom skb - length d) (skb_head skb), skb_data := d @ skb_data skb\<rparr>"
  by (auto simp: skb_push_put_def skb_push_def bind_splits split: if_splits)

text \<open>The frame of command \<open>cmd\<close> with sequence number \<open>seq\<close> and data \<open>d\<close>.\<close>

definition cmd_frame :: "fw_h2c_cmd \<Rightarrow> 7 word \<Rightarrow> bytes \<Rightarrow> bytes" where
  "cmd_frame cmd seq d =
     tx_fill_header (replicate TX_DESC_SIZE 0) (8 + length d) True True QSLT_CMD @
     put_h2c \<lparr>h_len = of_nat (ALIGN (length d) 8), h_event = h2c_nr cmd,
       h_cmd_seq = ucast seq OR 0x80, h_agg_num = 0, h_unkn = 0, h_agg_total_len = 0\<rparr> @ d"

lemma length_tx_fill_header [simp]: "length (tx_fill_header d n f l q) = length d"
  by (simp add: tx_fill_header_def Let_def desc_defs)

lemma length_put_h2c [simp]: "length (put_h2c h) = 8"
  by (rule ch2c.length_put) simp

text \<open>A command with room for its two headers never panics and sends exactly its frame.\<close>

lemma h2c_submit_frame:
  assumes "40 \<le> skb_headroom skb"
  shows "r92su_h2c_submit E skb cmd s = Some (run_state
     (r92su_usb_tx E (cmd_frame cmd (h2c_seq s) (skb_data skb)) RTL8712_H2CCMD) (s\<lparr>h2c_seq := h2c_seq s + 1\<rparr>))"
proof -
  let ?h = "\<lparr>h_len = of_nat (ALIGN (skb_len skb) 8), h_event = h2c_nr cmd,
       h_cmd_seq = ucast (h2c_seq s) OR 0x80, h_agg_num = 0, h_unkn = 0, h_agg_total_len = 0\<rparr>"
  let ?skb1 = "skb\<lparr>skb_head := take (skb_headroom skb - 8) (skb_head skb), skb_data := put_h2c ?h @ skb_data skb\<rparr>"
  have 1: "skb_push_put skb (put_h2c ?h) = Some ?skb1" using assms by (simp add: skb_push_put_Some)
  let ?t = "tx_fill_header (replicate 32 0) (8 + skb_len skb) True True QSLT_CMD"
  have 2: "skb_push_put ?skb1 ?t = Some (?skb1\<lparr>skb_head := take (skb_headroom ?skb1 - 32) (skb_head ?skb1),
      skb_data := ?t @ skb_data ?skb1\<rparr>)"
    using assms by (subst skb_push_put_Some) simp
  show ?thesis using 1 2
    by (simp add: r92su_h2c_submit_def r92su_h2c_fill_header_def r92su_tx_fill_header_def Let_def cmd_frame_def)
qed

definition pad8 :: "bytes \<Rightarrow> bytes" where
  "pad8 d = d @ replicate (8 - length d mod 8) 0"

lemma pad_len: "n + (8 - n mod 8) = 8 * (n div 8) + (8::nat)"
proof -
  have "n mod 8 < 8" by simp
  moreover have "n = 8 * (n div 8) + n mod 8" by simp
  ultimately show ?thesis by linarith
qed

lemma length_pad8: "length (pad8 d) = 8 * (length d div 8) + 8"
  using pad_len [of "length d"] by (simp add: pad8_def)

lemma alloc_room:
  assumes "0 < n mod 8"
  shows "n + (8 - n mod 8) \<le> ALIGN (n + 40) 8 - 40"
proof -
  have "(n + 40 + 7) div 8 = n div 8 + 6" using assms by presburger
  then show ?thesis unfolding ALIGN_def pad_len by simp
qed

lemma h2c_copy_frame:
  assumes "length d mod 8 \<noteq> 0 \<or> 8 \<le> alloc_slack E" "alloc_ok E (allocs s)"
  shows "r92su_h2c_copy E cmd d s = Some (run_state
     (r92su_usb_tx E (cmd_frame cmd (h2c_seq s) (pad8 d)) RTL8712_H2CCMD)
     (s\<lparr>allocs := allocs s + 1, h2c_seq := h2c_seq s + 1\<rparr>))"
proof -
  have room: "length d + (8 - length d mod 8) \<le> ALIGN (length d + 40) 8 + alloc_slack E - 40"
  proof (cases "length d mod 8 = 0")
    case True
    with assms have "8 \<le> alloc_slack E" by simp
    moreover have "length d + 40 \<le> ALIGN (length d + 40) 8" by (rule ALIGN_ge) simp
    ultimately show ?thesis using True by simp
  next
    case False
    then show ?thesis using alloc_room [of "length d"] by simp
  qed
  then have "length d \<le> ALIGN (length d + 40) 8 + alloc_slack E - 40" by simp
  with room assms(2) show ?thesis
    by (simp add: r92su_h2c_copy_def r92su_h2c_alloc_def kmalloc_def Let_def skb_put_data_def skb_new_def
        h2c_submit_frame pad8_def add.commute add.left_commute)
qed

text \<open>The bytes a command puts on the wire, as the firmware reads them.\<close>

definition cmd_header :: "bytes \<Rightarrow> h2cc2h" where "cmd_header f = get_h2c (drop TX_DESC_SIZE f)"
definition cmd_data :: "bytes \<Rightarrow> bytes" where "cmd_data f = drop 8 (drop TX_DESC_SIZE f)"

lemma cmd_header_frame:
  "cmd_header (cmd_frame cmd seq d) = \<lparr>h_len = of_nat (ALIGN (length d) 8), h_event = h2c_nr cmd,
     h_cmd_seq = ucast seq OR 0x80, h_agg_num = 0, h_unkn = 0, h_agg_total_len = 0\<rparr>"
  "cmd_data (cmd_frame cmd seq d) = d"
  by (simp_all add: cmd_header_def cmd_data_def cmd_frame_def ch2c.get_put del: drop_drop)

lemma cmd_frame_desc:
  assumes "length d < 65528"
  shows "unat (SHIFT_AND_MASK_LE (cmd_frame cmd seq d) 0 0 16) = 8 + length d"
    "SHIFT_AND_MASK_LE (cmd_frame cmd seq d) 0 16 8 = 32"
    "SHIFT_AND_MASK_LE (cmd_frame cmd seq d) 0 26 1 = 1"
    "SHIFT_AND_MASK_LE (cmd_frame cmd seq d) 0 27 1 = 1"
    "SHIFT_AND_MASK_LE (cmd_frame cmd seq d) 0 31 1 = 1"
    "GET_TX_DESC_QUEUE_SEL (cmd_frame cmd seq d) = 0x13"
proof -
  have "take_bit LENGTH(32) (8 + length d) = 8 + length d"
    by (rule take_bit_nat_eq_self) (use assms in simp)
  moreover have "take_bit 16 (8 + length d) = 8 + length d"
    by (rule take_bit_nat_eq_self) (use assms in simp)
  ultimately have "unat (take_bit 16 (of_nat (8 + length d)) :: u32) = 8 + length d"
    unfolding unsigned_take_bit_eq unsigned_of_nat by (simp only: of_nat_id)
  then show "unat (SHIFT_AND_MASK_LE (cmd_frame cmd seq d) 0 0 16) = 8 + length d"
    by (simp add: cmd_frame_def SHIFT_AND_MASK_app tx_fill_header_def Let_def desc_defs desc_simps)
qed (simp_all add: cmd_frame_def SHIFT_AND_MASK_app tx_fill_header_def Let_def desc_defs desc_simps bool_word_def)

text \<open>The 32 bytes of the descriptor of a command: bits 31, 27 and 26 of its first word (own, first
  and last segment), the offset 32 in bits 16 to 23, the size in bits 0 to 15; the command queue in
  the second word; and nothing else.\<close>

lemma dword_SET_BITS_same:
  "4 * off + 3 < length d \<Longrightarrow> dword (SET_BITS_OFFSET_LE d off sh n v) off =
   (dword d off AND NOT (push_bit sh (BIT_LEN_MASK_32 n))) OR (push_bit sh v AND push_bit sh (BIT_LEN_MASK_32 n))"
  by (simp add: SET_BITS_OFFSET_LE_def Let_def dword_set_dword)

lemma and_low16:
  assumes "n < 65536"
  shows "of_nat n AND 0xFFFF = (of_nat n :: u32)"
proof -
  have "take_bit 16 (of_nat n :: u32) = of_nat n"
    unfolding take_bit_of_nat using assms by (simp add: take_bit_nat_eq_self)
  moreover have "take_bit 16 w = w AND 0xFFFF" for w :: u32
    by (simp add: take_bit_eq_mask mask_eq_exp_minus_1)
  ultimately show ?thesis by simp
qed

definition cmd_desc :: "nat \<Rightarrow> bytes" where
  "cmd_desc n = put_le32 (0x8c200000 OR of_nat n) @ put_le32 0x1300 @ replicate 24 0"

lemma dword_put: "dword (put_le32 v @ r) 0 = v" "dword (put_le32 v @ put_le32 w @ r) 1 = w"
  by (simp_all add: dword_def put_le32_def le32_put)

lemma length_cmd_desc [simp]: "length (cmd_desc n) = 32"
  by (simp add: cmd_desc_def)

lemma bytes_of_dwords:
  assumes "length a = 32" "length b = 32" "\<And>k. k < 8 \<Longrightarrow> dword a k = dword b k"
  shows "a = b"
proof (rule nth_equalityI)
  fix i assume "i < length a"
  then have k: "i div 4 < 8" using assms(1) by simp
  have "put_le32 (dword a (i div 4)) ! (i mod 4) = put_le32 (dword b (i div 4)) ! (i mod 4)"
    using assms(3) [OF k] by simp
  moreover have "put_le32 (dword x (i div 4)) ! (i mod 4) = x ! i" for x
  proof -
    obtain q m where i: "i = 4 * q + m" "m < 4" "i div 4 = q" "i mod 4 = m"
      using mod_less_divisor [of 4 i] mult_div_mod_eq [of 4 i] by (metis zero_less_numeral)
    from i(2) consider "m = 0" | "m = 1" | "m = 2" | "m = 3" by linarith
    then show ?thesis unfolding i(3,4) dword_def put_le32_le32 by cases (simp_all add: i(1))
  qed
  ultimately show "a ! i = b ! i" by simp
qed (simp add: assms)

lemma cmd_desc_bytes:
  assumes "n < 65536"
  shows "tx_fill_header (replicate 32 0) n True True QSLT_CMD = cmd_desc n"
proof (rule bytes_of_dwords)
  let ?h = "tx_fill_header (replicate 32 0) n True True QSLT_CMD"
  have "?h = SET_TX_DESC_QUEUE_SEL (SET_TX_DESC_OWN (SET_TX_DESC_FIRST_SEG (SET_TX_DESC_LAST_SEG
      (SET_TX_DESC_OFFSET (SET_TX_DESC_PKT_SIZE (replicate 32 0) (of_nat n)) 32) 1) 1) 1) 0x13"
    by (simp add: tx_fill_header_def Let_def bool_word_def)
  note h = this [unfolded desc_defs]
  note eval = dword_SET_BITS_same dword_SET_BITS_other BIT_LEN_MASK_32_def
  have "dword (SET_BITS_OFFSET_LE (SET_BITS_OFFSET_LE (SET_BITS_OFFSET_LE (SET_BITS_OFFSET_LE (SET_BITS_OFFSET_LE
      (SET_BITS_OFFSET_LE (replicate 32 0) 0 0 16 w) 0 16 8 32) 0 26 1 1) 0 27 1 1) 0 31 1 1) 1 8 5 0x13) 0 =
      (w AND 0xFFFF) OR 0x8c200000" for w
    by (simp add: eval and.assoc or.assoc bit.conj_disj_distrib bit.conj_disj_distrib2)
  then have 0: "dword ?h 0 = 0x8c200000 OR of_nat n"
    unfolding h by (simp only: and_low16 [OF assms] or.commute)
  have 1: "dword ?h 1 = 0x1300" unfolding h by (simp add: eval)
  have 2: "dword ?h k = 0" if "2 \<le> k" "k < 8" for k unfolding h using that by (simp add: eval)
  have c: "dword (cmd_desc n) 0 = 0x8c200000 OR of_nat n" "dword (cmd_desc n) 1 = 0x1300"
    unfolding cmd_desc_def by (rule dword_put)+
  have c2: "dword (cmd_desc n) k = 0" if "2 \<le> k" "k < 8" for k
    using that by (simp add: cmd_desc_def dword_def put_le32_def nth_append nth_Cons' le32_def)
  show "dword ?h k = dword (cmd_desc n) k" if "k < 8" for k
  proof -
    have "k = 0 \<or> k = 1 \<or> 2 \<le> k" by linarith
    then show ?thesis using that 0 1 2 c c2 by auto
  qed
qed simp_all

text \<open>C24. A command of less than 60000 bytes, when memory is available. If its length is not a multiple of
  8, or the allocator rounds up by at least 8 bytes, it is sent as one frame: the descriptor, byte by
  byte (owned by the device, first and last segment, offset 32, the size of what follows and the command
  queue), the header with the number of the command, the current sequence number with the last-fragment
  bit and the padded length, and the data, padded with zeros to the next multiple of 8. The next
  command gets the next number modulo 128. Otherwise the padding, which is then 8 bytes that the buffer
  was not allocated for, runs out of the buffer (skb_over_panic).\<close>

theorem h2c_copy_sends:
  assumes "length d < 60000" "alloc_ok E (allocs s)"
  shows "if length d mod 8 \<noteq> 0 \<or> 8 \<le> alloc_slack E
     then \<exists>err s' f. r92su_h2c_copy E cmd d s = Some (err, s') \<and>
       tx_frames s' = add_mset f (tx_frames s) \<and> h2c_seq s' = h2c_seq s + 1 \<and>
       take 32 f = put_le32 (0x8c200000 OR of_nat (8 + length (pad8 d))) @ put_le32 0x1300 @ replicate 24 0 \<and>
       cmd_header f = \<lparr>h_len = of_nat (length (pad8 d)), h_event = h2c_nr cmd,
         h_cmd_seq = ucast (h2c_seq s) OR 0x80, h_agg_num = 0, h_unkn = 0, h_agg_total_len = 0\<rparr> \<and>
       cmd_data f = pad8 d \<and>
       unat (SHIFT_AND_MASK_LE f 0 0 16) = 8 + length (pad8 d) \<and> GET_TX_DESC_QUEUE_SEL f = QSLT_CMD
     else r92su_h2c_copy E cmd d s = None"
proof (cases "length d mod 8 \<noteq> 0 \<or> 8 \<le> alloc_slack E")
  case True
  let ?f = "cmd_frame cmd (h2c_seq s) (pad8 d)"
  let ?s = "s\<lparr>allocs := allocs s + 1, h2c_seq := h2c_seq s + 1\<rparr>"
  obtain err s' where r: "run_state (r92su_usb_tx E ?f RTL8712_H2CCMD) ?s = (err, s')" by fastforce
  have copy: "r92su_h2c_copy E cmd d s = Some (err, s')"
    using h2c_copy_frame [of d E s cmd] True assms r by simp
  have "tx_frames s' = add_mset ?f (tx_frames ?s)"
    using usb_tx_frames [of E ?f RTL8712_H2CCMD ?s] r by simp
  then have frames: "tx_frames s' = add_mset ?f (tx_frames s)" by (simp add: tx_frames_def)
  have seq: "h2c_seq s' = h2c_seq s + 1"
    using tx_rel_fields(6) [OF changesD [OF tx_only_usb_tx r]] by simp
  have al: "ALIGN (length (pad8 d)) 8 = length (pad8 d)"
    by (rule ALIGN_id) (simp_all add: length_pad8)
  have len: "length (pad8 d) < 65528" using assms(1) by (simp add: length_pad8)
  have "take 32 ?f = put_le32 (0x8c200000 OR of_nat (8 + length (pad8 d))) @ put_le32 0x1300 @ replicate 24 0"
    unfolding cmd_desc_def [symmetric] using len cmd_desc_bytes [of "8 + length (pad8 d)"] by (simp add: cmd_frame_def)
  then show ?thesis using True copy frames seq cmd_header_frame [of cmd "h2c_seq s" "pad8 d"] len
      cmd_frame_desc(1,6) [of "pad8 d" cmd "h2c_seq s"] al by (simp only: if_True simp_thms) blast
next
  case False
  then have "ALIGN (40 + length d) 8 + alloc_slack E < 48 + length d"
    using ALIGN_id [of 8 "40 + length d"] by (simp add: dvd_add_right_iff mod_0_imp_dvd)
  then have "\<not> 8 \<le> ALIGN (40 + length d) 8 + alloc_slack E - (40 + length d)" by linarith
  then show ?thesis using False assms(2)
    by (simp add: r92su_h2c_copy_def r92su_h2c_alloc_def kmalloc_def Let_def skb_put_data_def skb_new_def)
qed

theorem h2c_copy_sends_witness:
  "(\<exists>err s'. r92su_h2c_copy reg_env H2C_DISCONNECT_CMD [1, 2, 3, 4] probed = Some (err, s') \<and> h2c_seq s' = 1) \<and>
   r92su_h2c_copy reg_env H2C_DISCONNECT_CMD [1, 2, 3, 4, 5, 6, 7, 8] probed = None"
proof -
  have "alloc_ok reg_env (allocs probed)" "alloc_slack reg_env < 8" by (simp_all add: reg_env_def)
  with h2c_copy_sends [OF _ this(1), of "[1, 2, 3, 4]" H2C_DISCONNECT_CMD]
    h2c_copy_sends [OF _ this(1), of "[1, 2, 3, 4, 5, 6, 7, 8]" H2C_DISCONNECT_CMD] show ?thesis
    by (auto simp: probed_def r92su_zero_def)
qed

lemma h2c_copy_total:
  assumes "length d mod 8 \<noteq> 0"
  shows "r92su_h2c_copy E cmd d s \<noteq> None"
proof (cases "alloc_ok E (allocs s)")
  case True
  then show ?thesis using h2c_copy_frame [of d E s cmd] assms by simp
next
  case False
  then show ?thesis by (simp add: r92su_h2c_copy_def r92su_h2c_alloc_def kmalloc_def Let_def)
qed

lemma enc_alg_len_le: "r92su_enc_alg_len algo \<le> 16"
  by (cases algo) simp_all

lemma key_copy:
  assumes "r92su_enc_alg_len algo \<le> length k"
  shows "\<exists>k'. rd_mem k 0 (r92su_enc_alg_len algo) = Some (take (r92su_enc_alg_len algo) k) \<and>
     wr_mem (replicate 16 0) 0 (take (r92su_enc_alg_len algo) k) = Some k' \<and> length k' = 16"
  using assms enc_alg_len_le [of algo] by (simp add: rd_mem_def wr_mem_def)

text \<open>The commands with a fixed structure fit into the buffers they are given: none of them
  panics, in any state, for every allocator, as long as the caller passes a complete address, a
  complete key and a network name of at most 32 bytes.\<close>

theorem fixed_commands_fit:
  assumes "length addr = 6" "r92su_enc_alg_len algo \<le> length k"
    and "\<And>name. ssid = Some name \<Longrightarrow> length name \<le> 32"
  shows "r92su_h2c_set_mac_addr E addr s \<noteq> None \<and> r92su_h2c_set_opmode E opmode s \<noteq> None \<and>
     r92su_h2c_set_channel E chan s \<noteq> None \<and> r92su_h2c_survey E ssid s \<noteq> None \<and>
     r92su_h2c_disconnect E s \<noteq> None \<and> r92su_h2c_set_key E algo idx grp k s \<noteq> None \<and>
     r92su_h2c_set_sta_key E algo addr k s \<noteq> None \<and> r92su_h2c_set_auth E auth eap s \<noteq> None \<and>
     r92su_h2c_start_ba E tid s \<noteq> None \<and> r92su_h2c_set_power_mode E ps smart s \<noteq> None"
proof -
  obtain k' where k: "rd_mem k 0 (r92su_enc_alg_len algo) = Some (take (r92su_enc_alg_len algo) k)"
    "wr_mem (replicate 16 0) 0 (take (r92su_enc_alg_len algo) k) = Some k'" "length k' = 16"
    using key_copy [OF assms(2)] by blast
  have a: "rd_mem addr 0 6 = Some addr" using assms(1) by (simp add: rd_mem_def)
  have "r92su_h2c_survey E ssid s \<noteq> None"
  proof (cases ssid)
    case (Some name)
    then obtain d where d: "wr_mem (replicate 32 0) 0 name = Some d" "length d = 32"
      using assms(3) by (simp add: wr_mem_def)
    have "r92su_h2c_copy E H2C_SITESURVEY_CMD (put_site_survey \<lparr>sv_active = bool_word True,
        sv_bsslimit = 48, sv_ssidlen = of_nat (length name), sv_ssid = d\<rparr>) s \<noteq> None"
      by (rule h2c_copy_total) (simp add: put_site_survey_def d(2))
    with Some d(1) show ?thesis by (simp add: r92su_h2c_survey_def Let_def)
  qed (simp add: r92su_h2c_survey_def Let_def h2c_copy_total put_site_survey_def del: not_None_eq)
  then show ?thesis using assms(1) k a
    by (simp add: r92su_h2c_set_mac_addr_def r92su_h2c_set_opmode_def r92su_h2c_set_channel_def
        r92su_h2c_disconnect_def r92su_h2c_set_key_def r92su_h2c_set_sta_key_def r92su_h2c_set_auth_def
        r92su_h2c_start_ba_def r92su_h2c_set_power_mode_def h2c_copy_total put_set_mac_def
        put_op_mode_def put_set_channel_def put_disconnect_def put_key_def put_sta_key_def put_auth_def
        put_add_ba_req_def put_set_power_mode_def del: not_None_eq)
qed

theorem fixed_commands_fit_witness: "r92su_h2c_set_key reg_env AESCCMP_ENCRYPTION 0 True (replicate 16 7) probed \<noteq> None"
  using fixed_commands_fit [of "replicate 6 1" AESCCMP_ENCRYPTION "replicate 16 7" None reg_env probed] by simp

lemma put_bss_length: "bss_ok b \<Longrightarrow> length (put_bss (b\<lparr>bss_ie_length := x, bss_length := y\<rparr>)) = 128"
  by (rule cbss.length_put) (simp add: bss_ok_def)

text \<open>C25. A connect or create request fits its buffer exactly when the information elements are
  not a multiple of 8 bytes or the allocator happens to add at least 8 bytes: the padding of a
  full block is not part of the requested size.\<close>

theorem h2c_connect_fits:
  assumes "bss_ok b" "alloc_ok E (allocs s)"
  shows "r92su_h2c_connect E b join (Some ies) (length ies) s \<noteq> None \<longleftrightarrow>
     length ies mod 8 \<noteq> 0 \<or> 8 \<le> alloc_slack E"
proof -
  let ?n = "128 + length ies"
  let ?T = "ALIGN (?n + 40) 8 + alloc_slack E - 40"
  have m: "?n mod 8 = length ies mod 8" by presburger
  have T: "?n \<le> ?T" using ALIGN_ge [of 8 "?n + 40"] by simp
  let ?bss = "put_bss (b\<lparr>bss_ie_length := 12 + of_nat (length ies), bss_length := of_nat ?n\<rparr>)"
  have bss: "length ?bss = 128" by (rule put_bss_length) (rule assms(1))
  let ?s = "s\<lparr>allocs := allocs s + 1\<rparr>"
  let ?a = "skb_new (ALIGN (?n + 40) 8 + alloc_slack E) 40 ()"
  let ?b = "?a\<lparr>skb_data := ?bss @ ies, skb_tailroom := ?T - ?n\<rparr>"
  have 1: "do { skb \<leftarrow> skb_put_data ?a ?bss; skb_put_data skb ies } = Some ?b"
    using T bss by (simp add: skb_put_data_def skb_new_def)
  have 2: "r92su_h2c_alloc E ?n s = (Some ?a, ?s)"
    using assms(2) by (simp add: r92su_h2c_alloc_def kmalloc_def Let_def)
  have "r92su_h2c_connect E b join (Some ies) (length ies) s =
      do { skb \<leftarrow> skb_put_data ?b (replicate (8 - ?n mod 8) 0);
           r92su_h2c_submit E skb (if join then H2C_JOINBSS_CMD else H2C_CREATEBSS_CMD) ?s }"
    using 1 unfolding r92su_h2c_connect_def 2
    by (cases "ies = []") (auto simp: rd_mem_def Let_def Option.bind_eq_Some_conv)
  then have "r92su_h2c_connect E b join (Some ies) (length ies) s \<noteq> None \<longleftrightarrow> ?n + (8 - ?n mod 8) \<le> ?T"
    using T by (auto simp: skb_put_data_def h2c_submit_frame skb_new_def split: if_splits)
  also have "\<dots> \<longleftrightarrow> length ies mod 8 \<noteq> 0 \<or> 8 \<le> alloc_slack E"
  proof (cases "length ies mod 8 = 0")
    case True
    then have "8 dvd ?n + 40" by presburger
    then have "ALIGN (?n + 40) 8 = ?n + 40" by (intro ALIGN_id) simp_all
    with True m show ?thesis by simp
  next
    case False
    with alloc_room [of ?n] m show ?thesis by simp
  qed
  finally show ?thesis .
qed

definition demo_bss :: h2cc2h_bss where
  "demo_bss = \<lparr>bss_length = 0, bss_bssid = [2, 0, 0, 0, 0, 1], bss_padding = [0, 0],
     bss_ssid = \<lparr>ss_length = 4, ss_ssid = replicate 32 65\<rparr>, bss_privacy = 0, bss_rssi = 0, bss_type = 0,
     bss_config = \<lparr>nc_length = 32, nc_beacon_period = 100, nc_atim_window = 0, nc_frequency = 6,
       nc_fh_config = \<lparr>fh_length = 0, fh_hop_pattern = 0, fh_hop_set = 0, fh_dwell_time = 0\<rparr>\<rparr>,
     bss_mode = 1, bss_rates = replicate 16 0, bss_ie_length = 12,
     bss_ies = \<lparr>fi_timestamp = 0, fi_beaconint = 100, fi_caps = 1\<rparr>\<rparr>"

theorem h2c_connect_fits_witness:
  "r92su_h2c_connect reg_env demo_bss True (Some (replicate 3 1)) (length (replicate 3 (1::u8))) probed \<noteq> None \<and>
   r92su_h2c_connect reg_env demo_bss True (Some (replicate 8 1)) (length (replicate 8 (1::u8))) probed = None"
proof -
  have b: "bss_ok demo_bss" by (simp add: bss_ok_def demo_bss_def)
  have a: "alloc_ok reg_env (allocs probed)" "alloc_slack reg_env = 0" by (simp_all add: reg_env_def)
  show ?thesis
  proof
    show "r92su_h2c_connect reg_env demo_bss True (Some (replicate 3 1)) (length (replicate 3 (1::u8))) probed \<noteq> None"
      by (rule h2c_connect_fits [OF b a(1), THEN iffD2]) simp
    show "r92su_h2c_connect reg_env demo_bss True (Some (replicate 8 1)) (length (replicate 8 (1::u8))) probed = None"
      by (rule ccontr) (drule h2c_connect_fits [OF b a(1), THEN iffD1], simp add: a)
  qed
qed

end
