(* ===== verification/R92_Tx.thy ===== *)
theory R92_Tx
  imports R92_RxAgg R92_Cmd
begin

text \<open>
  The transmit path (\<open>tx.c\<close>): from the Ethernet frame of the network stack, or the frame
  injected by a monitor, to the blocks handed to the USB transport. A handler returns its verdict
  with the frame and the driver state; \<open>None\<close> is an access outside a buffer, through a NULL or
  dangling pointer, or an assertion of the socket buffer. \<open>TX_HANDLER\<close> runs the next handler on
  \<open>TX_CONTINUE\<close> only. The network is passed by its address, so that its block-ack flags can be set.
\<close>

abbreviation (input) IEEE80211_MAX_FRAG_THRESHOLD :: nat where "IEEE80211_MAX_FRAG_THRESHOLD \<equiv> 2352"
abbreviation (input) ETH_HLEN :: nat where "ETH_HLEN \<equiv> 14"
abbreviation (input) ETH_P_IP :: u16 where "ETH_P_IP \<equiv> 0x0800"
abbreviation (input) ETH_P_ARP :: u16 where "ETH_P_ARP \<equiv> 0x0806"
abbreviation (input) ETH_P_PAE :: u16 where "ETH_P_PAE \<equiv> 0x888E"
abbreviation (input) IPPROTO_UDP :: u8 where "IPPROTO_UDP \<equiv> 17"

abbreviation (input) R92SU_TX_HEAD_ROOM :: nat where
  "R92SU_TX_HEAD_ROOM \<equiv> TX_DESC_SIZE + 4 + 4 * ETH_ALEN + 2 + 2 + 2 + 2 + 8 + 8 - ETH_HLEN"

abbreviation (input) R92SU_TX_TAIL_ROOM :: nat where "R92SU_TX_TAIL_ROOM \<equiv> 8 + 4"

type_synonym 'w tx_result = "(r92su_tx_control_t \<times> tx_skb \<times> 'w r92su) option"

definition TX_HANDLER :: "'w tx_result \<Rightarrow> (tx_skb \<Rightarrow> 'w r92su \<Rightarrow> 'w tx_result) \<Rightarrow> 'w tx_result" where
  "TX_HANDLER m f = do {
     (c, skb, s) \<leftarrow> m;
     (if c = TX_CONTINUE then f skb s else Some (c, skb, s)) }"

lemma TX_HANDLER_continue [simp]: "TX_HANDLER (Some (TX_CONTINUE, skb, s)) f = f skb s"
  by (simp add: TX_HANDLER_def)

definition priv_of :: "'w r92su \<Rightarrow> nat option \<Rightarrow> r92su_bss_priv option" where
  "priv_of s b = do { b \<leftarrow> b; bss \<leftarrow> bsss s b; Some (cb_priv bss) }"

section \<open>The transmit descriptor\<close>

fun r92su_802_1d_to_ac :: "ieee80211_ac_numbers \<Rightarrow> rtl8712_queues_t" where
  "r92su_802_1d_to_ac IEEE80211_AC_BK = RTL8712_BKQ"
| "r92su_802_1d_to_ac IEEE80211_AC_BE = RTL8712_BEQ"
| "r92su_802_1d_to_ac IEEE80211_AC_VI = RTL8712_VIQ"
| "r92su_802_1d_to_ac IEEE80211_AC_VO = RTL8712_VOQ"

text \<open>The security fields of the descriptor; \<open>None\<close> for a key of no cipher.\<close>

definition tx_security :: "r92su_key \<Rightarrow> bytes \<Rightarrow> bytes option" where
  "tx_security key hdr = (case key_type key of
     WEP40_ENCRYPTION \<Rightarrow> Some (SET_TX_DESC_KEY_ID (SET_TX_DESC_SEC_TYPE hdr 1) (key_index key))
   | WEP104_ENCRYPTION \<Rightarrow> Some (SET_TX_DESC_KEY_ID (SET_TX_DESC_SEC_TYPE hdr 1) (key_index key))
   | TKIP_ENCRYPTION \<Rightarrow> Some (SET_TX_DESC_SEC_TYPE hdr 2)
   | AESCCMP_ENCRYPTION \<Rightarrow> Some (SET_TX_DESC_SEC_TYPE hdr 3)
   | _ \<Rightarrow> None)"

definition tx_desc_base :: "nat \<Rightarrow> u32 \<Rightarrow> u32 \<Rightarrow> bool \<Rightarrow> bool \<Rightarrow> bytes" where
  "tx_desc_base len macid prio qos mcast =
     (let hdr = replicate TX_DESC_SIZE 0;
          hdr = SET_TX_DESC_PKT_SIZE hdr (of_nat len);
          hdr = SET_TX_DESC_OFFSET hdr (of_nat TX_DESC_SIZE);
          hdr = SET_TX_DESC_LAST_SEG hdr 1;
          hdr = SET_TX_DESC_FIRST_SEG hdr 1;
          hdr = SET_TX_DESC_OWN hdr 1;
          hdr = SET_TX_DESC_MACID hdr macid;
          hdr = SET_TX_DESC_QUEUE_SEL hdr (of_nat (queue_nr (r92su_802_1d_to_ac (ieee802_1d_to_ac ! unat prio))));
          hdr = SET_TX_DESC_PRIORITY hdr prio;
          hdr = SET_TX_DESC_NON_QOS hdr (if qos then 0 else 1)
      in SET_TX_DESC_BMC hdr (if mcast then 1 else 0))"

definition r92su_tx_fill_desc :: "'w env \<Rightarrow> tx_skb \<Rightarrow> 'w r92su \<Rightarrow> 'w tx_result" where
  "r92su_tx_fill_desc E skb s = do {
     let K = kernel E;
     let ti = skb_cb skb;
     let i3e = skb_data skb;
     let fc = frame_control i3e;
     let prio = skb_priority skb mod 8;
     skb \<leftarrow> skb_push skb TX_DESC_SIZE;
     macid \<leftarrow> (case (ieee80211_is_data K fc, ti_sta ti) of
                 (True, Some p) \<Rightarrow> map_option sta_mac_id (stas s p) | _ \<Rightarrow> Some 5);
     da \<leftarrow> ieee80211_get_DA K i3e;
     let hdr = tx_desc_base (length i3e) macid prio (ieee80211_is_data_qos K fc) (is_multicast_ether_addr da);
     key \<leftarrow> (case ti_key ti of None \<Rightarrow> Some None | Some k \<Rightarrow> map_option Some (keys s k));
     (case (case key of Some key \<Rightarrow> if ti_needs_encrypt ti then Some hdr else tx_security key hdr | None \<Rightarrow> Some hdr) of
        None \<Rightarrow> Some (TX_DROP, skb\<lparr>skb_data := hdr @ i3e\<rparr>, s)
      | Some hdr \<Rightarrow>
          let hdr = (if ti_low_rate ti then SET_TX_DESC_USER_TX_RATE (SET_TX_DESC_USER_RATE hdr 1) 0x001f8000 else hdr)
          in Some (TX_CONTINUE, skb\<lparr>skb_data := hdr @ i3e\<rparr>, s)) }"

section \<open>Preparation of a frame\<close>

definition tx_info_zero :: r92su_tx_info where
  "tx_info_zero = \<lparr>ti_sta = None, ti_key = None, ti_pn = 0, ti_tid = 0, ti_low_rate = False, ti_ampdu = False,
     ti_ht_possible = False, ti_needs_encrypt = False\<rparr>"

definition r92su_tx_prepare_tx_info :: "'w env \<Rightarrow> tx_skb \<Rightarrow> 'w r92su \<Rightarrow> 'w tx_result" where
  "r92su_tx_prepare_tx_info E skb s = do {
     let needed_tailroom = max (int R92SU_TX_TAIL_ROOM - int (skb_tailroom skb)) 0;
     (err, skb, s) \<leftarrow> pskb_expand_head E skb (int R92SU_TX_HEAD_ROOM) needed_tailroom s;
     (if err \<noteq> 0 then Some (TX_DROP, skb, s)
      else Some (TX_CONTINUE, skb\<lparr>skb_cb := tx_info_zero\<rparr>, s)) }"

definition r92su_tx_find_sta :: "nat option \<Rightarrow> tx_skb \<Rightarrow> 'w r92su \<Rightarrow> 'w tx_result" where
  "r92su_tx_find_sta b skb s = do {
     bp \<leftarrow> priv_of s b;
     dest \<leftarrow> rd_mem (skb_data skb) 0 ETH_ALEN;
     found \<leftarrow> r92su_sta_get s dest;
     (case found of
        Some p \<Rightarrow> do {
          sta \<leftarrow> stas s p;
          let ti = skb_cb skb;
          let ti = (if bp_sta bp = Some p then ti\<lparr>ti_ht_possible := sta_ht_sta sta\<rparr> else ti);
          Some (TX_CONTINUE, skb\<lparr>skb_cb := ti\<lparr>ti_sta := Some p\<rparr>\<rparr>, s) }
      | None \<Rightarrow> (case bp_sta bp of
          None \<Rightarrow> Some (TX_DROP, skb, s)
        | Some p \<Rightarrow> do {
            sta \<leftarrow> stas s p;
            Some (TX_CONTINUE, skb\<lparr>skb_cb := (skb_cb skb)\<lparr>ti_ht_possible := sta_ht_sta sta, ti_sta := Some p\<rparr>\<rparr>, s) })) }"

definition r92su_tx_find_sta_inject :: "'w env \<Rightarrow> tx_skb \<Rightarrow> 'w r92su \<Rightarrow> 'w tx_result" where
  "r92su_tx_find_sta_inject E skb s = do {
     da \<leftarrow> ieee80211_get_DA (kernel E) (skb_data skb);
     found \<leftarrow> r92su_sta_get s da;
     Some (TX_CONTINUE, skb\<lparr>skb_cb := (skb_cb skb)\<lparr>ti_sta := found\<rparr>\<rparr>, s) }"

text \<open>The IP and UDP headers are read without a check of the length of the frame.\<close>

definition is_dhcp :: "bytes \<Rightarrow> bool option" where
  "is_dhcp d = do {
     protocol \<leftarrow> rd8 d (ETH_HLEN + 9);
     (if protocol \<noteq> IPPROTO_UDP then Some False
      else do {
        ihl \<leftarrow> rd8 d ETH_HLEN;
        let udp = ETH_HLEN + unat (push_bit 2 (ihl AND 0xF));
        source \<leftarrow> rd_le16 d udp;
        dest \<leftarrow> rd_le16 d (udp + 2);
        Some (source = swab16 68 \<and> dest = swab16 67 \<or> source = swab16 67 \<and> dest = swab16 68) }) }"

definition r92su_tx_rate_control_hint :: "'w env \<Rightarrow> tx_skb \<Rightarrow> 'w r92su \<Rightarrow> 'w tx_result" where
  "r92su_tx_rate_control_hint E skb s = do {
     low_rate \<leftarrow> (if skb_protocol skb = swab16 ETH_P_PAE \<or> skb_protocol skb = swab16 ETH_P_ARP then Some True
                 else if skb_protocol skb = swab16 ETH_P_IP then is_dhcp (skb_data skb @ skb_tail E skb)
                 else Some False);
     Some (TX_CONTINUE, if low_rate then skb\<lparr>skb_cb := (skb_cb skb)\<lparr>ti_ht_possible := False, ti_low_rate := True\<rparr>\<rparr>
                        else skb, s) }"

definition r92su_tx_rate_control_inject :: "tx_skb \<Rightarrow> 'w r92su \<Rightarrow> 'w tx_result" where
  "r92su_tx_rate_control_inject skb s =
     Some (TX_CONTINUE, skb\<lparr>skb_cb := (skb_cb skb)\<lparr>ti_ht_possible := False, ti_low_rate := True\<rparr>\<rparr>, s)"

text \<open>The conversion to an 802.11 frame. The result of starting a block-ack session is ignored.\<close>

definition r92su_tx_add_80211 :: "'w env \<Rightarrow> nat option \<Rightarrow> tx_skb \<Rightarrow> 'w r92su \<Rightarrow> 'w tx_result" where
  "r92su_tx_add_80211 E b skb s = do {
     bp \<leftarrow> priv_of s b;
     p \<leftarrow> ti_sta (skb_cb skb);
     sta \<leftarrow> stas s p;
     let qos = (sta_qos_sta sta \<and> bp_control_port_ethertype bp \<noteq> skb_protocol skb);
     (case data_from_8023 E (dev_addr s) (iftype s) (bss_bssid (bp_fw_bss bp)) qos skb of (err, skb) \<Rightarrow>
        if err \<noteq> 0 then Some (TX_DROP, skb, s)
        else if \<not> qos then Some (TX_CONTINUE, skb, s)
        else do {
          let tid = unat (skb_priority skb mod 8);
          data \<leftarrow> wr_mem (skb_data skb) (ieee80211_qos_ctl_off (kernel E) (frame_control (skb_data skb))) [of_nat tid, 0];
          let skb = skb\<lparr>skb_data := data\<rparr>;
          let ti = skb_cb skb;
          (if ti_ht_possible ti \<and> \<not> ti_low_rate ti \<and> unat (skb_queue_mapping skb) \<noteq> ac_nr IEEE80211_AC_VO \<and> \<not> disable_ht s
           then if \<not> bp_addba_issued bp ! tid then do {
                  (err, s) \<leftarrow> r92su_h2c_start_ba E (of_nat tid) s;
                  b \<leftarrow> b;
                  bss \<leftarrow> bsss s b;
                  Some (TX_CONTINUE, skb, s\<lparr>bsss := (bsss s)(b \<mapsto>
                    bss\<lparr>cb_priv := (cb_priv bss)\<lparr>bp_addba_issued := (bp_addba_issued (cb_priv bss))[tid := True]\<rparr>\<rparr>)\<rparr>) }
                else Some (TX_CONTINUE, skb\<lparr>skb_cb := ti\<lparr>ti_ampdu := True, ti_tid := of_nat tid\<rparr>\<rparr>, s)
           else Some (TX_CONTINUE, skb, s)) }) }"

section \<open>Fragmentation\<close>

text \<open>
  One fragment: a buffer with room for the descriptor and the IV, the header of the frame, and
  \<open>frag_len\<close> bytes from \<open>pos\<close>.
\<close>

definition tx_frag :: "'w env \<Rightarrow> nat \<Rightarrow> nat \<Rightarrow> nat \<Rightarrow> bool \<Rightarrow> u16 \<Rightarrow> tx_skb \<Rightarrow> tx_skb option" where
  "tx_frag E hlen pos frag_len more_frags frag_num skb = do {
     hdr \<leftarrow> rd_mem (skb_data skb) 0 hlen;
     body \<leftarrow> rd_mem (skb_data skb) pos frag_len;
     tmp \<leftarrow> skb_put_data (skb_new (R92SU_TX_HEAD_ROOM + IEEE80211_MAX_FRAG_THRESHOLD + R92SU_TX_TAIL_ROOM + alloc_slack E)
              (TX_DESC_SIZE + 4 + 8) (skb_cb skb)) hdr;
     tmp \<leftarrow> skb_put_data tmp body;
     (if skb_len tmp < 24 then None else Some ());
     let data = skb_data tmp;
     let data = (if more_frags then set_frame_control data (frame_control data OR IEEE80211_FCTL_MOREFRAGS) else data);
     let data = set_seq_ctrl data (seq_ctrl data OR (frag_num AND IEEE80211_SCTL_FRAG));
     Some (tmp\<lparr>skb_data := data, skb_protocol := skb_protocol skb, skb_priority := skb_priority skb,
               skb_queue_mapping := skb_queue_mapping skb\<rparr>) }"

text \<open>The loop over the rest of the payload; the rest shrinks as a fragment holds at least a byte.\<close>

function tx_fragments ::
    "'w env \<Rightarrow> nat \<Rightarrow> nat \<Rightarrow> tx_skb \<Rightarrow> nat \<Rightarrow> nat \<Rightarrow> u16 \<Rightarrow> tx_skb list \<Rightarrow> 'w r92su \<Rightarrow>
     (r92su_tx_control_t \<times> tx_skb list \<times> 'w r92su) option" where
  "tx_fragments E hlen per_frag skb pos rem frag_num q s =
     (if rem = 0 \<or> per_frag = 0 then Some (TX_CONTINUE, q, s)
      else let frag_len = min per_frag rem in
        case kmalloc E s of (ok, s) \<Rightarrow>
        if \<not> ok then Some (TX_DROP, q, s)
        else case tx_frag E hlen pos frag_len (rem - frag_len \<noteq> 0) frag_num skb of
          None \<Rightarrow> None
        | Some tmp \<Rightarrow> tx_fragments E hlen per_frag skb (pos + frag_len) (rem - frag_len) (frag_num + 1) (q @ [tmp]) s)"
  by pat_completeness auto
termination by (relation "measure (\<lambda>(E, h, n, skb, pos, rem, k, q, s). rem)") auto

declare tx_fragments.simps [simp del]

text \<open>
  The rest starts with the length of the payload less one fragment, so that the last \<open>per_frag\<close>
  bytes of the payload are in no fragment.
\<close>

definition r92su_tx_fragment :: "'w env \<Rightarrow> tx_skb \<Rightarrow> 'w r92su \<Rightarrow> (r92su_tx_control_t \<times> tx_skb list \<times> 'w r92su) option" where
  "r92su_tx_fragment E skb s =
     (if skb_len skb + FCS_LEN < IEEE80211_MAX_FRAG_THRESHOLD then Some (TX_CONTINUE, [skb], s)
      else
        let hlen = ieee80211_hdrlen (kernel E) (frame_control (skb_data skb));
            per_frag = IEEE80211_MAX_FRAG_THRESHOLD - hlen - FCS_LEN;
            rem = int (skb_len skb) - int hlen - int per_frag in
        if rem \<le> 0 then Some (TX_DROP, [], s)
        else do {
          (c, q, s) \<leftarrow> tx_fragments E hlen per_frag skb hlen (nat rem) 0 [] s;
          Some (c, q, if c = TX_CONTINUE then dev_kfree_skb_any skb s else s) })"

section \<open>Key selection\<close>

definition r92su_tx_select_key :: "'w env \<Rightarrow> nat option \<Rightarrow> tx_skb \<Rightarrow> 'w r92su \<Rightarrow> 'w tx_result" where
  "r92su_tx_select_key E b skb s = do {
     bp \<leftarrow> priv_of s b;
     p \<leftarrow> bp_sta bp;
     ap \<leftarrow> stas s p;
     (if \<not> sta_enc_sta ap then Some (TX_CONTINUE, skb, s)
      else if \<not> ieee80211_is_data_present (kernel E) (frame_control (skb_data skb)) then Some (TX_CONTINUE, skb, s)
      else do {
        da \<leftarrow> ieee80211_get_DA (kernel E) (skb_data skb);
        key \<leftarrow> (if is_multicast_ether_addr da
               then if bp_def_multi_key_idx bp < length (bp_group_key bp) then Some (bp_group_key bp ! bp_def_multi_key_idx bp) else None
               else do {
                 found \<leftarrow> r92su_sta_get s da;
                 (case found of None \<Rightarrow> Some None | Some q \<Rightarrow> map_option sta_key (stas s q)) });
        let key = (if key = None then sta_key ap else key);
        key \<leftarrow> (if key \<noteq> None then Some key
               else if bp_def_uni_key_idx bp < length (bp_group_key bp) then Some (bp_group_key bp ! bp_def_uni_key_idx bp) else None);
        (case key of
           None \<Rightarrow> if bp_control_port_ethertype bp \<noteq> skb_protocol skb then Some (TX_DROP, skb, s)
                   else Some (TX_CONTINUE, skb, s)
         | Some k \<Rightarrow> do {
             key \<leftarrow> keys s k;
             let ti = skb_cb skb;
             Some (TX_CONTINUE,
               skb\<lparr>skb_data := set_frame_control (skb_data skb) (frame_control (skb_data skb) OR IEEE80211_FCTL_PROTECTED),
                   skb_cb := ti\<lparr>ti_key := Some k, ti_needs_encrypt := ti_needs_encrypt ti \<or> \<not> key_uploaded key\<rparr>\<rparr>, s) }) }) }"

definition r92su_tx_invalidate_rcu_data :: "tx_skb \<Rightarrow> 'w r92su \<Rightarrow> 'w tx_result" where
  "r92su_tx_invalidate_rcu_data skb s =
     Some (TX_CONTINUE, skb\<lparr>skb_cb := (skb_cb skb)\<lparr>ti_sta := None, ti_key := None\<rparr>\<rparr>, s)"

section \<open>The whole path\<close>

definition tx_prep :: "'w env \<Rightarrow> bool \<Rightarrow> tx_skb \<Rightarrow> 'w r92su \<Rightarrow> 'w tx_result" where
  "tx_prep E inject skb s =
     TX_HANDLER (r92su_tx_prepare_tx_info E skb s) (\<lambda>skb s.
       if inject then
         TX_HANDLER (r92su_tx_find_sta_inject E skb s) r92su_tx_rate_control_inject
       else if connect_bss s = None then Some (TX_DROP, skb, s)
       else let b = connect_bss s in
         TX_HANDLER (r92su_tx_find_sta b skb s) (\<lambda>skb s.
         TX_HANDLER (r92su_tx_rate_control_hint E skb s) (\<lambda>skb s.
         TX_HANDLER (r92su_tx_add_80211 E b skb s) (r92su_tx_select_key E b))))"

definition tx_frame :: "'w env \<Rightarrow> 'c crypto_api \<Rightarrow> tx_skb \<Rightarrow> 'w r92su \<Rightarrow> 'w tx_result" where
  "tx_frame E C skb s =
     TX_HANDLER (r92su_tx_add_iv E skb s) (\<lambda>skb s.
     TX_HANDLER (r92su_tx_add_crypto E C skb s) (\<lambda>skb s.
     TX_HANDLER (r92su_tx_fill_desc E skb s) r92su_tx_invalidate_rcu_data))"

definition tx_drop :: "tx_skb \<Rightarrow> 'w r92su \<Rightarrow> 'w r92su" where
  "tx_drop skb s = dev_kfree_skb_any skb (s\<lparr>tx_dropped := tx_dropped s + 1\<rparr>)"

fun tx_frames_out :: "'w env \<Rightarrow> 'c crypto_api \<Rightarrow> tx_skb list \<Rightarrow> tx_skb list \<Rightarrow> 'w r92su \<Rightarrow> (tx_skb list \<times> 'w r92su) option" where
  "tx_frames_out E C [] out s = Some (out, s)"
| "tx_frames_out E C (skb # q) out s = do {
     (c, skb, s) \<leftarrow> tx_frame E C skb s;
     (if c = TX_DROP then tx_frames_out E C q out (tx_drop skb s)
      else tx_frames_out E C q (out @ [skb]) s) }"

definition queue_of_nr :: "u32 \<Rightarrow> rtl8712_queues_t option" where
  "queue_of_nr n = List.find (\<lambda>q. of_nat (queue_nr q) = n)
     [RTL8712_BKQ, RTL8712_BEQ, RTL8712_VIQ, RTL8712_VOQ, RTL8712_H2CCMD, RTL8712_BCNQ, RTL8712_BMCQ, RTL8712_MGTQ,
      RTL8712_RX0FF, RTL8712_C2HCMD]"

fun tx_send :: "'w env \<Rightarrow> tx_skb list \<Rightarrow> 'w r92su \<Rightarrow> 'w r92su option" where
  "tx_send E [] s = Some s"
| "tx_send E (skb # q) s = do {
     queue \<leftarrow> queue_of_nr (GET_TX_DESC_QUEUE_SEL (skb_data skb));
     tx_send E q (snd (run_state (r92su_usb_tx E (skb_data skb) queue)
       (s\<lparr>tx_packets := tx_packets s + 1, tx_bytes := tx_bytes s + skb_len skb\<rparr>))) }"

definition r92su_tx :: "'w env \<Rightarrow> 'c crypto_api \<Rightarrow> tx_skb \<Rightarrow> bool \<Rightarrow> 'w r92su \<Rightarrow> 'w r92su option" where
  "r92su_tx E C skb inject s =
     (if \<not> r92su_is_connected s then Some (tx_drop skb s)
      else do {
        (c, skb, s) \<leftarrow> tx_prep E inject skb s;
        (if c = TX_DROP then Some (tx_drop skb s)
         else do {
           (c, in_queue, s) \<leftarrow> r92su_tx_fragment E skb s;
           (if c = TX_DROP then Some (tx_drop skb (skb_queue_purge in_queue s))
            else do {
              (out_queue, s) \<leftarrow> tx_frames_out E C in_queue [] s;
              tx_send E out_queue s }) }) })"

section \<open>Injected frames\<close>

definition ieee80211_parse_tx_radiotap :: "'w env \<Rightarrow> tx_skb \<Rightarrow> tx_skb option" where
  "ieee80211_parse_tx_radiotap E skb = (case radiotap_iterate E (skb_data skb) of (err, max_length) \<Rightarrow>
     if err \<noteq> - ENOENT then None
     else Some (case skb_pull skb max_length of None \<Rightarrow> skb | Some skb \<Rightarrow> skb))"

definition rfc1042_header :: bytes where
  "rfc1042_header = [0xAA, 0xAA, 3, 0, 0, 0]"

definition r92su_tx_monitor :: "'w env \<Rightarrow> 'c crypto_api \<Rightarrow> tx_skb \<Rightarrow> 'w r92su \<Rightarrow> 'w r92su option" where
  "r92su_tx_monitor E C skb s =
     (let d = skb_data skb; n = skb_len skb; fail = Some (dev_kfree_skb_any skb s) in
      if n < SIZEOF_RADIOTAP_HEADER then fail
      else if d ! 0 \<noteq> 0 then fail
      else let rthdr = unat (get_radiotap_len E d) in
        if n < rthdr then fail
        else if n < rthdr + 2 then fail
        else let hdr = drop rthdr d; fc = frame_control hdr; hdrlen = ieee80211_hdrlen (kernel E) fc in
          if n < rthdr + hdrlen then fail
          else let payload = drop hdrlen hdr;
                   rfc = (ieee80211_is_data (kernel E) fc \<and> rthdr + hdrlen + length rfc1042_header + 2 \<le> n \<and>
                          take ETH_ALEN payload = rfc1042_header);
                   skb = (if rfc then skb\<lparr>skb_protocol := le16 (payload ! 6) (payload ! 7)\<rparr> else skb) in
            case ieee80211_parse_tx_radiotap E skb of
              None \<Rightarrow> Some (dev_kfree_skb_any skb s)
            | Some skb \<Rightarrow> r92su_tx E C skb True s)"

section \<open>No frame leaves in the clear\<close>

text \<open>C11. In a network whose access point encrypts, a data frame that passes the key selection either has
  a live key, the protected bit, and software encryption if the key is not in the hardware, or it is
  a frame of the control port.\<close>

theorem tx_not_in_clear:
  assumes sel: "r92su_tx_select_key E b skb s = Some (TX_CONTINUE, skb', t)"
    and net: "priv_of s b = Some bp" "bp_sta bp = Some p" "stas s p = Some ap" "sta_enc_sta ap"
    and data: "ieee80211_is_data_present (kernel E) (frame_control (skb_data skb))" "2 \<le> skb_len skb"
  shows "(\<exists>k key. ti_key (skb_cb skb') = Some k \<and> keys s k = Some key \<and> bit (frame_control (skb_data skb')) 14 \<and>
        (key_uploaded key \<or> ti_needs_encrypt (skb_cb skb'))) \<or>
     skb_protocol skb = bp_control_port_ethertype bp"
proof -
  have "bit (frame_control (skb_data skb) OR IEEE80211_FCTL_PROTECTED) 14"
    by (simp add: bit_or_iff)
  then show ?thesis
    using sel net data
    by (auto simp: r92su_tx_select_key_def Let_def Option.bind_eq_Some_conv split: if_splits option.splits)
qed

section \<open>The descriptor of a frame\<close>

lemma length_desc [simp]: "length (tx_desc_base len macid prio qos mcast) = TX_DESC_SIZE"
  by (simp add: tx_desc_base_def Let_def desc_defs)

lemma desc_base_fields:
  "SHIFT_AND_MASK_LE (tx_desc_base len macid prio qos mcast) 0 0 16 = take_bit 16 (of_nat len)"
  "SHIFT_AND_MASK_LE (tx_desc_base len macid prio qos mcast) 0 16 8 = 32"
  "SHIFT_AND_MASK_LE (tx_desc_base len macid prio qos mcast) 0 26 1 = 1"
  "SHIFT_AND_MASK_LE (tx_desc_base len macid prio qos mcast) 0 27 1 = 1"
  "SHIFT_AND_MASK_LE (tx_desc_base len macid prio qos mcast) 0 31 1 = 1"
  "SHIFT_AND_MASK_LE (tx_desc_base len macid prio qos mcast) 1 0 5 = take_bit 5 macid"
  "SHIFT_AND_MASK_LE (tx_desc_base len macid prio qos mcast) 1 8 5 =
     take_bit 5 (of_nat (queue_nr (r92su_802_1d_to_ac (ieee802_1d_to_ac ! unat prio))))"
  "SHIFT_AND_MASK_LE (tx_desc_base len macid prio qos mcast) 1 16 1 = (if qos then 0 else 1)"
  "SHIFT_AND_MASK_LE (tx_desc_base len macid prio qos mcast) 1 17 2 = 0"
  "SHIFT_AND_MASK_LE (tx_desc_base len macid prio qos mcast) 1 22 2 = 0"
  "SHIFT_AND_MASK_LE (tx_desc_base len macid prio qos mcast) 2 7 1 = (if mcast then 1 else 0)"
  "SHIFT_AND_MASK_LE (tx_desc_base len macid prio qos mcast) 3 16 12 = take_bit 12 prio"
  "SHIFT_AND_MASK_LE (tx_desc_base len macid prio qos mcast) 4 31 1 = 0"
  "SHIFT_AND_MASK_LE (tx_desc_base len macid prio qos mcast) 5 0 31 = 0"
  by (simp_all add: tx_desc_base_def Let_def desc_defs desc_simps)

text \<open>The security type and the key number that belong to a cipher.\<close>

fun sec_fields :: "r92su_enc_alg \<Rightarrow> u32 \<Rightarrow> u32 \<times> u32" where
  "sec_fields WEP40_ENCRYPTION idx = (1, take_bit 2 idx)"
| "sec_fields WEP104_ENCRYPTION idx = (1, take_bit 2 idx)"
| "sec_fields TKIP_ENCRYPTION idx = (2, 0)"
| "sec_fields AESCCMP_ENCRYPTION idx = (3, 0)"
| "sec_fields _ idx = (0, 0)"

text \<open>What the security fields and the rate fields leave alone, and what they say.\<close>

lemma tx_security_other:
  assumes "tx_security key h = Some h'" "length h = TX_DESC_SIZE" "n \<le> 32"
    and "off \<noteq> 1 \<or> (sh + n \<le> 17 \<or> 19 \<le> sh) \<and> (sh + n \<le> 22 \<or> 24 \<le> sh)"
  shows "SHIFT_AND_MASK_LE h' off sh n = SHIFT_AND_MASK_LE h off sh n"
  using assms by (auto simp: tx_security_def desc_defs desc_simps split: r92su_enc_alg.splits)

lemma tx_security_fields:
  assumes "tx_security key h = Some h'" "length h = TX_DESC_SIZE"
    and "SHIFT_AND_MASK_LE h 1 17 2 = 0"
  shows "length h' = TX_DESC_SIZE"
    "(SHIFT_AND_MASK_LE h' 1 22 2, SHIFT_AND_MASK_LE h' 1 17 2) = sec_fields (key_type key) (key_index key)"
  using assms by (auto simp: tx_security_def desc_defs desc_simps split: r92su_enc_alg.splits)

definition tx_rate_desc :: "bool \<Rightarrow> bytes \<Rightarrow> bytes" where
  "tx_rate_desc low h = (if low then SET_TX_DESC_USER_TX_RATE (SET_TX_DESC_USER_RATE h 1) 0x001f8000 else h)"

lemma tx_rate_other:
  "length h = TX_DESC_SIZE \<Longrightarrow> n \<le> 32 \<Longrightarrow> off \<noteq> 4 \<and> off \<noteq> 5 \<Longrightarrow>
   SHIFT_AND_MASK_LE (tx_rate_desc low h) off sh n = SHIFT_AND_MASK_LE h off sh n"
  by (simp add: tx_rate_desc_def desc_defs desc_simps)

lemma tx_rate_fields:
  assumes "length h = TX_DESC_SIZE" "SHIFT_AND_MASK_LE h 4 31 1 = 0" "SHIFT_AND_MASK_LE h 5 0 31 = 0"
  shows "length (tx_rate_desc low h) = TX_DESC_SIZE"
    "(SHIFT_AND_MASK_LE (tx_rate_desc low h) 4 31 1, SHIFT_AND_MASK_LE (tx_rate_desc low h) 5 0 31) =
       (if low then (1, 0x001f8000) else (0, 0))"
  using assms by (simp_all add: tx_rate_desc_def desc_defs desc_simps)

lemma key_security: "key_ok key \<Longrightarrow> \<exists>h'. tx_security key h = Some h'"
  by (cases "key_type key"; cases "key_u key") (simp_all add: key_ok_def tx_security_def)

lemma prio_lt: "unat (w mod 8 :: u32) < 8"
  by (simp add: unat_mod)

lemma queue_of_ac: "queue_of_nr (of_nat (queue_nr (r92su_802_1d_to_ac ac))) = Some (r92su_802_1d_to_ac ac)"
  by (cases ac) (simp_all add: queue_of_nr_def)

text \<open>The destination address is one of the first two or three of the header.\<close>

definition da_ok :: "kapi \<Rightarrow> bool" where
  "da_ok K \<longleftrightarrow> (\<forall>fc. ieee80211_DA_off K fc + 6 \<le> 24)"

lemma da_ok_linux: "da_ok linux_kapi"
  by (simp add: da_ok_def)

text \<open>What a frame needs to leave: live pointers and a valid key.\<close>

definition tx_ptrs_ok :: "r92su_tx_info \<Rightarrow> 'w r92su \<Rightarrow> bool" where
  "tx_ptrs_ok ti s \<longleftrightarrow> (\<forall>p. ti_sta ti = Some p \<longrightarrow> p \<in> dom (stas s)) \<and>
     (\<forall>k. ti_key ti = Some k \<longrightarrow> (\<exists>key. keys s k = Some key \<and> key_ok key))"

lemma fill_desc_run:
  assumes "da_ok (kernel E)" "24 \<le> skb_len skb" "TX_DESC_SIZE \<le> skb_headroom skb" "tx_ptrs_ok (skb_cb skb) s"
    and "da = take 6 (drop (ieee80211_DA_off (kernel E) (frame_control (skb_data skb))) (skb_data skb))"
    and "m = (case ti_sta (skb_cb skb) of
        Some p \<Rightarrow> if ieee80211_is_data (kernel E) (frame_control (skb_data skb)) then sta_mac_id (the (stas s p)) else 5
      | None \<Rightarrow> 5)"
    and "h0 = tx_desc_base (skb_len skb) m (skb_priority skb mod 8)
        (ieee80211_is_data_qos (kernel E) (frame_control (skb_data skb))) (is_multicast_ether_addr da)"
  obtains h skb' where "(case ti_key (skb_cb skb) of None \<Rightarrow> Some h0
      | Some k \<Rightarrow> if ti_needs_encrypt (skb_cb skb) then Some h0 else tx_security (the (keys s k)) h0) = Some h"
    and "r92su_tx_fill_desc E skb s = Some (TX_CONTINUE, skb', s)" "skb_cb skb' = skb_cb skb"
    and "skb_data skb' = tx_rate_desc (ti_low_rate (skb_cb skb)) h @ skb_data skb"
proof -
  let ?K = "kernel E" and ?d = "skb_data skb" and ?ti = "skb_cb skb"
  obtain skb1 where push: "skb_push skb TX_DESC_SIZE = Some skb1" "skb_cb skb1 = ?ti"
    using assms(3) by (simp add: skb_push_def)
  have "ieee80211_DA_off ?K (frame_control ?d) + 6 \<le> 24" using assms(1) by (simp add: da_ok_def)
  then have da: "ieee80211_get_DA ?K ?d = Some da"
    using assms(2,5) by (simp add: ieee80211_get_DA_def rd_mem_def)
  have m: "(case (ieee80211_is_data ?K (frame_control ?d), ti_sta ?ti) of
      (True, Some p) \<Rightarrow> map_option sta_mac_id (stas s p) | _ \<Rightarrow> Some 5) = Some m"
    using assms(4,6) by (auto simp: tx_ptrs_ok_def split: option.split bool.split)
  define sec where "sec = (case ti_key ?ti of None \<Rightarrow> Some h0
    | Some k \<Rightarrow> if ti_needs_encrypt ?ti then Some h0 else tx_security (the (keys s k)) h0)"
  have "\<exists>h. sec = Some h"
  proof (cases "ti_key ?ti")
    case (Some k)
    then obtain key where "keys s k = Some key" "key_ok key" using assms(4) by (auto simp: tx_ptrs_ok_def)
    then show ?thesis using Some key_security [of key h0] by (simp add: sec_def)
  qed (simp add: sec_def)
  then obtain h where h: "sec = Some h" by blast
  have "\<exists>ko. (case ti_key ?ti of None \<Rightarrow> Some None | Some k \<Rightarrow> map_option Some (keys s k)) = Some ko \<and>
      (case ko of Some key \<Rightarrow> if ti_needs_encrypt ?ti then Some h0 else tx_security key h0 | None \<Rightarrow> Some h0) = sec"
    using assms(4) by (intro exI [of _ "case ti_key ?ti of None \<Rightarrow> None | Some k \<Rightarrow> keys s k"])
      (auto simp: tx_ptrs_ok_def sec_def split: option.split)
  then have "r92su_tx_fill_desc E skb s =
      Some (TX_CONTINUE, skb1\<lparr>skb_data := tx_rate_desc (ti_low_rate ?ti) h @ ?d\<rparr>, s)"
    using push(1) da m h assms(7) by (auto simp: r92su_tx_fill_desc_def Let_def tx_rate_desc_def)
  then show thesis using that [of h] h push(2) by (simp add: sec_def)
qed

text \<open>Every field of the descriptor of a frame that has its room and live pointers.\<close>

lemma fill_desc_total:
  assumes "da_ok (kernel E)" "24 \<le> skb_len skb" "TX_DESC_SIZE \<le> skb_headroom skb" "tx_ptrs_ok (skb_cb skb) s"
    and da: "da = take 6 (drop (ieee80211_DA_off (kernel E) (frame_control (skb_data skb))) (skb_data skb))"
    and m: "m = (case ti_sta (skb_cb skb) of
        Some p \<Rightarrow> if ieee80211_is_data (kernel E) (frame_control (skb_data skb)) then sta_mac_id (the (stas s p)) else 5
      | None \<Rightarrow> 5)"
  shows "\<exists>skb' h. r92su_tx_fill_desc E skb s = Some (TX_CONTINUE, skb', s) \<and> skb_cb skb' = skb_cb skb \<and>
     skb_data skb' = h @ skb_data skb \<and> length h = TX_DESC_SIZE \<and>
     (SHIFT_AND_MASK_LE h 0 0 16 = take_bit 16 (of_nat (skb_len skb)) \<and> SHIFT_AND_MASK_LE h 0 16 8 = 32 \<and>
      SHIFT_AND_MASK_LE h 0 26 1 = 1 \<and> SHIFT_AND_MASK_LE h 0 27 1 = 1 \<and> SHIFT_AND_MASK_LE h 0 31 1 = 1) \<and>
     (SHIFT_AND_MASK_LE h 1 0 5 = take_bit 5 m \<and>
      queue_of_nr (GET_TX_DESC_QUEUE_SEL h) = Some (r92su_802_1d_to_ac (ieee802_1d_to_ac ! unat (skb_priority skb mod 8))) \<and>
      SHIFT_AND_MASK_LE h 1 16 1 = (if ieee80211_is_data_qos (kernel E) (frame_control (skb_data skb)) then 0 else 1) \<and>
      (SHIFT_AND_MASK_LE h 1 22 2, SHIFT_AND_MASK_LE h 1 17 2) = (case ti_key (skb_cb skb) of
          Some k \<Rightarrow> if ti_needs_encrypt (skb_cb skb) then (0, 0)
            else sec_fields (key_type (the (keys s k))) (key_index (the (keys s k)))
        | None \<Rightarrow> (0, 0))) \<and>
     SHIFT_AND_MASK_LE h 2 7 1 = (if is_multicast_ether_addr da then 1 else 0) \<and>
     SHIFT_AND_MASK_LE h 3 16 12 = take_bit 12 (skb_priority skb mod 8) \<and>
     (SHIFT_AND_MASK_LE h 4 31 1, SHIFT_AND_MASK_LE h 5 0 31) =
       (if ti_low_rate (skb_cb skb) then (1, 0x001f8000) else (0, 0))"
proof -
  let ?ti = "skb_cb skb" and ?fc = "frame_control (skb_data skb)"
  define h0 where "h0 = tx_desc_base (skb_len skb) m (skb_priority skb mod 8)
    (ieee80211_is_data_qos (kernel E) ?fc) (is_multicast_ether_addr da)"
  obtain h skb' where h: "(case ti_key ?ti of None \<Rightarrow> Some h0
      | Some k \<Rightarrow> if ti_needs_encrypt ?ti then Some h0 else tx_security (the (keys s k)) h0) = Some h"
    and run: "r92su_tx_fill_desc E skb s = Some (TX_CONTINUE, skb', s)" "skb_cb skb' = ?ti"
      "skb_data skb' = tx_rate_desc (ti_low_rate ?ti) h @ skb_data skb"
    using fill_desc_run [OF assms h0_def] by blast
  note base = desc_base_fields [of "skb_len skb" m "skb_priority skb mod 8"
      "ieee80211_is_data_qos (kernel E) ?fc" "is_multicast_ether_addr da", folded h0_def]
  have l0: "length h0 = TX_DESC_SIZE" by (simp add: h0_def)
  have h_sec: "length h = TX_DESC_SIZE \<and> (SHIFT_AND_MASK_LE h 1 22 2, SHIFT_AND_MASK_LE h 1 17 2) =
      (case ti_key ?ti of Some k \<Rightarrow> if ti_needs_encrypt ?ti then (0, 0)
          else sec_fields (key_type (the (keys s k))) (key_index (the (keys s k))) | None \<Rightarrow> (0, 0))"
    using h l0 base tx_security_fields [OF _ l0 base(9)] by (auto split: option.splits if_splits)
  have h_same: "SHIFT_AND_MASK_LE h off sh n = SHIFT_AND_MASK_LE h0 off sh n"
    if "n \<le> 32" "off \<noteq> 1 \<or> (sh + n \<le> 17 \<or> 19 \<le> sh) \<and> (sh + n \<le> 22 \<or> 24 \<le> sh)" for off sh n
    using h tx_security_other [OF _ l0 that] by (auto split: option.splits if_splits)
  let ?g = "tx_rate_desc (ti_low_rate ?ti) h"
  have g_same: "SHIFT_AND_MASK_LE ?g off sh n = SHIFT_AND_MASK_LE h off sh n" if "n \<le> 32" "off \<noteq> 4 \<and> off \<noteq> 5" for off sh n
    using h_sec that by (intro tx_rate_other) simp_all
  have rate: "length ?g = TX_DESC_SIZE"
    "(SHIFT_AND_MASK_LE ?g 4 31 1, SHIFT_AND_MASK_LE ?g 5 0 31) = (if ti_low_rate ?ti then (1, 0x001f8000) else (0, 0))"
    using tx_rate_fields [of h "ti_low_rate ?ti"] h_sec h_same base(13,14) by simp_all
  have q: "take_bit 5 (of_nat (queue_nr (r92su_802_1d_to_ac ac)) :: u32) = of_nat (queue_nr (r92su_802_1d_to_ac ac))" for ac
    by (cases ac) simp_all
  have sel: "GET_TX_DESC_QUEUE_SEL ?g = of_nat (queue_nr (r92su_802_1d_to_ac (ieee802_1d_to_ac ! unat (skb_priority skb mod 8))))"
    using g_same [of 5 1 8] h_same [of 5 1 8] base(7) q by (simp add: GET_TX_DESC_QUEUE_SEL_def)
  show ?thesis
    by (rule exI [of _ skb'], rule exI [of _ ?g])
      (use run rate sel h_sec in \<open>simp add: g_same h_same base [unfolded One_nat_def] queue_of_ac\<close>)
qed

text \<open>C34. The descriptor of a data frame whose station is known. Every field that the driver writes has
  its value: the length of the frame, the offset 32, one segment owned by the device; the number of the
  station, a queue that matches the priority, the mark of a frame without traffic class; the security
  type of the cipher, with the number of the key for WEP, or none where there is no key or the
  encryption is done in software; the mark of a group address; the priority; and the fixed low rate
  where one is asked for. The frame follows unchanged.\<close>

theorem tx_descriptor:
  assumes "da_ok (kernel E)" "24 \<le> skb_len skb" "skb_len skb < 2 ^ 16" "TX_DESC_SIZE \<le> skb_headroom skb"
    and "ieee80211_is_data (kernel E) (frame_control (skb_data skb))" "ti_sta (skb_cb skb) = Some p"
    and "stas s p = Some sta" "\<And>k. ti_key (skb_cb skb) = Some k \<Longrightarrow> \<exists>key. keys s k = Some key \<and> key_ok key"
  shows "\<exists>skb' h. r92su_tx_fill_desc E skb s = Some (TX_CONTINUE, skb', s) \<and> skb_data skb' = h @ skb_data skb \<and>
     length h = TX_DESC_SIZE \<and> unat (SHIFT_AND_MASK_LE h 0 0 16) = skb_len skb \<and> SHIFT_AND_MASK_LE h 0 16 8 = 32 \<and>
     SHIFT_AND_MASK_LE h 0 26 1 = 1 \<and> SHIFT_AND_MASK_LE h 0 27 1 = 1 \<and> SHIFT_AND_MASK_LE h 0 31 1 = 1 \<and>
     SHIFT_AND_MASK_LE h 1 0 5 = take_bit 5 (sta_mac_id sta) \<and>
     queue_of_nr (GET_TX_DESC_QUEUE_SEL h) = Some (r92su_802_1d_to_ac (ieee802_1d_to_ac ! unat (skb_priority skb mod 8))) \<and>
     SHIFT_AND_MASK_LE h 1 16 1 = (if ieee80211_is_data_qos (kernel E) (frame_control (skb_data skb)) then 0 else 1) \<and>
     (SHIFT_AND_MASK_LE h 1 22 2, SHIFT_AND_MASK_LE h 1 17 2) = (case ti_key (skb_cb skb) of
         None \<Rightarrow> (0, 0)
       | Some k \<Rightarrow> if ti_needs_encrypt (skb_cb skb) then (0, 0)
           else (case key_type (the (keys s k)) of
               WEP40_ENCRYPTION \<Rightarrow> (1, take_bit 2 (key_index (the (keys s k))))
             | WEP104_ENCRYPTION \<Rightarrow> (1, take_bit 2 (key_index (the (keys s k))))
             | TKIP_ENCRYPTION \<Rightarrow> (2, 0) | AESCCMP_ENCRYPTION \<Rightarrow> (3, 0) | _ \<Rightarrow> (0, 0))) \<and>
     SHIFT_AND_MASK_LE h 2 7 1 = (if is_multicast_ether_addr
         (take 6 (drop (ieee80211_DA_off (kernel E) (frame_control (skb_data skb))) (skb_data skb))) then 1 else 0) \<and>
     unat (SHIFT_AND_MASK_LE h 3 16 12) = unat (skb_priority skb) mod 8 \<and>
     (SHIFT_AND_MASK_LE h 4 31 1, SHIFT_AND_MASK_LE h 5 0 31) =
       (if ti_low_rate (skb_cb skb) then (1, 0x001f8000) else (0, 0))"
proof -
  have ptrs: "tx_ptrs_ok (skb_cb skb) s" using assms(6-8) by (auto simp: tx_ptrs_ok_def)
  have len: "unat (take_bit 16 (of_nat (skb_len skb) :: u32)) = skb_len skb"
    using assms(3) by (simp add: take_bit_eq_mod unat_mod unat_of_nat)
  have prio: "unat (take_bit 12 (skb_priority skb mod 8)) = unat (skb_priority skb) mod 8"
    by (simp add: unsigned_take_bit_eq unat_mod take_bit_nat_eq_self less_trans [OF mod_less_divisor])
  have sec: "sec_fields a i = (case a of WEP40_ENCRYPTION \<Rightarrow> (1, take_bit 2 i) | WEP104_ENCRYPTION \<Rightarrow> (1, take_bit 2 i)
      | TKIP_ENCRYPTION \<Rightarrow> (2, 0) | AESCCMP_ENCRYPTION \<Rightarrow> (3, 0) | _ \<Rightarrow> (0, 0))" for a i
    by (cases a) simp_all
  show ?thesis
    using fill_desc_total [OF assms(1,2,4) ptrs refl refl] assms(5-7) len prio unfolding sec by fastforce
qed

section \<open>Room for everything the path adds\<close>

lemma add_iv_headroom:
  assumes "r92su_tx_add_iv E skb s = Some (c, skb', t)" "ti_key (skb_cb skb) = Some k" "keys s k = Some key"
  shows "skb_headroom skb' + r92su_get_iv_len key = skb_headroom skb"
  using assms
  by (auto simp: r92su_tx_add_iv_def Let_def Option.bind_eq_Some_conv skb_push_def split: option.splits if_splits)

lemma wep_data_total:
  "off + n + 4 \<le> length buf \<Longrightarrow> \<exists>b. ieee80211_wep_encrypt_data C rc buf off n = Some b \<and> length b = length buf"
  by (simp add: ieee80211_wep_encrypt_data_def rd_mem_def wr_mem_def Let_def min_def)

lemma ccmp_blocks_total:
  assumes "hdr_ok K" "ieee80211_hdrlen K (frame_control d) \<le> length d" "30 \<le> length d" "n \<le> 32" "2 \<le> n"
  shows "\<exists>b0 aad ad. ccmp_special_blocks K d n pn = Some (b0, aad) \<and> aad_of aad = Some ad"
proof -
  have "\<exists>q. (if ieee80211_is_data_qos K (frame_control d) then do {
                   q \<leftarrow> qos_ctl0 K d; Some (q AND IEEE80211_QOS_CTL_TID_MASK) } else Some 0) = Some q"
    using qos_readable [OF assms(1) _ assms(2)] by auto
  then have "\<exists>b0 aad. ccmp_special_blocks K d n pn = Some (b0, aad)"
    using assms(3) by (auto simp: ccmp_special_blocks_def Let_def rd_mem_def rd8_def Option.bind_eq_Some_conv)
  then obtain b0 aad where b: "ccmp_special_blocks K d n pn = Some (b0, aad)" by blast
  have l: "length aad = 32" using ccmp_b_0 [OF b] by simp
  have "le16 (aad ! 1) (aad ! 0) = of_nat n - 2"
    using b by (auto simp: ccmp_special_blocks_def Let_def Option.bind_eq_Some_conv put_be16_def le16_put split: if_splits)
  moreover have "unat (of_nat n - 2 :: u16) = n - 2"
    using assms(4,5) by (simp add: unat_sub word_le_nat_alt unat_of_nat take_bit_eq_mod)
  ultimately have "\<exists>ad. aad_of aad = Some ad" using l assms(4,5) by (simp add: aad_of_def rd_mem_def)
  then show ?thesis using b by blast
qed

text \<open>What the encryption does to a buffer: the frame grows at its end, the headroom stays.\<close>

definition grown :: "'cb sk_buff \<Rightarrow> 'cb sk_buff \<Rightarrow> bool" where
  "grown skb skb' \<longleftrightarrow> skb_head skb' = skb_head skb \<and> skb_len skb \<le> skb_len skb' \<and> skb_cb skb' = skb_cb skb"

text \<open>A frame as \<open>r92su_tx_add_iv\<close> leaves it: the header, then at least the IV.\<close>

definition iv_frame :: "kapi \<Rightarrow> nat \<Rightarrow> bytes \<Rightarrow> bool" where
  "iv_frame K n d \<longleftrightarrow> ieee80211_is_data K (frame_control d) \<and> ieee80211_hdrlen K (frame_control d) \<le> 32 \<and>
     ieee80211_hdrlen K (frame_control d) + n \<le> length d"

lemma iv_frame_hdr: "hdr_ok K \<Longrightarrow> iv_frame K n d \<Longrightarrow> 24 \<le> ieee80211_hdrlen K (frame_control d) \<and> 24 + n \<le> length d"
  by (auto simp: hdr_ok_def iv_frame_def intro: order_trans)

lemma wep_total:
  assumes "hdr_ok K" "iv_frame K 4 (skb_data skb)" "4 \<le> skb_tailroom skb"
  shows "\<exists>skb'. ieee80211_wep_encrypt K C skb key iv kl = Some skb' \<and> grown skb skb'"
proof -
  let ?d = "skb_data skb" and ?o = "ieee80211_hdrlen K (frame_control (skb_data skb)) + 4"
  have o: "?o \<le> length ?d" using assms(2) by (simp add: iv_frame_def)
  then obtain b where b: "ieee80211_wep_encrypt_data C (wep_rc4key iv key kl) (?d @ replicate 4 0) ?o (length ?d - ?o) = Some b"
      "length b = length ?d + 4"
    using wep_data_total [of ?o "length ?d - ?o" "?d @ replicate 4 0" C "wep_rc4key iv key kl"] by auto
  have "nat (int (length ?d) - int ?o) = length ?d - ?o" by simp
  then show ?thesis
    using assms(3) o b by (simp add: ieee80211_wep_encrypt_def skb_put_data_def Let_def grown_def)
qed

lemma tkip_total:
  assumes "hdr_ok K" "iv_frame K 12 (skb_data skb)"
  shows "\<exists>skb'. ieee80211_tkip_encrypt_data K C tk skb pn = Some skb' \<and> grown skb skb'"
proof -
  let ?d = "skb_data skb" and ?o = "ieee80211_hdrlen K (frame_control (skb_data skb)) + 8"
  have o: "?o + 4 \<le> length ?d" using assms(2) by (simp add: iv_frame_def)
  obtain a where a: "rd_mem ?d 10 6 = Some a" using iv_frame_hdr [OF assms] by (simp add: rd_mem_def)
  obtain b where b: "ieee80211_wep_encrypt_data C (tkip_rc4key tk a pn) ?d ?o (length ?d - ?o - 4) = Some b"
      "length b = length ?d"
    using wep_data_total [of ?o "length ?d - ?o - 4" ?d C "tkip_rc4key tk a pn"] o by auto
  have "nat (int (length ?d) - int ?o - 4) = length ?d - ?o - 4" by simp
  then show ?thesis
    using o a b by (simp add: ieee80211_tkip_encrypt_data_def Let_def grown_def)
qed

lemma ccm_total:
  assumes "hdr_ok K" "ccm_ok C" "iv_frame K 8 (skb_data skb)" "8 \<le> skb_tailroom skb"
  shows "\<exists>skb'. ieee80211_aes_ccm_encrypt K C key skb pn 8 = Some skb' \<and> grown skb skb'"
proof -
  let ?d = "skb_data skb" and ?n = "ieee80211_hdrlen K (frame_control (skb_data skb))"
  have h: "24 \<le> ?n" "?n \<le> 32" "?n + 8 \<le> length ?d"
    using iv_frame_hdr [OF assms(1,3)] assms(3) by (auto simp: iv_frame_def)
  obtain b0 aad ad where b: "ccmp_special_blocks K ?d ?n pn = Some (b0, aad)" "aad_of aad = Some ad"
    using ccmp_blocks_total [OF assms(1), of ?d ?n pn] h by auto
  let ?e = "crypto_aead_encrypt C key b0 ad (drop (?n + 8) ?d) 8"
  have e: "length ?e = length ?d - (?n + 8) + 8" using assms(2) by (simp add: ccm_ok_def)
  have r: "rd_mem (?d @ replicate 8 0) (?n + 8) (length ?d - ?n - 8) = Some (drop (?n + 8) ?d)"
    using h(3) by (simp add: rd_mem_def)
  have w: "wr_mem (?d @ replicate 8 0) (?n + 8) ?e = Some (take (?n + 8) ?d @ ?e)"
    using h(3) e by (simp add: wr_mem_def)
  have "nat (int (length ?d) - int ?n - 8) = length ?d - ?n - 8" by simp
  then show ?thesis
    using assms(4) h(3) b r w e by (simp add: ieee80211_aes_ccm_encrypt_def skb_put_data_def Let_def grown_def)
qed

lemma add_crypto_total:
  assumes K: "hdr_ok (kernel E)" and C: "ccm_ok C"
    and key: "keys s k = Some key" "key_ok key" "ti_key (skb_cb skb) = Some k"
    and frame: "iv_frame (kernel E) (r92su_get_iv_len key) (skb_data skb)" and room: "12 \<le> skb_tailroom skb"
  shows "\<exists>skb'. r92su_tx_add_crypto E C skb s = Some (TX_CONTINUE, skb', s) \<and> skb_head skb' = skb_head skb \<and>
     skb_len skb \<le> skb_len skb' \<and> ti_key (skb_cb skb') = Some k \<and> ti_sta (skb_cb skb') = ti_sta (skb_cb skb)"
proof -
  let ?K = "kernel E" and ?d = "skb_data skb" and ?ti = "skb_cb skb"
  have wep: ?thesis if w: "key_type key = WEP40_ENCRYPTION \<or> key_type key = WEP104_ENCRYPTION"
  proof -
    obtain tx rx k' where u: "key_u key = WepKey tx rx k'" using w key(2) by (cases "key_u key") (auto simp: key_ok_def)
    have f: "iv_frame ?K 4 ?d" "4 \<le> skb_tailroom skb" using frame w room by (auto simp: r92su_get_iv_len_def)
    obtain skb' where "ieee80211_wep_encrypt ?K C skb k' (ucast (ti_pn ?ti)) (key_len key) = Some skb'" "grown skb skb'"
      using wep_total [OF K f] by blast
    then show ?thesis using w u key by (auto simp: r92su_tx_add_crypto_def Let_def grown_def)
  qed
  have tkip: ?thesis if t: "key_type key = TKIP_ENCRYPTION"
  proof -
    obtain tx rx k' where u: "key_u key = TkipKey tx rx k'" "length k' = 32"
      using t key(2) by (cases "key_u key") (auto simp: key_ok_def)
    let ?o = "ieee80211_hdrlen ?K (frame_control ?d) + 8"
    have f: "iv_frame ?K 8 ?d" "r92su_get_iv_len key = 8" using frame t by (auto simp: r92su_get_iv_len_def)
    then have o: "?o \<le> length ?d" "ieee80211_is_data ?K (frame_control ?d)" by (simp_all add: iv_frame_def)
    obtain mic where m: "michael_mic ?K (drop 16 k') ?d (drop ?o ?d) (length ?d - ?o) = Some mic" "length mic = 8"
      using michael_mic_Some [OF K o(2), of "drop 16 k'" "length ?d - ?o" "drop ?o ?d"] o u(2) by auto
    let ?s1 = "skb\<lparr>skb_data := ?d @ mic, skb_tailroom := skb_tailroom skb - 8\<rparr>"
    let ?s2 = "?s1\<lparr>skb_data := (?d @ mic) @ replicate 4 0, skb_tailroom := skb_tailroom skb - 8 - 4\<rparr>"
    have p: "skb_put_data skb mic = Some ?s1" "skb_put_data ?s1 (replicate 4 0) = Some ?s2"
      using m(2) room by (simp_all add: skb_put_data_def)
    have fc: "frame_control (?d @ x) = frame_control ?d" for x
      using iv_frame_hdr [OF K f(1)] by (simp add: frame_control_app)
    have "iv_frame ?K 12 (skb_data ?s2)" using f(1) fc m(2) by (simp add: iv_frame_def)
    then obtain skb' where e: "ieee80211_tkip_encrypt_data ?K C k' ?s2 (ti_pn ?ti) = Some skb'" "grown ?s2 skb'"
      using tkip_total [OF K] by blast
    show ?thesis
      using t u key f(2) o m p e by (auto simp: r92su_tx_add_crypto_def Let_def grown_def)
  qed
  have ccm: ?thesis if t: "key_type key = AESCCMP_ENCRYPTION"
  proof -
    obtain tx rx k' where u: "key_u key = CcmpKey tx rx k'" using t key(2) by (cases "key_u key") (auto simp: key_ok_def)
    have f: "iv_frame ?K 8 ?d" using frame t by (auto simp: r92su_get_iv_len_def)
    have r: "8 \<le> skb_tailroom skb" using room by simp
    obtain skb' where "ieee80211_aes_ccm_encrypt ?K C k' skb (ti_pn ?ti) 8 = Some skb'" "grown skb skb'"
      using ccm_total [OF K C f r] by blast
    then show ?thesis using t u key by (auto simp: r92su_tx_add_crypto_def Let_def grown_def)
  qed
  show ?thesis using wep tkip ccm key(2) by (cases "key_type key"; cases "key_u key") (auto simp: key_ok_def)
qed

text \<open>
  A frame behind the conversion that is ready for the output path: room for the descriptor and an
  initialisation vector, room for the code and the check value, a complete data header and live
  pointers.
\<close>

definition tx_ready :: "'w env \<Rightarrow> tx_skb \<Rightarrow> 'w r92su \<Rightarrow> bool" where
  "tx_ready E skb s \<longleftrightarrow> ieee80211_is_data (kernel E) (frame_control (skb_data skb)) \<and>
     ieee80211_hdrlen (kernel E) (frame_control (skb_data skb)) \<le> skb_len skb \<and>
     ieee80211_hdrlen (kernel E) (frame_control (skb_data skb)) \<le> 32 \<and>
     TX_DESC_SIZE + 8 \<le> skb_headroom skb \<and> R92SU_TX_TAIL_ROOM \<le> skb_tailroom skb \<and> tx_ptrs_ok (skb_cb skb) s"

lemma tx_frame_total:
  assumes K: "hdr_ok (kernel E)" "da_ok (kernel E)" and C: "ccm_ok C" and ready: "tx_ready E skb s"
  shows "\<exists>skb' t. tx_frame E C skb s = Some (TX_CONTINUE, skb', t) \<and>
     queue_of_nr (GET_TX_DESC_QUEUE_SEL (skb_data skb')) \<noteq> None \<and> (\<forall>ti. tx_ptrs_ok ti s \<longrightarrow> tx_ptrs_ok ti t)"
proof -
  note skb = ready [unfolded tx_ready_def, THEN conjunct1]
    ready [unfolded tx_ready_def, THEN conjunct2, THEN conjunct1]
    ready [unfolded tx_ready_def, THEN conjunct2, THEN conjunct2, THEN conjunct1]
  have room: "TX_DESC_SIZE + 8 \<le> skb_headroom skb" "12 \<le> skb_tailroom skb" and live: "tx_ptrs_ok (skb_cb skb) s"
    using ready by (simp_all add: tx_ready_def)
  let ?K = "kernel E" and ?d = "skb_data skb"
  let ?n = "ieee80211_hdrlen ?K (frame_control ?d)"
  have n: "24 \<le> ?n" using K(1) skb(1) by (simp add: hdr_ok_def)
  have "\<exists>skb2 t. TX_HANDLER (r92su_tx_add_iv E skb s) (r92su_tx_add_crypto E C) = Some (TX_CONTINUE, skb2, t) \<and>
      24 \<le> skb_len skb2 \<and> TX_DESC_SIZE \<le> skb_headroom skb2 \<and> tx_ptrs_ok (skb_cb skb2) t \<and>
      (\<forall>ti. tx_ptrs_ok ti s \<longrightarrow> tx_ptrs_ok ti t)"
  proof (cases "ti_key (skb_cb skb)")
    case None
    then show ?thesis
      using n skb(2) room(1) live by (simp add: TX_HANDLER_def r92su_tx_add_iv_def r92su_tx_add_crypto_def tx_ptrs_ok_def)
  next
    case (Some k)
    then obtain key where key: "keys s k = Some key" "key_ok key" using live by (auto simp: tx_ptrs_ok_def)
    have "\<exists>x. tx_iv key = Some x"
      using key(2) by (cases "key_type key"; cases "key_u key") (auto simp: key_ok_def tx_iv_def Let_def)
    then obtain iv pn key' where iv: "tx_iv key = Some (iv, pn, key')" by (metis prod_cases3)
    have ivl: "length iv = r92su_get_iv_len key" "length iv \<le> 8" using tx_iv_len [OF iv]
      by (simp_all add: r92su_get_iv_len_def split: r92su_enc_alg.split)
    have key': "key_ok key'" "r92su_get_iv_len key' = r92su_get_iv_len key"
      using iv key(2) by (auto simp: tx_iv_def Let_def key_ok_def r92su_get_iv_len_def
          split: r92su_enc_alg.splits key_union.splits)
    let ?h = "take ?n ?d" and ?t = "s\<lparr>keys := (keys s)(k \<mapsto> key')\<rparr>"
    have h: "?d = ?h @ drop ?n ?d" "length ?h = ?n" "frame_control ?h = frame_control ?d"
      using n skb(2) by (auto simp: frame_control_def)
    have hl: "ieee80211_hdrlen ?K (frame_control ?h) = length ?h" "2 \<le> length ?h" "length iv \<le> skb_headroom skb"
      using h(2,3) n room(1) ivl(2) by (simp only:, linarith, linarith)
    obtain skb1 where add: "r92su_tx_add_iv E skb s = Some (TX_CONTINUE, skb1, ?t)" "skb_data skb1 = ?h @ iv @ drop ?n ?d"
      "skb_tailroom skb1 = skb_tailroom skb" "skb_cb skb1 = (skb_cb skb)\<lparr>ti_pn := pn\<rparr>"
      using add_iv_effect [OF key(1) iv ivl(1) hl(1,2) h(1) Some hl(3)] by blast
    have head: "TX_DESC_SIZE \<le> skb_headroom skb1"
      using add_iv_headroom [OF add(1) Some key(1)] ivl room(1) by simp
    have fc: "frame_control (skb_data skb1) = frame_control ?d"
      using h(2,3) n by (simp add: add(2) frame_control_app)
    have "iv_frame ?K (r92su_get_iv_len key') (skb_data skb1)"
      using fc skb(1-3) h(2) ivl(1) key'(2) by (simp add: iv_frame_def add(2))
    then obtain skb2 where enc: "r92su_tx_add_crypto E C skb1 ?t = Some (TX_CONTINUE, skb2, ?t)"
      "skb_head skb2 = skb_head skb1" "skb_len skb1 \<le> skb_len skb2" "ti_key (skb_cb skb2) = Some k"
      "ti_sta (skb_cb skb2) = ti_sta (skb_cb skb1)"
      using add_crypto_total [OF K(1) C, of ?t k key' skb1] key'(1) add(3,4) Some room(2) by auto
    have "24 \<le> skb_len skb2" using enc(3) add(2) h(2) n by simp
    then show ?thesis
      using add(1,4) enc head key'(1) live by (auto simp: TX_HANDLER_def tx_ptrs_ok_def)
  qed
  then obtain skb2 t where a: "TX_HANDLER (r92su_tx_add_iv E skb s) (r92su_tx_add_crypto E C) = Some (TX_CONTINUE, skb2, t)"
    "24 \<le> skb_len skb2" "TX_DESC_SIZE \<le> skb_headroom skb2" "tx_ptrs_ok (skb_cb skb2) t"
    and keep: "\<forall>ti. tx_ptrs_ok ti s \<longrightarrow> tx_ptrs_ok ti t" by blast
  obtain skb3 h where b: "r92su_tx_fill_desc E skb2 t = Some (TX_CONTINUE, skb3, t)" "skb_data skb3 = h @ skb_data skb2"
    "length h = TX_DESC_SIZE" "queue_of_nr (GET_TX_DESC_QUEUE_SEL h) \<noteq> None"
    using fill_desc_total [OF K(2) a(2-4) refl refl] by fastforce
  have "tx_frame E C skb s = TX_HANDLER (TX_HANDLER (r92su_tx_add_iv E skb s) (r92su_tx_add_crypto E C))
      (\<lambda>skb s. TX_HANDLER (r92su_tx_fill_desc E skb s) r92su_tx_invalidate_rcu_data)"
    by (cases "r92su_tx_add_iv E skb s") (auto simp: tx_frame_def TX_HANDLER_def)
  then show ?thesis using a(1) b keep
    by (simp add: r92su_tx_invalidate_rcu_data_def GET_TX_DESC_QUEUE_SEL_def SHIFT_AND_MASK_app)
qed

lemma tx_ready_ptrs: "tx_ready E skb s \<Longrightarrow> (\<And>ti. tx_ptrs_ok ti s \<Longrightarrow> tx_ptrs_ok ti t) \<Longrightarrow> tx_ready E skb t"
  by (simp add: tx_ready_def)

text \<open>The whole queue gets through, and every frame has a queue of the device.\<close>

lemma tx_frames_out_total:
  assumes K: "hdr_ok (kernel E)" "da_ok (kernel E)" and C: "ccm_ok C"
  shows "(\<forall>skb \<in> set q. tx_ready E skb s) \<Longrightarrow>
    \<exists>out' t. tx_frames_out E C q out s = Some (out @ out', t) \<and> length out' = length q \<and>
      (\<forall>skb \<in> set out'. queue_of_nr (GET_TX_DESC_QUEUE_SEL (skb_data skb)) \<noteq> None)"
proof (induction q arbitrary: out s)
  case (Cons skb q)
  have "tx_ready E skb s" using Cons.prems by simp
  from tx_frame_total [OF K C this] obtain skb' t where f: "tx_frame E C skb s = Some (TX_CONTINUE, skb', t)"
    "queue_of_nr (GET_TX_DESC_QUEUE_SEL (skb_data skb')) \<noteq> None" "\<forall>ti. tx_ptrs_ok ti s \<longrightarrow> tx_ptrs_ok ti t" by blast
  have "\<forall>x \<in> set q. tx_ready E x t" using Cons.prems f(3) tx_ready_ptrs by (metis list.set_intros(2))
  from Cons.IH [OF this, of "out @ [skb']"] obtain out' u where r:
    "tx_frames_out E C q (out @ [skb']) t = Some ((out @ [skb']) @ out', u)" "length out' = length q"
    "\<forall>skb \<in> set out'. queue_of_nr (GET_TX_DESC_QUEUE_SEL (skb_data skb)) \<noteq> None" by blast
  then show ?case using f(1,2) by (intro exI [of _ "skb' # out'"] exI [of _ u]) simp
qed simp

lemma tx_send_total:
  "(\<forall>skb \<in> set q. queue_of_nr (GET_TX_DESC_QUEUE_SEL (skb_data skb)) \<noteq> None) \<Longrightarrow> tx_send E q s \<noteq> None"
  by (induction q arbitrary: s) auto

definition demo_tx :: tx_skb where
  "demo_tx = demo_tx_skb (demo_hdr @ [1, 2, 3]) (tx_info_zero\<lparr>ti_key := Some 0, ti_needs_encrypt := True\<rparr>)"

lemma demo_hdr_len: "length demo_hdr = 26"
  by (simp add: demo_hdr_def)

lemma demo_frame_fc: "frame_control (demo_hdr @ xs) = 0x188"
  using demo_hdr_fc by (simp add: frame_control_app demo_hdr_len)

lemma demo_tx:
  "skb_data demo_tx = demo_hdr @ [1, 2, 3]" "skb_len demo_tx = 29" "skb_headroom demo_tx = 64" "skb_tailroom demo_tx = 32"
  "skb_cb demo_tx = tx_info_zero\<lparr>ti_key := Some 0, ti_needs_encrypt := True\<rparr>"
  "ieee80211_is_data linux_kapi (frame_control (demo_hdr @ [1, 2, 3]))"
  "ieee80211_hdrlen linux_kapi (frame_control (demo_hdr @ [1, 2, 3])) = 26"
  by (simp_all add: demo_tx_def demo_tx_skb_def demo_frame_fc demo_hdr_len)

section \<open>Fragments\<close>

text \<open>The payload of a fragment behind a header of \<open>n\<close> bytes.\<close>

lemma tx_frag_effect:
  assumes "24 \<le> n" "n \<le> 36" "n \<le> skb_len skb" "pos + len \<le> skb_len skb" "len + n \<le> IEEE80211_MAX_FRAG_THRESHOLD"
  shows "\<exists>f. tx_frag E n pos len more_frags num skb = Some f \<and> drop n (skb_data f) = take len (drop pos (skb_data skb)) \<and>
     skb_len f = n + len"
proof -
  have d: "drop n (set_frame_control d w) = drop n d" "drop n (set_seq_ctrl d w) = drop n d" for d w
    using assms(1) by (simp_all add: set_frame_control_def set_seq_ctrl_def)
  show ?thesis
    using assms by (auto simp: tx_frag_def skb_new_def rd_mem_def skb_put_data_def d Let_def)
qed

lemma tx_fragments_cover:
  assumes n: "24 \<le> n" "n \<le> 36" "n \<le> skb_len skb" "0 < per" "per + n \<le> IEEE80211_MAX_FRAG_THRESHOLD"
    and ok: "\<And>k. alloc_ok E k"
  shows "pos + rem \<le> skb_len skb \<Longrightarrow> \<exists>fs t. tx_fragments E n per skb pos rem num q s = Some (TX_CONTINUE, q @ fs, t) \<and>
     concat (map (\<lambda>f. drop n (skb_data f)) fs) = take rem (drop pos (skb_data skb)) \<and> (\<forall>f \<in> set fs. skb_len f \<le> n + per)"
proof (induction rem arbitrary: pos num q s rule: less_induct)
  case (less rem)
  show ?case
  proof (cases "rem = 0")
    case True
    then show ?thesis by (subst tx_fragments.simps) simp
  next
    case False
    let ?l = "min per rem" and ?s = "s\<lparr>allocs := allocs s + 1\<rparr>"
    obtain f where f: "tx_frag E n pos ?l (rem - ?l \<noteq> 0) num skb = Some f" "drop n (skb_data f) = take ?l (drop pos (skb_data skb))"
      "skb_len f = n + ?l"
      using tx_frag_effect [OF n(1-3), of pos ?l E] less.prems n(5) by fastforce
    have step: "tx_fragments E n per skb pos rem num q s =
        tx_fragments E n per skb (pos + ?l) (rem - ?l) (num + 1) (q @ [f]) ?s"
      using False n(4) ok f(1) by (subst tx_fragments.simps) (simp add: kmalloc_def Let_def)
    obtain fs t where r: "tx_fragments E n per skb (pos + ?l) (rem - ?l) (num + 1) (q @ [f]) ?s =
        Some (TX_CONTINUE, (q @ [f]) @ fs, t)"
      "concat (map (\<lambda>f. drop n (skb_data f)) fs) = take (rem - ?l) (drop (pos + ?l) (skb_data skb))"
      "\<forall>f \<in> set fs. skb_len f \<le> n + per"
      using less.IH [of "rem - ?l" "pos + ?l" "num + 1" "q @ [f]" ?s] less.prems False n(4) by auto
    have "take ?l (drop pos (skb_data skb)) @ take (rem - ?l) (drop (pos + ?l) (skb_data skb)) = take rem (drop pos (skb_data skb))"
      by (metis add.commute drop_drop le_add_diff_inverse min.cobounded2 take_add)
    then show ?thesis using step r f(2,3) by (intro exI [of _ "f # fs"] exI [of _ t]) simp
  qed
qed

text \<open>C36. The fragments of a long frame are at most as long as the limit and carry its payload in order, but
  not all of it: the loop leaves out the last bytes, as many as a full fragment holds.\<close>

theorem tx_fragments_lose_tail:
  assumes "hdr_ok (kernel E)" "\<And>k. alloc_ok E k"
    and hdr: "n = ieee80211_hdrlen (kernel E) (frame_control (skb_data skb))" "24 \<le> n"
    and len: "2 * IEEE80211_MAX_FRAG_THRESHOLD \<le> skb_len skb"
  shows "\<exists>fs t. r92su_tx_fragment E skb s = Some (TX_CONTINUE, fs, t) \<and>
     concat (map (\<lambda>f. drop n (skb_data f)) fs) =
       take (skb_len skb - n - (IEEE80211_MAX_FRAG_THRESHOLD - n - FCS_LEN)) (drop n (skb_data skb)) \<and>
     (\<forall>f \<in> set fs. skb_len f + FCS_LEN \<le> IEEE80211_MAX_FRAG_THRESHOLD)"
proof -
  have n: "n \<le> 36" using assms(1) hdr(1) by (simp add: hdr_ok_def)
  let ?per = "IEEE80211_MAX_FRAG_THRESHOLD - n - FCS_LEN"
  let ?rem = "skb_len skb - n - ?per"
  have "\<exists>fs t. tx_fragments E n ?per skb n ?rem 0 [] s = Some (TX_CONTINUE, [] @ fs, t) \<and>
     concat (map (\<lambda>f. drop n (skb_data f)) fs) = take ?rem (drop n (skb_data skb)) \<and> (\<forall>f \<in> set fs. skb_len f \<le> n + ?per)"
    by (rule tx_fragments_cover [OF hdr(2) n _ _ _ assms(2)]) (use n len in auto)
  moreover have "nat (int (skb_len skb) - int n - int ?per) = ?rem" "0 < int (skb_len skb) - int n - int ?per"
    using n len by auto
  ultimately show ?thesis
    using n len hdr(1) by (fastforce simp: r92su_tx_fragment_def Let_def)
qed

lemma frame_control_zero: "2 \<le> n \<Longrightarrow> frame_control (replicate n 0) = 0"
  by (simp add: frame_control_def le16_def)

theorem tx_fragments_lose_tail_witness:
  "\<exists>fs t. r92su_tx_fragment reg_env (demo_tx_skb (replicate 5000 0) tx_info_zero) (r92su_zero (\<lambda>x. 0)) = Some (TX_CONTINUE, fs, t) \<and>
     length (concat (map (\<lambda>f. drop 24 (skb_data f)) fs)) = 2652"
proof -
  let ?skb = "demo_tx_skb (replicate 5000 0) tx_info_zero"
  have k: "kernel reg_env = linux_kapi" by (simp add: reg_env_def)
  have d: "skb_data ?skb = replicate 5000 0" by (simp add: demo_tx_skb_def)
  have n: "24 = ieee80211_hdrlen (kernel reg_env) (frame_control (skb_data ?skb))"
    by (simp only: k d frame_control_zero) simp
  have "\<exists>fs t. r92su_tx_fragment reg_env ?skb (r92su_zero (\<lambda>x :: u16. 0 :: u8)) = Some (TX_CONTINUE, fs, t) \<and>
     concat (map (\<lambda>f. drop 24 (skb_data f)) fs) = take (skb_len ?skb - 24 - (2352 - 24 - 4)) (drop 24 (skb_data ?skb)) \<and>
     (\<forall>f \<in> set fs. skb_len f + 4 \<le> 2352)"
    by (rule tx_fragments_lose_tail [OF _ _ n]) (simp_all only: k hdr_ok_linux d length_replicate, simp_all add: reg_env_def)
  then show ?thesis by (simp only: d) (auto simp del: length_concat)
qed

section \<open>The room that the interface asks for\<close>

text \<open>
  What the driver relies on of \<open>ieee80211_data_from_8023\<close>: when it succeeds, it leaves a complete data
  header of at most 32 bytes (four addresses, frame control, duration, sequence and QoS control), with the
  QoS control field if it was asked for; in front of the frame it uses no more than that header and the
  eight bytes of LLC/SNAP, for which it removes the Ethernet header; and it takes no room behind the
  frame and keeps the control block.
\<close>

definition from_8023_ok :: "'w env \<Rightarrow> bool" where
  "from_8023_ok E \<longleftrightarrow> (\<forall>addr ift bssid qos skb skb'. data_from_8023 E addr ift bssid qos skb = (0, skb') \<longrightarrow>
     ieee80211_is_data (kernel E) (frame_control (skb_data skb')) \<and>
     (qos \<longrightarrow> ieee80211_is_data_qos (kernel E) (frame_control (skb_data skb'))) \<and>
     ieee80211_hdrlen (kernel E) (frame_control (skb_data skb')) \<le> 32 \<and>
     ieee80211_hdrlen (kernel E) (frame_control (skb_data skb')) \<le> skb_len skb' \<and>
     skb_headroom skb \<le> skb_headroom skb' + (32 + 8 - ETH_HLEN) \<and>
     skb_tailroom skb \<le> skb_tailroom skb' \<and> skb_cb skb' = skb_cb skb)"

text \<open>The flags that the driver sets in the frame control word change neither the kind nor the header.\<close>

definition fc_flags_ok :: "kapi \<Rightarrow> bool" where
  "fc_flags_ok K \<longleftrightarrow> (\<forall>fc. \<forall>fl \<in> {IEEE80211_FCTL_PROTECTED, IEEE80211_FCTL_MOREFRAGS}.
     ieee80211_is_data K (fc OR fl) = ieee80211_is_data K fc \<and> ieee80211_hdrlen K (fc OR fl) = ieee80211_hdrlen K fc)"

lemma fc_flags_ok_linux: "fc_flags_ok linux_kapi"
  by (simp add: fc_flags_ok_def bit.conj_disj_distrib2)

lemma TX_HANDLER_continueE:
  assumes "TX_HANDLER m f = Some (TX_CONTINUE, skb, t)"
  obtains skb' s' where "m = Some (TX_CONTINUE, skb', s')" "f skb' s' = Some (TX_CONTINUE, skb, t)"
  using assms by (auto simp: TX_HANDLER_def Option.bind_eq_Some_conv split: if_splits)

text \<open>A frame in front of the conversion: all the room of the interface, no key, a live station.\<close>

definition tx_roomy :: "tx_skb \<Rightarrow> 'w r92su \<Rightarrow> bool" where
  "tx_roomy skb s \<longleftrightarrow> R92SU_TX_HEAD_ROOM \<le> skb_headroom skb \<and> R92SU_TX_TAIL_ROOM \<le> skb_tailroom skb \<and>
     ti_key (skb_cb skb) = None \<and> (\<forall>p. ti_sta (skb_cb skb) = Some p \<longrightarrow> p \<in> dom (stas s))"

lemma prepare_roomy:
  "r92su_tx_prepare_tx_info E skb s = Some (TX_CONTINUE, skb', t) \<Longrightarrow> tx_roomy skb' t \<and> keys t = keys s"
  by (auto simp: r92su_tx_prepare_tx_info_def pskb_expand_head_def kmalloc_def tx_roomy_def tx_info_zero_def Let_def
      split: if_splits)

lemma find_sta_roomy:
  assumes run: "r92su_tx_find_sta b skb s = Some (TX_CONTINUE, skb', t)" and room: "tx_roomy skb s"
  shows "tx_roomy skb' t \<and> keys t = keys s"
proof -
  obtain bp found where f: "priv_of s b = Some bp"
    "(case found of
        Some p \<Rightarrow> do {
          sta \<leftarrow> stas s p;
          let ti = skb_cb skb;
          let ti = (if bp_sta bp = Some p then ti\<lparr>ti_ht_possible := sta_ht_sta sta\<rparr> else ti);
          Some (TX_CONTINUE, skb\<lparr>skb_cb := ti\<lparr>ti_sta := Some p\<rparr>\<rparr>, s) }
      | None \<Rightarrow> (case bp_sta bp of
          None \<Rightarrow> Some (TX_DROP, skb, s)
        | Some p \<Rightarrow> do {
            sta \<leftarrow> stas s p;
            Some (TX_CONTINUE, skb\<lparr>skb_cb := (skb_cb skb)\<lparr>ti_ht_possible := sta_ht_sta sta, ti_sta := Some p\<rparr>\<rparr>, s) })) =
     Some (TX_CONTINUE, skb', t)"
    using run unfolding r92su_tx_find_sta_def Option.bind_eq_Some_conv by blast
  show ?thesis
  proof (cases found)
    case None
    then show ?thesis using f(2) room
      by (cases "bp_sta bp") (auto simp: Option.bind_eq_Some_conv tx_roomy_def)
  next
    case (Some p)
    then show ?thesis using f(2) room by (auto simp: Option.bind_eq_Some_conv Let_def tx_roomy_def)
  qed
qed

lemma hint_roomy:
  "r92su_tx_rate_control_hint E skb s = Some (TX_CONTINUE, skb', t) \<Longrightarrow> tx_roomy skb s \<Longrightarrow> tx_roomy skb' t \<and> keys t = keys s"
  by (auto simp: r92su_tx_rate_control_hint_def tx_roomy_def Let_def Option.bind_eq_Some_conv split: if_splits)

lemma usb_tx_keeps: "run_state (r92su_usb_tx E d q) s = (r, t) \<Longrightarrow> stas t = stas s \<and> keys t = keys s"
  using tx_rel_fields(8,9) [OF changesD [OF tx_only_usb_tx]] by metis

lemma h2c_submit_keeps: "r92su_h2c_submit E skb cmd s = Some (r, t) \<Longrightarrow> stas t = stas s \<and> keys t = keys s"
  by (auto simp: r92su_h2c_submit_def r92su_h2c_fill_header_def Let_def Option.bind_eq_Some_conv
      dest!: usb_tx_keeps)

lemma start_ba_keeps: "r92su_h2c_start_ba E tid s = Some (err, t) \<Longrightarrow> stas t = stas s \<and> keys t = keys s"
  by (auto simp: r92su_h2c_start_ba_def r92su_h2c_copy_def r92su_h2c_alloc_def kmalloc_def Let_def
      Option.bind_eq_Some_conv split: if_splits dest!: h2c_submit_keeps)

lemma wr_mem_frame_control: "wr_mem d n x = Some d' \<Longrightarrow> 2 \<le> n \<Longrightarrow> frame_control d' = frame_control d \<and> length d' = length d"
  by (auto simp: wr_mem_def frame_control_def nth_append split: if_splits)

lemma add_80211_ready:
  assumes K: "hdr_ok (kernel E)" and conv: "from_8023_ok E"
    and run: "r92su_tx_add_80211 E b skb s = Some (TX_CONTINUE, skb', t)" and room: "tx_roomy skb s"
  shows "tx_ready E skb' t \<and> ti_key (skb_cb skb') = None \<and> keys t = keys s"
proof -
  obtain bp p sta where b: "priv_of s b = Some bp" "ti_sta (skb_cb skb) = Some p" "stas s p = Some sta"
    using run by (auto simp: r92su_tx_add_80211_def Option.bind_eq_Some_conv)
  let ?qos = "sta_qos_sta sta \<and> bp_control_port_ethertype bp \<noteq> skb_protocol skb"
  obtain err skb1 where c: "data_from_8023 E (dev_addr s) (iftype s) (bss_bssid (bp_fw_bss bp)) ?qos skb = (err, skb1)"
    by fastforce
  have "err = 0" using run b c by (auto simp: r92su_tx_add_80211_def split: if_splits)
  let ?fc = "frame_control (skb_data skb1)"
  from c \<open>err = 0\<close> conv have f: "ieee80211_is_data (kernel E) ?fc" "?qos \<longrightarrow> ieee80211_is_data_qos (kernel E) ?fc"
    "ieee80211_hdrlen (kernel E) ?fc \<le> 32" "ieee80211_hdrlen (kernel E) ?fc \<le> skb_len skb1"
    "skb_headroom skb \<le> skb_headroom skb1 + (32 + 8 - ETH_HLEN)" "skb_tailroom skb \<le> skb_tailroom skb1" "skb_cb skb1 = skb_cb skb"
    unfolding from_8023_ok_def by blast+
  have ready: "tx_ready E x u \<and> ti_key (skb_cb x) = None"
    if "frame_control (skb_data x) = ?fc" "skb_len x = skb_len skb1" "skb_head x = skb_head skb1" "skb_tailroom x = skb_tailroom skb1"
      "ti_sta (skb_cb x) = ti_sta (skb_cb skb)" "ti_key (skb_cb x) = None" "stas u = stas s" for x and u :: "'a r92su"
    using that f room by (simp add: tx_ready_def tx_roomy_def tx_ptrs_ok_def)
  show ?thesis
  proof (cases ?qos)
    case False
    then have "skb' = skb1" "t = s" using run b c \<open>err = 0\<close> by (auto simp: r92su_tx_add_80211_def)
    then show ?thesis using ready [of skb' t] f(7) room by (simp add: tx_roomy_def)
  next
    case True
    let ?off = "ieee80211_qos_ctl_off (kernel E) ?fc"
    have off: "24 \<le> ?off" using True f(2) K by (simp add: hdr_ok_def)
    obtain data where w: "wr_mem (skb_data skb1) ?off [of_nat (unat (skb_priority skb1 mod 8)), 0] = Some data"
      using run b c \<open>err = 0\<close> True by (auto simp: r92su_tx_add_80211_def Let_def Option.bind_eq_Some_conv)
    have d: "frame_control data = ?fc" "length data = skb_len skb1" using wr_mem_frame_control [OF w] off by simp_all
    have "skb_data skb' = data \<and> skb_head skb' = skb_head skb1 \<and> skb_tailroom skb' = skb_tailroom skb1 \<and>
        ti_sta (skb_cb skb') = ti_sta (skb_cb skb) \<and> ti_key (skb_cb skb') = ti_key (skb_cb skb) \<and>
        stas t = stas s \<and> keys t = keys s"
      using run b c \<open>err = 0\<close> True w f(7)
      by (auto simp: r92su_tx_add_80211_def Let_def Option.bind_eq_Some_conv dest!: start_ba_keeps split: if_splits)
    then show ?thesis using ready [of skb' t] d room by (simp add: tx_roomy_def)
  qed
qed

text \<open>The frame that a handler passes on, if it passes one on, is ready.\<close>

definition readies :: "'w env \<Rightarrow> 'w tx_result \<Rightarrow> bool" where
  "readies E r \<longleftrightarrow> (\<forall>skb s. r = Some (TX_CONTINUE, skb, s) \<longrightarrow> tx_ready E skb s)"

lemma readies_intros:
  "(\<And>y. m = Some y \<Longrightarrow> readies E (f y)) \<Longrightarrow> readies E (Option.bind m f)"
  "(P \<Longrightarrow> readies E a) \<Longrightarrow> (\<not> P \<Longrightarrow> readies E b) \<Longrightarrow> readies E (if P then a else b)"
  "(x = None \<Longrightarrow> readies E a) \<Longrightarrow> (\<And>y. x = Some y \<Longrightarrow> readies E (g y)) \<Longrightarrow>
     readies E (case x of None \<Rightarrow> a | Some y \<Rightarrow> g y)"
  "readies E (Some (TX_DROP, skb, s))"
  "tx_ready E skb s \<Longrightarrow> readies E (Some (TX_CONTINUE, skb, s))"
  by (cases m; simp) (auto simp: readies_def split: option.split)

lemma set_frame_control_len: "length (set_frame_control d w) = length d"
  by (simp add: set_frame_control_def)

lemma select_key_ready:
  assumes K: "hdr_ok (kernel E)" "fc_flags_ok (kernel E)" and keys: "\<And>k key. keys s k = Some key \<Longrightarrow> key_ok key"
    and run: "r92su_tx_select_key E b skb s = Some (TX_CONTINUE, skb', t)" and ready: "tx_ready E skb s"
  shows "tx_ready E skb' t"
proof -
  have len: "2 \<le> skb_len skb" using ready K(1) by (fastforce simp: tx_ready_def hdr_ok_def)
  have "tx_ready E (skb\<lparr>skb_data := set_frame_control (skb_data skb) (frame_control (skb_data skb) OR IEEE80211_FCTL_PROTECTED),
      skb_cb := (skb_cb skb)\<lparr>ti_key := Some k, ti_needs_encrypt := n\<rparr>\<rparr>) s" if "keys s k = Some key" for k key n
    using ready len keys [OF that] K(2) that
    by (simp add: tx_ready_def tx_ptrs_ok_def fc_flags_ok_def set_frame_control_len)
  note protect = this
  have "readies E (r92su_tx_select_key E b skb s)"
    unfolding r92su_tx_select_key_def Let_def
    by (intro readies_intros ready) (rule protect, assumption)
  then show ?thesis using run by (simp add: readies_def)
qed

lemma tx_prep_ready:
  assumes K: "hdr_ok (kernel E)" "fc_flags_ok (kernel E)" and conv: "from_8023_ok E"
    and keys: "\<And>k key. keys s k = Some key \<Longrightarrow> key_ok key"
    and run: "tx_prep E False skb s = Some (TX_CONTINUE, skb', t)"
  shows "tx_ready E skb' t"
proof -
  obtain skb1 s1 where 1: "r92su_tx_prepare_tx_info E skb s = Some (TX_CONTINUE, skb1, s1)"
    and r1: "(if connect_bss s1 = None then Some (TX_DROP, skb1, s1)
       else TX_HANDLER (r92su_tx_find_sta (connect_bss s1) skb1 s1) (\<lambda>skb s.
         TX_HANDLER (r92su_tx_rate_control_hint E skb s) (\<lambda>skb s.
         TX_HANDLER (r92su_tx_add_80211 E (connect_bss s1) skb s) (r92su_tx_select_key E (connect_bss s1))))) =
      Some (TX_CONTINUE, skb', t)"
    using TX_HANDLER_continueE [OF run [unfolded tx_prep_def if_False Let_def]] .
  let ?b = "connect_bss s1"
  have r1: "TX_HANDLER (r92su_tx_find_sta ?b skb1 s1) (\<lambda>skb s.
         TX_HANDLER (r92su_tx_rate_control_hint E skb s) (\<lambda>skb s.
         TX_HANDLER (r92su_tx_add_80211 E ?b skb s) (r92su_tx_select_key E ?b))) = Some (TX_CONTINUE, skb', t)"
    using r1 by (simp split: if_splits)
  obtain skb2 s2 where 2: "r92su_tx_find_sta ?b skb1 s1 = Some (TX_CONTINUE, skb2, s2)"
    and r2: "TX_HANDLER (r92su_tx_rate_control_hint E skb2 s2) (\<lambda>skb s.
         TX_HANDLER (r92su_tx_add_80211 E ?b skb s) (r92su_tx_select_key E ?b)) = Some (TX_CONTINUE, skb', t)"
    using TX_HANDLER_continueE [OF r1] .
  obtain skb3 s3 where 3: "r92su_tx_rate_control_hint E skb2 s2 = Some (TX_CONTINUE, skb3, s3)"
    and r3: "TX_HANDLER (r92su_tx_add_80211 E ?b skb3 s3) (r92su_tx_select_key E ?b) = Some (TX_CONTINUE, skb', t)"
    using TX_HANDLER_continueE [OF r2] .
  obtain skb4 s4 where 4: "r92su_tx_add_80211 E ?b skb3 s3 = Some (TX_CONTINUE, skb4, s4)"
    and r4: "r92su_tx_select_key E ?b skb4 s4 = Some (TX_CONTINUE, skb', t)"
    using TX_HANDLER_continueE [OF r3] .
  have room: "tx_roomy skb3 s3" "keys s3 = keys s"
    using prepare_roomy [OF 1] find_sta_roomy [OF 2] hint_roomy [OF 3] by simp_all
  have "tx_ready E skb4 s4" "keys s4 = keys s" using add_80211_ready [OF K(1) conv 4 room(1)] room(2) by simp_all
  then show ?thesis using select_key_ready [OF K _ r4] keys by simp
qed

text \<open>A fragment has the room of its new buffer, and the header and the pointers of its frame.\<close>

lemma tx_frag_ready:
  assumes K: "hdr_ok (kernel E)" "fc_flags_ok (kernel E)" and ready: "tx_ready E skb s"
    and n: "n = ieee80211_hdrlen (kernel E) (frame_control (skb_data skb))" "n + len \<le> IEEE80211_MAX_FRAG_THRESHOLD"
    and run: "tx_frag E n pos len more_frags num skb = Some f" and same: "stas t = stas s" "keys t = keys s"
  shows "tx_ready E f t"
proof -
  have n24: "24 \<le> n" "n \<le> 32" using ready K(1) n(1) by (auto simp: tx_ready_def hdr_ok_def)
  obtain hdr body where m: "rd_mem (skb_data skb) 0 n = Some hdr" "rd_mem (skb_data skb) pos len = Some body"
    using run by (auto simp: tx_frag_def Option.bind_eq_Some_conv)
  then have l: "length hdr = n" "length body = len" "frame_control hdr = frame_control (skb_data skb)"
    using n24(1) by (auto simp: rd_mem_def frame_control_def split: if_splits)
  let ?d = "hdr @ body"
  let ?e = "if more_frags then set_frame_control ?d (frame_control ?d OR IEEE80211_FCTL_MOREFRAGS) else ?d"
  let ?g = "set_seq_ctrl ?e (seq_ctrl ?e OR (num AND IEEE80211_SCTL_FRAG))"
  have seq: "frame_control (set_seq_ctrl d w) = frame_control d" "length (set_seq_ctrl d w) = length d" for d w
    by (simp_all add: set_seq_ctrl_def frame_control_def)
  have "frame_control ?d = frame_control (skb_data skb)" using l n24(1) by (simp add: frame_control_app)
  then have fc: "ieee80211_is_data (kernel E) (frame_control ?g)" "ieee80211_hdrlen (kernel E) (frame_control ?g) = n"
      "length ?g = n + len"
    using ready K(2) n(1) n24(1) l by (auto simp: seq tx_ready_def fc_flags_ok_def set_frame_control_len)
  have "skb_data f = ?g \<and> skb_headroom f = TX_DESC_SIZE + 4 + 8 \<and> R92SU_TX_TAIL_ROOM \<le> skb_tailroom f \<and> skb_cb f = skb_cb skb"
    using run m l n(2)
    by (simp add: tx_frag_def skb_new_def skb_put_data_def Let_def Option.bind_eq_Some_conv split: if_splits) auto
  then show ?thesis
    using fc n24(2) ready same by (simp add: tx_ready_def tx_ptrs_ok_def)
qed

lemma tx_fragments_ready:
  assumes K: "hdr_ok (kernel E)" "fc_flags_ok (kernel E)" and ready: "tx_ready E skb s0"
    and n: "n = ieee80211_hdrlen (kernel E) (frame_control (skb_data skb))" "n + per \<le> IEEE80211_MAX_FRAG_THRESHOLD"
  shows "tx_fragments E n per skb pos rem num q s = Some (c, q', t) \<Longrightarrow> stas s = stas s0 \<and> keys s = keys s0 \<Longrightarrow>
     (\<forall>f \<in> set q. tx_ready E f s0) \<Longrightarrow> (\<forall>f \<in> set q'. tx_ready E f s0) \<and> stas t = stas s0 \<and> keys t = keys s0"
proof (induction rem arbitrary: pos num q s rule: less_induct)
  case (less rem)
  show ?case
  proof (cases "rem = 0 \<or> per = 0 \<or> \<not> alloc_ok E (allocs s)")
    case True
    then show ?thesis using less.prems by (subst (asm) tx_fragments.simps) (auto simp: kmalloc_def Let_def split: if_splits)
  next
    case False
    let ?l = "min per rem" and ?s = "s\<lparr>allocs := allocs s + 1\<rparr>"
    obtain f where f: "tx_frag E n pos ?l (rem - ?l \<noteq> 0) num skb = Some f"
      and r: "tx_fragments E n per skb (pos + ?l) (rem - ?l) (num + 1) (q @ [f]) ?s = Some (c, q', t)"
      using less.prems(1) False by (subst (asm) tx_fragments.simps) (auto simp: kmalloc_def Let_def split: option.splits)
    have "tx_ready E f s0" by (rule tx_frag_ready [OF K ready n(1) _ f refl refl]) (use n(2) in simp)
    then show ?thesis using less.IH [OF _ r] less.prems(2,3) False by auto
  qed
qed

lemma fragment_ready:
  assumes K: "hdr_ok (kernel E)" "fc_flags_ok (kernel E)" and ready: "tx_ready E skb s"
    and run: "r92su_tx_fragment E skb s = Some (TX_CONTINUE, q, t)"
  shows "\<forall>f \<in> set q. tx_ready E f t"
proof (cases "skb_len skb + FCS_LEN < IEEE80211_MAX_FRAG_THRESHOLD")
  case True
  then show ?thesis using run ready by (auto simp: r92su_tx_fragment_def)
next
  case False
  let ?n = "ieee80211_hdrlen (kernel E) (frame_control (skb_data skb))"
  let ?per = "IEEE80211_MAX_FRAG_THRESHOLD - ?n - FCS_LEN"
  obtain c u where f: "tx_fragments E ?n ?per skb ?n (nat (int (skb_len skb) - int ?n - int ?per)) 0 [] s = Some (c, q, u)"
    and t: "t = (if c = TX_CONTINUE then dev_kfree_skb_any skb u else u)"
    using run False by (auto simp: r92su_tx_fragment_def Let_def Option.bind_eq_Some_conv split: if_splits)
  have "?n + ?per \<le> IEEE80211_MAX_FRAG_THRESHOLD" using ready by (simp add: tx_ready_def)
  from tx_fragments_ready [OF K ready refl this f] have "\<forall>f \<in> set q. tx_ready E f s" "stas t = stas s" "keys t = keys s"
    by (auto simp: t dev_kfree_skb_any_def emit_def)
  then show ?thesis by (auto simp: tx_ready_def tx_ptrs_ok_def)
qed

text \<open>C35. The room that the interface asks for is enough, whatever room a frame of the network stack has
  on arrival. Once such a frame has passed the preparation (which expands it by R92SU_TX_HEAD_ROOM
  and R92SU_TX_TAIL_ROOM) and the fragmentation (which allocates by them), every frame of the queue gets its
  initialisation vector, its code, its check value and its descriptor for every kind of key, in software
  or in hardware, without a push, put or access outside its buffer or through a dangling pointer; none
  is dropped, and each goes to a queue of the device. Assumed are valid keys, and of the kernel what the
  conversion to an 802.11 header leaves (from_8023_ok: it spends 26 of the 70 bytes) and what
  the header accessors and the cipher do.\<close>

theorem tx_room_suffices:
  assumes K: "hdr_ok (kernel E)" "da_ok (kernel E)" "fc_flags_ok (kernel E)" and conv: "from_8023_ok E" and C: "ccm_ok C"
    and keys: "\<And>k key. keys s k = Some key \<Longrightarrow> key_ok key"
    and prep: "tx_prep E False skb s = Some (TX_CONTINUE, skb1, s1)"
    and frag: "r92su_tx_fragment E skb1 s1 = Some (TX_CONTINUE, q, s2)"
  shows "\<exists>out t. tx_frames_out E C q [] s2 = Some (out, t) \<and> length out = length q \<and> tx_send E out t \<noteq> None"
proof -
  have "tx_ready E skb1 s1" by (rule tx_prep_ready [OF K(1,3) conv _ prep]) (rule keys)
  then have "\<forall>f \<in> set q. tx_ready E f s2" using fragment_ready [OF K(1,3) _ frag] by blast
  from tx_frames_out_total [OF K(1,2) C this, of "[]"] show ?thesis
    using tx_send_total by fastforce
qed

theorem tx_descriptor_witness:
  "\<exists>skb' h. r92su_tx_fill_desc reg_env (demo_tx\<lparr>skb_cb := tx_info_zero\<lparr>ti_sta := Some 0\<rparr>\<rparr>) demo_sta = Some (TX_CONTINUE, skb', demo_sta) \<and>
     unat (SHIFT_AND_MASK_LE h 0 0 16) = 29 \<and> skb_data skb' = h @ demo_hdr @ [1, 2, 3]"
proof -
  have k: "kernel reg_env = linux_kapi" by (simp add: reg_env_def)
  obtain sta where sta: "stas demo_sta 0 = Some sta" using demo_sta(2) by auto
  show ?thesis
    using tx_descriptor [of reg_env "demo_tx\<lparr>skb_cb := tx_info_zero\<lparr>ti_sta := Some 0\<rparr>\<rparr>" 0 demo_sta sta]
    by (auto simp: k da_ok_linux demo_tx(1,3) sta tx_info_zero_def demo_frame_fc demo_hdr_len)
qed

definition demo_net :: "(u16 \<Rightarrow> u8) r92su" where
  "demo_net = (r92su_zero (\<lambda>x. 0))\<lparr>keys := [0 \<mapsto> demo_ccmp 0 5],
     stas := [0 \<mapsto> (sta_new [7, 7, 7, 7, 7, 7] 5 5 0)\<lparr>sta_enc_sta := True, sta_key := Some 0\<rparr>],
     bsss := [0 \<mapsto> \<lparr>cb_bssid = [], cb_capability = 0, cb_beacon_interval = 0, cb_signal = 0,
                   cb_priv = bss_priv_zero\<lparr>bp_sta := Some 0, bp_control_port_ethertype := 1\<rparr>\<rparr>]\<rparr>"

lemma demo_net_select: "\<exists>skb' t. r92su_tx_select_key reg_env (Some 0) demo_tx demo_net = Some (TX_CONTINUE, skb', t)"
proof -
  have k: "kernel reg_env = linux_kapi" by (simp add: reg_env_def)
  have da: "ieee80211_get_DA linux_kapi (demo_hdr @ [1, 2, 3]) = Some [13, 14, 15, 16, 17, 18]"
    by (simp add: ieee80211_get_DA_def demo_frame_fc rd_mem_def) (simp add: demo_hdr_def)
  show ?thesis
    by (simp add: r92su_tx_select_key_def k da demo_tx(1) demo_frame_fc Let_def demo_net_def priv_of_def bss_priv_zero_def
        is_multicast_ether_addr_def)
qed

text \<open>
  An environment whose conversion spends the head room that a header of 24 or 26 bytes with LLC/SNAP
  needs, and a frame of the network stack that arrives without any room.
\<close>

definition eth_env :: "(u16 \<Rightarrow> u8) env" where
  "eth_env = reg_env\<lparr>data_from_8023 := (\<lambda>a t b q skb.
     if skb_len skb < 14 \<or> skb_headroom skb < 20 then (- EINVAL, skb)
     else (0, skb\<lparr>skb_head := take (skb_headroom skb - (if q then 20 else 18)) (skb_head skb),
       skb_data := [if q then 0x88 else 0x08, 0x01, 0, 0] @ take 6 (b @ replicate 6 0) @ take 6 (a @ replicate 6 0) @
         take 6 (skb_data skb) @ [0, 0] @ (if q then [0, 0] else []) @ [0xAA, 0xAA, 3, 0, 0, 0] @ drop 12 (skb_data skb)\<rparr>))\<rparr>"

definition demo_eth :: tx_skb where
  "demo_eth = \<lparr>skb_head = [], skb_data = [2, 0, 0, 0, 0, 1, 2, 0, 0, 0, 0, 2, 0x12, 0x34, 1, 2, 3], skb_tailroom = 0,
     skb_protocol = 0x3412, skb_priority = 0, skb_queue_mapping = 0, skb_cb = tx_info_zero\<rparr>"

lemma eth_env_ok: "hdr_ok (kernel eth_env)" "da_ok (kernel eth_env)" "fc_flags_ok (kernel eth_env)" "from_8023_ok eth_env"
proof -
  have k: "kernel eth_env = linux_kapi" by (simp add: eth_env_def reg_env_def)
  show "hdr_ok (kernel eth_env)" "da_ok (kernel eth_env)" "fc_flags_ok (kernel eth_env)"
    by (simp_all only: k hdr_ok_linux da_ok_linux fc_flags_ok_linux)
  have fc: "frame_control (x # 1 # xs) = (if q then 0x188 else 0x108)" if "x = (if q then 0x88 else 0x08)" for x xs q
    using that by (simp add: frame_control_def le16_def)
  show "from_8023_ok eth_env"
    unfolding from_8023_ok_def k by (auto simp: eth_env_def fc split: if_splits)
qed

lemma demo_eth_prep: "\<exists>skb t. tx_prep eth_env False demo_eth (demo_net\<lparr>connect_bss := Some 0\<rparr>) = Some (TX_CONTINUE, skb, t) \<and> skb_len skb < 100"
  by (simp add: tx_prep_def r92su_tx_prepare_tx_info_def pskb_expand_head_def kmalloc_def eth_env_def reg_env_def
      demo_net_def r92su_zero_def r92su_tx_find_sta_def priv_of_def demo_eth_def rd_mem_def r92su_sta_get_def
      bss_priv_zero_def r92su_tx_rate_control_hint_def swab16_def r92su_tx_add_80211_def sta_new_def
      r92su_tx_select_key_def frame_control_def le16_def ieee80211_get_DA_def Let_def)

theorem tx_room_suffices_witness:
  "\<exists>skb1 s1 q s2 out t. tx_prep eth_env False demo_eth (demo_net\<lparr>connect_bss := Some 0\<rparr>) = Some (TX_CONTINUE, skb1, s1) \<and>
     r92su_tx_fragment eth_env skb1 s1 = Some (TX_CONTINUE, q, s2) \<and>
     tx_frames_out eth_env toy_crypto q [] s2 = Some (out, t) \<and> length out = 1"
proof -
  obtain skb1 s1 where p: "tx_prep eth_env False demo_eth (demo_net\<lparr>connect_bss := Some 0\<rparr>) = Some (TX_CONTINUE, skb1, s1)"
    "skb_len skb1 < 100" using demo_eth_prep by blast
  have f: "r92su_tx_fragment eth_env skb1 s1 = Some (TX_CONTINUE, [skb1], s1)"
    using p(2) by (simp add: r92su_tx_fragment_def)
  have "key_ok key" if "keys (demo_net\<lparr>connect_bss := Some 0\<rparr>) k = Some key" for k key
    using that by (auto simp: demo_net_def demo_ccmp split: if_splits)
  from tx_room_suffices [OF eth_env_ok ccm_ok_toy this p(1) f] p(1) f show ?thesis by fastforce
qed

theorem tx_not_in_clear_witness:
  "\<exists>skb' t k. r92su_tx_select_key reg_env (Some 0) demo_tx demo_net = Some (TX_CONTINUE, skb', t) \<and>
     ti_key (skb_cb skb') = Some k \<and> bit (frame_control (skb_data skb')) 14"
proof -
  obtain skb' t where r: "r92su_tx_select_key reg_env (Some 0) demo_tx demo_net = Some (TX_CONTINUE, skb', t)"
    using demo_net_select by blast
  have k: "kernel reg_env = linux_kapi" by (simp add: reg_env_def)
  show ?thesis
    using tx_not_in_clear [OF r, of "bss_priv_zero\<lparr>bp_sta := Some 0, bp_control_port_ethertype := 1\<rparr>" 0] r
    by (auto simp: k demo_tx(1) demo_frame_fc demo_hdr_len demo_net_def priv_of_def demo_tx_def demo_tx_skb_def)
qed

end
