(* ===== verification/R92_Ies.thy ===== *)
theory R92_Ies
  imports R92_Tx
begin

text \<open>
  The tables of the band and the information elements (\<open>main.c\<close>): the elements that the
  driver adds to a connect request, those of a new ad-hoc network, and the description of a network
  that is built from them. A buffer under construction is the bytes written so far and the room
  left, as the pair \<open>ie\<close>, \<open>ie_len_left\<close> of the code.
\<close>

section \<open>The band\<close>

text \<open>Number and centre frequency of the channels; the rates are \<open>r92su_ratetable\<close>.\<close>

definition r92su_channeltable :: "(u8 \<times> u16) list" where
  "r92su_channeltable = [(1, 2412), (2, 2417), (3, 2422), (4, 2427), (5, 2432), (6, 2437), (7, 2442), (8, 2447),
     (9, 2452), (10, 2457), (11, 2462), (12, 2467), (13, 2472), (14, 2484)]"

abbreviation (input) IEEE80211_HT_CAP_SUP_WIDTH_20_40 :: u16 where "IEEE80211_HT_CAP_SUP_WIDTH_20_40 \<equiv> 0x0002"
abbreviation (input) IEEE80211_HT_CAP_SM_PS :: u16 where "IEEE80211_HT_CAP_SM_PS \<equiv> 0x000C"
abbreviation (input) IEEE80211_HT_CAP_SGI_20 :: u16 where "IEEE80211_HT_CAP_SGI_20 \<equiv> 0x0020"
abbreviation (input) IEEE80211_HT_CAP_SGI_40 :: u16 where "IEEE80211_HT_CAP_SGI_40 \<equiv> 0x0040"
abbreviation (input) IEEE80211_HT_CAP_TX_STBC :: u16 where "IEEE80211_HT_CAP_TX_STBC \<equiv> 0x0080"
abbreviation (input) IEEE80211_HT_CAP_RX_STBC_SHIFT :: nat where "IEEE80211_HT_CAP_RX_STBC_SHIFT \<equiv> 8"
abbreviation (input) IEEE80211_HT_CAP_MAX_AMSDU :: u16 where "IEEE80211_HT_CAP_MAX_AMSDU \<equiv> 0x0800"
abbreviation (input) IEEE80211_HT_CAP_DSSSCCK40 :: u16 where "IEEE80211_HT_CAP_DSSSCCK40 \<equiv> 0x1000"
abbreviation (input) IEEE80211_HT_MAX_AMPDU_32K :: u8 where "IEEE80211_HT_MAX_AMPDU_32K \<equiv> 2"
abbreviation (input) IEEE80211_HT_MPDU_DENSITY_16 :: u8 where "IEEE80211_HT_MPDU_DENSITY_16 \<equiv> 7"
abbreviation (input) IEEE80211_HT_MCS_TX_DEFINED :: u8 where "IEEE80211_HT_MCS_TX_DEFINED \<equiv> 1"
abbreviation (input) IEEE80211_HT_AMPDU_PARM_FACTOR :: u8 where "IEEE80211_HT_AMPDU_PARM_FACTOR \<equiv> 3"
abbreviation (input) IEEE80211_HT_AMPDU_PARM_DENSITY :: u8 where "IEEE80211_HT_AMPDU_PARM_DENSITY \<equiv> 0x1C"
abbreviation (input) IEEE80211_HT_AMPDU_PARM_DENSITY_SHIFT :: nat where "IEEE80211_HT_AMPDU_PARM_DENSITY_SHIFT \<equiv> 2"

definition r92su_ht_info :: ieee80211_sta_ht_cap where
  "r92su_ht_info = \<lparr>ht_supported = True,
     ht_cap = IEEE80211_HT_CAP_SUP_WIDTH_20_40 OR IEEE80211_HT_CAP_DSSSCCK40 OR IEEE80211_HT_CAP_SM_PS OR
       IEEE80211_HT_CAP_MAX_AMSDU OR BIT IEEE80211_HT_CAP_RX_STBC_SHIFT OR IEEE80211_HT_CAP_TX_STBC OR
       IEEE80211_HT_CAP_SGI_40 OR IEEE80211_HT_CAP_SGI_20,
     ht_ampdu_factor = IEEE80211_HT_MAX_AMPDU_32K, ht_ampdu_density = IEEE80211_HT_MPDU_DENSITY_16,
     ht_rx_mask = [0xff, 0, 0, 0, 1, 0, 0, 0, 0, 0], ht_rx_highest = 150, ht_tx_params = IEEE80211_HT_MCS_TX_DEFINED\<rparr>"

definition r92su_init_band :: "'w env \<Rightarrow> 'w r92su \<Rightarrow> int \<times> 'w r92su" where
  "r92su_init_band E s =
     (case kmalloc E s of (ok, s) \<Rightarrow>
      if \<not> ok then (- ENOMEM, s)
      else case kmalloc E s of (ok, s) \<Rightarrow>
      if \<not> ok then (- ENOMEM, s)
      else
        let cap = r92su_ht_info\<lparr>ht_supported := \<not> disable_ht s\<rparr>;
            cap = (if rf_type s = R92SU_1T1R then cap
                   else cap\<lparr>ht_rx_mask := (ht_rx_mask cap)[1 := 0xff], ht_rx_highest := 300\<rparr>)
        in (0, s\<lparr>n_channels := length r92su_channeltable, n_bitrates := length r92su_ratetable, band_ht_cap := cap\<rparr>))"

section \<open>Adding elements\<close>

abbreviation (input) WLAN_EID_SSID :: u8 where "WLAN_EID_SSID \<equiv> 0"
abbreviation (input) WLAN_EID_SUPP_RATES :: u8 where "WLAN_EID_SUPP_RATES \<equiv> 1"
abbreviation (input) WLAN_EID_DS_PARAMS :: u8 where "WLAN_EID_DS_PARAMS \<equiv> 3"
abbreviation (input) WLAN_EID_TIM :: u8 where "WLAN_EID_TIM \<equiv> 5"
abbreviation (input) WLAN_EID_IBSS_PARAMS :: u8 where "WLAN_EID_IBSS_PARAMS \<equiv> 6"
abbreviation (input) WLAN_EID_HT_CAPABILITY :: u8 where "WLAN_EID_HT_CAPABILITY \<equiv> 45"
abbreviation (input) WLAN_EID_EXT_SUPP_RATES :: u8 where "WLAN_EID_EXT_SUPP_RATES \<equiv> 50"
abbreviation (input) WLAN_EID_VENDOR_SPECIFIC :: u8 where "WLAN_EID_VENDOR_SPECIFIC \<equiv> 221"

type_synonym ie_buf = "bytes \<times> nat"

definition r92su_add_ies :: "ie_buf \<Rightarrow> bytes \<Rightarrow> bool \<times> ie_buf" where
  "r92su_add_ies b add_ies = (case b of (ie, left) \<Rightarrow>
     if left < length add_ies then (False, b) else (True, (ie @ add_ies, left - length add_ies)))"

definition r92su_add_ie :: "u8 \<Rightarrow> ie_buf \<Rightarrow> bytes \<Rightarrow> bool \<times> ie_buf" where
  "r92su_add_ie ied b add_ie = (case b of (ie, left) \<Rightarrow>
     if left < length add_ie + 2 then (False, b)
     else (True, (ie @ [ied, of_nat (length add_ie)] @ add_ie, left - (length add_ie + 2))))"

text \<open>The bytes of \<open>struct ieee80211_ht_cap\<close>.\<close>

definition ht_cap_bytes :: "ieee80211_sta_ht_cap \<Rightarrow> bytes" where
  "ht_cap_bytes me = put_le16 (ht_cap me) @
     [(push_bit IEEE80211_HT_AMPDU_PARM_DENSITY_SHIFT (ht_ampdu_density me) AND IEEE80211_HT_AMPDU_PARM_DENSITY) OR
      (ht_ampdu_factor me AND IEEE80211_HT_AMPDU_PARM_FACTOR)] @
     ht_rx_mask me @ put_le16 (ht_rx_highest me) @ [ht_tx_params me, 0, 0, 0] @ replicate 7 0"

definition r92su_ht_update :: "'w r92su \<Rightarrow> ie_buf \<Rightarrow> bool \<times> ie_buf" where
  "r92su_ht_update s b = (if disable_ht s then (True, b)
     else r92su_add_ie WLAN_EID_HT_CAPABILITY b (ht_cap_bytes (band_ht_cap s)))"

definition r92su_wmm_update :: "ie_buf \<Rightarrow> bool \<times> ie_buf" where
  "r92su_wmm_update b = r92su_add_ie WLAN_EID_VENDOR_SPECIFIC b [0x00, 0x50, 0xf2, 0x02, 0x00, 0x01, 0x00]"

section \<open>Looking for elements\<close>

definition r92su_parse_ht_cap_ie :: "bytes \<Rightarrow> nat \<Rightarrow> bool option" where
  "r92su_parse_ht_cap_ie ies len = do {
     ie \<leftarrow> r92su_find_ie ies len WLAN_EID_HT_CAPABILITY;
     (case ie of None \<Rightarrow> Some False
      | Some p \<Rightarrow> map_option (\<lambda>n. n = 26) (rd8 ies (p + 1))) }"

text \<open>The structure is laid over the whole element, its header included.\<close>

definition r92su_get_dtim_period :: "bytes \<Rightarrow> nat \<Rightarrow> u32 option" where
  "r92su_get_dtim_period ies len = do {
     ie \<leftarrow> r92su_find_ie ies len WLAN_EID_TIM;
     (case ie of None \<Rightarrow> Some 1
      | Some p \<Rightarrow> map_option ucast (rd8 ies (p + 1))) }"

text \<open>The search goes on behind a foreign element, but with the length of the whole list.\<close>

function find_wmm_from :: "bytes \<Rightarrow> nat \<Rightarrow> nat \<Rightarrow> nat option option" where
  "find_wmm_from ies len pos =
     (if len \<le> pos then Some None
      else case r92su_find_ie (drop pos ies) len WLAN_EID_VENDOR_SPECIFIC of
        None \<Rightarrow> None
      | Some None \<Rightarrow> Some None
      | Some (Some k) \<Rightarrow>
          (case rd8 ies (pos + k + 1) of
             None \<Rightarrow> None
           | Some elen \<Rightarrow>
               case (if elen < 7 then Some False
                     else map_option (\<lambda>d. take 4 d = [0x00, 0x50, 0xf2, 0x02] \<and> d ! 5 = 1) (rd_mem ies (pos + k + 2) 6)) of
                 None \<Rightarrow> None
               | Some True \<Rightarrow> Some (Some (pos + k))
               | Some False \<Rightarrow> find_wmm_from ies len (pos + k + 2 + unat elen)))"
  by pat_completeness auto
termination by (relation "measure (\<lambda>(ies, len, pos). len - pos)") auto

declare find_wmm_from.simps [simp del]

definition r92su_find_wmm_ie :: "bytes \<Rightarrow> nat \<Rightarrow> nat option option" where
  "r92su_find_wmm_ie ies len = find_wmm_from ies len 0"

definition r92su_parse_wmm_cap_ie :: "bytes \<Rightarrow> nat \<Rightarrow> bool option" where
  "r92su_parse_wmm_cap_ie ies len = map_option (\<lambda>p. p \<noteq> None) (r92su_find_wmm_ie ies len)"

section \<open>A new ad-hoc network\<close>

text \<open>\<open>ib_chan\<close> is what \<open>ieee80211_frequency_to_channel\<close> gives for the frequency.\<close>

record cfg80211_ibss_params =
  ib_ssid :: bytes
  ib_bssid :: "bytes option"
  ib_chan_idx :: nat
  ib_chan :: u8
  ib_ie :: bytes
  ib_beacon_interval :: u16
  ib_basic_rates :: u32
  ib_privacy :: bool

definition supp_rates :: "'w r92su \<Rightarrow> u32 \<Rightarrow> bytes" where
  "supp_rates s basic = map (\<lambda>i. ucast (r92su_ratetable ! i div 5) OR (if bit basic i then 0x80 else 0)) [0..<min (n_bitrates s) 16]"

definition ie_step :: "int \<Rightarrow> bool \<times> ie_buf \<Rightarrow> (ie_buf \<Rightarrow> int \<times> ie_buf) \<Rightarrow> int \<times> ie_buf" where
  "ie_step err r f = (case r of (ok, b) \<Rightarrow> if ok then f b else (err, b))"

definition r92su_ibss_build_ie :: "'w r92su \<Rightarrow> ie_buf \<Rightarrow> cfg80211_ibss_params \<Rightarrow> int \<times> ie_buf" where
  "r92su_ibss_build_ie s b params =
     (let rates = supp_rates s (ib_basic_rates params) in
      ie_step (- EINVAL) (r92su_add_ie WLAN_EID_SSID b (ib_ssid params)) (\<lambda>b.
      ie_step (- EINVAL) (r92su_add_ie WLAN_EID_SUPP_RATES b (take 8 rates)) (\<lambda>b.
      ie_step (- EINVAL) (r92su_add_ie WLAN_EID_DS_PARAMS b [ib_chan params]) (\<lambda>b.
      ie_step (- EINVAL) (r92su_add_ie WLAN_EID_IBSS_PARAMS b [0, 0]) (\<lambda>b.
      ie_step (- EINVAL) (if 8 < length rates then r92su_add_ie WLAN_EID_EXT_SUPP_RATES b (drop 8 rates) else (True, b)) (\<lambda>b.
      ie_step (- EINVAL) (r92su_ht_update s b) (\<lambda>b.
      ie_step (- ENOSPC) (r92su_add_ies b (ib_ie params)) (\<lambda>b. (0, b)))))))))"

abbreviation (input) WLAN_CAPABILITY_ESS :: nat where "WLAN_CAPABILITY_ESS \<equiv> 0"
abbreviation (input) WLAN_CAPABILITY_IBSS :: nat where "WLAN_CAPABILITY_IBSS \<equiv> 1"
abbreviation (input) WLAN_CAPABILITY_PRIVACY :: nat where "WLAN_CAPABILITY_PRIVACY \<equiv> 4"

text \<open>The description of the network for the firmware, from its elements; on an error the fields
  set so far stay. The capabilities are tested by bit number.\<close>

definition fw_bss_head :: "cfg80211_bss \<Rightarrow> h2cc2h_bss \<Rightarrow> h2cc2h_bss" where
  "fw_bss_head bss f = f\<lparr>bss_length := of_nat SIZEOF_BSS, bss_bssid := cb_bssid bss,
     bss_privacy := (if bit (cb_capability bss) WLAN_CAPABILITY_PRIVACY then 1 else 0)\<rparr>"

definition fw_bss_mode :: "cfg80211_bss \<Rightarrow> h2c_network_infrastruct_mode" where
  "fw_bss_mode bss = (if bit (cb_capability bss) WLAN_CAPABILITY_IBSS then MODE_IBSS
     else if bit (cb_capability bss) WLAN_CAPABILITY_ESS then MODE_BSS else MODE_AUTO)"

definition element :: "bytes \<Rightarrow> nat \<Rightarrow> u8 \<Rightarrow> bytes option option" where
  "element ies len ie = do {
     p \<leftarrow> r92su_find_ie ies len ie;
     (case p of None \<Rightarrow> Some None
      | Some p \<Rightarrow> do { n \<leftarrow> rd8 ies (p + 1); d \<leftarrow> rd_mem ies (p + 2) (unat n); Some (Some d) }) }"

definition r92su_bss_build_fw_bss :: "cfg80211_bss \<Rightarrow> bytes \<Rightarrow> nat \<Rightarrow> (int \<times> h2cc2h_bss) option" where
  "r92su_bss_build_fw_bss bss ies len = do {
     let f = fw_bss_head bss (bp_fw_bss (cb_priv bss));
     ssid \<leftarrow> element ies len WLAN_EID_SSID;
     (case ssid of None \<Rightarrow> Some (- EINVAL, f) | Some ssid \<Rightarrow>
      if ssid = [] then Some (- EINVAL, f) else do {
        buf \<leftarrow> wr_mem (ss_ssid (bss_ssid f)) 0 (take 32 ssid);
        let f = f\<lparr>bss_ssid := \<lparr>ss_length = of_nat (length ssid), ss_ssid = buf\<rparr>,
                   bss_type := network_type_nr TYPE_11OFDM2GHZ, bss_mode := network_mode_nr (fw_bss_mode bss),
                   bss_config := (bss_config f)\<lparr>nc_length := 32, nc_beacon_period := ucast (cb_beacon_interval bss)\<rparr>\<rparr>;
        ibss \<leftarrow> element ies len WLAN_EID_IBSS_PARAMS;
        let f = (case ibss of
          Some d \<Rightarrow> if 2 \<le> length d then f\<lparr>bss_config := (bss_config f)\<lparr>nc_atim_window := ucast (le16 (d ! 0) (d ! 1))\<rparr>\<rparr> else f
        | None \<Rightarrow> f);
        ds \<leftarrow> element ies len WLAN_EID_DS_PARAMS;
        (case ds of None \<Rightarrow> Some (- EINVAL, f) | Some ds \<Rightarrow>
         if ds = [] then Some (- EINVAL, f) else do {
           let f = f\<lparr>bss_config := (bss_config f)\<lparr>nc_frequency := ucast (hd ds)\<rparr>\<rparr>;
           rates \<leftarrow> element ies len WLAN_EID_SUPP_RATES;
           (case rates of None \<Rightarrow> Some (- EINVAL, f) | Some rates \<Rightarrow> do {
              let i = min 8 (length rates);
              buf \<leftarrow> wr_mem (bss_rates f) 0 (take i rates);
              let f = f\<lparr>bss_rates := buf\<rparr>;
              ext \<leftarrow> element ies len WLAN_EID_EXT_SUPP_RATES;
              buf \<leftarrow> (case ext of None \<Rightarrow> Some (bss_rates f) | Some ext \<Rightarrow> wr_mem (bss_rates f) i (take (16 - i) ext));
              Some (0, f\<lparr>bss_rates := buf, bss_ies := \<lparr>fi_timestamp = 0, fi_beaconint = cb_beacon_interval bss,
                          fi_caps = cb_capability bss\<rparr>\<rparr>) }) }) }) }"

section \<open>Elements read back\<close>

lemma find_ie_prefix:
  "\<forall>e \<in> set as. length (snd e) < 256 \<and> fst e \<noteq> ie \<Longrightarrow> length d < 256 \<Longrightarrow>
   length pre + length (put_ies as) + 2 + length d \<le> len \<Longrightarrow>
   find_ie_from (pre @ put_ies as @ ie # of_nat (length d) # d @ rest) len ie (length pre) =
     Some (Some (length pre + length (put_ies as)))"
proof (induction as arbitrary: pre)
  case Nil
  have n: "unat (of_nat (length d) :: u8) = length d" using Nil.prems(2) by (simp add: unat_of_nat take_bit_eq_mod)
  show ?case using Nil.prems(3)
    by (subst find_ie_from.simps) (simp add: put_ies_def rd8_def nth_append n del: rd8_Some_iff)
next
  case (Cons e as)
  obtain t x where e: "e = (t, x)" "t \<noteq> ie" "length x < 256" using Cons.prems(1) by (cases e) auto
  have n: "unat (of_nat (length x) :: u8) = length x" using e(3) by (simp add: unat_of_nat take_bit_eq_mod)
  let ?pre = "pre @ t # of_nat (length x) # x" and ?tl = "put_ies as @ ie # of_nat (length d) # d @ rest"
  have "find_ie_from (?pre @ ?tl) len ie (length ?pre) = Some (Some (length ?pre + length (put_ies as)))"
    by (rule Cons.IH) (use Cons.prems e in \<open>auto simp: put_ies_def\<close>)
  moreover have "find_ie_from (?pre @ ?tl) len ie (length pre) = find_ie_from (?pre @ ?tl) len ie (length ?pre)"
    using Cons.prems(3) e n by (subst find_ie_from.simps) (simp add: rd8_def nth_append put_ies_def del: rd8_Some_iff)
  ultimately show ?case by (simp add: e put_ies_def)
qed

lemma put_ies_app [simp]: "put_ies (as @ bs) = put_ies as @ put_ies bs"
  by (simp add: put_ies_def)

lemma put_ies_Cons: "put_ies ((t, d) # es) = t # of_nat (length d) # d @ put_ies es"
  by (simp add: put_ies_def)

lemma element_present:
  assumes "ies = put_ies (as @ (ie, d) # bs) @ rest" "\<forall>e \<in> set as. length (snd e) < 256 \<and> fst e \<noteq> ie"
    "length d < 256" "len = length ies"
  shows "element ies len ie = Some (Some d)"
proof -
  have i: "ies = put_ies as @ ie # of_nat (length d) # d @ put_ies bs @ rest" using assms(1) by (simp add: put_ies_Cons)
  have n: "unat (of_nat (length d) :: u8) = length d" using assms(3) by (simp add: unat_of_nat take_bit_eq_mod)
  have "r92su_find_ie ies len ie = Some (Some (length (put_ies as)))"
    using find_ie_prefix [OF assms(2,3), of "[]" len "put_ies bs @ rest"] assms(4)
    by (simp add: r92su_find_ie_def i)
  then show ?thesis by (simp add: element_def i rd8_def nth_append n rd_mem_def del: rd8_Some_iff)
qed

lemma add_ie_put:
  "ie_step err (r92su_add_ie t (put_ies es, left) d) f =
     (if left < length d + 2 then (err, (put_ies es, left)) else f (put_ies (es @ [(t, d)]), left - (length d + 2)))"
  by (simp add: ie_step_def r92su_add_ie_def put_ies_def)

text \<open>The elements of a new network, in the order they are written.\<close>

definition ibss_elements :: "'w r92su \<Rightarrow> cfg80211_ibss_params \<Rightarrow> (u8 \<times> bytes) list" where
  "ibss_elements s params = (let rates = supp_rates s (ib_basic_rates params) in
     [(WLAN_EID_SSID, ib_ssid params), (WLAN_EID_SUPP_RATES, take 8 rates), (WLAN_EID_DS_PARAMS, [ib_chan params]),
      (WLAN_EID_IBSS_PARAMS, [0, 0]), (WLAN_EID_EXT_SUPP_RATES, drop 8 rates)] @
     (if disable_ht s then [] else [(WLAN_EID_HT_CAPABILITY, ht_cap_bytes (band_ht_cap s))]))"

lemma ibss_build_elements:
  assumes "n_bitrates s = 12" "r92su_ibss_build_ie s ([], 256) params = (0, (ies, left))"
  shows "ies = put_ies (ibss_elements s params) @ ib_ie params" "length ies + left = 256"
proof -
  have l: "length (supp_rates s b) = 12" for b using assms(1) by (simp add: supp_rates_def)
  have z: "([] :: bytes) = put_ies []" by (simp add: put_ies_def)
  have "ies = put_ies (ibss_elements s params) @ ib_ie params \<and> length ies + left = 256"
    using assms(2) unfolding r92su_ibss_build_ie_def Let_def z
    by (simp add: add_ie_put l r92su_ht_update_def ie_step_def [of _ "(True, _)"] ibss_elements_def Let_def split: if_splits)
      (auto simp: ie_step_def r92su_add_ies_def r92su_add_ie_def put_ies_def l split: if_splits)
  then show "ies = put_ies (ibss_elements s params) @ ib_ie params" "length ies + left = 256" by auto
qed

text \<open>C37. The elements that the driver writes for a new ad-hoc network fit the buffer of 256 bytes, and
  the description that it reads back from them for the firmware has the name, the channel, the
  rates and the kind that were asked for, whatever elements of user space follow.\<close>

theorem ibss_description:
  assumes build: "n_bitrates s = 12" "r92su_ibss_build_ie s ([], 256) params = (0, (ies, left))"
    and ssid: "ib_ssid params \<noteq> []" "length (ib_ssid params) \<le> 32"
    and bss: "bss_ok (bp_fw_bss (cb_priv bss))" "bit (cb_capability bss) 1"
  shows "length ies \<le> 256 \<and> (\<exists>f. r92su_bss_build_fw_bss bss ies (length ies) = Some (0, f) \<and>
     ss_length (bss_ssid f) = of_nat (length (ib_ssid params)) \<and>
     take (length (ib_ssid params)) (ss_ssid (bss_ssid f)) = ib_ssid params \<and>
     nc_frequency (bss_config f) = ucast (ib_chan params) \<and> bss_mode f = network_mode_nr MODE_IBSS \<and>
     take 12 (bss_rates f) = supp_rates s (ib_basic_rates params))"
proof -
  define r where "r = supp_rates s (ib_basic_rates params)"
  define h where "h = (if disable_ht s then [] else [(WLAN_EID_HT_CAPABILITY, ht_cap_bytes (band_ht_cap s))])"
  have l: "length r = 12" using build(1) by (simp add: supp_rates_def r_def)
  have ies: "ies = put_ies ([(0, ib_ssid params), (1, take 8 r), (3, [ib_chan params]), (6, [0, 0]), (50, drop 8 r)] @ h) @ ib_ie params"
    "length ies + left = 256"
    using ibss_build_elements [OF build] by (simp_all add: ibss_elements_def Let_def r_def h_def)
  note el = element_present [OF _ _ _ refl, of ies _ _ _ _ "ib_ie params"]
  have e: "element ies (length ies) 0 = Some (Some (ib_ssid params))" "element ies (length ies) 1 = Some (Some (take 8 r))"
    "element ies (length ies) 3 = Some (Some [ib_chan params])" "element ies (length ies) 6 = Some (Some [0, 0])"
    "element ies (length ies) 50 = Some (Some (drop 8 r))"
    using el [of "[]" 0 "ib_ssid params"] el [of "[(0, ib_ssid params)]" 1 "take 8 r"]
      el [of "[(0, ib_ssid params), (1, take 8 r)]" 3 "[ib_chan params]"]
      el [of "[(0, ib_ssid params), (1, take 8 r), (3, [ib_chan params])]" 6 "[0, 0]"]
      el [of "[(0, ib_ssid params), (1, take 8 r), (3, [ib_chan params]), (6, [0, 0])]" 50 "drop 8 r"] ies(1) ssid(2) l
    by simp_all
  let ?b = "bp_fw_bss (cb_priv bss)"
  have b: "length (ss_ssid (bss_ssid ?b)) = 32" "length (bss_rates ?b) = 16" using bss(1) by (simp_all add: bss_ok_def)
  have rr: "take 8 r @ drop 8 r = r" by simp
  show ?thesis
    using e ssid b l rr ies(2) bss(2)
    by (simp add: r92su_bss_build_fw_bss_def fw_bss_head_def fw_bss_mode_def Let_def wr_mem_def r_def [symmetric])
qed

definition demo_ibss :: cfg80211_ibss_params where
  "demo_ibss = \<lparr>ib_ssid = [65, 66], ib_bssid = None, ib_chan_idx = 0, ib_chan = 1, ib_ie = [221, 0], ib_beacon_interval = 100,
     ib_basic_rates = 3, ib_privacy = False\<rparr>"

definition demo_ibss_bss :: cfg80211_bss where
  "demo_ibss_bss = \<lparr>cb_bssid = [2, 0, 0, 0, 0, 1], cb_capability = 0x22, cb_beacon_interval = 100, cb_signal = 0, cb_priv = bss_priv_zero\<rparr>"

lemma demo_chan: "ucast (ib_chan demo_ibss) = (1 :: u32)" by (simp add: demo_ibss_def)

theorem ibss_description_witness:
  "\<exists>ies left f. r92su_ibss_build_ie ((r92su_zero (\<lambda>x :: u16. 0 :: u8))\<lparr>n_bitrates := 12, disable_ht := True\<rparr>) ([], 256) demo_ibss = (0, (ies, left)) \<and>
     r92su_bss_build_fw_bss demo_ibss_bss ies (length ies) = Some (0, f) \<and> nc_frequency (bss_config f) = 1"
proof -
  let ?s = "(r92su_zero (\<lambda>x :: u16. 0 :: u8))\<lparr>n_bitrates := 12, disable_ht := True\<rparr>"
  obtain ies left where b: "r92su_ibss_build_ie ?s ([], 256) demo_ibss = (0, (ies, left))"
    by (simp add: r92su_ibss_build_ie_def ie_step_def r92su_add_ie_def r92su_add_ies_def r92su_ht_update_def Let_def
        demo_ibss_def supp_rates_def)
  have "bss_ok (bp_fw_bss (cb_priv demo_ibss_bss))"
    by (simp add: demo_ibss_bss_def bss_priv_zero_def get_bss_def bss_ok_def get_ssid_def)
  then have "\<exists>f. r92su_bss_build_fw_bss demo_ibss_bss ies (length ies) = Some (0, f) \<and> nc_frequency (bss_config f) = ucast (ib_chan demo_ibss)"
    using ibss_description [OF _ b, of demo_ibss_bss] by (force simp: demo_ibss_def demo_ibss_bss_def)
  then show ?thesis using b unfolding demo_chan by blast
qed

text \<open>The traffic indication element is read one field too early: its length is taken for the period.\<close>

lemma dtim_period_is_length:
  assumes "ies = put_ies (as @ (WLAN_EID_TIM, d) # bs) @ rest" "\<forall>e \<in> set as. length (snd e) < 256 \<and> fst e \<noteq> WLAN_EID_TIM"
    "length d < 256"
  shows "r92su_get_dtim_period ies (length ies) = Some (of_nat (length d))"
proof -
  have f: "r92su_find_ie ies (length ies) WLAN_EID_TIM = Some (Some (length (put_ies as)))"
    using find_ie_prefix [of as WLAN_EID_TIM d "[]" "length ies" "put_ies bs @ rest"] assms
    by (simp add: r92su_find_ie_def put_ies_def)
  have "rd8 ies (length (put_ies as) + 1) = Some (of_nat (length d))"
    by (simp add: assms(1) put_ies_def rd8_def nth_append del: rd8_Some_iff)
  moreover have "ucast (of_nat (length d) :: u8) = (of_nat (length d) :: u32)"
    using assms(3) by (intro word_unat_eq_iff [THEN iffD2]) (simp add: unat_of_nat unsigned_ucast_eq take_bit_eq_mod)
  ultimately show ?thesis by (simp add: r92su_get_dtim_period_def f del: rd8_Some_iff)
qed

end
