(* ===== verification/R92_Firmware.thy ===== *)
theory R92_Firmware
  imports R92_Usb R92_Regs R92_Desc
begin

text \<open>
  The firmware (\<open>fw.c\<close>, \<open>fw.h\<close>): the checks of the image, the parameter block \<open>fw_priv\<close> that
  is sent behind it, the upload in packets of at most 2048 bytes and the polls of the boot
  status. \<open>request_firmware\<close> is an argument: an error or the bytes of the file. A read outside
  the file is \<open>None\<close>.
\<close>

section \<open>The parameter block\<close>

record fw_priv =
  signature_0 :: u8
  signature_1 :: u8
  hci_sel :: u8
  chip_version :: u8
  customer_id_0 :: u8
  customer_id_1 :: u8
  rf_config :: u8
  usb_ep_num :: u8
  regulatory_class_0 :: u8
  regulatory_class_1 :: u8
  regulatory_class_2 :: u8
  regulatory_class_3 :: u8
  rfintfs :: u8
  def_nettype :: u8
  turbo_mode :: u8
  low_power_mode :: u8
  lbk_mode :: u8
  mp_mode :: u8
  vcs_type :: u8
  vcs_mode :: u8
  rsvd022 :: u8
  rsvd023 :: u8
  rsvd024 :: u8
  rsvd025 :: u8
  qos_en :: u8
  bw_40mhz_en :: u8
  amsdu2ampdu_en :: u8
  ampdu_en :: u8
  rate_control_offload :: u8
  aggregation_offload :: u8
  rsvd030 :: u8
  rsvd031 :: u8
  beacon_offload :: u8
  mlme_offload :: u8
  hwpc_offload :: u8
  tcp_checksum_offload :: u8
  tcp_offload :: u8
  ps_control_offload :: u8
  wwlan_offload :: u8
  rsvd040 :: u8
  tcp_tx_frame_len_l :: u8
  tcp_tx_frame_len_h :: u8
  tcp_rx_frame_len_l :: u8
  tcp_rx_frame_len_h :: u8
  rsvd050 :: u8
  rsvd051 :: u8
  rsvd052 :: u8
  rsvd053 :: u8

definition fw_priv_bytes :: "fw_priv \<Rightarrow> bytes" where
  "fw_priv_bytes d =
     [signature_0 d, signature_1 d, hci_sel d, chip_version d, customer_id_0 d, customer_id_1 d,
      rf_config d, usb_ep_num d,
      regulatory_class_0 d, regulatory_class_1 d, regulatory_class_2 d, regulatory_class_3 d,
      rfintfs d, def_nettype d, turbo_mode d, low_power_mode d,
      lbk_mode d, mp_mode d, vcs_type d, vcs_mode d, rsvd022 d, rsvd023 d, rsvd024 d, rsvd025 d,
      qos_en d, bw_40mhz_en d, amsdu2ampdu_en d, ampdu_en d, rate_control_offload d,
      aggregation_offload d, rsvd030 d, rsvd031 d,
      beacon_offload d, mlme_offload d, hwpc_offload d, tcp_checksum_offload d, tcp_offload d,
      ps_control_offload d, wwlan_offload d, rsvd040 d,
      tcp_tx_frame_len_l d, tcp_tx_frame_len_h d, tcp_rx_frame_len_l d, tcp_rx_frame_len_h d,
      rsvd050 d, rsvd051 d, rsvd052 d, rsvd053 d]"

abbreviation (input) SIZEOF_FW_PRIV :: nat where "SIZEOF_FW_PRIV \<equiv> 48"

definition fw_priv_zero :: fw_priv where
  "fw_priv_zero = \<lparr>signature_0 = 0, signature_1 = 0, hci_sel = 0, chip_version = 0,
     customer_id_0 = 0, customer_id_1 = 0, rf_config = 0, usb_ep_num = 0,
     regulatory_class_0 = 0, regulatory_class_1 = 0, regulatory_class_2 = 0,
     regulatory_class_3 = 0, rfintfs = 0, def_nettype = 0, turbo_mode = 0, low_power_mode = 0,
     lbk_mode = 0, mp_mode = 0, vcs_type = 0, vcs_mode = 0, rsvd022 = 0, rsvd023 = 0,
     rsvd024 = 0, rsvd025 = 0, qos_en = 0, bw_40mhz_en = 0, amsdu2ampdu_en = 0, ampdu_en = 0,
     rate_control_offload = 0, aggregation_offload = 0, rsvd030 = 0, rsvd031 = 0,
     beacon_offload = 0, mlme_offload = 0, hwpc_offload = 0, tcp_checksum_offload = 0,
     tcp_offload = 0, ps_control_offload = 0, wwlan_offload = 0, rsvd040 = 0,
     tcp_tx_frame_len_l = 0, tcp_tx_frame_len_h = 0, tcp_rx_frame_len_l = 0,
     tcp_rx_frame_len_h = 0, rsvd050 = 0, rsvd051 = 0, rsvd052 = 0, rsvd053 = 0\<rparr>"

abbreviation (input) RTL8712_HCI_TYPE_72USB :: u8 where "RTL8712_HCI_TYPE_72USB \<equiv> 0x12"

definition r92su_usb_prepare_firmware :: "'w r92su \<Rightarrow> fw_priv \<Rightarrow> fw_priv" where
  "r92su_usb_prepare_firmware s dmem =
     dmem\<lparr>hci_sel := RTL8712_HCI_TYPE_72USB, usb_ep_num := of_nat (ep_num s)\<rparr>"

definition r92su_prepare_firmware :: "'w r92su \<Rightarrow> int \<times> 'w r92su" where
  "r92su_prepare_firmware s =
     (let dmem = r92su_usb_prepare_firmware s fw_priv_zero;
          dmem = dmem\<lparr>mp_mode := 0, qos_en := 1,
            bw_40mhz_en := bool_word (\<not> disable_ht s),
            ampdu_en := bool_word (\<not> disable_ht s),
            aggregation_offload := bool_word (\<not> disable_ht s),
            rate_control_offload := 1, mlme_offload := 1, vcs_type := 2, vcs_mode := 1,
            turbo_mode := 0, low_power_mode := 0,
            chip_version := chip_rev_nr (chip_rev s),
            rf_config := rf_type_nr (rf_type s),
            rsvd024 := 1\<rparr>
      in (0, s\<lparr>fw_dmem := fw_priv_bytes dmem\<rparr>))"

section \<open>The file\<close>

abbreviation (input) RTL8192_MAX_FIRMWARE_CODE_SIZE :: u32 where
  "RTL8192_MAX_FIRMWARE_CODE_SIZE \<equiv> 65536"
abbreviation (input) RTL8192_MAX_RAW_FIRMWARE_CODE_SIZE :: nat where
  "RTL8192_MAX_RAW_FIRMWARE_CODE_SIZE \<equiv> 200000"
abbreviation (input) RT_8192S_FIRMWARE_HDR_SIZE :: nat where "RT_8192S_FIRMWARE_HDR_SIZE \<equiv> 80"
abbreviation (input) R8712SU_FW_SIGNATURE :: u16 where "R8712SU_FW_SIGNATURE \<equiv> 0x8712"
abbreviation (input) R8192SU_FW_SIGNATURE :: u16 where "R8192SU_FW_SIGNATURE \<equiv> 0x8192"

text \<open>The fields of \<open>struct fw_hdr\<close> that the driver reads.\<close>

definition hdr_signature :: "bytes \<Rightarrow> u16 option" where "hdr_signature d = rd_le16 d 0"
definition hdr_version :: "bytes \<Rightarrow> u16 option" where "hdr_version d = rd_le16 d 2"
definition hdr_dmem_size :: "bytes \<Rightarrow> u32 option" where "hdr_dmem_size d = rd_le32 d 4"
definition hdr_img_imem_size :: "bytes \<Rightarrow> u32 option" where "hdr_img_imem_size d = rd_le32 d 8"
definition hdr_img_sram_size :: "bytes \<Rightarrow> u32 option" where "hdr_img_sram_size d = rd_le32 d 12"

definition r92su_parse_firmware :: "'w r92su \<Rightarrow> (int \<times> 'w r92su) option" where
  "r92su_parse_firmware s = do {
     data \<leftarrow> fw s;
     if RTL8192_MAX_RAW_FIRMWARE_CODE_SIZE < length data then Some (- EINVAL, s)
     else do {
       signature \<leftarrow> hdr_signature data;
       if signature \<noteq> R8192SU_FW_SIGNATURE \<and> signature \<noteq> R8712SU_FW_SIGNATURE
       then Some (- EINVAL, s)
       else do {
         version \<leftarrow> hdr_version data;
         imem_size \<leftarrow> hdr_img_imem_size data;
         sram_size \<leftarrow> hdr_img_sram_size data;
         dmem_size \<leftarrow> hdr_dmem_size data;
         let s = s\<lparr>fw_version := version, fw_imem_len := imem_size, fw_sram_len := sram_size,
                   fw_imem_off := RT_8192S_FIRMWARE_HDR_SIZE,
                   fw_sram_off := RT_8192S_FIRMWARE_HDR_SIZE + unat imem_size\<rparr>;
         if imem_size = 0 \<or> RTL8192_MAX_FIRMWARE_CODE_SIZE \<le> imem_size then Some (- EINVAL, s)
         else if sram_size = 0 \<or> RTL8192_MAX_FIRMWARE_CODE_SIZE \<le> sram_size then Some (- EINVAL, s)
         else if unat dmem_size \<noteq> SIZEOF_FW_PRIV then Some (- EINVAL, s)
         else Some (0, s) } } }"

definition r92su_load_firmware :: "int + bytes \<Rightarrow> 'w r92su \<Rightarrow> (int \<times> 'w r92su) option" where
  "r92su_load_firmware request_firmware s =
     (if fw s \<noteq> None then Some (0, s)
      else case request_firmware of
        Inl err \<Rightarrow> Some (err, s)
      | Inr data \<Rightarrow> do {
          (err, s) \<leftarrow> r92su_parse_firmware (s\<lparr>fw := Some data\<rparr>);
          if err \<noteq> 0 then Some (err, s)
          else Some (r92su_prepare_firmware s) })"

definition r92su_release_firmware :: "'w r92su \<Rightarrow> 'w r92su" where
  "r92su_release_firmware s = s\<lparr>fw := None\<rparr>"

section \<open>The upload\<close>

abbreviation (input) block_size :: nat where "block_size \<equiv> 2048"

text \<open>The packet for the bytes that are left: \<open>LINIP\<close> marks the last one.\<close>

definition fw_packet :: "bytes \<Rightarrow> bytes" where
  "fw_packet rest = (let current_block = min block_size (length rest);
     hdr = SET_TX_DESC_PKT_SIZE (replicate TX_DESC_SIZE 0) (of_nat current_block);
     hdr = (if length rest = current_block then SET_TX_DESC_LINIP hdr 1 else hdr)
   in hdr @ take current_block rest)"

function r92su_upload_firmware_part :: "'w env \<Rightarrow> bytes \<Rightarrow> ('w r92su, int) state" where
  "r92su_upload_firmware_part E rest = do {
     ok \<leftarrow> State (kmalloc E);
     if \<not> ok then ret (- ENOMEM)
     else do {
       err \<leftarrow> r92su_usb_tx E (fw_packet rest) RTL8712_VOQ;
       if err \<noteq> 0 then ret err
       else if block_size < length rest then r92su_upload_firmware_part E (drop block_size rest)
       else ret 0 } }"
  by pat_completeness auto
termination by (relation "measure (\<lambda>(E, rest). length rest)") auto

declare r92su_upload_firmware_part.simps [simp del]

text \<open>
  The polls of the status: the result is the last status and the tries that are left, 0 when
  they are used up. \<open>fw_poll E flag n\<close> does at most \<open>n + 1\<close> reads.
\<close>

fun fw_poll :: "'w env \<Rightarrow> u8 \<Rightarrow> nat \<Rightarrow> ('w r92su, u8 \<times> nat) state" where
  "fw_poll E flag 0 = do {
     cpu_status \<leftarrow> r92su_read8 E REG_TCR;
     if cpu_status AND flag \<noteq> 0 then ret (cpu_status, 1) else ret (cpu_status, 0) }"
| "fw_poll E flag (Suc n) = do {
     cpu_status \<leftarrow> r92su_read8 E REG_TCR;
     if cpu_status AND flag \<noteq> 0 then ret (cpu_status, n + 2) else fw_poll E flag n }"

definition r92su_upload_mem_wait :: "'w env \<Rightarrow> u8 \<Rightarrow> u8 \<Rightarrow> nat \<Rightarrow> ('w r92su, int) state" where
  "r92su_upload_mem_wait E done_flag done2_flag tries = do {
     (cpu_status, tries) \<leftarrow> fw_poll E done_flag (tries - 1);
     ret (if cpu_status AND done2_flag = 0 \<or> tries = 0 then - EAGAIN else 0) }"

definition r92su_firmware_enable_cpu :: "'w env \<Rightarrow> ('w r92su, int) state" where
  "r92su_firmware_enable_cpu E = do {
     clk \<leftarrow> r92su_read8 E REG_SYS_CLKR;
     r92su_write8 E REG_SYS_CLKR (clk OR SYS_CPU_CLKSEL);
     func \<leftarrow> r92su_read16 E REG_SYS_FUNC_EN;
     r92su_write16 E REG_SYS_FUNC_EN (func OR FEN_CPUEN);
     (cpu_status, tries) \<leftarrow> fw_poll E IMEM_RDY (1000 - 1);
     ret (if cpu_status AND IMEM_RDY \<noteq> 0 then 0 else - ETIMEDOUT) }"

definition fw_part :: "'w r92su \<Rightarrow> nat \<Rightarrow> u32 \<Rightarrow> bytes option" where
  "fw_part s off len = do { data \<leftarrow> fw s; rd_mem data off (unat len) }"

definition r92su_upload_imem :: "'w env \<Rightarrow> ('w r92su, int option) state" where
  "r92su_upload_imem E = do {
     s \<leftarrow> State_Monad.get;
     (case fw_part s (fw_imem_off s) (fw_imem_len s) of
        None \<Rightarrow> ret None
      | Some data \<Rightarrow> do {
          err \<leftarrow> r92su_upload_firmware_part E data;
          if err \<noteq> 0 then ret (Some err)
          else do {
            err \<leftarrow> r92su_upload_mem_wait E IMEM_CODE_DONE IMEM_CHK_RPT 3;
            ret (Some err) } }) }"

definition r92su_upload_sram :: "'w env \<Rightarrow> ('w r92su, int option) state" where
  "r92su_upload_sram E = do {
     s \<leftarrow> State_Monad.get;
     (case fw_part s (fw_sram_off s) (fw_sram_len s) of
        None \<Rightarrow> ret None
      | Some data \<Rightarrow> do {
          err \<leftarrow> r92su_upload_firmware_part E data;
          if err \<noteq> 0 then ret (Some err)
          else do {
            err \<leftarrow> r92su_upload_mem_wait E EMEM_CODE_DONE EMEM_CHK_RPT 3;
            if err \<noteq> 0 then ret (Some err)
            else do { err \<leftarrow> r92su_firmware_enable_cpu E; ret (Some err) } } }) }"

definition r92su_upload_dmem :: "'w env \<Rightarrow> ('w r92su, int) state" where
  "r92su_upload_dmem E = do {
     s \<leftarrow> State_Monad.get;
     err \<leftarrow> r92su_upload_firmware_part E (fw_dmem s);
     if err \<noteq> 0 then ret err
     else do {
       err \<leftarrow> r92su_upload_mem_wait E DMEM_CODE_DONE DMEM_CODE_DONE 100;
       if err \<noteq> 0 then ret err
       else do {
         v \<leftarrow> r92su_read8 E REG_EEPROM_CMD;
         r92su_upload_mem_wait E FWRDY LOAD_FW_READY (if v AND EEPROM_CMD_93C46 \<noteq> 0 then 60 else 30) } } }"

definition r92su_upload_firmware :: "'w env \<Rightarrow> ('w r92su, int option) state" where
  "r92su_upload_firmware E = do {
     r \<leftarrow> r92su_upload_imem E;
     (case r of None \<Rightarrow> ret None | Some err \<Rightarrow>
      if err \<noteq> 0 then ret (Some err)
      else do {
        r \<leftarrow> r92su_upload_sram E;
        (case r of None \<Rightarrow> ret None | Some err \<Rightarrow>
         if err \<noteq> 0 then ret (Some err)
         else do {
           err \<leftarrow> r92su_upload_dmem E;
           if err \<noteq> 0 then ret (Some err)
           else do { modify (\<lambda>s. s\<lparr>fw_loaded := True\<rparr>); ret (Some err) } }) }) }"

section \<open>What the upload sends\<close>

text \<open>The packets of one part, in the order in which they are handed to the transport.\<close>

function fw_packets :: "bytes \<Rightarrow> bytes list" where
  "fw_packets rest = fw_packet rest #
     (if block_size < length rest then fw_packets (drop block_size rest) else [])"
  by pat_completeness auto
termination by (relation "measure length") auto

declare fw_packets.simps [simp del]

definition packet_payload :: "bytes \<Rightarrow> bytes" where "packet_payload p = drop TX_DESC_SIZE p"
definition packet_linip :: "bytes \<Rightarrow> u32" where "packet_linip p = SHIFT_AND_MASK_LE p 0 28 1"
definition packet_size :: "bytes \<Rightarrow> u32" where "packet_size p = SHIFT_AND_MASK_LE p 0 0 16"

lemma fw_packet_fields:
  "packet_payload (fw_packet rest) = take 2048 rest"
  "packet_linip (fw_packet rest) = (if length rest \<le> 2048 then 1 else 0)"
  "unat (packet_size (fw_packet rest)) = min 2048 (length rest)"
  "length (fw_packet rest) = 32 + min 2048 (length rest)"
proof -
  have t: "take_bit 16 (of_nat (min 2048 (length rest)) :: u32) = of_nat (min 2048 (length rest))"
    by (simp add: take_bit_of_nat take_bit_nat_eq_self)
  have u: "unat (of_nat (min 2048 (length rest)) :: u32) = min 2048 (length rest)"
    by (simp add: unat_of_nat take_bit_nat_eq_self unsigned_of_nat)
  show "packet_payload (fw_packet rest) = take 2048 rest"
    by (auto simp: packet_payload_def fw_packet_def Let_def desc_defs min_def)
  show "packet_linip (fw_packet rest) = (if length rest \<le> 2048 then 1 else 0)"
    by (auto simp: packet_linip_def fw_packet_def Let_def desc_defs SHIFT_AND_MASK_app desc_simps)
  show "unat (packet_size (fw_packet rest)) = min 2048 (length rest)"
    using t u
    by (auto simp: packet_size_def fw_packet_def Let_def desc_defs SHIFT_AND_MASK_app desc_simps)
  show "length (fw_packet rest) = 32 + min 2048 (length rest)"
    by (auto simp: fw_packet_def Let_def desc_defs)
qed

lemma fw_packets_payload: "concat (map packet_payload (fw_packets rest)) = rest"
proof (induction rest rule: fw_packets.induct)
  case (1 rest)
  show ?case
    by (subst fw_packets.simps) (use 1 in \<open>auto simp: fw_packet_fields\<close>)
qed

lemma fw_packets_linip: "\<exists>n. map packet_linip (fw_packets rest) = replicate n 0 @ [1]"
proof (induction rest rule: fw_packets.induct)
  case (1 rest)
  show ?case
  proof (cases "2048 < length rest")
    case True
    with 1 obtain n where "map packet_linip (fw_packets (drop 2048 rest)) = replicate n 0 @ [1]" by blast
    with True have "map packet_linip (fw_packets rest) = replicate (Suc n) 0 @ [1]"
      by (subst fw_packets.simps) (simp add: fw_packet_fields)
    then show ?thesis by blast
  next
    case False
    then have "map packet_linip (fw_packets rest) = replicate 0 0 @ [1]"
      by (subst fw_packets.simps) (simp add: fw_packet_fields)
    then show ?thesis by blast
  qed
qed

lemma fw_packets_bounded: "p \<in> set (fw_packets rest) \<Longrightarrow> length (packet_payload p) \<le> 2048 \<and>
    unat (packet_size p) = length (packet_payload p)"
proof (induction rest rule: fw_packets.induct)
  case (1 rest)
  then show ?case
    by (subst (asm) fw_packets.simps) (auto simp: fw_packet_fields split: if_splits)
qed

lemma kmalloc_frames: "run_state (State (kmalloc E)) s = (ok, s') \<Longrightarrow> tx_frames s' = tx_frames s"
  by (auto simp: kmalloc_def tx_frames_def)

lemma upload_part_frames:
  "run_state (r92su_upload_firmware_part E rest) s = (0, s') \<Longrightarrow>
     tx_frames s' = tx_frames s + mset (fw_packets rest)"
proof (induction E rest arbitrary: s rule: r92su_upload_firmware_part.induct)
  case (1 E rest)
  obtain ok s1 where a: "run_state (State (kmalloc E)) s = (ok, s1)" by fastforce
  obtain err s2 where u: "run_state (r92su_usb_tx E (fw_packet rest) RTL8712_VOQ) s1 = (err, s2)" by fastforce
  have ok: "ok" and err: "err = 0"
    and rest: "run_state (if block_size < length rest
        then r92su_upload_firmware_part E (drop block_size rest) else ret 0) s2 = (0, s')"
    using "1.prems" a u by (subst (asm) r92su_upload_firmware_part.simps,
      auto split: if_splits)+
  have f: "tx_frames s2 = add_mset (fw_packet rest) (tx_frames s)"
    using usb_tx_frames [of E "fw_packet rest" RTL8712_VOQ s1] u kmalloc_frames [OF a] by simp
  show ?case
  proof (cases "block_size < length rest")
    case True
    with rest ok err have "tx_frames s' = tx_frames s2 + mset (fw_packets (drop block_size rest))"
      by (intro "1.IH") auto
    then show ?thesis using f True by (subst fw_packets.simps) simp
  next
    case False
    with rest f show ?thesis by (subst fw_packets.simps) simp
  qed
qed

text \<open>C26. When the upload of a part succeeds, exactly its packets have been handed to the
  transport: their payloads, one after the other, are the part; none is longer than 2048 bytes,
  each announces its length, and only the last one carries the flag that ends the part.\<close>

theorem fw_upload_complete:
  assumes "run_state (r92su_upload_firmware_part E part) s = (0, s')"
  shows "\<exists>ps. tx_frames s' = tx_frames s + mset ps \<and>
     concat (map packet_payload ps) = part \<and>
     (\<exists>n. map packet_linip ps = replicate n 0 @ [1]) \<and>
     (\<forall>p\<in>set ps. length (packet_payload p) \<le> 2048 \<and> unat (packet_size p) = length (packet_payload p))"
  using upload_part_frames [OF assms] fw_packets_payload fw_packets_linip fw_packets_bounded by blast

theorem fw_upload_complete_witness:
  "\<exists>ps. tx_frames (snd (run_state (r92su_upload_firmware_part reg_env [1, 2, 3]) probed)) =
     tx_frames probed + mset ps \<and> concat (map packet_payload ps) = [1, 2, 3]"
proof -
  have "run_state (r92su_upload_firmware_part reg_env [1, 2, 3]) probed =
      (0, snd (run_state (r92su_upload_firmware_part reg_env [1, 2, 3]) probed))"
    by (rule prod_eqI) (code_simp, simp)
  from fw_upload_complete [OF this] show ?thesis by blast
qed

section \<open>Reads of the file\<close>

lemma upload_part_tx_only [tx_only]: "tx_only (r92su_upload_firmware_part E rest)"
proof (induction E rest rule: r92su_upload_firmware_part.induct)
  case (1 E rest)
  show ?case
  proof (cases "block_size < length rest")
    case True
    then show ?thesis
      by (subst r92su_upload_firmware_part.simps, simp only: True if_True)
        (intro tx_only "1.IH" True; simp)
  next
    case False
    then show ?thesis
      by (subst r92su_upload_firmware_part.simps, simp only: False if_False) (intro tx_only)
  qed
qed

lemma fw_poll_io_only [io_only]: "io_only (fw_poll E flag n)"
proof (induction n)
  case 0
  show ?case unfolding fw_poll.simps by (intro io_only)
next
  case (Suc n)
  then show ?case unfolding fw_poll.simps by (intro io_only)
qed

lemma mem_wait_io_only [io_only]: "io_only (r92su_upload_mem_wait E f g n)"
  unfolding r92su_upload_mem_wait_def by (intro io_only)

lemma enable_cpu_io_only [io_only]: "io_only (r92su_firmware_enable_cpu E)"
  unfolding r92su_firmware_enable_cpu_def by (intro io_only)

lemma upload_imem_tx_only [tx_only]: "tx_only (r92su_upload_imem E)"
  unfolding r92su_upload_imem_def
  by (intro tx_only io_only_tx_only [OF mem_wait_io_only])

lemma upload_sram_tx_only [tx_only]: "tx_only (r92su_upload_sram E)"
  unfolding r92su_upload_sram_def
  by (intro tx_only io_only_tx_only [OF mem_wait_io_only] io_only_tx_only [OF enable_cpu_io_only])

lemma upload_dmem_tx_only [tx_only]: "tx_only (r92su_upload_dmem E)"
  unfolding r92su_upload_dmem_def
  by (intro tx_only io_only_tx_only [OF mem_wait_io_only] io_only_tx_only [OF io_only_regs(1)])

lemma upload_imem_Some:
  "fw_part s (fw_imem_off s) (fw_imem_len s) \<noteq> None \<Longrightarrow> fst (run_state (r92su_upload_imem E) s) \<noteq> None"
  by (auto simp: r92su_upload_imem_def State_Monad.get_def split: prod.splits)

lemma upload_sram_Some:
  "fw_part s (fw_sram_off s) (fw_sram_len s) \<noteq> None \<Longrightarrow> fst (run_state (r92su_upload_sram E) s) \<noteq> None"
  by (auto simp: r92su_upload_sram_def State_Monad.get_def split: prod.splits)

lemma load_firmware_layout:
  assumes "r92su_load_firmware (Inr data) s = Some (0, t)" "fw s = None"
  shows "fw t = Some data \<and> fw_imem_off t = 80 \<and> fw_sram_off t = 80 + unat (fw_imem_len t) \<and>
     0 < fw_imem_len t \<and> fw_imem_len t < 65536 \<and> 0 < fw_sram_len t \<and> fw_sram_len t < 65536 \<and>
     length (fw_dmem t) = 48"
proof -
  obtain t' where p: "r92su_parse_firmware (s\<lparr>fw := Some data\<rparr>) = Some (0, t')"
    and t: "r92su_prepare_firmware t' = (0, t)"
    using assms by (auto simp: r92su_load_firmware_def Option.bind_eq_Some_conv split: if_splits)
  have "fw t' = Some data \<and> fw_imem_off t' = 80 \<and> fw_sram_off t' = 80 + unat (fw_imem_len t') \<and>
     0 < fw_imem_len t' \<and> fw_imem_len t' < 65536 \<and> 0 < fw_sram_len t' \<and> fw_sram_len t' < 65536"
    using p by (auto simp: r92su_parse_firmware_def Let_def Option.bind_eq_Some_conv word_neq_0_conv not_le split: if_splits)
  with t show ?thesis by (auto simp: r92su_prepare_firmware_def fw_priv_bytes_def Let_def)
qed

text \<open>C27. A firmware file that the driver accepts and that is at least as long as its header and
  its two code parts is uploaded without any read outside the file, whatever the device answers;
  the parameter block that follows has 48 bytes.\<close>

theorem fw_upload_in_file:
  assumes "r92su_load_firmware (Inr data) s = Some (0, t)" "fw s = None"
    and "80 + unat (fw_imem_len t) + unat (fw_sram_len t) \<le> length data"
  shows "fst (run_state (r92su_upload_firmware E) t) \<noteq> None \<and> length (fw_dmem t) = SIZEOF_FW_PRIV"
proof -
  note l = load_firmware_layout [OF assms(1,2)]
  obtain r1 t1 where i: "run_state (r92su_upload_imem E) t = (r1, t1)" by fastforce
  obtain r2 t2 where u: "run_state (r92su_upload_sram E) t1 = (r2, t2)" by fastforce
  have "fst (run_state (r92su_upload_imem E) t) \<noteq> None"
    using l assms(3) by (intro upload_imem_Some) (simp add: fw_part_def rd_mem_def)
  moreover have "tx_rel t t1" using upload_imem_tx_only i by (rule changesD)
  then have "fst (run_state (r92su_upload_sram E) t1) \<noteq> None"
    using l assms(3) by (intro upload_sram_Some) (simp add: fw_part_def rd_mem_def tx_rel_fields)
  ultimately show ?thesis using i u l
    by (auto simp: r92su_upload_firmware_def split: prod.splits)
qed

text \<open>A header with 16 bytes of each part: the smallest file for the witness.\<close>

definition demo_fw :: bytes where
  "demo_fw = [0x12, 0x87, 7, 0] @ put_le32 48 @ put_le32 16 @ put_le32 16 @ replicate (64 + 32) 0x5A"

lemma demo_fw_hdr:
  "hdr_signature demo_fw = Some 0x8712" "hdr_version demo_fw = Some 7"
  "hdr_dmem_size demo_fw = Some 48" "hdr_img_imem_size demo_fw = Some 16"
  "hdr_img_sram_size demo_fw = Some 16" "length demo_fw = 112"
  by code_simp+

lemma demo_fw_hdr_short:
  "hdr_signature (take 80 demo_fw) = Some 0x8712" "hdr_version (take 80 demo_fw) = Some 7"
  "hdr_dmem_size (take 80 demo_fw) = Some 48" "hdr_img_imem_size (take 80 demo_fw) = Some 16"
  "hdr_img_sram_size (take 80 demo_fw) = Some 16" "length (take 80 demo_fw) = 80"
  by code_simp+

lemma demo_loads:
  "\<exists>t. r92su_load_firmware (Inr demo_fw) probed = Some (0, t) \<and> fw_imem_len t = 16 \<and> fw_sram_len t = 16"
  "\<exists>t. r92su_load_firmware (Inr (take 80 demo_fw)) probed = Some (0, t) \<and> fw_imem_len t = 16"
  by (simp_all add: r92su_load_firmware_def r92su_parse_firmware_def r92su_prepare_firmware_def
      demo_fw_hdr demo_fw_hdr_short probed_def r92su_zero_def Let_def del: length_take)

theorem fw_upload_in_file_witness:
  "\<exists>t. fst (run_state (r92su_upload_firmware reg_env) t) \<noteq> None \<and> length (fw_dmem t) = 48"
proof -
  obtain t where t: "r92su_load_firmware (Inr demo_fw) probed = Some (0, t)"
    "fw_imem_len t = 16" "fw_sram_len t = 16" using demo_loads(1) by blast
  moreover have "fw probed = None" by (simp add: probed_def r92su_zero_def)
  moreover have "80 + unat (fw_imem_len t) + unat (fw_sram_len t) \<le> length demo_fw"
    by (simp add: t demo_fw_hdr)
  ultimately show ?thesis using fw_upload_in_file [of demo_fw probed t reg_env] by blast
qed

text \<open>
  The checks do not compare the sizes of the parts with the length of the file: the bare header
  is accepted, and its upload reads behind the end of the file.
\<close>

lemma fw_short_file_accepted:
  "\<exists>t. r92su_load_firmware (Inr (take 80 demo_fw)) probed = Some (0, t) \<and>
       fst (run_state (r92su_upload_firmware reg_env) t) = None"
proof -
  obtain t where t: "r92su_load_firmware (Inr (take 80 demo_fw)) probed = Some (0, t)"
    and len: "fw_imem_len t = 16" using demo_loads(2) by blast
  have "fw t = Some (take 80 demo_fw) \<and> fw_imem_off t = 80"
    using load_firmware_layout [OF t] by (simp add: probed_def r92su_zero_def)
  then have "fw_part t (fw_imem_off t) (fw_imem_len t) = None"
    by (simp add: fw_part_def rd_mem_def len)
  then have "fst (run_state (r92su_upload_firmware reg_env) t) = None"
    by (simp add: r92su_upload_firmware_def r92su_upload_imem_def State_Monad.get_def)
  with t show ?thesis by blast
qed

end
