(* ===== verification/R92_Eeprom.thy ===== *)
theory R92_Eeprom
  imports R92_Usb R92_Regs
begin

text \<open>
  The adapter information (\<open>eeprom.c\<close>). The efuse holds sparse blocks: a descriptor byte with
  the position of the block and a bitmap of its used words, then the words. The driver reads
  at most 512 bytes and expands them into the 128-byte image \<open>eeprom\<close>; the outer loop has a
  fuel of 512, which is proved to be enough.
\<close>

section \<open>The image\<close>

abbreviation (input) RTL8190_EEPROM_ID :: u16 where "RTL8190_EEPROM_ID \<equiv> 0x8129"
abbreviation (input) R92SU_EFUSE_REAL_SIZE :: nat where "R92SU_EFUSE_REAL_SIZE \<equiv> 512"
abbreviation (input) SIZEOF_EEPROM :: nat where "SIZEOF_EEPROM \<equiv> 128"

text \<open>Fields of \<open>struct r92su_eeprom\<close>, by their offsets in the image.\<close>

definition eeprom_id :: "bytes \<Rightarrow> u16" where "eeprom_id e = get_le16 e"
definition eeprom_mac_addr :: "bytes \<Rightarrow> bytes" where "eeprom_mac_addr e = take 6 (drop 18 e)"
definition eeprom_board_type :: "bytes \<Rightarrow> u8" where "eeprom_board_type e = e ! 84"

definition r92su_parse_eeprom :: "('w r92su, int) state" where
  "r92su_parse_eeprom = do {
     s \<leftarrow> State_Monad.get;
     if eeprom_id (eeprom s) \<noteq> RTL8190_EEPROM_ID then ret (- EINVAL)
     else if eeprom_board_type (eeprom s) = 0 then do {
       modify (\<lambda>s. s\<lparr>rf_type := R92SU_1T1R\<rparr>); ret 0 }
     else if eeprom_board_type (eeprom s) = 1 then do {
       modify (\<lambda>s. s\<lparr>rf_type := R92SU_1T2R\<rparr>); ret 0 }
     else if eeprom_board_type (eeprom s) = 2 then do {
       modify (\<lambda>s. s\<lparr>rf_type := R92SU_2T2R\<rparr>); ret 0 }
     else ret (- EINVAL) }"

section \<open>Reading the efuse\<close>

definition r92su_efuse_initialize :: "'w env \<Rightarrow> ('w r92su, unit) state" where
  "r92su_efuse_initialize E = do {
     tmp \<leftarrow> r92su_read8 E (REG_EFUSE_TEST + 3);
     r92su_write8 E (REG_EFUSE_TEST + 3) (tmp OR BIT 7);
     r92su_write8 E REG_EFUSE_CLK_CTRL 0x3;
     r92su_write8 E (REG_EFUSE_CTRL + 3) 0x72 }"

definition r92su_efuse_shutdown :: "'w env \<Rightarrow> ('w r92su, unit) state" where
  "r92su_efuse_shutdown E = do {
     tmp \<leftarrow> r92su_read8 E (REG_EFUSE_TEST + 3);
     r92su_write8 E (REG_EFUSE_TEST + 3) (tmp AND NOT (BIT 7));
     r92su_write8 E REG_EFUSE_CLK_CTRL 0x2 }"

text \<open>
  The polling loop, counted down from the ten retries; its result says whether the loop
  ended before the last retry.
\<close>

fun efuse_poll :: "'w env \<Rightarrow> nat \<Rightarrow> ('w r92su, bool) state" where
  "efuse_poll E 0 = ret False"
| "efuse_poll E (Suc n) = do {
     tmp \<leftarrow> r92su_read8 E (REG_EFUSE_CTRL + 3);
     if tmp AND 0x80 = 0 \<and> n \<noteq> 0 then efuse_poll E n else ret (n \<noteq> 0) }"

definition efuse_read_byte :: "'w env \<Rightarrow> u16 \<Rightarrow> ('w r92su, u8) state" where
  "efuse_read_byte E address = do {
     r92su_write8 E (REG_EFUSE_CTRL + 1) (ucast (address AND 0xff));
     tmp \<leftarrow> r92su_read8 E (REG_EFUSE_CTRL + 2);
     r92su_write8 E (REG_EFUSE_CTRL + 2)
       ((tmp AND NOT (BIT 0 OR BIT 1)) OR ucast (drop_bit 8 address AND 0x3));
     r92su_write8 E (REG_EFUSE_CTRL + 3) 0x72;
     ready \<leftarrow> efuse_poll E 10;
     if \<not> ready then ret 0xff else r92su_read8 E REG_EFUSE_CTRL }"

definition r92su_efuse_read :: "'w env \<Rightarrow> u16 \<Rightarrow> ('w r92su, u8) state" where
  "r92su_efuse_read E address = do {
     r92su_efuse_initialize E;
     result \<leftarrow> efuse_read_byte E address;
     r92su_efuse_shutdown E;
     ret result }"

section \<open>Expanding the blocks\<close>

text \<open>The index of the image byte that word \<open>i\<close> of the block with this descriptor fills.\<close>

definition efuse_index :: "u8 \<Rightarrow> nat \<Rightarrow> nat" where
  "efuse_index desc i = unat (drop_bit 4 desc) * 8 + i"

text \<open>
  The loop over the four words of a block. The result says whether the code left both loops
  (\<open>goto out\<close>), with the new offset and image.
\<close>

fun efuse_words :: "'w env \<Rightarrow> nat list \<Rightarrow> u8 \<Rightarrow> u8 \<Rightarrow> nat \<Rightarrow> bytes \<Rightarrow> ('w r92su, bool \<times> nat \<times> bytes) state" where
  "efuse_words E [] desc bm off img = ret (False, off, img)"
| "efuse_words E (i # is) desc bm off img =
     (if bm AND 0x01 = 0 then do {
        b \<leftarrow> efuse_read_byte E (of_nat off);
        let img = img[efuse_index desc i := b];
        let off = off + 1;
        if R92SU_EFUSE_REAL_SIZE \<le> off then ret (True, off, img)
        else do {
          b \<leftarrow> efuse_read_byte E (of_nat off);
          let img = img[efuse_index desc i + 1 := b];
          let off = off + 1;
          if R92SU_EFUSE_REAL_SIZE \<le> off then ret (True, off, img)
          else efuse_words E is desc (drop_bit 1 bm) off img } }
      else efuse_words E is desc (drop_bit 1 bm) off img)"

fun efuse_blocks :: "'w env \<Rightarrow> nat \<Rightarrow> nat \<Rightarrow> bytes \<Rightarrow> ('w r92su, bytes option) state" where
  "efuse_blocks E 0 off img = ret (if off < R92SU_EFUSE_REAL_SIZE then None else Some img)"
| "efuse_blocks E (Suc fuel) off img =
     (if off < R92SU_EFUSE_REAL_SIZE then do {
        desc \<leftarrow> efuse_read_byte E (of_nat off);
        let off = off + 1;
        if desc = 0xff then ret (Some img)
        else do {
          (leave, off, img) \<leftarrow> efuse_words E [0, 2, 4, 6] desc (desc AND 0xf) off img;
          if leave then ret (Some img) else efuse_blocks E fuel off img } }
      else ret (Some img))"

definition r92su_fetch_eeprom_data :: "'w env \<Rightarrow> ('w r92su, int option) state" where
  "r92su_fetch_eeprom_data E = do {
     eprom \<leftarrow> r92su_read8 E REG_EEPROM_CMD;
     modify (\<lambda>s. s\<lparr>eeprom_type := (if eprom AND EEPROM_CMD_93C46 \<noteq> 0 then EEPROM_93C46 else EEPROM_BOOT_EFUSE)\<rparr>);
     if eprom AND EEPROM_CMD_AUTOLOAD_OK = 0 then ret (Some (- EAGAIN))
     else do {
       r92su_efuse_initialize E;
       img \<leftarrow> efuse_blocks E R92SU_EFUSE_REAL_SIZE 0 (replicate SIZEOF_EEPROM 0xff);
       (case img of
          None \<Rightarrow> ret None
        | Some img \<Rightarrow> do {
            modify (\<lambda>s. s\<lparr>eeprom := img\<rparr>);
            r92su_efuse_shutdown E;
            ret (Some 0) }) } }"

definition r92su_eeprom_read :: "'w env \<Rightarrow> ('w r92su, int option) state" where
  "r92su_eeprom_read E = do {
     err \<leftarrow> r92su_fetch_eeprom_data E;
     (case err of
        None \<Rightarrow> ret None
      | Some e \<Rightarrow> if e \<noteq> 0 then ret (Some e) else do {
          err \<leftarrow> r92su_parse_eeprom;
          ret (Some err) }) }"

section \<open>The loops end and stay inside the image\<close>

lemma efuse_words_off:
  "run_state (efuse_words E is desc m off img) s = ((leave, off', img'), s') \<Longrightarrow>
     off \<le> off' \<and> length img' = length img"
proof (induction "is" arbitrary: m off img s)
  case (Cons i "is")
  show ?case
  proof (cases "m AND 0x01 = 0")
    case True
    with Cons.prems show ?thesis
      by (auto simp: Let_def split: prod.splits if_splits dest!: Cons.IH)
  next
    case False
    with Cons.prems show ?thesis by (auto dest!: Cons.IH)
  qed
qed simp

text \<open>Register access keeps the image.\<close>

lemma efuse_shutdown_eeprom: "eeprom (snd (run_state (r92su_efuse_shutdown E) s)) = eeprom s"
proof -
  have "io_only (r92su_efuse_shutdown E)"
    unfolding r92su_efuse_shutdown_def by (intro io_only)
  then show ?thesis using io_rel_fields(1) changesD by (metis prod.collapse)
qed

text \<open>With a fuel of at least the bytes that are left, the outer loop never runs out.\<close>

lemma efuse_blocks_fuel:
  "512 - off \<le> fuel \<Longrightarrow> \<exists>img' s'. run_state (efuse_blocks E fuel off img) s = (Some img', s') \<and>
     length img' = length img"
proof (induction fuel arbitrary: off img s)
  case (Suc fuel)
  show ?case
  proof (cases "off < 512")
    case True
    obtain desc s1 where d: "run_state (efuse_read_byte E (of_nat off)) s = (desc, s1)" by fastforce
    obtain p s2 where r: "run_state (efuse_words E [0, 2, 4, 6] desc (desc AND 0xf) (off + 1) img) s1 = (p, s2)"
      by fastforce
    obtain leave off' img' where p: "p = (leave, off', img')" by (cases p) auto
    note w = r [unfolded p]
    have "off + 1 \<le> off'" "length img' = length img" using efuse_words_off [OF w] by auto
    moreover from this have "512 - off' \<le> fuel" using Suc.prems True by linarith
    ultimately show ?thesis using Suc.IH [of off' img' s2] d w True by (auto simp: Let_def)
  qed simp
qed simp

text \<open>The index of every byte the driver writes while it expands the efuse lies inside the
  128-byte image, for every descriptor byte the device may return.\<close>

theorem efuse_write_in_image:
  assumes "i \<in> {0, 2, 4, 6}"
  shows "efuse_index desc i + 1 < SIZEOF_EEPROM"
proof -
  have "unat desc < 2 ^ LENGTH(8)" by (rule unsigned_less)
  moreover from this have "unat (drop_bit 4 desc) = unat desc div 16"
    by (simp only: unsigned_drop_bit_eq) (simp add: drop_bit_eq_div take_bit_eq_mod)
  ultimately have "unat (drop_bit 4 desc) \<le> 15" by simp
  with assms show ?thesis by (auto simp: efuse_index_def)
qed

theorem efuse_write_in_image_witness: "efuse_index 0xFE 6 + 1 < 128"
  using efuse_write_in_image [of 6 "0xFE"] by simp

text \<open>C31. Reading the adapter information ends for every device: the fetch returns 0 with a
  complete 128-byte image, or -EAGAIN when the chip did not load its configuration.\<close>

theorem eeprom_fetch_ends:
  "\<exists>err s'. run_state (r92su_fetch_eeprom_data E) s = (Some err, s') \<and>
     (err = - EAGAIN \<or> (err = 0 \<and> length (eeprom s') = SIZEOF_EEPROM))"
proof -
  obtain eprom s1 where r: "run_state (r92su_read8 E REG_EEPROM_CMD) s = (eprom, s1)" by fastforce
  let ?s = "s1\<lparr>eeprom_type := (if eprom AND EEPROM_CMD_93C46 \<noteq> 0 then EEPROM_93C46 else EEPROM_BOOT_EFUSE)\<rparr>"
  obtain s2 where i: "run_state (r92su_efuse_initialize E) ?s = ((), s2)"
    by (cases "run_state (r92su_efuse_initialize E) ?s") auto
  obtain img s3 where b: "run_state (efuse_blocks E 512 0 (replicate 128 0xff)) s2 = (Some img, s3)"
    and len: "length img = 128"
    using efuse_blocks_fuel [of 0 512 E "replicate 128 0xff" s2] by auto
  obtain s4 where d: "run_state (r92su_efuse_shutdown E) (s3\<lparr>eeprom := img\<rparr>) = ((), s4)"
    by (cases "run_state (r92su_efuse_shutdown E) (s3\<lparr>eeprom := img\<rparr>)") auto
  have "eeprom s4 = img" using efuse_shutdown_eeprom [of E "s3\<lparr>eeprom := img\<rparr>"] d by simp
  then show ?thesis
    using r i b d len by (auto simp: r92su_fetch_eeprom_data_def)
qed

end
