(* ===== verification/R92_Frame.thy ===== *)
theory R92_Frame
  imports R92_Ies R92_Firmware R92_Eeprom
begin

text \<open>
  What the data path, the commands, the events and the set-up of the chip leave alone: the mode of
  the interface, the connected network and the life-cycle state, which they change at most to
  \<open>R92SU_DEAD\<close>, and the invariant of the station table and its sessions, which they keep. The
  relation \<open>life\<close> states this once; every operation has a lemma of the form
  \<open>f s = Some (r, t) \<Longrightarrow> life s t\<close>, collected in \<open>life_ops\<close>.
\<close>

section \<open>The relation\<close>

definition cycle_kept :: "'w r92su \<Rightarrow> 'w r92su \<Rightarrow> bool" where
  "cycle_kept s t \<longleftrightarrow> iftype t = iftype s \<and> connect_bss t = connect_bss s \<and>
     (r_state t = r_state s \<or> r_state t = R92SU_DEAD) \<and> (tx_inv s \<longrightarrow> tx_inv t) \<and>
     (ring_ok (debug s) \<longrightarrow> ring_ok (debug t))"

definition life :: "'w r92su \<Rightarrow> 'w r92su \<Rightarrow> bool" where
  "life s t \<longleftrightarrow> cycle_kept s t \<and> (table_inv s \<longrightarrow> table_inv t)"

named_theorems life_ops

lemma life_refl [simp]: "life s s"
  by (simp add: life_def cycle_kept_def)

lemma life_trans [trans]: "life s t \<Longrightarrow> life t u \<Longrightarrow> life s u"
  by (auto simp: life_def cycle_kept_def)

lemma cycle_kept_trans: "cycle_kept s t \<Longrightarrow> cycle_kept t u \<Longrightarrow> cycle_kept s u"
  by (auto simp: cycle_kept_def)

lemma table_inv_cong:
  "stas t = stas t' \<Longrightarrow> sta_list t = sta_list t' \<Longrightarrow> sta_num t = sta_num t' \<Longrightarrow> tids t = tids t' \<Longrightarrow>
   rcu_cbs t = rcu_cbs t' \<Longrightarrow> next_ptr t = next_ptr t' \<Longrightarrow> table_inv t = table_inv t'"
  by (simp add: table_inv_def sta_inv_def tid_inv_def tid_of_def)

lemma tx_inv_eq:
  "tx_pending_urbs t = tx_pending_urbs t' \<Longrightarrow> tx_wait t = tx_wait t' \<Longrightarrow> tx_submitted t = tx_submitted t' \<Longrightarrow>
   r_state t = r_state t' \<Longrightarrow> tx_inv t = tx_inv t'"
  by (simp add: tx_inv_def r92su_is_dead_def)

lemma tx_inv_upd [simp]:
  "tx_inv (s\<lparr>log := l\<rparr>) = tx_inv s" "tx_inv (s\<lparr>allocs := a\<rparr>) = tx_inv s" "tx_inv (s\<lparr>stas := h\<rparr>) = tx_inv s"
  "tx_inv (s\<lparr>sta_list := ps\<rparr>) = tx_inv s" "tx_inv (s\<lparr>sta_num := k\<rparr>) = tx_inv s"
  "tx_inv (s\<lparr>sta_generation := k\<rparr>) = tx_inv s" "tx_inv (s\<lparr>tids := ts\<rparr>) = tx_inv s"
  "tx_inv (s\<lparr>keys := ks\<rparr>) = tx_inv s" "tx_inv (s\<lparr>rcu_cbs := cs\<rparr>) = tx_inv s" "tx_inv (s\<lparr>next_ptr := p\<rparr>) = tx_inv s"
  "tx_inv (s\<lparr>connect_bss := b\<rparr>) = tx_inv s" "tx_inv (s\<lparr>want_connect_bss := b\<rparr>) = tx_inv s"
  "tx_inv (s\<lparr>connect_result := b\<rparr>) = tx_inv s" "tx_inv (s\<lparr>iftype := ty\<rparr>) = tx_inv s"
  "tx_inv (s\<lparr>ndev_type := nt\<rparr>) = tx_inv s" "tx_inv (s\<lparr>bsss := bs\<rparr>) = tx_inv s"
  "tx_inv (emit e s) = tx_inv s"
  unfolding emit_def by (rule tx_inv_eq; simp)+

lemma life_cong_to:
  "iftype t = iftype t' \<Longrightarrow> connect_bss t = connect_bss t' \<Longrightarrow> r_state t = r_state t' \<Longrightarrow>
   stas t = stas t' \<Longrightarrow> sta_list t = sta_list t' \<Longrightarrow> sta_num t = sta_num t' \<Longrightarrow> tids t = tids t' \<Longrightarrow>
   rcu_cbs t = rcu_cbs t' \<Longrightarrow> next_ptr t = next_ptr t' \<Longrightarrow> tx_pending_urbs t = tx_pending_urbs t' \<Longrightarrow>
   tx_wait t = tx_wait t' \<Longrightarrow> tx_submitted t = tx_submitted t' \<Longrightarrow> debug t = debug t' \<Longrightarrow> life s t = life s t'"
  using table_inv_cong [of t t'] tx_inv_eq [of t t'] by (simp add: life_def cycle_kept_def)

lemma life_cong_from:
  "iftype s = iftype s' \<Longrightarrow> connect_bss s = connect_bss s' \<Longrightarrow> r_state s = r_state s' \<Longrightarrow>
   stas s = stas s' \<Longrightarrow> sta_list s = sta_list s' \<Longrightarrow> sta_num s = sta_num s' \<Longrightarrow> tids s = tids s' \<Longrightarrow>
   rcu_cbs s = rcu_cbs s' \<Longrightarrow> next_ptr s = next_ptr s' \<Longrightarrow> tx_pending_urbs s = tx_pending_urbs s' \<Longrightarrow>
   tx_wait s = tx_wait s' \<Longrightarrow> tx_submitted s = tx_submitted s' \<Longrightarrow> debug s = debug s' \<Longrightarrow> life s t = life s' t"
  using table_inv_cong [of s s'] tx_inv_eq [of s s'] by (simp add: life_def cycle_kept_def)

lemma life_to_upd [simp]:
  "life s (t\<lparr>world := x_world\<rparr>) = life s t" "life s (t\<lparr>allocs := x_allocs\<rparr>) = life s t"
  "life s (t\<lparr>log := x_log\<rparr>) = life s t" "life s (t\<lparr>jiffies := x_jiffies\<rparr>) = life s t"
  "life s (t\<lparr>has_netdev := x_has_netdev\<rparr>) = life s t" "life s (t\<lparr>dev_addr := x_dev_addr\<rparr>) = life s t"
  "life s (t\<lparr>current_channel := x_current_channel\<rparr>) = life s t" "life s (t\<lparr>ep_num := x_ep_num\<rparr>) = life s t"
  "life s (t\<lparr>ep_map := x_ep_map\<rparr>) = life s t"
 
  "life s (t\<lparr>rx_submitted := x_rx_submitted\<rparr>) = life s t" "life s (t\<lparr>h2c_seq := x_h2c_seq\<rparr>) = life s t"
  "life s (t\<lparr>c2h_seq := x_c2h_seq\<rparr>) = life s t" "life s (t\<lparr>ampdu_reference := x_ampdu_reference\<rparr>) = life s t"
  "life s (t\<lparr>rx_queue := x_rx_queue\<rparr>) = life s t" "life s (t\<lparr>rx_alignment := x_rx_alignment\<rparr>) = life s t"
  "life s (t\<lparr>sta_generation := x_sta_generation\<rparr>) = life s t"
 
  "life s (t\<lparr>keys := x_keys\<rparr>) = life s t"
  "life s (t\<lparr>bsss := x_bsss\<rparr>) = life s t"
  "life s (t\<lparr>scan_request := x_scan_request\<rparr>) = life s t"
  "life s (t\<lparr>bufs := x_bufs\<rparr>) = life s t" "life s (t\<lparr>connect_result := x_connect_result\<rparr>) = life s t"
  "life s (t\<lparr>want_connect_bss := x_want_connect_bss\<rparr>) = life s t" "life s (t\<lparr>scanned := x_scanned\<rparr>) = life s t"
  "life s (t\<lparr>add_bss_list := x_add_bss_list\<rparr>) = life s t" "life s (t\<lparr>eeprom := x_eeprom\<rparr>) = life s t"
  "life s (t\<lparr>eeprom_type := x_eeprom_type\<rparr>) = life s t" "life s (t\<lparr>chip_rev := x_chip_rev\<rparr>) = life s t"
  "life s (t\<lparr>rf_type := x_rf_type\<rparr>) = life s t" "life s (t\<lparr>fw := x_fw\<rparr>) = life s t"
  "life s (t\<lparr>fw_imem_off := x_fw_imem_off\<rparr>) = life s t" "life s (t\<lparr>fw_sram_off := x_fw_sram_off\<rparr>) = life s t"
  "life s (t\<lparr>fw_imem_len := x_fw_imem_len\<rparr>) = life s t" "life s (t\<lparr>fw_sram_len := x_fw_sram_len\<rparr>) = life s t"
  "life s (t\<lparr>fw_version := x_fw_version\<rparr>) = life s t" "life s (t\<lparr>fw_dmem := x_fw_dmem\<rparr>) = life s t"
  "life s (t\<lparr>fw_loaded := x_fw_loaded\<rparr>) = life s t" "life s (t\<lparr>disable_ht := x_disable_ht\<rparr>) = life s t"
  "life s (t\<lparr>wps_pbc := x_wps_pbc\<rparr>) = life s t" "life s (t\<lparr>wps_pbc_state := x_wps_pbc_state\<rparr>) = life s t"
  "life s (t\<lparr>rpwm := x_rpwm\<rparr>) = life s t" "life s (t\<lparr>rpwm_tog := x_rpwm_tog\<rparr>) = life s t"
  "life s (t\<lparr>cpwm := x_cpwm\<rparr>) = life s t" "life s (t\<lparr>cpwm_tog := x_cpwm_tog\<rparr>) = life s t"
  "life s (t\<lparr>rx_dropped := x_rx_dropped\<rparr>) = life s t" "life s (t\<lparr>rx_packets := x_rx_packets\<rparr>) = life s t"
  "life s (t\<lparr>rx_bytes := x_rx_bytes\<rparr>) = life s t" "life s (t\<lparr>tx_dropped := x_tx_dropped\<rparr>) = life s t"
  "life s (t\<lparr>tx_packets := x_tx_packets\<rparr>) = life s t" "life s (t\<lparr>tx_bytes := x_tx_bytes\<rparr>) = life s t"
  "life s (t\<lparr>scan_done := x_scan_done\<rparr>) = life s t" "life s (t\<lparr>n_channels := x_n_channels\<rparr>) = life s t"
  "life s (t\<lparr>n_bitrates := x_n_bitrates\<rparr>) = life s t" "life s (t\<lparr>band_ht_cap := x_band_ht_cap\<rparr>) = life s t"
  "life s (t\<lparr>ndev_type := x_ndev_type\<rparr>) = life s t" "life s (t\<lparr>perm_addr := x_perm_addr\<rparr>) = life s t"
  "life s (t\<lparr>wiphy_registered := x_wiphy_registered\<rparr>) = life s t" "life s (t\<lparr>has_wq := x_has_wq\<rparr>) = life s t"
  "life s (t\<lparr>dfs := x_dfs\<rparr>) = life s t"
  by (rule life_cong_to; simp)+

lemma life_from_upd [simp]:
  "life (s\<lparr>world := x_world\<rparr>) t = life s t" "life (s\<lparr>allocs := x_allocs\<rparr>) t = life s t"
  "life (s\<lparr>log := x_log\<rparr>) t = life s t" "life (s\<lparr>jiffies := x_jiffies\<rparr>) t = life s t"
  "life (s\<lparr>has_netdev := x_has_netdev\<rparr>) t = life s t" "life (s\<lparr>dev_addr := x_dev_addr\<rparr>) t = life s t"
  "life (s\<lparr>current_channel := x_current_channel\<rparr>) t = life s t" "life (s\<lparr>ep_num := x_ep_num\<rparr>) t = life s t"
  "life (s\<lparr>ep_map := x_ep_map\<rparr>) t = life s t"
 
  "life (s\<lparr>rx_submitted := x_rx_submitted\<rparr>) t = life s t" "life (s\<lparr>h2c_seq := x_h2c_seq\<rparr>) t = life s t"
  "life (s\<lparr>c2h_seq := x_c2h_seq\<rparr>) t = life s t" "life (s\<lparr>ampdu_reference := x_ampdu_reference\<rparr>) t = life s t"
  "life (s\<lparr>rx_queue := x_rx_queue\<rparr>) t = life s t" "life (s\<lparr>rx_alignment := x_rx_alignment\<rparr>) t = life s t"
  "life (s\<lparr>sta_generation := x_sta_generation\<rparr>) t = life s t"
 
  "life (s\<lparr>keys := x_keys\<rparr>) t = life s t"
  "life (s\<lparr>bsss := x_bsss\<rparr>) t = life s t"
  "life (s\<lparr>scan_request := x_scan_request\<rparr>) t = life s t"
  "life (s\<lparr>bufs := x_bufs\<rparr>) t = life s t" "life (s\<lparr>connect_result := x_connect_result\<rparr>) t = life s t"
  "life (s\<lparr>want_connect_bss := x_want_connect_bss\<rparr>) t = life s t" "life (s\<lparr>scanned := x_scanned\<rparr>) t = life s t"
  "life (s\<lparr>add_bss_list := x_add_bss_list\<rparr>) t = life s t" "life (s\<lparr>eeprom := x_eeprom\<rparr>) t = life s t"
  "life (s\<lparr>eeprom_type := x_eeprom_type\<rparr>) t = life s t" "life (s\<lparr>chip_rev := x_chip_rev\<rparr>) t = life s t"
  "life (s\<lparr>rf_type := x_rf_type\<rparr>) t = life s t" "life (s\<lparr>fw := x_fw\<rparr>) t = life s t"
  "life (s\<lparr>fw_imem_off := x_fw_imem_off\<rparr>) t = life s t" "life (s\<lparr>fw_sram_off := x_fw_sram_off\<rparr>) t = life s t"
  "life (s\<lparr>fw_imem_len := x_fw_imem_len\<rparr>) t = life s t" "life (s\<lparr>fw_sram_len := x_fw_sram_len\<rparr>) t = life s t"
  "life (s\<lparr>fw_version := x_fw_version\<rparr>) t = life s t" "life (s\<lparr>fw_dmem := x_fw_dmem\<rparr>) t = life s t"
  "life (s\<lparr>fw_loaded := x_fw_loaded\<rparr>) t = life s t" "life (s\<lparr>disable_ht := x_disable_ht\<rparr>) t = life s t"
  "life (s\<lparr>wps_pbc := x_wps_pbc\<rparr>) t = life s t" "life (s\<lparr>wps_pbc_state := x_wps_pbc_state\<rparr>) t = life s t"
  "life (s\<lparr>rpwm := x_rpwm\<rparr>) t = life s t" "life (s\<lparr>rpwm_tog := x_rpwm_tog\<rparr>) t = life s t"
  "life (s\<lparr>cpwm := x_cpwm\<rparr>) t = life s t" "life (s\<lparr>cpwm_tog := x_cpwm_tog\<rparr>) t = life s t"
  "life (s\<lparr>rx_dropped := x_rx_dropped\<rparr>) t = life s t" "life (s\<lparr>rx_packets := x_rx_packets\<rparr>) t = life s t"
  "life (s\<lparr>rx_bytes := x_rx_bytes\<rparr>) t = life s t" "life (s\<lparr>tx_dropped := x_tx_dropped\<rparr>) t = life s t"
  "life (s\<lparr>tx_packets := x_tx_packets\<rparr>) t = life s t" "life (s\<lparr>tx_bytes := x_tx_bytes\<rparr>) t = life s t"
  "life (s\<lparr>scan_done := x_scan_done\<rparr>) t = life s t" "life (s\<lparr>n_channels := x_n_channels\<rparr>) t = life s t"
  "life (s\<lparr>n_bitrates := x_n_bitrates\<rparr>) t = life s t" "life (s\<lparr>band_ht_cap := x_band_ht_cap\<rparr>) t = life s t"
  "life (s\<lparr>ndev_type := x_ndev_type\<rparr>) t = life s t" "life (s\<lparr>perm_addr := x_perm_addr\<rparr>) t = life s t"
  "life (s\<lparr>wiphy_registered := x_wiphy_registered\<rparr>) t = life s t" "life (s\<lparr>has_wq := x_has_wq\<rparr>) t = life s t"
  "life (s\<lparr>dfs := x_dfs\<rparr>) t = life s t"
  by (rule life_cong_from; simp)+

text \<open>Updates of a station that leave its number and its sessions, and of a session.\<close>

definition same_slots :: "(nat \<rightharpoonup> r92su_sta) \<Rightarrow> (nat \<rightharpoonup> r92su_sta) \<Rightarrow> bool" where
  "same_slots g h \<longleftrightarrow> dom h = dom g \<and> (\<forall>p a. g p = Some a \<longrightarrow>
     sta_mac_id (the (h p)) = sta_mac_id a \<and> sta_rx_tid (the (h p)) = sta_rx_tid a \<and>
     length (sta_rx_seq_tid (the (h p))) = length (sta_rx_seq_tid a) \<and> length (sta_defrag (the (h p))) = length (sta_defrag a))"

lemma same_slots_upd [simp]:
  "h p = Some a \<Longrightarrow> sta_mac_id a' = sta_mac_id a \<Longrightarrow> sta_rx_tid a' = sta_rx_tid a \<Longrightarrow>
   length (sta_rx_seq_tid a') = length (sta_rx_seq_tid a) \<Longrightarrow> length (sta_defrag a') = length (sta_defrag a) \<Longrightarrow>
   same_slots h (h(p \<mapsto> a'))"
  by (auto simp: same_slots_def)

lemma same_slots_tids:
  assumes "same_slots (stas t) h"
  shows "tid_of (t\<lparr>stas := h\<rparr>) p i x = tid_of t p i x"
proof (cases "stas t p")
  case None
  then have "p \<notin> dom h" using assms by (auto simp: same_slots_def)
  then show ?thesis using None by (simp add: tid_of_def domIff)
next
  case (Some a)
  then have "p \<in> dom h" "sta_rx_tid (the (h p)) = sta_rx_tid a" using assms by (auto simp: same_slots_def)
  then show ?thesis using Some by (auto simp: tid_of_def)
qed

lemma table_inv_stas:
  assumes "same_slots (stas t) h"
  shows "table_inv t \<Longrightarrow> table_inv (t\<lparr>stas := h\<rparr>)"
proof -
  assume inv: "table_inv t"
  have eq: "sta_mac_id (the (h p)) = sta_mac_id (the (stas t p))" if "p \<in> set (sta_list t)" for p
  proof -
    have "p \<in> dom (stas t)" using that inv by (auto simp: table_inv_def sta_inv_def)
    then show ?thesis using assms by (auto simp: same_slots_def)
  qed
  then have m: "mac_ids h (sta_list t) = mac_ids (stas t) (sta_list t)" by (simp add: mac_ids_def)
  have l: "p < next_ptr t \<and> sta_shape b" if "h p = Some b" for p b
  proof -
    have "p \<in> dom (stas t)" using that assms by (auto simp: same_slots_def)
    then obtain a where "stas t p = Some a" by auto
    then show ?thesis using that assms inv by (fastforce simp: same_slots_def table_inv_def sta_inv_def)
  qed
  have "dom h = dom (stas t)" using assms by (simp add: same_slots_def)
  then have "sta_inv (t\<lparr>stas := h\<rparr>)" using inv m l by (simp add: table_inv_def sta_inv_def)
  moreover have "tid_inv (t\<lparr>stas := h\<rparr>)"
    using inv unfolding table_inv_def tid_inv_def same_slots_tids [OF assms] by simp
  ultimately show ?thesis by (simp add: table_inv_def)
qed

lemma life_stas [simp]: "same_slots (stas t) h \<Longrightarrow> life s t \<Longrightarrow> life s (t\<lparr>stas := h\<rparr>)"
  using table_inv_stas [of t h] by (simp add: life_def cycle_kept_def)

definition same_dom :: "(nat \<rightharpoonup> 'a) \<Rightarrow> (nat \<rightharpoonup> 'a) \<Rightarrow> bool" where
  "same_dom g h \<longleftrightarrow> dom h = dom g"

lemma same_dom_upd [simp]: "h p = Some a \<Longrightarrow> same_dom h (h(p \<mapsto> a'))"
  by (auto simp: same_dom_def)

lemma life_tids [simp]: "same_dom (tids t) h \<Longrightarrow> life s t \<Longrightarrow> life s (t\<lparr>tids := h\<rparr>)"
proof -
  assume d: "same_dom (tids t) h" and l: "life s t"
  have "tid_of (t\<lparr>tids := h\<rparr>) = tid_of t" by (intro ext) (simp add: tid_of_def)
  then have "tid_inv (t\<lparr>tids := h\<rparr>) = tid_inv t" using d by (simp add: tid_inv_def same_dom_def)
  moreover have "sta_inv (t\<lparr>tids := h\<rparr>) = sta_inv t" by (simp add: sta_inv_def)
  ultimately show ?thesis using l by (simp add: life_def cycle_kept_def table_inv_def)
qed

text \<open>Releases of keys that wait.\<close>

lemma life_free_key [simp]: "life s (t\<lparr>rcu_cbs := rcu_cbs t @ [Free_key k]\<rparr>) = life s t"
  by (simp add: life_def cycle_kept_def table_inv_def sta_inv_def tid_inv_def tid_of_def)

lemma life_emit [simp]: "life s (emit e t) = life s t" "life (emit e s) t = life s t"
  by (simp_all add: emit_def)

lemma life_dead [simp]: "life s (r92su_mark_dead s)" "life s (s\<lparr>r_state := R92SU_DEAD\<rparr>)"
proof -
  have "table_inv (s\<lparr>r_state := R92SU_DEAD\<rparr>) = table_inv s" by (rule table_inv_cong) simp_all
  moreover have "tx_inv s \<Longrightarrow> tx_inv (s\<lparr>r_state := R92SU_DEAD\<rparr>)" by (rule tx_inv_cong) simp_all
  ultimately show d: "life s (s\<lparr>r_state := R92SU_DEAD\<rparr>)" by (simp add: life_def cycle_kept_def)
  show "life s (r92su_mark_dead s)" using d by (simp add: r92su_mark_dead_def r92su_set_state_def Let_def)
qed

lemma tx_rel_life: "tx_rel s t \<Longrightarrow> life s t"
  using tx_rel_fields [of s t] table_inv_cong [of t s] tx_rel_inv [of s t] by (simp add: life_def cycle_kept_def)

lemma tx_only_life: "tx_only m \<Longrightarrow> run_state m s = (r, t) \<Longrightarrow> life s t"
  by (rule tx_rel_life) (rule changesD)

lemma io_only_life: "io_only m \<Longrightarrow> run_state m s = (r, t) \<Longrightarrow> life s t"
  by (rule tx_only_life [OF io_only_tx_only])

text \<open>A step of a sequence.\<close>

lemma life_step: "life s t \<Longrightarrow> life t u \<Longrightarrow> life s u" by (rule life_trans)

lemma bind_SomeE: "Option.bind m f = Some y \<Longrightarrow> (\<And>x. m = Some x \<Longrightarrow> f x = Some y \<Longrightarrow> P) \<Longrightarrow> P"
  by (cases m) auto

lemma case_prodE2: "(case x of (a, b) \<Rightarrow> f a b) = Some y \<Longrightarrow> (\<And>a b. x = (a, b) \<Longrightarrow> f a b = Some y \<Longrightarrow> P) \<Longrightarrow> P"
  by (cases x) auto

section \<open>Commands\<close>

lemma life_usb_tx: "run_state (r92su_usb_tx E d q) s = (r, t) \<Longrightarrow> life s t"
  by (rule tx_only_life [OF tx_only_usb_tx])

lemma life_h2c_submit: "r92su_h2c_submit E skb cmd s = Some (r, t) \<Longrightarrow> life s t"
  by (auto simp: r92su_h2c_submit_def r92su_h2c_fill_header_def tx_fill_header_def Let_def Option.bind_eq_Some_conv
      split: if_splits prod.splits option.splits dest!: life_usb_tx)


lemma life_h2c_copy: "r92su_h2c_copy E cmd d s = Some (r, t) \<Longrightarrow> life s t"
  by (auto simp: r92su_h2c_copy_def r92su_h2c_alloc_def kmalloc_def Let_def Option.bind_eq_Some_conv
      split: if_splits prod.splits option.splits dest!: life_h2c_submit)

lemma life_h2c [life_ops]:
  "r92su_h2c_set_mac_addr E a s = Some (r, t) \<Longrightarrow> life s t"
  "r92su_h2c_set_opmode E m s = Some (r, t) \<Longrightarrow> life s t"
  "r92su_h2c_set_channel E c s = Some (r, t) \<Longrightarrow> life s t"
  "r92su_h2c_survey E ssid s = Some (r, t) \<Longrightarrow> life s t"
  "r92su_h2c_disconnect E s = Some (r, t) \<Longrightarrow> life s t"
  "r92su_h2c_set_key E al i g k s = Some (r, t) \<Longrightarrow> life s t"
  "r92su_h2c_set_sta_key E al mac k s = Some (r, t) \<Longrightarrow> life s t"
  "r92su_h2c_set_auth E am x s = Some (r, t) \<Longrightarrow> life s t"
  "r92su_h2c_start_ba E tid s = Some (r, t) \<Longrightarrow> life s t"
  "r92su_h2c_set_power_mode E pm sm s = Some (r, t) \<Longrightarrow> life s t"
  unfolding r92su_h2c_set_mac_addr_def r92su_h2c_set_opmode_def r92su_h2c_set_channel_def r92su_h2c_survey_def
    r92su_h2c_disconnect_def r92su_h2c_set_key_def r92su_h2c_set_sta_key_def r92su_h2c_set_auth_def
    r92su_h2c_start_ba_def r92su_h2c_set_power_mode_def Let_def Option.bind_eq_Some_conv
  by (auto dest!: life_h2c_copy)

lemma life_h2c_connect [life_ops]: "r92su_h2c_connect E b j ie n s = Some (r, t) \<Longrightarrow> life s t"
  by (auto simp: r92su_h2c_connect_def r92su_h2c_alloc_def kmalloc_def Let_def Option.bind_eq_Some_conv
      split: if_splits prod.splits option.splits dest!: life_h2c_submit)

lemma life_write8: "life s (snd (run_state (r92su_write8 E a v) s))"
  by (rule io_only_life [OF io_only_regs(4)]) (rule prod.collapse [symmetric])

lemma life_set_power [life_ops]: "r92su_set_power E on s = Some t \<Longrightarrow> life s t"
proof -
  have "life s (r92su_set_rpwn E v s)" for v
    using life_write8 [of "s\<lparr>rpwm_tog := rpwm_tog s XOR 0x80, rpwm := v OR (rpwm_tog s XOR 0x80), cpwm := v\<rparr>"]
    by (simp add: r92su_set_rpwn_def Let_def)
  then show "r92su_set_power E on s = Some t \<Longrightarrow> life s t"
    by (auto simp: r92su_set_power_def split: if_splits dest!: life_h2c intro: life_trans)
qed

section \<open>Stations and events\<close>

lemma life_key_free [life_ops]: "r92su_key_free k s = Some t \<Longrightarrow> life s t"
  by (auto simp: r92su_key_free_def Option.bind_eq_Some_conv split: option.splits)

lemma kept_free_tid: "r92su_free_tid x s = Some t \<Longrightarrow> cycle_kept s t"
  by (auto simp: r92su_free_tid_def cycle_kept_def Option.bind_eq_Some_conv split: option.splits)

lemma kept_free_tids: "free_tids ts s = Some t \<Longrightarrow> cycle_kept s t"
proof (induction ts arbitrary: s)
  case (Cons x ts)
  then show ?case by (auto simp: Option.bind_eq_Some_conv dest!: kept_free_tid intro: cycle_kept_trans)
qed (simp add: cycle_kept_def)

lemma kept_sta_ops:
  "rcu_step s = Some t \<Longrightarrow> cycle_kept s t" "r92su_sta_del m s = Some t \<Longrightarrow> cycle_kept s t"
  "r92su_sta_alloc E mac m aid s = Some (r, t) \<Longrightarrow> cycle_kept s t"
  "r92su_sta_alloc_tid E p tid ssn s = Some t \<Longrightarrow> cycle_kept s t"
proof -
  show d: "r92su_sta_del m s = Some t \<Longrightarrow> cycle_kept s t" for s t
    by (auto simp: r92su_sta_del_def cycle_kept_def Option.bind_eq_Some_conv split: option.splits)
  show "rcu_step s = Some t \<Longrightarrow> cycle_kept s t"
    by (auto simp: rcu_step_def r92su_free_sta_rcu_def r92su_free_tid_rcu_def free_key_rcu_def Let_def cycle_kept_def
        r92su_key_free_def Option.bind_eq_Some_conv split: list.splits rcu_cb.splits option.splits dest!: kept_free_tids)
  show "r92su_sta_alloc E mac m aid s = Some (r, t) \<Longrightarrow> cycle_kept s t"
    by (auto simp: r92su_sta_alloc_def kmalloc_def Let_def cycle_kept_def Option.bind_eq_Some_conv split: if_splits dest!: d)
  show "r92su_sta_alloc_tid E p tid ssn s = Some t \<Longrightarrow> cycle_kept s t"
    by (auto simp: r92su_sta_alloc_tid_def kmalloc_def Let_def cycle_kept_def Option.bind_eq_Some_conv
        split: if_splits dest!: kept_free_tid)
qed

lemma life_sta_ops [life_ops]:
  "rcu_step s = Some t \<Longrightarrow> life s t" "r92su_sta_del m s = Some t \<Longrightarrow> life s t"
  "r92su_sta_alloc E mac m aid s = Some (r, t) \<Longrightarrow> life s t"
  "r92su_sta_alloc_tid E p tid ssn s = Some t \<Longrightarrow> life s t"
  unfolding life_def by (blast intro: kept_sta_ops table_ops)+

lemmas life_rcu_step = life_sta_ops(1) and life_sta_del = life_sta_ops(2)
  and life_sta_alloc = life_sta_ops(3) and life_alloc_tid = life_sta_ops(4)

lemma life_key_alloc [life_ops]:
  assumes "r92su_key_alloc E c i mac pw k s = Some (r, t)"
  shows "life s t"
  using assms
proof (cases rule: key_alloc_cases)
  case (key k n)
  have "table_inv s \<Longrightarrow> table_inv t" by (auto simp: key(5) table_inv_def sta_inv_def tid_inv_def tid_of_def less_Suc_eq)
  then show ?thesis by (simp add: life_def cycle_kept_def key(5))
qed simp

lemma life_survey_event: "c2h_survey_event E c2h s = Some t \<Longrightarrow> life s t"
  by (auto simp: c2h_survey_event_def kmalloc_def Let_def Option.bind_eq_Some_conv split: if_splits)

lemma life_simple_events:
  "c2h_survey_done_event E s = Some t \<Longrightarrow> life s t" "c2h_join_bss_event E c2h s = Some t \<Longrightarrow> life s t"
  "c2h_fwdbg_event c2h s = Some t \<Longrightarrow> life s t" "c2h_report_pwr_state_event c2h s = Some t \<Longrightarrow> life s t"
proof -
  show "c2h_survey_done_event E s = Some t \<Longrightarrow> life s t"
    by (auto simp: c2h_survey_done_event_def split: if_splits)
  show "c2h_join_bss_event E c2h s = Some t \<Longrightarrow> life s t"
    by (auto simp: c2h_join_bss_event_def kmemdup_def kmalloc_def Option.bind_eq_Some_conv split: if_splits)
  show "c2h_fwdbg_event c2h s = Some t \<Longrightarrow> life s t"
    by (auto simp: c2h_fwdbg_event_def Option.bind_eq_Some_conv)
  show "c2h_report_pwr_state_event c2h s = Some t \<Longrightarrow> life s t"
    by (auto simp: c2h_report_pwr_state_event_def Option.bind_eq_Some_conv)
qed

lemma life_sta_events:
  "c2h_add_sta_event E c2h s = Some t \<Longrightarrow> life s t" "c2h_del_sta_event c2h s = Some t \<Longrightarrow> life s t"
  "c2h_addba_report_event E c2h s = Some t \<Longrightarrow> life s t"
proof -
  show "c2h_add_sta_event E c2h s = Some t \<Longrightarrow> life s t"
    by (auto simp: c2h_add_sta_event_def Option.bind_eq_Some_conv dest!: life_sta_alloc)
  show "c2h_del_sta_event c2h s = Some t \<Longrightarrow> life s t"
    by (auto simp: c2h_del_sta_event_def r92su_disconnect_bss_event_def Option.bind_eq_Some_conv
        split: nl80211_iftype.splits option.splits dest!: life_sta_del)
  show "c2h_addba_report_event E c2h s = Some t \<Longrightarrow> life s t"
    by (auto simp: c2h_addba_report_event_def Option.bind_eq_Some_conv split: option.splits dest!: life_alloc_tid)
qed

lemma life_mark_dead: "life s t \<Longrightarrow> life s (r92su_mark_dead t)"
  by (erule life_trans) simp

lemma life_c2h_event [life_ops]:
  assumes "r92su_c2h_event E c2h s = Some t"
  shows "life s t"
proof -
  obtain n e where ne: "c2h_cmd_seq c2h = Some n" "c2h_event c2h = Some e"
    using assms by (auto simp: r92su_c2h_event_def Let_def Option.bind_eq_Some_conv)
  note r = assms [unfolded r92su_c2h_event_def Let_def, simplified ne, simplified]
  note ev = life_survey_event life_simple_events life_sta_events
  have "life (c2h_sequence n s) t"
  proof (cases "c2h_of_nr e")
    case None
    then show ?thesis using r by (auto simp: Option.bind_eq_Some_conv)
  next
    case (Some v)
    then show ?thesis using r
      by (cases v) (auto simp: Option.bind_eq_Some_conv c2h_atim_done_event_def c2h_wps_pbc_event_def dest!: ev)
  qed
  moreover have "life (c2h_sequence n s) t = life s t" by (simp add: c2h_sequence_def Let_def)
  ultimately show ?thesis by simp
qed

section \<open>The receive path\<close>

definition res_life :: "'w r92su \<Rightarrow> ('c \<times> 'skb \<times> 'w r92su) option \<Rightarrow> bool" where
  "res_life s r \<longleftrightarrow> (\<forall>c skb t. r = Some (c, skb, t) \<longrightarrow> life s t)"

lemma res_lifeI: "(\<And>c skb t. r = Some (c, skb, t) \<Longrightarrow> life s t) \<Longrightarrow> res_life s r"
  by (simp add: res_life_def)

lemma res_lifeD: "res_life s r \<Longrightarrow> r = Some (c, skb, t) \<Longrightarrow> life s t"
  by (simp add: res_life_def)

lemma rx_handler_life: "res_life s m \<Longrightarrow> (\<And>skb u. res_life u (f skb u)) \<Longrightarrow> res_life s (RX_HANDLER m f)"
  by (fastforce simp: res_life_def RX_HANDLER_def Option.bind_eq_Some_conv intro: life_trans split: if_splits)

lemma tx_handler_life: "res_life s m \<Longrightarrow> (\<And>skb u. res_life u (f skb u)) \<Longrightarrow> res_life s (TX_HANDLER m f)"
  by (fastforce simp: res_life_def TX_HANDLER_def Option.bind_eq_Some_conv intro: life_trans split: if_splits)

lemma life_kfree_skb [simp]: "life s (dev_kfree_skb_any skb t) = life s t" "life (dev_kfree_skb_any skb s) t = life s t"
  by (simp_all add: dev_kfree_skb_any_def)

lemma life_purge [simp]: "life s (skb_queue_purge q t) = life s t"
  unfolding skb_queue_purge_def by (induction q arbitrary: t) simp_all

lemma life_purge_from [simp]: "life (skb_queue_purge q s) t = life s t"
  unfolding skb_queue_purge_def by (induction q arbitrary: s) simp_all

lemma life_dropped [simp]: "life s (r92su_rx_dropped n t) = life s t" "life (r92su_rx_dropped n s) t = life s t"
  by (simp_all add: r92su_rx_dropped_def)

lemma life_deliver [simp]: "life s (rx_deliver_skb E skb t) = life s t" "life s (r92su_rx_deliver E skb' t) = life s t"
  by (simp_all add: rx_deliver_skb_def r92su_rx_deliver_def Let_def split: prod.split)

lemma life_rx_drop [simp]: "life s (rx_drop o' t) = life s t"
  by (simp add: rx_drop_def split: option.split)

lemma res_life_simps [simp]:
  "res_life s None" "res_life s (Some (c, skb, t)) = life s t" "res_life s (if b then r else r') = (if b then res_life s r else res_life s r')"
  by (simp_all add: res_life_def)

lemma res_life_bind: "(\<And>x. m = Some x \<Longrightarrow> res_life s (f x)) \<Longrightarrow> res_life s (Option.bind m f)"
  by (cases m) simp_all

lemma res_life_prod: "(\<And>a b. x = (a, b) \<Longrightarrow> res_life s (f a b)) \<Longrightarrow> res_life s (case x of (a, b) \<Rightarrow> f a b)"
  by (cases x) simp

lemma life_rx_header: "res_life s (r92su_rx_hw_header_check E rx skb s)"
  unfolding r92su_rx_hw_header_check_def Let_def by (simp split del: if_split) (auto intro!: res_life_bind)

lemma life_rx_find_sta: "res_life s (r92su_rx_find_sta E bp skb s)"
  unfolding r92su_rx_find_sta_def Let_def by (intro res_life_bind) simp

lemma life_rx_deduplicate: "res_life s (r92su_rx_deduplicate E skb s)"
  unfolding r92su_rx_deduplicate_def Let_def by (cases "ri_sta (skb_cb skb)") (auto intro!: res_life_bind)

lemma life_rx_stats: "res_life s (r92su_rx_sta_stats rx skb s)"
  unfolding r92su_rx_sta_stats_def Let_def by (intro res_life_bind res_life_prod) simp

lemma life_rx_mgmt: "res_life s (r92su_rx_handle_mgmt E skb s)"
  by (simp add: r92su_rx_handle_mgmt_def)

lemma life_rx_front: "res_life s (rx_front E bp rx skb s)"
  unfolding rx_front_def
  by (intro rx_handler_life life_rx_header life_rx_find_sta life_rx_deduplicate life_rx_stats life_rx_mgmt)

lemma life_tkip_handle: "r92su_rx_tkip_handle E skb key k s = Some (c, t) \<Longrightarrow> life s t"
  by (auto simp: r92su_rx_tkip_handle_def Let_def Option.bind_eq_Some_conv split: if_splits)

lemma life_rx_remove [simp]: "res_life s (rx_remove skb n t) = life s t"
  by (simp add: rx_remove_def)

lemma life_rx_crypto: "res_life s (r92su_rx_crypto_handle E C skb s)"
proof (cases "ri_key (skb_cb skb)")
  case None
  then show ?thesis by (simp add: r92su_rx_crypto_handle_def)
next
  case (Some p)
  show ?thesis
    unfolding r92su_rx_crypto_handle_def Some option.case Let_def
    apply (rule res_life_bind)
    subgoal for key
      by (cases "key_type key"; cases "key_u key")
        (simp_all, (auto intro!: res_life_bind dest!: life_tkip_handle)+)
    done
qed

lemma life_set_defrag: "set_defrag p q e s = Some t \<Longrightarrow> life s t"
  by (auto simp: set_defrag_def Option.bind_eq_Some_conv split: if_splits)

lemma life_defrag_drop: "r92su_defrag_drop p q e s = Some t \<Longrightarrow> life s t"
proof -
  assume "r92su_defrag_drop p q e s = Some t"
  then have "life (skb_queue_purge (df_queue e) (r92su_rx_dropped (length (df_queue e)) s)) t"
    unfolding r92su_defrag_drop_def by (rule life_set_defrag)
  then show ?thesis by (rule life_trans [rotated]) simp
qed

lemma life_defrag_add: "r92su_defrag_add E p q e skb s = Some t \<Longrightarrow> life s t"
  unfolding r92su_defrag_add_def by (rule life_set_defrag)

lemma life_expand: "pskb_expand_head E skb n m s = Some (r, skb', t) \<Longrightarrow> life s t"
  by (auto simp: pskb_expand_head_def kmalloc_def split: if_splits)

lemma res_life_bind_step:
  "(\<And>u. m = Some u \<Longrightarrow> life s u) \<Longrightarrow> (\<And>u. res_life u (f u)) \<Longrightarrow> res_life s (Option.bind m f)"
  by (cases m) (auto simp: res_life_def intro: life_trans)

lemma life_dropped_frame: "res_life s (map_option (\<lambda>s. (c, skb, s)) (r92su_defrag_drop p q e s))"
  by (auto simp: res_life_def dest: life_defrag_drop)

lemma res_life_if: "(b \<Longrightarrow> res_life s r) \<Longrightarrow> (\<not> b \<Longrightarrow> res_life s r') \<Longrightarrow> res_life s (if b then r else r')"
  by simp

lemma res_life_expand:
  "(\<And>err skb u. res_life u (f err skb u)) \<Longrightarrow>
   res_life s (Option.bind (pskb_expand_head E skb n m s) (\<lambda>(err, skb, u). f err skb u))"
  by (cases "pskb_expand_head E skb n m s") (auto simp: res_life_def intro: life_trans dest!: life_expand)

lemma life_set_defrag_purge: "set_defrag p q e (skb_queue_purge fs s) = Some t \<Longrightarrow> life s t"
  by (drule life_set_defrag) simp

lemmas defrag_binds = res_life_if res_life_expand res_life_bind_step [OF life_defrag_drop] res_life_bind_step [OF life_defrag_add]
  res_life_bind_step [OF life_set_defrag_purge] res_life_bind_step [OF life_set_defrag] life_dropped_frame

lemma life_rx_defrag: "res_life s (r92su_rx_defrag E skb s)"
  unfolding r92su_rx_defrag_def Let_def
  by (rule defrag_binds | rule res_life_bind | simp only: res_life_simps(2) life_refl)+

section \<open>The frames behind the reorder buffer\<close>

lemma life_rx_find_key: "res_life s (r92su_rx_find_key E bp skb s)"
  unfolding r92su_rx_find_key_def Let_def
  by (auto intro!: res_life_bind split: option.split)

lemma life_rx_prep_frame: "rx_prep_frame E C bp skb frames s = Some (c, skb', frames', t) \<Longrightarrow> life s t"
proof -
  have "res_life s (map_option (\<lambda>(c, skb). (c, skb, s)) m)" for m :: "(rx_control \<times> rx_skb) option" and s :: "'a r92su"
    by (cases m) (auto split: prod.split)
  then have "res_life s (RX_HANDLER (r92su_rx_find_key E bp skb s) (\<lambda>skb s.
       RX_HANDLER (map_option (\<lambda>(c, skb). (c, skb, s)) (r92su_rx_iv_handle E skb s)) (\<lambda>skb s.
       RX_HANDLER (r92su_rx_crypto_handle E C skb s) (r92su_rx_defrag E))))"
    by (intro rx_handler_life life_rx_find_key life_rx_crypto life_rx_defrag)
  then show "rx_prep_frame E C bp skb frames s = Some (c, skb', frames', t) \<Longrightarrow> life s t"
    by (auto simp: rx_prep_frame_def Option.bind_eq_Some_conv split: if_splits dest: res_lifeD)
qed

lemma life_rx_prep: "rx_prep E C bp q frames s = Some (frames', t) \<Longrightarrow> life s t"
proof (induction q arbitrary: frames s)
  case (Cons skb q)
  then obtain c skb' fr u where u: "rx_prep_frame E C bp skb frames s = Some (c, skb', fr, u)"
    and r: "rx_prep E C bp q fr (if c = RX_DROP then rx_drop skb' u else u) = Some (frames', t)"
    by (auto simp: Option.bind_eq_Some_conv)
  have "life u (if c = RX_DROP then rx_drop skb' u else u)" by simp
  then show ?case using life_rx_prep_frame [OF u] Cons.IH [OF r] by (blast intro: life_trans)
qed simp

lemma life_rx_main: "rx_main E bp fs s = Some t \<Longrightarrow> life s t"
proof (induction fs arbitrary: s)
  case (Cons skb fs)
  then obtain c where "rx_main E bp fs (if c = RX_DROP then rx_drop (Some skb) s else r92su_rx_deliver E skb s) = Some t"
    by (auto simp: Option.bind_eq_Some_conv)
  from Cons.IH [OF this] show ?case by (rule life_trans [rotated]) simp
qed simp

lemma life_rx_handler: "r92su_rx_handler E C bp q s = Some t \<Longrightarrow> life s t"
  by (auto simp: r92su_rx_handler_def Option.bind_eq_Some_conv intro: life_trans dest!: life_rx_prep life_rx_main)

lemma life_rx_reorder: "r92su_rx_reorder_ampdu E skb s = Some (c, q, t) \<Longrightarrow> life s t"
  by (auto simp: r92su_rx_reorder_ampdu_def Let_def Option.bind_eq_Some_conv split: if_splits option.splits)

lemma life_rx_data: "r92su_rx_data E C rx skb s = Some t \<Longrightarrow> life s t"
proof (cases "if r92su_is_connected s then connect_bss s else None")
  case (Some b)
  assume "r92su_rx_data E C rx skb s = Some t"
  with Some obtain bss :: cfg80211_bss and c skb' u where u: "rx_front E (cb_priv bss) rx skb s = Some (c, skb', u)"
    and r: "(case c of RX_QUEUE \<Rightarrow> Some u | RX_DROP \<Rightarrow> Some (rx_drop (Some skb') u)
           | RX_CONTINUE \<Rightarrow> do {
               (c, queue, s) \<leftarrow> r92su_rx_reorder_ampdu E skb' u;
               (if c = RX_DROP
                then Some (dev_kfree_skb_any skb' (skb_queue_purge queue (r92su_rx_dropped 1 s)))
                else r92su_rx_handler E C (cb_priv bss) queue s) }) = Some t"
    by (auto simp: r92su_rx_data_def Let_def Option.bind_eq_Some_conv)
  have "life u t"
    using r by (cases c) (auto simp: Option.bind_eq_Some_conv split: if_splits intro: life_trans dest!: life_rx_reorder life_rx_handler)
  then show ?thesis using res_lifeD [OF life_rx_front u] by (rule life_trans [rotated])
qed (auto simp: r92su_rx_data_def)

lemma life_tid_timer [life_ops]: "r92su_reorder_tid_timer E C t s = Some u \<Longrightarrow> life s u"
  unfolding r92su_reorder_tid_timer_def
  by (elim bind_SomeE) (auto split: option.splits if_splits elim!: bind_SomeE dest!: life_rx_handler intro: life_trans [rotated])

section \<open>Blocks of the device\<close>

lemma life_copy_data: "rx92su_rx_copy_data E buf p n f m s = Some (skb, t) \<Longrightarrow> life s t"
  by (auto simp: rx92su_rx_copy_data_def kmalloc_def Let_def Option.bind_eq_Some_conv split: if_splits)

lemma life_rx_loop: "rx_loop E buf e len n pos s = Some (good, t) \<Longrightarrow> life s t"
proof (induction n arbitrary: pos s)
  case (Suc n)
  then obtain u pos' where "rx_loop E buf e len n pos' u = Some (good, t)" "life s u" if "t \<noteq> s"
    by (fastforce simp: Let_def Option.bind_eq_Some_conv split: if_splits option.splits dest: life_c2h_event life_copy_data)
  then show ?case using Suc.IH by (cases "t = s") (auto intro: life_trans)
qed simp

lemma life_rx [life_ops]: "r92su_rx E buf len s = Some t \<Longrightarrow> life s t"
  by (auto simp: r92su_rx_def Option.bind_eq_Some_conv split: if_splits dest!: life_rx_loop)

lemma life_rx_monitor: "r92su_rx_monitor E rx skb s = Some t \<Longrightarrow> life s t"
proof -
  have "r92su_rx_add_radiotap rx skb n s = Some (skb', u) \<Longrightarrow> life s u" for n skb' u
    unfolding r92su_rx_add_radiotap_def Let_def by (elim bind_SomeE case_prodE2) (auto split: if_splits elim!: bind_SomeE)
  then show "r92su_rx_monitor E rx skb s = Some t \<Longrightarrow> life s t"
    by (auto simp: r92su_rx_monitor_def Option.bind_eq_Some_conv)
qed

lemma life_rx_tasklet_loop: "rx_tasklet_loop E C q s = Some t \<Longrightarrow> life s t"
proof (induction q arbitrary: s)
  case (Cons skb q)
  have "rx_tasklet_step E C skb u = Some v \<Longrightarrow> life u v" for u v
    by (auto simp: rx_tasklet_step_def Let_def Option.bind_eq_Some_conv split: if_splits dest: life_rx_monitor life_rx_data)
  from this [of "s\<lparr>rx_queue := q\<rparr>"] Cons show ?case by (auto simp: Option.bind_eq_Some_conv intro: life_trans)
qed simp

lemma life_rx_tasklet [life_ops]: "r92su_rx_tasklet E C s = Some t \<Longrightarrow> life s t"
  unfolding r92su_rx_tasklet_def by (rule life_rx_tasklet_loop)

section \<open>The transmit path\<close>

lemma life_add_80211: "res_life s (r92su_tx_add_80211 E b skb s)"
proof -
  have ba: "res_life s (Option.bind (r92su_h2c_start_ba E tid s) (\<lambda>(err, s). f err s))"
    if "\<And>err u. res_life u (f err u)" for s f tid
    using that by (cases "r92su_h2c_start_ba E tid s") (auto simp: res_life_def intro: life_trans dest!: life_h2c)
  show ?thesis
    unfolding r92su_tx_add_80211_def Let_def
    by (rule res_life_if ba res_life_bind res_life_prod | simp only: res_life_simps(2) life_refl life_to_upd)+
qed

lemma life_select_key: "res_life s (r92su_tx_select_key E b skb s)"
  unfolding r92su_tx_select_key_def Let_def
  by (intro res_life_bind res_life_if) (auto intro!: res_life_bind split: option.split)

lemma life_tx_prep: "res_life s (tx_prep E inject skb s)"
proof -
  have "res_life s (r92su_tx_prepare_tx_info E skb s)" for skb and s :: "'a r92su"
    unfolding r92su_tx_prepare_tx_info_def Let_def by (intro res_life_expand) simp
  moreover have "res_life s (r92su_tx_find_sta_inject E skb s)" "res_life s (r92su_tx_rate_control_inject skb s)"
    "res_life s (r92su_tx_rate_control_hint E skb s)" for skb and s :: "'a r92su"
    unfolding r92su_tx_find_sta_inject_def r92su_tx_rate_control_inject_def r92su_tx_rate_control_hint_def
    by (auto intro!: res_life_bind)
  moreover have "res_life s (r92su_tx_find_sta b skb s)" for b skb and s :: "'a r92su"
    unfolding r92su_tx_find_sta_def Let_def by (auto intro!: res_life_bind split: option.split)
  ultimately show ?thesis
    unfolding tx_prep_def Let_def by (intro tx_handler_life res_life_if life_add_80211 life_select_key) simp_all
qed

lemma life_tx_frame: "res_life s (tx_frame E C skb s)"
proof -
  have "res_life s (r92su_tx_add_iv E skb s)" for skb and s :: "'a r92su"
    unfolding r92su_tx_add_iv_def Let_def by (auto intro!: res_life_bind split: option.split)
  moreover have "res_life s (r92su_tx_add_crypto E C skb s)" for skb and s :: "'a r92su"
    unfolding r92su_tx_add_crypto_def Let_def
    apply (cases "ti_key (skb_cb skb)")
     apply simp
    apply (simp only: option.case)
    apply (rule res_life_bind)
    subgoal for p key
      by (cases "key_type key"; cases "key_u key") (simp_all, (auto intro!: res_life_bind)+)
    done
  moreover have "res_life s (r92su_tx_fill_desc E skb s)" "res_life s (r92su_tx_invalidate_rcu_data skb s)" for skb and s :: "'a r92su"
    unfolding r92su_tx_fill_desc_def r92su_tx_invalidate_rcu_data_def Let_def by (auto intro!: res_life_bind split: option.split)
  ultimately show ?thesis unfolding tx_frame_def by (intro tx_handler_life)
qed

lemma life_tx_fragment: "r92su_tx_fragment E skb s = Some (c, q, t) \<Longrightarrow> life s t"
proof -
  have f: "tx_fragments E hl n skb pos rem k q s = Some (c, q', t) \<Longrightarrow> life s t" for hl n pos rem k q c q' and s t :: "'a r92su"
  proof (induction E hl n skb pos rem k q s rule: tx_fragments.induct)
    case (1 E hl n skb pos rem k q s)
    show ?case
    proof (cases "rem = 0 \<or> n = 0 \<or> \<not> alloc_ok E (allocs s)")
      case True
      with "1.prems" show ?thesis by (subst (asm) tx_fragments.simps) (auto simp: kmalloc_def Let_def split: if_splits)
    next
      case False
      with "1.prems" obtain tmp where t: "tx_frag E hl pos (min n rem) (rem - min n rem \<noteq> 0) k skb = Some tmp"
        and r: "tx_fragments E hl n skb (pos + min n rem) (rem - min n rem) (k + 1) (q @ [tmp]) (s\<lparr>allocs := allocs s + 1\<rparr>) = Some (c, q', t)"
        by (subst (asm) tx_fragments.simps) (auto simp: kmalloc_def Let_def split: option.splits)
      have "life (s\<lparr>allocs := allocs s + 1\<rparr>) t"
        by (rule "1.IH" [OF _ refl _ _ t r]) (use False in \<open>auto simp: kmalloc_def\<close>)
      then show ?thesis by simp
    qed
  qed
  show "r92su_tx_fragment E skb s = Some (c, q, t) \<Longrightarrow> life s t"
    by (auto simp: r92su_tx_fragment_def Let_def Option.bind_eq_Some_conv split: if_splits dest: f)
qed

lemma life_tx_drop [simp]: "life s (tx_drop skb t) = life s t"
  by (simp add: tx_drop_def)

lemma life_tx_frames_out: "tx_frames_out E C q out s = Some (q', t) \<Longrightarrow> life s t"
proof (induction q arbitrary: out s)
  case (Cons skb q)
  then obtain c skb' u where u: "tx_frame E C skb s = Some (c, skb', u)"
    and r: "(if c = TX_DROP then tx_frames_out E C q out (tx_drop skb' u) else tx_frames_out E C q (out @ [skb']) u) = Some (q', t)"
    by (auto simp: Option.bind_eq_Some_conv)
  have "life u t"
  proof (cases "c = TX_DROP")
    case True
    with r have "life (tx_drop skb' u) t" by (intro Cons.IH) simp
    then show ?thesis by (rule life_trans [rotated]) simp
  next
    case False
    with r show ?thesis by (intro Cons.IH) simp
  qed
  then show ?case using res_lifeD [OF life_tx_frame u] by (rule life_trans [rotated])
qed simp

lemma life_tx_send: "tx_send E q s = Some t \<Longrightarrow> life s t"
proof (induction q arbitrary: s)
  case (Cons skb q)
  then obtain n u where u: "u = snd (run_state (r92su_usb_tx E (skb_data skb) n)
       (s\<lparr>tx_packets := tx_packets s + 1, tx_bytes := tx_bytes s + skb_len skb\<rparr>))" and r: "tx_send E q u = Some t"
    by (auto simp: Option.bind_eq_Some_conv)
  have "life s u"
    using life_usb_tx [of E "skb_data skb" n "s\<lparr>tx_packets := tx_packets s + 1, tx_bytes := tx_bytes s + skb_len skb\<rparr>"]
    unfolding u by (simp add: prod_eq_iff)
  then show ?case using Cons.IH [OF r] by (rule life_trans)
qed simp

lemma life_tx [life_ops]: "r92su_tx E C skb inject s = Some t \<Longrightarrow> life s t"
proof (cases "r92su_is_connected s")
  case True
  assume "r92su_tx E C skb inject s = Some t"
  with True obtain c skb' u where u: "tx_prep E inject skb s = Some (c, skb', u)"
    and r: "(if c = TX_DROP then Some (tx_drop skb' u)
         else do {
           (c, in_queue, s) \<leftarrow> r92su_tx_fragment E skb' u;
           (if c = TX_DROP then Some (tx_drop skb' (skb_queue_purge in_queue s))
            else do {
              (out_queue, s) \<leftarrow> tx_frames_out E C in_queue [] s;
              tx_send E out_queue s }) }) = Some t"
    by (auto simp: r92su_tx_def Option.bind_eq_Some_conv)
  have "life u t"
    using r by (auto simp: Option.bind_eq_Some_conv split: if_splits intro: life_trans
        dest!: life_tx_fragment life_tx_frames_out life_tx_send)
  then show ?thesis using res_lifeD [OF life_tx_prep u] by (rule life_trans [rotated])
qed (auto simp: r92su_tx_def)

lemma life_tx_monitor [life_ops]: "r92su_tx_monitor E C skb s = Some t \<Longrightarrow> life s t"
  by (auto simp: r92su_tx_monitor_def Let_def split: if_splits option.splits dest: life_tx)

lemma life_schedule: "life s (r92su_tx_schedule E s)"
  by (rule tx_rel_life [OF tx_rel_schedule])

lemma life_tx_cb:
  assumes "i < length (tx_submitted s)"
  shows "life s (r92su_tx_usb_cb E i status s)"
proof (rule tx_rel_life)
  define u where "u = emit (Free_skb (urb_data (tx_submitted s ! i))) (s\<lparr>tx_submitted := take i (tx_submitted s) @
     drop (Suc i) (tx_submitted s), tx_pending_urbs := tx_pending_urbs s - 1\<rparr>)"
  define v where "v = snd (run_state (r92su_deal_with_usb_errors E status) u)"
  have "tx_kept s u" by (simp add: u_def tx_kept_def emit_def)
  moreover have "tx_rel u v"
    unfolding v_def by (rule changesD [OF io_only_tx_only [OF io_only_deal] prod.collapse [symmetric]])
  moreover have "tx_kept v (r92su_tx_schedule E v)" by (rule tx_kept_schedule)
  ultimately have "tx_kept s (r92su_tx_schedule E v)" by (auto simp: tx_rel_def intro: tx_kept_trans)
  moreover have "r92su_tx_usb_cb E i status s = r92su_tx_schedule E v"
    by (simp add: r92su_tx_usb_cb_def v_def u_def Let_def)
  ultimately show "tx_rel s (r92su_tx_usb_cb E i status s)"
    using tx_usb_cb_inv [OF _ assms, of E status] by (simp add: tx_rel_def)
qed

section \<open>The set-up of the chip\<close>

interpretation lif: frame_relation life
  by unfold_locales (auto intro: life_trans)

abbreviation life_only :: "('w r92su, 'a) state \<Rightarrow> bool" where
  "life_only m \<equiv> changes life m"

named_theorems life_only

lemmas life_rules [life_only] = lif.rules

lemma tx_only_life_only: "tx_only m \<Longrightarrow> life_only m"
  by (erule changes_mono) (rule tx_rel_life)

lemma life_only_ops [life_only]:
  "life_only (r92su_read8 E a)" "life_only (r92su_read16 E a)" "life_only (r92su_read32 E a)"
  "life_only (r92su_write8 E a b)" "life_only (r92su_write16 E a c)" "life_only (r92su_write32 E a d)"
  "life_only (r92su_usb_tx E buf q)" "life_only (State (kmalloc E))"
  by (intro tx_only_life_only io_only_tx_only io_only_regs tx_only_usb_tx tx_only_kmalloc)+

lemma life_only_modify: "(\<And>s. life s (f s)) \<Longrightarrow> life_only (modify f)"
  by (rule changesI) simp

lemma life_onlyD: "life_only m \<Longrightarrow> run_state m s = (r, t) \<Longrightarrow> life s t"
  by (rule changesD)

lemma life_only_polls [life_only]:
  "life_only (sysclk_wait E n)" "life_only (txdma_wait E n)" "life_only (phy_status_wait E n)" "life_only (fw_poll E f n)"
  "life_only (efuse_poll E n)"
proof -
  show "life_only (sysclk_wait E n)" by (induction n) (simp_all only: sysclk_wait.simps, (intro life_only | assumption)+)
  show "life_only (txdma_wait E n)" by (induction n) (simp_all only: txdma_wait.simps, (intro life_only | assumption)+)
  show "life_only (phy_status_wait E n)" by (induction n) (simp_all only: phy_status_wait.simps, (intro life_only | assumption)+)
  show "life_only (fw_poll E f n)" by (induction n) (simp_all only: fw_poll.simps, (intro life_only | assumption)+)
  show "life_only (efuse_poll E n)" by (induction n) (simp_all only: efuse_poll.simps, (intro life_only | assumption)+)
qed

lemma life_only_early [life_only]: "life_only (r92su_hw_early_mac_setup E)"
proof -
  have h: "life_only (r92su_halset_sysclk E v)" for v
    unfolding r92su_halset_sysclk_def by (intro life_only)
  have "life_only (cut_reset E)" "life_only (cut_power E)" "life_only (cut_enable E)" "life_only (cut_dma E)"
    "life_only (cut_finish E)"
    unfolding cut_reset_def cut_power_def cut_enable_def cut_dma_def cut_finish_def by (intro life_only h)+
  then have "life_only (r92su_usb_init_b_and_c_cut E)"
    unfolding r92su_usb_init_b_and_c_cut_def by (intro life_only h)
  then have "life_only (case r of R92SU_C_CUT \<Rightarrow> r92su_usb_init_b_and_c_cut E
        | R92SU_B_CUT \<Rightarrow> r92su_usb_init_b_and_c_cut E | _ \<Rightarrow> ret (- EOPNOTSUPP))" for r
    by (cases r) (simp_all add: lif.ret)
  then show ?thesis unfolding r92su_hw_early_mac_setup_def by (intro life_only)
qed

lemma life_only_late [life_only]: "life_only (r92su_hw_late_mac_setup E)"
  unfolding r92su_hw_late_mac_setup_def r92su_upload_finish_def r92su_macconfig_after_fwdownload_def
    r92su_usb_final_macconfig_def r92su_wps_cfg_inputmethod_def
  by (intro life_only life_only_modify) simp

lemma life_only_hw [life_only]:
  "life_only (r92su_hw_mac_deinit E)" "life_only (r92su_hw_mac_set_rx_filter E a b c d)"
  "life_only (r92su_wps_detect E)" "life_only (r92su_hw_read_chip_version E)"
  unfolding r92su_hw_mac_deinit_def r92su_hw_mac_set_rx_filter_def r92su_wps_detect_def r92su_hw_read_chip_version_def
  by ((intro life_only life_only_modify)+, simp?)+

lemma life_only_iocmd [life_only]: "life_only (r92su_fw_iocmd E cmd)"
proof -
  have "life_only (iocmd_wait E n)" for n
    by (induction n) (simp_all only: iocmd_wait.simps, (intro life_only | assumption)+)
  then show ?thesis unfolding r92su_fw_iocmd_def by (intro life_only)
qed

lemma life_only_upload_part [life_only]: "life_only (r92su_upload_firmware_part E d)"
proof (induction E d rule: r92su_upload_firmware_part.induct)
  case (1 E d)
  have "life_only (if block_size < length d then r92su_upload_firmware_part E (drop block_size d) else ret 0)"
    using 1 [of True 0] by (simp add: lif.ret)
  then show ?case by (subst r92su_upload_firmware_part.simps) (intro life_rules(1-3) lif.cond [of _ _ "\<not> _"] lif.cond [of _ _ "_ \<noteq> _"] life_only_ops)
qed

lemma life_only_upload [life_only]: "life_only (r92su_upload_firmware E)"
proof -
  have w: "life_only (r92su_upload_mem_wait E a b n)" for a b n
    unfolding r92su_upload_mem_wait_def by (intro life_only)
  have c: "life_only (r92su_firmware_enable_cpu E)"
    unfolding r92su_firmware_enable_cpu_def by (intro life_only)
  have "life_only (r92su_upload_imem E)" "life_only (r92su_upload_sram E)" "life_only (r92su_upload_dmem E)"
    unfolding r92su_upload_imem_def r92su_upload_sram_def r92su_upload_dmem_def by (intro life_only w c)+
  then show ?thesis
    unfolding r92su_upload_firmware_def by (intro life_only life_only_modify) simp_all
qed

lemma life_only_eeprom [life_only]: "life_only (r92su_eeprom_read E)"
proof -
  have b: "life_only (efuse_read_byte E a)" for a
    unfolding efuse_read_byte_def by (intro life_only)
  have "life_only (efuse_words E is desc bm off img)" for "is" desc bm off img
    by (induction "is" arbitrary: bm off img) (simp_all only: efuse_words.simps Let_def, (intro life_only b | assumption)+)
  note words = this
  have "life_only (efuse_blocks E fuel off img)" for fuel off img
    by (induction fuel arbitrary: off img) (simp_all only: efuse_blocks.simps Let_def, (intro life_only b words | assumption)+)
  moreover have "life_only (r92su_efuse_initialize E)" "life_only (r92su_efuse_shutdown E)"
    unfolding r92su_efuse_initialize_def r92su_efuse_shutdown_def by (intro life_only)+
  ultimately have "life_only (r92su_fetch_eeprom_data E)"
    unfolding r92su_fetch_eeprom_data_def by (intro life_only life_only_modify | simp)+
  moreover have "life_only r92su_parse_eeprom"
    unfolding r92su_parse_eeprom_def by (intro life_only life_only_modify) simp_all
  ultimately show ?thesis unfolding r92su_eeprom_read_def by (intro life_only)
qed

lemma life_service_work [life_ops]: "r92su_hw_service_work E s = Some t \<Longrightarrow> life s t"
proof -
  have w: "life s (wps_poll E s)"
    by (auto simp: wps_poll_def split: prod.split dest!: life_onlyD [OF life_only_hw(3)])
  have "r92su_query_fw_rx_phy_status E u = Some t \<Longrightarrow> life u t" for u t :: "'a r92su"
  proof -
    assume q: "r92su_query_fw_rx_phy_status E u = Some t"
    let ?m = "do { r92su_write32 E REG_IOCMD_CTRL 0xf4000001; ready \<leftarrow> phy_status_wait E 50;
       if \<not> ready then ret None else do { v \<leftarrow> r92su_read32 E REG_IOCMD_DATA; ret (Some (drop_bit 4 v)) } }"
    obtain r v where rv: "run_state ?m u = (r, v)" by fastforce
    have "life u v" by (rule life_onlyD [OF _ rv]) (intro life_only)
    moreover have "life v t"
      using q unfolding r92su_query_fw_rx_phy_status_def rv prod.case
      by (cases r) (auto simp: set_signal_def Let_def Option.bind_eq_Some_conv split: option.splits)
    ultimately show ?thesis by (rule life_trans)
  qed
  from this [of "(wps_poll E s)\<lparr>scanned := False\<rparr>"] show "r92su_hw_service_work E s = Some t \<Longrightarrow> life s t"
    by (auto simp: r92su_hw_service_work_def r92su_hw_queue_service_work_def Option.bind_eq_Some_conv split: if_splits
        intro: life_trans [OF w])
qed

text \<open>The results of operations that return a value and a state, as rules along their do-blocks.\<close>

definition out_life :: "'w r92su \<Rightarrow> ('r \<times> 'w r92su) option \<Rightarrow> bool" where
  "out_life s m \<longleftrightarrow> (\<forall>r t. m = Some (r, t) \<longrightarrow> life s t)"

lemma out_lifeD: "out_life s m \<Longrightarrow> m = Some (r, t) \<Longrightarrow> life s t"
  by (simp add: out_life_def)

lemma out_lifeI: "(\<And>r t. m = Some (r, t) \<Longrightarrow> life s t) \<Longrightarrow> out_life s m"
  by (simp add: out_life_def)

lemma out_life_simps [simp]:
  "out_life s None" "out_life s (Some (r, t)) = life s t"
  "out_life s (if b then m else n) = (if b then out_life s m else out_life s n)"
  by (simp_all add: out_life_def)

lemma out_life_if: "out_life s m \<Longrightarrow> out_life s n \<Longrightarrow> out_life s (if b then m else n)"
  by simp

lemma out_life_read: "(\<And>x. m = Some x \<Longrightarrow> out_life s (f x)) \<Longrightarrow> out_life s (Option.bind m f)"
  by (cases m) simp_all

lemma out_life_step: "(\<And>u. m = Some u \<Longrightarrow> life s u) \<Longrightarrow> (\<And>u. out_life u (f u)) \<Longrightarrow> out_life s (Option.bind m f)"
  by (cases m) (auto simp: out_life_def intro: life_trans)

lemma out_life_bind: "out_life s m \<Longrightarrow> (\<And>r u. out_life u (f r u)) \<Longrightarrow> out_life s (Option.bind m (\<lambda>(r, u). f r u))"
  by (cases m) (auto simp: out_life_def intro: life_trans)

lemma life_load_firmware [life_ops]: "r92su_load_firmware f s = Some (r, t) \<Longrightarrow> life s t"
proof -
  have p: "out_life u (r92su_parse_firmware u)" for u :: "'a r92su"
    unfolding r92su_parse_firmware_def Let_def by (intro out_life_read out_life_if) simp_all
  have q: "out_life u (Some (r92su_prepare_firmware u))" for u :: "'a r92su"
    by (simp add: r92su_prepare_firmware_def Let_def)
  have "out_life s (r92su_load_firmware f s)"
  proof (cases f)
    case (Inr d)
    have "out_life (s\<lparr>fw := Some d\<rparr>) (do { (err, s) \<leftarrow> r92su_parse_firmware (s\<lparr>fw := Some d\<rparr>);
        if err \<noteq> 0 then Some (err, s) else Some (r92su_prepare_firmware s) })"
      by (intro out_life_bind p out_life_if q) simp
    then show ?thesis by (simp add: r92su_load_firmware_def Inr out_life_def)
  qed (simp add: r92su_load_firmware_def)
  then show "r92su_load_firmware f s = Some (r, t) \<Longrightarrow> life s t" by (rule out_lifeD)
qed

lemma life_usb_init: "r92su_usb_init E s = (r, t) \<Longrightarrow> life s t"
proof -
  have "usb_init_loop E n e s = (r, t) \<Longrightarrow> life s t" for n e and s :: "'a r92su"
  proof (induction n arbitrary: e s)
    case (Suc n)
    obtain ok u where g: "r92su_get_rx_urb E s = (ok, u)" by fastforce
    have u: "life s u" using g by (auto simp: r92su_get_rx_urb_def kmalloc_def split: if_splits)
    show ?case
    proof (cases ok)
      case True
      obtain e' w where w: "usb_submit_rx_urb E (world u) = (e', w)" by fastforce
      have "life u t"
        using Suc.prems g True w Suc.IH [of e' "u\<lparr>world := w, rx_submitted := rx_submitted u + 1\<rparr>"]
        by (auto simp: Let_def split: if_splits intro: life_mark_dead)
      with u show ?thesis by (rule life_trans)
    qed (use Suc.prems g u in auto)
  qed simp
  then show "r92su_usb_init E s = (r, t) \<Longrightarrow> life s t" by (simp add: r92su_usb_init_def)
qed

lemma life_init_band: "r92su_init_band E s = (r, t) \<Longrightarrow> life s t"
  by (auto simp: r92su_init_band_def kmalloc_def Let_def split: if_splits)

end
