(* ===== verification/R92_Conn.thy ===== *)
theory R92_Conn
  imports R92_Frame
begin

text \<open>
  The configuration interface (\<open>main.c\<close>): scanning, joining and leaving a network, keys, and the
  work items that the firmware events queue for it. A call that takes and releases the lock of the
  driver is one step of the state; the one place where a call sleeps without the lock, the wait for
  the end of a scan, takes what the other threads do meanwhile as the argument \<open>wait\<close>. Small
  buffers are in the heap \<open>bufs\<close>, so that a second release of one is \<open>None\<close>.
\<close>

section \<open>Private data of a network\<close>

definition r92su_get_bss_priv :: "'w r92su \<Rightarrow> nat \<Rightarrow> r92su_bss_priv option" where
  "r92su_get_bss_priv s b = map_option cb_priv (bsss s b)"

definition upd_priv :: "nat \<Rightarrow> (r92su_bss_priv \<Rightarrow> r92su_bss_priv) \<Rightarrow> 'w r92su \<Rightarrow> 'w r92su option" where
  "upd_priv b f s = do { bss \<leftarrow> bsss s b; Some (s\<lparr>bsss := (bsss s)(b \<mapsto> bss\<lparr>cb_priv := f (cb_priv bss)\<rparr>)\<rparr>) }"

section \<open>Station queries\<close>

definition r92su_get_station :: "'w env \<Rightarrow> bytes \<Rightarrow> 'w r92su \<Rightarrow> (int \<times> station_info option) option" where
  "r92su_get_station E mac s =
     (if \<not> r92su_is_connected s then Some (- ENODEV, None)
      else do {
        sta \<leftarrow> r92su_sta_get s mac;
        (case sta of
           None \<Rightarrow> Some (- ENOENT, None)
         | Some p \<Rightarrow> do { sta \<leftarrow> stas s p; sinfo \<leftarrow> r92su_sta_set_sinfo E s sta; Some (0, Some sinfo) }) })"

definition r92su_dump_station :: "'w env \<Rightarrow> int \<Rightarrow> 'w r92su \<Rightarrow> (int \<times> (bytes \<times> station_info) option) option" where
  "r92su_dump_station E idx s =
     (if \<not> r92su_is_connected s then Some (- ENODEV, None)
      else case r92su_sta_get_by_idx s idx of
        None \<Rightarrow> Some (- ENOENT, None)
      | Some p \<Rightarrow> do {
          sta \<leftarrow> stas s p;
          sinfo \<leftarrow> r92su_sta_set_sinfo E s sta;
          Some (0, Some (sta_mac_addr sta, sinfo)) })"

section \<open>Authentication and keys\<close>

datatype nl80211_auth_type = AUTHTYPE_AUTOMATIC | AUTHTYPE_OPEN_SYSTEM | AUTHTYPE_SHARED_KEY | AUTHTYPE_OTHER

record cfg80211_crypto_settings =
  cr_wpa_versions :: u32
  cr_cipher_group :: wlan_cipher
  cr_control_port :: bool
  cr_control_port_ethertype :: u16
  cr_control_port_no_encrypt :: bool

definition auth_choice :: "nl80211_auth_type \<Rightarrow> cfg80211_crypto_settings \<Rightarrow> (r92su_auth_mode \<times> r92su_auth_1x) option" where
  "auth_choice t crypto = (case t of
     AUTHTYPE_SHARED_KEY \<Rightarrow> Some (R92SU_AUTH_SHARED, R92SU_WPA_PSK)
   | AUTHTYPE_OTHER \<Rightarrow> None
   | _ \<Rightarrow> Some (if 0 < cr_wpa_versions crypto then R92SU_AUTH_8021X else R92SU_AUTH_OPEN, R92SU_WPA_PSK))"

definition r92su_connect_set_auth ::
    "'w env \<Rightarrow> nat \<Rightarrow> nl80211_auth_type \<Rightarrow> cfg80211_crypto_settings \<Rightarrow> 'w r92su \<Rightarrow> (int \<times> 'w r92su) option" where
  "r92su_connect_set_auth E b auth_type crypto s = (case auth_choice auth_type crypto of
     None \<Rightarrow> Some (- EINVAL, s)
   | Some (auth_mode, x) \<Rightarrow> do {
       s \<leftarrow> upd_priv b (\<lambda>bp. bp\<lparr>bp_control_port := cr_control_port crypto,
              bp_control_port_ethertype := cr_control_port_ethertype crypto,
              bp_control_port_no_encrypt := cr_control_port_no_encrypt crypto\<rparr>) s;
       r92su_h2c_set_auth E auth_mode x s })"

text \<open>The upload of a new key; \<open>hw\<close> is whether the firmware gets it at all.\<close>

definition key_upload ::
    "'w env \<Rightarrow> bool \<Rightarrow> nat \<Rightarrow> r92su_key \<Rightarrow> bytes \<Rightarrow> 'w r92su \<Rightarrow> (int \<times> 'w r92su) option" where
  "key_upload E hw p new_key key s =
     (if \<not> hw then Some (0, s)
      else do {
        (err, s) \<leftarrow> (if key_pairwise new_key
           then r92su_h2c_set_sta_key E (key_type new_key) (key_mac_addr new_key) key s
           else r92su_h2c_set_key E (key_type new_key) (ucast (key_index new_key)) True key s);
        Some (err, if err = 0 then s\<lparr>keys := (keys s)(p \<mapsto> new_key\<lparr>key_uploaded := True\<rparr>)\<rparr> else s) })"

text \<open>Whether the old key is in the hardware, its release, and the end of \<open>r92su_internal_add_key\<close>.\<close>

definition old_uploaded :: "nat option \<Rightarrow> 'w r92su \<Rightarrow> bool option" where
  "old_uploaded old s = (case old of None \<Rightarrow> Some False | Some k \<Rightarrow> map_option key_uploaded (keys s k))"

definition old_key_free :: "nat option \<Rightarrow> 'w r92su \<Rightarrow> 'w r92su option" where
  "old_key_free old s = (case old of
     None \<Rightarrow> Some s
   | Some k \<Rightarrow> do { x \<leftarrow> keys s k; r92su_key_free (Some k) (s\<lparr>keys := (keys s)(k \<mapsto> x\<lparr>key_uploaded := False\<rparr>)\<rparr>) })"

definition add_key_out :: "nat \<Rightarrow> int \<Rightarrow> 'w r92su \<Rightarrow> (int \<times> 'w r92su) option" where
  "add_key_out p err s = (if err = 0 then Some (err, s)
     else do { s \<leftarrow> free_key_rcu p s; Some (err, s) })"

definition r92su_internal_add_key ::
    "'w env \<Rightarrow> nat option \<Rightarrow> wlan_cipher \<Rightarrow> u8 \<Rightarrow> bool \<Rightarrow> bytes option \<Rightarrow> bytes \<Rightarrow> bool \<Rightarrow> 'w r92su \<Rightarrow>
     (int \<times> 'w r92su) option" where
  "r92su_internal_add_key E bss cipher idx pw mac_addr key force_upload s = do {
     (r, s) \<leftarrow> r92su_key_alloc E cipher idx mac_addr pw key s;
     (case r of
        Inl err \<Rightarrow> Some (err, s)
      | Inr p \<Rightarrow> do {
          new_key \<leftarrow> keys s p;
          (err, s) \<leftarrow> key_upload E (\<not> modparam_nohwcrypt E \<or> (\<not> pw \<and> force_upload)) p new_key key s;
          if pw then do {
            mac \<leftarrow> mac_addr;
            found \<leftarrow> r92su_sta_get s mac;
            (case found of
               None \<Rightarrow> add_key_out p (- EINVAL) s
             | Some q \<Rightarrow> do {
                 sta \<leftarrow> stas s q;
                 up \<leftarrow> old_uploaded (sta_key sta) s;
                 if err \<noteq> 0 \<and> up then add_key_out p (- EAGAIN) s
                 else do {
                   let s = s\<lparr>stas := (stas s)(q \<mapsto> sta\<lparr>sta_key := Some p\<rparr>)\<rparr>;
                   s \<leftarrow> old_key_free (sta_key sta) s;
                   add_key_out p err s } }) }
          else (case bss of
              None \<Rightarrow> add_key_out p err s
            | Some b \<Rightarrow> do {
                bp \<leftarrow> r92su_get_bss_priv s b;
                old \<leftarrow> (if unat idx < length (bp_group_key bp) then Some (bp_group_key bp ! unat idx) else None);
                up \<leftarrow> old_uploaded old s;
                if err \<noteq> 0 \<and> up then add_key_out p (- EAGAIN) s
                else do {
                  s \<leftarrow> upd_priv b (\<lambda>bp. bp\<lparr>bp_group_key := (bp_group_key bp)[unat idx := Some p]\<rparr>) s;
                  s \<leftarrow> old_key_free old s;
                  add_key_out p err s } }) }) }"

definition r92su_add_key ::
    "'w env \<Rightarrow> u8 \<Rightarrow> bool \<Rightarrow> bytes option \<Rightarrow> wlan_cipher \<Rightarrow> bytes \<Rightarrow> 'w r92su \<Rightarrow> (int \<times> 'w r92su) option" where
  "r92su_add_key E idx pw mac_addr cipher key s =
     (if \<not> r92su_is_connected s then Some (- EAGAIN, s)
      else r92su_internal_add_key E (connect_bss s) cipher idx pw mac_addr key False s)"

text \<open>
  The deletion of a key. A key that is not in the hardware is released without taking it out of
  its slot.
\<close>

definition del_sta_key :: "'w env \<Rightarrow> bytes \<Rightarrow> 'w r92su \<Rightarrow> (int \<times> 'w r92su) option" where
  "del_sta_key E mac s = do {
     found \<leftarrow> r92su_sta_get s mac;
     old \<leftarrow> (case found of None \<Rightarrow> Some None | Some p \<Rightarrow> map_option sta_key (stas s p));
     up \<leftarrow> old_uploaded old s;
     if old \<noteq> None \<and> \<not> up then do { s \<leftarrow> r92su_key_free old s; Some (0, s) }
     else do {
       (err, s) \<leftarrow> r92su_h2c_set_sta_key E NO_ENCRYPTION mac [] s;
       if err \<noteq> 0 then Some (err, s)
       else do {
         found \<leftarrow> r92su_sta_get s mac;
         (case found of
            None \<Rightarrow> do { s \<leftarrow> r92su_key_free old s; Some (err, s) }
          | Some p \<Rightarrow> do {
              sta \<leftarrow> stas s p;
              s \<leftarrow> old_key_free (sta_key sta) (s\<lparr>stas := (stas s)(p \<mapsto> sta\<lparr>sta_key := None\<rparr>)\<rparr>);
              Some (err, s) }) } } }"

definition group_slot :: "'w r92su \<Rightarrow> u8 \<Rightarrow> nat option option" where
  "group_slot s idx = (case connect_bss s of
     None \<Rightarrow> Some None
   | Some b \<Rightarrow> do {
       bp \<leftarrow> r92su_get_bss_priv s b;
       if unat idx < length (bp_group_key bp) then Some (bp_group_key bp ! unat idx) else None })"

definition del_group_key :: "'w env \<Rightarrow> u8 \<Rightarrow> 'w r92su \<Rightarrow> (int \<times> 'w r92su) option" where
  "del_group_key E idx s = do {
     old \<leftarrow> group_slot s idx;
     up \<leftarrow> old_uploaded old s;
     if old \<noteq> None \<and> \<not> up then do { s \<leftarrow> r92su_key_free old s; Some (0, s) }
     else do {
       (err, s) \<leftarrow> r92su_h2c_set_key E NO_ENCRYPTION idx True [] s;
       if err \<noteq> 0 then Some (err, s)
       else case connect_bss s of
           None \<Rightarrow> do { s \<leftarrow> r92su_key_free old s; Some (err, s) }
         | Some b \<Rightarrow> do {
             old \<leftarrow> group_slot s idx;
             s \<leftarrow> upd_priv b (\<lambda>bp. bp\<lparr>bp_group_key := (bp_group_key bp)[unat idx := None]\<rparr>) s;
             s \<leftarrow> old_key_free old s;
             Some (err, s) } } }"

definition r92su_del_key :: "'w env \<Rightarrow> u8 \<Rightarrow> bool \<Rightarrow> bytes \<Rightarrow> 'w r92su \<Rightarrow> (int \<times> 'w r92su) option" where
  "r92su_del_key E idx pw mac_addr s =
     (if \<not> r92su_is_connected s then Some (- EAGAIN, s)
      else if pw then del_sta_key E mac_addr s else del_group_key E idx s)"

definition r92su_set_default_key :: "u8 \<Rightarrow> bool \<Rightarrow> bool \<Rightarrow> 'w r92su \<Rightarrow> (int \<times> 'w r92su) option" where
  "r92su_set_default_key idx unicast multicast s =
     (if \<not> r92su_is_connected s then Some (- EAGAIN, s)
      else case connect_bss s of
        None \<Rightarrow> Some (- EAGAIN, s)
      | Some b \<Rightarrow> do {
          s \<leftarrow> upd_priv b (\<lambda>bp. let bp = (if unicast then bp\<lparr>bp_def_uni_key_idx := unat idx\<rparr> else bp)
                              in if multicast then bp\<lparr>bp_def_multi_key_idx := unat idx\<rparr> else bp) s;
          Some (0, s) })"

definition r92su_set_wiphy_params :: "u32 \<Rightarrow> int" where
  "r92su_set_wiphy_params changed = - EOPNOTSUPP"

section \<open>Scanning\<close>

definition R92SU_SCAN_TIMEOUT :: u64 where "R92SU_SCAN_TIMEOUT = 5000"

definition queue_survey_done :: "'w env \<Rightarrow> 'w r92su \<Rightarrow> 'w r92su" where
  "queue_survey_done E s = emit (Queue_delayed_work Survey_done_work (R92SU_SCAN_TIMEOUT * HZ (kernel E) div 1000)) s"

definition internal_scan_start :: "'w env \<Rightarrow> bytes option \<Rightarrow> 'w r92su \<Rightarrow> (int \<times> 'w r92su) option" where
  "internal_scan_start E ssid s = do {
     (err, s) \<leftarrow> (if r92su_is_open s then r92su_h2c_survey E ssid s else Some (- ENODEV, s));
     Some (err, if err = 0 then queue_survey_done E s else s) }"

text \<open>Without a completion to take the caller does not return: \<open>None\<close>.\<close>

definition wait_for_completion :: "'w r92su \<Rightarrow> 'w r92su option" where
  "wait_for_completion s = (if scan_done s = 0 then None else Some (s\<lparr>scan_done := scan_done s - 1\<rparr>))"

definition r92su_internal_scan ::
    "'w env \<Rightarrow> ('w r92su \<Rightarrow> 'w r92su) \<Rightarrow> bytes option \<Rightarrow> 'w r92su \<Rightarrow> (int \<times> 'w r92su) option" where
  "r92su_internal_scan E wait ssid s =
     (if scanned s then Some (0, s)
      else do {
        (err, s) \<leftarrow> internal_scan_start E ssid s;
        if err \<noteq> 0 then Some (err, s) else map_option (Pair 0) (wait_for_completion (wait s)) })"

definition r92su_scan :: "'w env \<Rightarrow> bytes list \<Rightarrow> 'w r92su \<Rightarrow> (int \<times> 'w r92su) option" where
  "r92su_scan E ssids s =
     (if \<not> r92su_is_open s then Some (- EINVAL, s)
      else if scan_request s then Some (- EAGAIN, s)
      else do {
        (err, s) \<leftarrow> r92su_h2c_survey E (if length ssids = 1 then Some (hd ssids) else None) (s\<lparr>scan_request := True\<rparr>);
        if err \<noteq> 0 then Some (err, s\<lparr>scan_request := False\<rparr>) else Some (0, queue_survey_done E s) })"

definition r92su_survey_done_work :: "'w r92su \<Rightarrow> 'w r92su" where
  "r92su_survey_done_work s =
     (if \<not> r92su_is_open s then s
      else let req = scan_request s; s = s\<lparr>scan_request := False\<rparr>;
               s = (if req then emit (Cfg80211_scan_done False) s else s)
           in emit Complete_scan_done (s\<lparr>scanned := True, scan_done := scan_done s + 1\<rparr>))"

section \<open>Joining a network\<close>

record cfg80211_connect_params =
  sme_channel :: "nat option"
  sme_bssid :: "bytes option"
  sme_ssid :: "bytes option"
  sme_auth_type :: nl80211_auth_type
  sme_crypto :: cfg80211_crypto_settings
  sme_key :: "bytes option"
  sme_key_len :: nat
  sme_key_idx :: u8
  sme_ie :: bytes
  sme_disable_ht :: bool

definition r92su_connect_set_shared_key ::
    "'w env \<Rightarrow> nat \<Rightarrow> cfg80211_connect_params \<Rightarrow> 'w r92su \<Rightarrow> (int \<times> 'w r92su) option" where
  "r92su_connect_set_shared_key E b sme s =
     (if sme_key_len sme = 0 then Some (0, s)
      else case sme_key sme of
        None \<Rightarrow> Some (0, s)
      | Some key \<Rightarrow> r92su_internal_add_key E (Some b) (cr_cipher_group (sme_crypto sme)) (sme_key_idx sme) False None key True s)"

definition r92su_internal_connect ::
    "'w env \<Rightarrow> nat \<Rightarrow> bool \<Rightarrow> bytes \<Rightarrow> 'w r92su \<Rightarrow> (int \<times> 'w r92su) option" where
  "r92su_internal_connect E b join ies s = do {
     (p, s) \<leftarrow> kmemdup E (Some ies) s;
     s \<leftarrow> upd_priv b (\<lambda>bp. bp\<lparr>bp_assoc_ie := p, bp_assoc_ie_len := length ies\<rparr>) s;
     if p = None then Some (- ENOMEM, s)
     else do {
       bp \<leftarrow> r92su_get_bss_priv s b;
       r92su_h2c_connect E (bp_fw_bss bp) join (Some ies) (length ies) (s\<lparr>want_connect_bss := Some b\<rparr>) } }"

text \<open>The common end of \<open>r92su_connect\<close> and \<open>r92su_join_ibss\<close>; \<open>bp\<close> is whether \<open>bss_priv\<close> is set.\<close>

definition connect_out :: "nat option \<Rightarrow> int \<Rightarrow> 'w r92su \<Rightarrow> (int \<times> 'w r92su) option" where
  "connect_out bss err s =
     (if err = 0 then Some (err, s)
      else case bss of
        None \<Rightarrow> Some (err, s\<lparr>want_connect_bss := None\<rparr>)
      | Some b \<Rightarrow> do {
          bp \<leftarrow> r92su_get_bss_priv s b;
          s \<leftarrow> kfree (bp_assoc_ie bp) s;
          Some (err, emit (Cfg80211_put_bss b) (s\<lparr>want_connect_bss := None\<rparr>)) })"

text \<open>The elements of the request: what user space gave, then the capabilities, as far as they fit.\<close>

definition connect_ies :: "cfg80211_connect_params \<Rightarrow> 'w r92su \<Rightarrow> bytes" where
  "connect_ies sme s =
     (let b = snd (r92su_add_ies ([], 256) (sme_ie sme));
          b = (if sme_disable_ht sme then b else snd (r92su_ht_update s b))
      in fst (snd (r92su_wmm_update b)))"

definition connect_locked :: "'w env \<Rightarrow> cfg80211_connect_params \<Rightarrow> 'w r92su \<Rightarrow> (int \<times> 'w r92su) option" where
  "connect_locked E sme s =
     (if \<not> r92su_is_open s then Some (0, s)
      else case cfg80211_get_bss E (sme_channel sme) (sme_bssid sme) (sme_ssid sme) True (bsss s) of
        None \<Rightarrow> connect_out None (- ENOENT) s
      | Some b \<Rightarrow> do {
          (err, s) \<leftarrow> r92su_connect_set_auth E b (sme_auth_type sme) (sme_crypto sme) s;
          if err \<noteq> 0 then connect_out (Some b) err s
          else do {
            (err, s) \<leftarrow> r92su_connect_set_shared_key E b sme s;
            if err \<noteq> 0 then connect_out (Some b) err s
            else do {
              (err, s) \<leftarrow> r92su_internal_connect E b True (connect_ies sme s) s;
              connect_out (Some b) err s } } })"

definition r92su_connect ::
    "'w env \<Rightarrow> ('w r92su \<Rightarrow> 'w r92su) \<Rightarrow> cfg80211_connect_params \<Rightarrow> 'w r92su \<Rightarrow> (int \<times> 'w r92su) option" where
  "r92su_connect E wait sme s = do {
     (err, s) \<leftarrow> r92su_internal_scan E wait (sme_ssid sme) s;
     if err \<noteq> 0 then Some (err, s) else connect_locked E sme s }"

text \<open>Random bytes for the name of a new network: not a group address, locally administered.\<close>

definition random_bssid :: "'w env \<Rightarrow> 'w r92su \<Rightarrow> bytes" where
  "random_bssid E s =
     (let r = put_le32 (random_u32 E (allocs s)) @ take 2 (put_le32 (random_u32 E (allocs s + 1)))
      in r[0 := (r ! 0 AND NOT 0x01) OR 0x02])"

definition ibss_capability :: "cfg80211_ibss_params \<Rightarrow> u16" where
  "ibss_capability params = BIT WLAN_CAPABILITY_IBSS OR WLAN_CAPABILITY_SHORT_PREAMBLE OR
     (if ib_privacy params then BIT WLAN_CAPABILITY_PRIVACY else 0)"

definition ibss_create ::
    "'w env \<Rightarrow> cfg80211_ibss_params \<Rightarrow> 'w r92su \<Rightarrow> (int \<times> 'w r92su) option" where
  "ibss_create E params s =
     (let bssid = (case ib_bssid params of None \<Rightarrow> random_bssid E s | Some b \<Rightarrow> take 6 b) in
      case r92su_ibss_build_ie s ([], 256) params of (err, (ies, left)) \<Rightarrow>
      if err \<noteq> 0 then connect_out None err s
      else case cfg80211_inform_bss E \<lparr>inf_channel = ib_chan_idx params, inf_bssid = bssid, inf_tsf = 0,
             inf_capability = ibss_capability params, inf_beacon_interval = ib_beacon_interval params,
             inf_ie = ies, inf_signal = 0\<rparr> (bsss s) of
        (None, h) \<Rightarrow> connect_out None 0 (s\<lparr>bsss := h\<rparr>)
      | (Some b, h) \<Rightarrow> do {
          let s = s\<lparr>bsss := h\<rparr>;
          bss \<leftarrow> bsss s b;
          (err, f) \<leftarrow> r92su_bss_build_fw_bss bss ies (length ies);
          s \<leftarrow> upd_priv b (\<lambda>bp. bp\<lparr>bp_fw_bss := f\<rparr>) s;
          if err \<noteq> 0 then connect_out (Some b) err s
          else do {
            (err, s) \<leftarrow> r92su_internal_connect E b False ies s;
            connect_out (Some b) err s } })"

definition join_ibss_locked :: "'w env \<Rightarrow> cfg80211_ibss_params \<Rightarrow> 'w r92su \<Rightarrow> (int \<times> 'w r92su) option" where
  "join_ibss_locked E params s =
     (if \<not> r92su_is_open s then Some (0, s)
      else case cfg80211_get_bss E None (ib_bssid params) (Some (ib_ssid params)) False (bsss s) of
        None \<Rightarrow> ibss_create E params s
      | Some b \<Rightarrow> do {
          (err, s) \<leftarrow> r92su_internal_connect E b True (fst (snd (r92su_add_ies ([], 256) (ib_ie params)))) s;
          connect_out (Some b) err s })"

definition r92su_join_ibss ::
    "'w env \<Rightarrow> ('w r92su \<Rightarrow> 'w r92su) \<Rightarrow> cfg80211_ibss_params \<Rightarrow> 'w r92su \<Rightarrow> (int \<times> 'w r92su) option" where
  "r92su_join_ibss E wait params s = do {
     (err, s) \<leftarrow> r92su_internal_scan E wait (Some (ib_ssid params)) s;
     if err \<noteq> 0 then Some (err, s) else join_ibss_locked E params s }"

section \<open>Leaving a network\<close>

definition BSS_MACID :: u32 where "BSS_MACID = 5"

fun free_keys :: "nat option list \<Rightarrow> 'w r92su \<Rightarrow> 'w r92su option" where
  "free_keys [] s = Some s"
| "free_keys (k # ks) s = do { s \<leftarrow> r92su_key_free k s; free_keys ks s }"

definition r92su_bss_free :: "nat option \<Rightarrow> 'w r92su \<Rightarrow> 'w r92su option" where
  "r92su_bss_free bss s = (case bss of
     None \<Rightarrow> Some s
   | Some b \<Rightarrow> do {
       bp \<leftarrow> r92su_get_bss_priv s b;
       s \<leftarrow> kfree (bp_assoc_ie bp) s;
       s \<leftarrow> upd_priv b (\<lambda>bp. bp\<lparr>bp_group_key := map (\<lambda>k. None) (bp_group_key bp)\<rparr>) s;
       s \<leftarrow> free_keys (bp_group_key bp) s;
       s \<leftarrow> r92su_sta_del BSS_MACID s;
       Some (emit (Cfg80211_put_bss b) s) })"

definition r92su_bss_free_connected :: "bool \<Rightarrow> 'w r92su \<Rightarrow> 'w r92su option" where
  "r92su_bss_free_connected locally_generated s =
     (let s = (if r92su_is_connected s then r92su_set_state R92SU_OPEN s else s);
          old_bss = connect_bss s;
          s = s\<lparr>connect_bss := None\<rparr> in
      case old_bss of
        None \<Rightarrow> Some s
      | Some b \<Rightarrow> r92su_bss_free (Some b) (case iftype s of
            IFTYPE_STATION \<Rightarrow> emit (Cfg80211_disconnected locally_generated) s
          | IFTYPE_ADHOC \<Rightarrow> emit (Cfg80211_unlink_bss b) s
          | _ \<Rightarrow> s))"

definition disconnect_locked :: "'w env \<Rightarrow> 'w r92su \<Rightarrow> (int \<times> 'w r92su) option" where
  "disconnect_locked E s = do {
     (err, s) \<leftarrow> (if r92su_is_connected s then r92su_h2c_disconnect E s else Some (0, s));
     s \<leftarrow> r92su_bss_free_connected True s;
     Some (err, s) }"

definition r92su_disconnect :: "'w env \<Rightarrow> 'w r92su \<Rightarrow> (int \<times> 'w r92su) option" where
  "r92su_disconnect E s = disconnect_locked E s"

definition r92su_leave_ibss :: "'w env \<Rightarrow> 'w r92su \<Rightarrow> (int \<times> 'w r92su) option" where
  "r92su_leave_ibss E s = r92su_disconnect E s"

definition r92su_disconnect_work :: "'w r92su \<Rightarrow> 'w r92su option" where
  "r92su_disconnect_work s = r92su_bss_free_connected False s"

section \<open>Networks that a scan found\<close>

definition r92su_bss_init :: "nat \<Rightarrow> bytes \<Rightarrow> 'w r92su \<Rightarrow> 'w r92su option" where
  "r92su_bss_init b d s = do {
     f \<leftarrow> rd_mem d 0 SIZEOF_BSS;
     ie_length \<leftarrow> rd_le32 d 112;
     dtim \<leftarrow> r92su_get_dtim_period (drop SIZEOF_BSS d) (unat (ie_length - 12));
     upd_priv b (\<lambda>bp. bp\<lparr>bp_fw_bss := get_bss f, bp_dtim_period := dtim\<rparr>) s }"

text \<open>One entry of the list: the bytes of a description with its elements behind it.\<close>

definition bss_add_one :: "'w env \<Rightarrow> bytes \<Rightarrow> 'w r92su \<Rightarrow> 'w r92su option" where
  "bss_add_one E d s = do {
     f \<leftarrow> map_option get_bss (rd_mem d 0 SIZEOF_BSS);
     let chan_idx = sint (nc_frequency (bss_config f) - 1);
     let ie_len = sint (bss_ie_length f - 12);
     if chan_idx < 0 \<or> int (n_channels s) \<le> chan_idx then Some s
     else if ie_len < 0 then Some s
     else do {
       ie \<leftarrow> rd_mem d SIZEOF_BSS (nat ie_len);
       (case cfg80211_inform_bss E \<lparr>inf_channel = nat chan_idx, inf_bssid = bss_bssid f, inf_tsf = fi_timestamp (bss_ies f),
           inf_capability = fi_caps (bss_ies f), inf_beacon_interval = ucast (nc_beacon_period (bss_config f)),
           inf_ie = ie, inf_signal = bss_rssi f\<rparr> (bsss s) of
          (None, h) \<Rightarrow> Some (s\<lparr>bsss := h\<rparr>)
        | (Some b, h) \<Rightarrow> do {
            s \<leftarrow> r92su_bss_init b d (s\<lparr>bsss := h\<rparr>);
            Some (emit (Cfg80211_put_bss b) s) }) } }"

fun bss_add_all :: "'w env \<Rightarrow> bytes list \<Rightarrow> 'w r92su \<Rightarrow> 'w r92su option" where
  "bss_add_all E [] s = Some s"
| "bss_add_all E (d # ds) s = do { s \<leftarrow> bss_add_one E d s; bss_add_all E ds s }"

definition r92su_bss_add_work :: "'w env \<Rightarrow> 'w r92su \<Rightarrow> 'w r92su option" where
  "r92su_bss_add_work E s = bss_add_all E (add_bss_list s) (s\<lparr>add_bss_list := []\<rparr>)"

section \<open>The end of a join\<close>

abbreviation (input) WLAN_STATUS_SUCCESS :: u16 where "WLAN_STATUS_SUCCESS \<equiv> 0"
abbreviation (input) WLAN_STATUS_UNSPECIFIED_FAILURE :: u16 where "WLAN_STATUS_UNSPECIFIED_FAILURE \<equiv> 1"

text \<open>
  The fields of the stored event that the work item reads; a read behind the end of a short event is
  \<open>None\<close>. The elements of the answer start at byte 156.
\<close>

definition join_ie_length :: "bytes \<Rightarrow> u32 option" where "join_ie_length d = rd_le32 d 140"
definition join_result :: "bytes \<Rightarrow> u32 option" where "join_result d = rd_le32 d 24"
definition join_aid :: "bytes \<Rightarrow> u32 option" where "join_aid d = rd_le32 d 20"
definition join_privacy :: "bytes \<Rightarrow> u32 option" where "join_privacy d = rd_le32 d 76"
definition join_bssid :: "bytes \<Rightarrow> bytes option" where "join_bssid d = rd_mem d 32 6"

text \<open>The accepted join: the status, the length of the answer's elements, and the state.\<close>

definition join_accept ::
    "'w env \<Rightarrow> nat \<Rightarrow> bytes \<Rightarrow> 'w r92su \<Rightarrow> (u16 \<times> nat option \<times> 'w r92su) option" where
  "join_accept E b join s = do {
     bssid \<leftarrow> join_bssid join;
     aid \<leftarrow> join_aid join;
     (sta, s) \<leftarrow> r92su_sta_alloc E (Some bssid) BSS_MACID aid s;
     (case sta of
        None \<Rightarrow> Some (WLAN_STATUS_UNSPECIFIED_FAILURE, None, s)
      | Some p \<Rightarrow> do {
          ie_length \<leftarrow> join_ie_length join;
          let resp_ie = drop 156 join;
          let resp_ie_len = unat (ie_length - 12);
          privacy \<leftarrow> join_privacy join;
          qos \<leftarrow> r92su_parse_wmm_cap_ie resp_ie resp_ie_len;
          ht \<leftarrow> (if qos then r92su_parse_ht_cap_ie resp_ie resp_ie_len else Some False);
          a \<leftarrow> stas s p;
          let s = s\<lparr>stas := (stas s)(p \<mapsto> a\<lparr>sta_qos_sta := qos, sta_ht_sta := ht, sta_enc_sta := privacy \<noteq> 0\<rparr>)\<rparr>;
          s \<leftarrow> upd_priv b (\<lambda>bp. bp\<lparr>bp_sta := Some p\<rparr>) s;
          Some (WLAN_STATUS_SUCCESS, Some resp_ie_len,
            r92su_set_state R92SU_CONNECTED (s\<lparr>connect_bss := Some b, want_connect_bss := None\<rparr>)) }) }"

definition join_attempt ::
    "'w env \<Rightarrow> nat \<Rightarrow> bytes \<Rightarrow> 'w r92su \<Rightarrow> (u16 \<times> nat option \<times> 'w r92su) option" where
  "join_attempt E b join s = do {
     ie_length \<leftarrow> join_ie_length join;
     if ie_length < 12 then Some (WLAN_STATUS_UNSPECIFIED_FAILURE, None, s)
     else do {
       res \<leftarrow> join_result join;
       if res = 0 then Some (WLAN_STATUS_UNSPECIFIED_FAILURE, None, s) else join_accept E b join s } }"

text \<open>The report to cfg80211 and the release of the elements of the request.\<close>

definition join_report ::
    "'w env \<Rightarrow> nat \<Rightarrow> bytes \<Rightarrow> u16 \<Rightarrow> nat option \<Rightarrow> 'w r92su \<Rightarrow> 'w r92su option" where
  "join_report E b join status resp s = do {
     bp \<leftarrow> r92su_get_bss_priv s b;
     s \<leftarrow> (case iftype s of
        IFTYPE_STATION \<Rightarrow> do {
          bssid \<leftarrow> join_bssid join;
          assoc_ie \<leftarrow> (case bp_assoc_ie bp of None \<Rightarrow> Some None | Some a \<Rightarrow> map_option Some (bufs s a));
          resp_ie \<leftarrow> (case resp of None \<Rightarrow> Some None | Some n \<Rightarrow> map_option Some (rd_mem join 156 n));
          let s = emit (Cfg80211_connect_result bssid assoc_ie resp_ie status) s;
          if status = WLAN_STATUS_SUCCESS then r92su_set_power E True s else Some s }
      | IFTYPE_ADHOC \<Rightarrow>
          (if status = WLAN_STATUS_SUCCESS
           then do { bssid \<leftarrow> join_bssid join; Some (emit (Cfg80211_ibss_joined bssid) s) } else Some s)
      | _ \<Rightarrow> Some s);
     s \<leftarrow> kfree (bp_assoc_ie bp) s;
     upd_priv b (\<lambda>bp. bp\<lparr>bp_assoc_ie := None\<rparr>) s }"

text \<open>
  The work item. When there is no wanted network the stored event is released although
  \<open>connect_result\<close> still points to it.
\<close>

definition r92su_bss_connect_work :: "'w env \<Rightarrow> 'w r92su \<Rightarrow> 'w r92su option" where
  "r92su_bss_connect_work E s =
     (if \<not> r92su_is_open s then Some s
      else case (want_connect_bss s, connect_result s) of
        (Some b, Some j) \<Rightarrow> do {
          join \<leftarrow> bufs s j;
          (status, resp, s) \<leftarrow> join_attempt E b join (s\<lparr>connect_result := None\<rparr>);
          s \<leftarrow> join_report E b join status resp s;
          s \<leftarrow> kfree (Some j) s;
          if status = WLAN_STATUS_SUCCESS
            then Some (emit Netif_carrier_on (emit Netif_tx_start_all_queues s))
            else r92su_bss_free (Some b) s }
      | (b, j) \<Rightarrow> do { s \<leftarrow> kfree j s; r92su_bss_free b s })"

end
