(* ===== verification/R92_Debugfs.thy ===== *)
theory R92_Debugfs
  imports R92_Conn R92_Hw R92_Eeprom
begin

text \<open>
  The files of debugfs (\<open>debugfs.c\<close>): text about the state of the driver, and register accesses on
  request. The accesses that were made are kept in a ring until the file is read. The output is built
  by \<open>snprintf\<close>, whose result is the length of the whole text, and copied to the reader up to the sum
  of these lengths; the input is taken apart by \<open>sscanf\<close>.
\<close>

section \<open>Formatted output\<close>

abbreviation (input) E2BIG :: int where "E2BIG \<equiv> 7"
abbreviation (input) EFAULT :: int where "EFAULT \<equiv> 14"
abbreviation (input) ENOSYS :: int where "ENOSYS \<equiv> 38"
abbreviation (input) PAGE_SIZE :: nat where "PAGE_SIZE \<equiv> 4096"

definition lit :: "string \<Rightarrow> bytes" where
  "lit = map of_char"

definition nl :: bytes where
  "nl = [10]"

definition digit :: "nat \<Rightarrow> u8" where
  "digit d = (if d < 10 then of_nat (48 + d) else of_nat (87 + d))"

fun num_text :: "nat \<Rightarrow> nat \<Rightarrow> bytes" where
  "num_text b n = (if n < b \<or> b < 2 then [digit n] else num_text b (n div b) @ [digit (n mod b)])"

declare num_text.simps [simp del]

definition pad_left :: "nat \<Rightarrow> u8 \<Rightarrow> bytes \<Rightarrow> bytes" where
  "pad_left k c t = replicate (k - length t) c @ t"

definition fmt_x :: "nat \<Rightarrow> nat \<Rightarrow> bytes" where
  "fmt_x precision n = pad_left precision 48 (num_text 16 n)"

definition fmt_d :: "u32 \<Rightarrow> bytes" where
  "fmt_d w = (if sint w < 0 then 45 # num_text 10 (nat (- sint w)) else num_text 10 (nat (sint w)))"

definition fmt_pM :: "bytes \<Rightarrow> bytes" where
  "fmt_pM mac = concat (map (\<lambda>i. (if i = 0 then [] else [58]) @ fmt_x 2 (unat (mac ! i))) [0..<6])"

text \<open>
  \<open>ADD\<close> prints at the offset into what is left of the buffer. The size that is left is a \<open>size_t\<close>: it
  wraps when the offset has passed the end, and \<open>snprintf\<close> of the kernel refuses sizes above \<open>INT_MAX\<close>.
\<close>

definition ADD :: "nat \<Rightarrow> bytes \<Rightarrow> bytes \<times> nat \<Rightarrow> (bytes \<times> nat) option" where
  "ADD cap text p = (case p of (buf, off) \<Rightarrow>
     let size = of_nat cap - of_nat off :: u64 in
     if 0x7fffffff < size then Some (buf, off)
     else if size = 0 then Some (buf, off + length text)
     else map_option (\<lambda>buf. (buf, off + length text)) (wr_mem buf off (take (unat size - 1) text @ [0])))"

fun ADDS :: "nat \<Rightarrow> bytes list \<Rightarrow> bytes \<times> nat \<Rightarrow> (bytes \<times> nat) option" where
  "ADDS cap [] p = Some p"
| "ADDS cap (t # ts) p = Option.bind (ADD cap t p) (ADDS cap ts)"

section \<open>Formatted input\<close>

text \<open>
  The directives of the two formats: a byte that must match, white space, a hexadecimal and a decimal
  number. The buffer has no end mark, so scanning past its last byte is \<open>None\<close>; a directive that fails
  ends the scan with what was converted.
\<close>

datatype scan_item = Lit u8 | Blank | Hex | Dec

definition isspace :: "u8 \<Rightarrow> bool" where
  "isspace c \<longleftrightarrow> c \<in> {9, 10, 11, 12, 13, 32, 160}"

definition digit_val :: "u8 \<Rightarrow> nat option" where
  "digit_val c = (let n = unat c in
     if 48 \<le> n \<and> n < 58 then Some (n - 48)
     else if 65 \<le> n \<and> n < 71 then Some (n - 55)
     else if 97 \<le> n \<and> n < 103 then Some (n - 87) else None)"

definition is_digit :: "nat \<Rightarrow> u8 \<Rightarrow> bool" where
  "is_digit b c = (case digit_val c of None \<Rightarrow> False | Some d \<Rightarrow> d < b)"

fun skip_spaces :: "bytes \<Rightarrow> bytes option" where
  "skip_spaces [] = None"
| "skip_spaces (c # cs) = (if isspace c then skip_spaces cs else Some (c # cs))"

fun scan_digits :: "nat \<Rightarrow> u32 \<Rightarrow> bytes \<Rightarrow> (u32 \<times> bytes) option" where
  "scan_digits b v [] = None"
| "scan_digits b v (c # cs) =
     (if is_digit b c then scan_digits b (v * of_nat b + of_nat (the (digit_val c))) cs else Some (v, c # cs))"

text \<open>A prefix \<open>0x\<close> of a hexadecimal number is skipped, a decimal number may have a sign.\<close>

definition scan_number :: "scan_item \<Rightarrow> bytes \<Rightarrow> (u32 \<times> bytes) option option" where
  "scan_number item cs = do {
     c \<leftarrow> rd8 cs 0;
     if c = 0 then Some None
     else do {
       cs \<leftarrow> skip_spaces cs;
       c \<leftarrow> rd8 cs 0;
       if item = Dec then
         (if c = 45 then do {
            c \<leftarrow> rd8 cs 1;
            if is_digit 10 c then do { (v, cs) \<leftarrow> scan_digits 10 0 (tl cs); Some (Some (- v, cs)) } else Some None }
          else if is_digit 10 c then map_option Some (scan_digits 10 0 cs) else Some None)
       else if \<not> is_digit 16 c then Some None
       else if c \<noteq> 48 then map_option Some (scan_digits 16 0 cs)
       else do {
         x \<leftarrow> rd8 cs 1;
         map_option Some (scan_digits 16 0 (if x \<in> {88, 120} then drop 2 cs else cs)) } } }"

fun sscanf :: "scan_item list \<Rightarrow> bytes \<Rightarrow> u32 list option" where
  "sscanf [] cs = Some []"
| "sscanf (Lit b # f) cs = (case cs of [] \<Rightarrow> None | c # cs \<Rightarrow> if b = c then sscanf f cs else Some [])"
| "sscanf (Blank # f) cs = Option.bind (skip_spaces cs) (sscanf f)"
| "sscanf (item # f) cs = (case scan_number item cs of
     None \<Rightarrow> None | Some None \<Rightarrow> Some [] | Some (Some (v, cs)) \<Rightarrow> map_option ((#) v) (sscanf f cs))"

definition ioread_format :: "scan_item list" where
  "ioread_format = [Lit 48, Lit 120, Hex, Blank, Dec]"

definition iowrite_format :: "scan_item list" where
  "iowrite_format = [Lit 48, Lit 120, Hex, Blank, Lit 48, Lit 120, Hex, Blank, Dec]"

section \<open>The files\<close>

datatype debugfs_file =
  Dfs_tx_pending_urbs | Dfs_hw_ioread | Dfs_hw_iowrite | Dfs_chip_rev | Dfs_eeprom_type | Dfs_rf_type |
  Dfs_sta_table | Dfs_connected_bss | Dfs_eeprom | Dfs_eeprom_raw | Dfs_h2c_seq | Dfs_c2h_seq |
  Dfs_cpwm | Dfs_rpwm | Dfs_rx_queue_len

definition dfs_read_bufsize :: "debugfs_file \<Rightarrow> nat" where
  "dfs_read_bufsize f = (case f of
     Dfs_eeprom \<Rightarrow> 1024 | Dfs_eeprom_raw \<Rightarrow> 1024 | Dfs_sta_table \<Rightarrow> 1024 | Dfs_connected_bss \<Rightarrow> 1024
   | Dfs_hw_ioread \<Rightarrow> 160 + R92SU_DEBUG_RING_SIZE * 40 | Dfs_hw_iowrite \<Rightarrow> 0
   | Dfs_rx_queue_len \<Rightarrow> 20 | _ \<Rightarrow> 12)"

definition dfs_req_dev_state :: r92su_state_t where
  "dfs_req_dev_state = R92SU_OPEN"

fun mem_type_nr :: "r92su_mem_type_t \<Rightarrow> nat" where
  "mem_type_nr R92SU_8 = 0"
| "mem_type_nr R92SU_16 = 1"
| "mem_type_nr R92SU_32 = 2"

definition meminfo :: "bytes list" where
  "meminfo = [lit ''byte'', lit ''word'', lit '' int'']"

fun eeprom_type_nr :: "r92su_eeprom_type \<Rightarrow> nat" where
  "eeprom_type_nr EEPROM_93C46 = 0"
| "eeprom_type_nr EEPROM_93C56 = 1"
| "eeprom_type_nr EEPROM_BOOT_EFUSE = 2"

subsection \<open>One line\<close>

definition decimal_line :: "u32 \<Rightarrow> bytes" where
  "decimal_line w = fmt_d w @ nl"

definition hex_line :: "nat \<Rightarrow> bytes" where
  "hex_line n = lit ''0x'' @ fmt_x 1 n @ nl"

subsection \<open>The adapter information\<close>

text \<open>The little-endian fields are printed as a little-endian host reads them, without conversion.\<close>

definition eeprom_texts :: "bytes \<Rightarrow> bytes list option" where
  "eeprom_texts e = do {
     n \<leftarrow> rd_le16 e 0; hpon \<leftarrow> rd_le16 e 2; clk \<leftarrow> rd_le16 e 4; testr \<leftarrow> rd_le16 e 6;
     vid \<leftarrow> rd_le16 e 8; did \<leftarrow> rd_le16 e 10; opt \<leftarrow> rd8 e 12; phy \<leftarrow> rd_mem e 13 5; mac \<leftarrow> rd_mem e 18 6;
     ver \<leftarrow> rd8 e 80; plan \<leftarrow> rd8 e 81; cust \<leftarrow> rd8 e 82; sub \<leftarrow> rd8 e 83; board \<leftarrow> rd8 e 84;
     Some [lit ''id:           '' @ fmt_x 4 (unat n) @ nl,
           lit ''hpon:         '' @ fmt_x 4 (unat hpon) @ nl,
           lit ''clk:          '' @ fmt_x 4 (unat clk) @ nl,
           lit ''testr:        '' @ fmt_x 4 (unat testr) @ nl,
           lit ''vid:          '' @ fmt_x 4 (unat vid) @ nl,
           lit ''did:          '' @ fmt_x 4 (unat did) @ nl,
           lit ''usb_optional: '' @ fmt_x 2 (unat opt) @ nl,
           lit ''usb_phy_parm: '' @ fmt_x 2 (unat (phy ! 0)) @ lit '' '' @ fmt_x 2 (unat (phy ! 1)) @ lit '' '' @
             fmt_x 2 (unat (phy ! 2)) @ lit '' '' @ fmt_x 2 (unat (phy ! 3)) @ lit '' '' @ fmt_x 2 (unat (phy ! 4)) @ nl,
           lit ''mac_addr:     '' @ fmt_pM mac @ nl,
           lit ''version:      '' @ fmt_x 2 (unat ver) @ nl,
           lit ''channel plan: '' @ fmt_x 2 (unat plan) @ nl,
           lit ''custom_id:    '' @ fmt_x 2 (unat cust) @ nl,
           lit ''sub_custom_id:'' @ fmt_x 2 (unat sub) @ nl,
           lit ''board_type:   '' @ fmt_x 2 (unat board) @ nl] }"

definition r92su_debugfs_eeprom_read :: "bytes \<Rightarrow> nat \<Rightarrow> 'w r92su \<Rightarrow> (bytes \<times> nat) option" where
  "r92su_debugfs_eeprom_read buf buf_size s = do {
     ts \<leftarrow> eeprom_texts (eeprom s);
     ADDS buf_size ts (buf, 0) }"

definition r92su_debugfs_eeprom_raw_read :: "bytes \<Rightarrow> nat \<Rightarrow> 'w r92su \<Rightarrow> (bytes \<times> nat) option" where
  "r92su_debugfs_eeprom_raw_read buf buf_size s = do {
     let len = min SIZEOF_EEPROM buf_size;
     d \<leftarrow> rd_mem (eeprom s) 0 len;
     buf \<leftarrow> wr_mem buf 0 d;
     Some (buf, len) }"

subsection \<open>Stations and the connected network\<close>

definition key_text :: "r92su_key \<Rightarrow> bytes" where
  "key_text key = lit ''key: type:'' @ fmt_d (ucast (enc_alg_nr (key_type key))) @ lit '', key_len:'' @
     fmt_d (of_nat (key_len key)) @ lit '', idx:'' @ fmt_d (key_index key) @ nl"

definition sta_text :: "r92su_sta \<Rightarrow> bytes" where
  "sta_text sta = lit ''mac_addr:'' @ fmt_pM (sta_mac_addr sta) @ lit '' aid:'' @ fmt_d (sta_aid sta) @
     lit '' id2:'' @ fmt_d (sta_mac_id sta) @ lit '' enc:'' @ fmt_d (bool_word (sta_enc_sta sta)) @
     lit '' qos:'' @ fmt_d (bool_word (sta_qos_sta sta)) @ lit '' ht:'' @ fmt_d (bool_word (sta_ht_sta sta)) @ nl"

definition sta_row :: "'w r92su \<Rightarrow> nat \<Rightarrow> bytes list option" where
  "sta_row s i = do {
     found \<leftarrow> r92su_sta_get_by_macid s (of_nat i);
     let head = lit ''mac_id: '' @ pad_left 2 32 (fmt_d (of_nat i)) @ lit '' '';
     case found of
       None \<Rightarrow> Some [head, lit '' - empty -'' @ nl]
     | Some p \<Rightarrow> do {
         sta \<leftarrow> stas s p;
         case sta_key sta of
           None \<Rightarrow> Some [head, sta_text sta]
         | Some k \<Rightarrow> do { key \<leftarrow> keys s k; Some [head, sta_text sta, key_text key] } } }"

fun sta_rows :: "'w r92su \<Rightarrow> nat list \<Rightarrow> bytes list option" where
  "sta_rows s [] = Some []"
| "sta_rows s (i # is) = do { r \<leftarrow> sta_row s i; rs \<leftarrow> sta_rows s is; Some (r @ rs) }"

definition r92su_debugfs_sta_table_read :: "bytes \<Rightarrow> nat \<Rightarrow> 'w r92su \<Rightarrow> (bytes \<times> nat) option" where
  "r92su_debugfs_sta_table_read buf buf_size s = do {
     ts \<leftarrow> sta_rows s [0..<MAX_STA];
     ADDS buf_size ts (buf, 0) }"

fun group_key_texts :: "'w r92su \<Rightarrow> nat option list \<Rightarrow> bytes list option" where
  "group_key_texts s [] = Some []"
| "group_key_texts s (None # ks) = group_key_texts s ks"
| "group_key_texts s (Some k # ks) = do { key \<leftarrow> keys s k; ts \<leftarrow> group_key_texts s ks; Some (key_text key # ts) }"

text \<open>The frequency of the channel of the network is kept by cfg80211: \<open>freq\<close>.\<close>

definition r92su_debugfs_connected_bss_read :: "(nat \<Rightarrow> u32) \<Rightarrow> bytes \<Rightarrow> nat \<Rightarrow> 'w r92su \<Rightarrow> (bytes \<times> nat) option" where
  "r92su_debugfs_connected_bss_read freq buf buf_size s = (case connect_bss s of
     None \<Rightarrow> Some (buf, 0)
   | Some b \<Rightarrow> do {
       bss \<leftarrow> bsss s b;
       let bss_priv = cb_priv bss;
       p \<leftarrow> bp_sta bss_priv;
       sta \<leftarrow> stas s p;
       ks \<leftarrow> group_key_texts s (bp_group_key bss_priv);
       ADDS buf_size
         ([lit ''BSSID:'' @ fmt_pM (cb_bssid bss) @ lit '' bcn:'' @ fmt_d (ucast (cb_beacon_interval bss)) @
             lit '' capa:'' @ fmt_d (ucast (cb_capability bss)) @ lit '' freq:'' @ fmt_d (freq b) @ nl,
           lit ''mac-id:'' @ fmt_d (sta_mac_id sta) @ lit '', default multi key index:'' @
             fmt_d (of_nat (bp_def_multi_key_idx bss_priv)) @ lit '', '' @ fmt_d (of_nat (bp_def_uni_key_idx bss_priv)) @ nl] @ ks)
         (buf, 0) })"

subsection \<open>Register accesses\<close>

definition ring_push :: "r92su_debug_mem_rbe \<Rightarrow> r92su_debug \<Rightarrow> r92su_debug option" where
  "ring_push rbe d =
     (if length (dbg_ring d) \<le> ring_tail d then None
      else let d = d\<lparr>dbg_ring := (dbg_ring d)[ring_tail d := rbe],
                     ring_tail := (ring_tail d + 1) mod R92SU_DEBUG_RING_SIZE\<rparr> in
        Some (if ring_len d < R92SU_DEBUG_RING_SIZE then d\<lparr>ring_len := ring_len d + 1\<rparr> else d))"

definition ioread_reg :: "'w env \<Rightarrow> u32 \<Rightarrow> u32 \<Rightarrow> 'w r92su \<Rightarrow> ((u32 \<times> r92su_mem_type_t) option) \<times> 'w r92su" where
  "ioread_reg E reg n s =
     (if n = 4 then case run_state (r92su_read32 E reg) s of (v, s) \<Rightarrow> (Some (v, R92SU_32), s)
      else if n = 2 then case run_state (r92su_read16 E reg) s of (v, s) \<Rightarrow> (Some (ucast v, R92SU_16), s)
      else if n = 1 then case run_state (r92su_read8 E reg) s of (v, s) \<Rightarrow> (Some (ucast v, R92SU_8), s)
      else (None, s))"

definition r92su_debugfs_hw_ioread_write :: "'w env \<Rightarrow> bytes \<Rightarrow> 'w r92su \<Rightarrow> (int \<times> 'w r92su) option" where
  "r92su_debugfs_hw_ioread_write E buf s =
     (if length buf = 0 then Some (0, s)
      else if 32 < length buf then Some (- E2BIG, s)
      else do {
        args \<leftarrow> sscanf ioread_format buf;
        case args of
          [] \<Rightarrow> Some (- EINVAL, s)
        | reg # ns \<Rightarrow>
            (case ioread_reg E reg (if ns = [] then 1 else hd ns) s of
               (None, s) \<Rightarrow> Some (- EMSGSIZE, s)
             | (Some (v, ty), s) \<Rightarrow> do {
                 d \<leftarrow> ring_push \<lparr>rbe_reg = reg, rbe_value = v, rbe_type = ty\<rparr> (debug s);
                 Some (int (length buf), s\<lparr>debug := d\<rparr>) }) })"

definition rbe_texts :: "r92su_debug_mem_rbe \<Rightarrow> bytes list" where
  "rbe_texts rbe =
     [fmt_x 4 (unat (rbe_reg rbe)) @ lit '' = '' @ fmt_x 8 (unat (rbe_value rbe)) @ lit '' ['' @
       meminfo ! mem_type_nr (rbe_type rbe) @ lit '']''] @
     map (\<lambda>i. (if bit (rbe_value rbe) i then lit ''X'' else lit '' '') @ (if i mod 8 = 0 then lit '' '' else []))
       (rev [0..<32]) @ [nl]"

text \<open>The loop that empties the ring: one round for each entry that is counted.\<close>

fun ioread_loop :: "nat \<Rightarrow> nat \<Rightarrow> r92su_debug \<Rightarrow> bytes \<times> nat \<Rightarrow> ((bytes \<times> nat) \<times> r92su_debug) option" where
  "ioread_loop cap 0 d p = Some (p, d)"
| "ioread_loop cap (Suc n) d p =
     (if length (dbg_ring d) \<le> ring_head d then None
      else do {
        p \<leftarrow> ADDS cap (rbe_texts (dbg_ring d ! ring_head d)) p;
        ioread_loop cap n (d\<lparr>ring_head := (ring_head d + 1) mod R92SU_DEBUG_RING_SIZE, ring_len := ring_len d - 1\<rparr>) p })"

definition ioread_head :: "bytes list" where
  "ioread_head =
     [lit ''                      33222222 22221111 11111100 00000000'' @ nl,
      lit ''                      10987654 32109876 54321098 76543210'' @ nl]"

definition r92su_debugfs_hw_ioread_read :: "bytes \<Rightarrow> nat \<Rightarrow> 'w r92su \<Rightarrow> ((bytes \<times> nat) \<times> 'w r92su) option" where
  "r92su_debugfs_hw_ioread_read buf bufsize s = do {
     p \<leftarrow> ADDS bufsize ioread_head (buf, 0);
     (p, d) \<leftarrow> ioread_loop bufsize (ring_len (debug s)) (debug s) p;
     Some (p, s\<lparr>debug := d\<lparr>ring_head := ring_tail d\<rparr>\<rparr>) }"

definition iowrite_reg :: "'w env \<Rightarrow> u32 \<Rightarrow> u32 \<Rightarrow> u32 \<Rightarrow> 'w r92su \<Rightarrow> int \<times> 'w r92su" where
  "iowrite_reg E reg val n s =
     (if n = 4 then (0, snd (run_state (r92su_write32 E reg val) s))
      else if n = 2 then (0, snd (run_state (r92su_write16 E reg (ucast val)) s))
      else if n = 1 then (0, snd (run_state (r92su_write8 E reg (ucast val)) s))
      else (- EINVAL, s))"

definition r92su_debugfs_hw_iowrite_write :: "'w env \<Rightarrow> bytes \<Rightarrow> 'w r92su \<Rightarrow> (int \<times> 'w r92su) option" where
  "r92su_debugfs_hw_iowrite_write E buf s =
     (if length buf = 0 then Some (0, s)
      else if 22 < length buf then Some (- E2BIG, s)
      else do {
        args \<leftarrow> sscanf iowrite_format buf;
        if length args < 2 then Some (- EINVAL, s)
        else case iowrite_reg E (args ! 0) (args ! 1) (if length args = 2 then 1 else args ! 2) s of
          (err, s) \<Rightarrow> Some (if err \<noteq> 0 then err else int (length buf), s) })"

section \<open>The file operations\<close>

text \<open>The \<open>read\<close> member of the operations of a file; \<open>None\<close> is the null pointer.\<close>

definition dfs_read ::
    "(nat \<Rightarrow> u32) \<Rightarrow> debugfs_file \<Rightarrow> (bytes \<Rightarrow> nat \<Rightarrow> 'w r92su \<Rightarrow> ((bytes \<times> nat) \<times> 'w r92su) option) option" where
  "dfs_read freq f =
     (let pure = (\<lambda>rd. Some (\<lambda>buf n s. map_option (\<lambda>p. (p, s)) (rd buf n s)));
          line = (\<lambda>t. pure (\<lambda>buf n s. ADDS n [t s] (buf, 0))) in
      case f of
        Dfs_tx_pending_urbs \<Rightarrow> line (\<lambda>s. decimal_line (word_of_int (tx_pending_urbs s)))
      | Dfs_hw_ioread \<Rightarrow> Some r92su_debugfs_hw_ioread_read
      | Dfs_hw_iowrite \<Rightarrow> None
      | Dfs_chip_rev \<Rightarrow> line (\<lambda>s. hex_line (unat (chip_rev_nr (chip_rev s))))
      | Dfs_eeprom_type \<Rightarrow> line (\<lambda>s. hex_line (eeprom_type_nr (eeprom_type s)))
      | Dfs_rf_type \<Rightarrow> line (\<lambda>s. hex_line (unat (rf_type_nr (rf_type s))))
      | Dfs_sta_table \<Rightarrow> pure r92su_debugfs_sta_table_read
      | Dfs_connected_bss \<Rightarrow> pure (r92su_debugfs_connected_bss_read freq)
      | Dfs_eeprom \<Rightarrow> pure r92su_debugfs_eeprom_read
      | Dfs_eeprom_raw \<Rightarrow> pure r92su_debugfs_eeprom_raw_read
      | Dfs_h2c_seq \<Rightarrow> line (\<lambda>s. decimal_line (ucast (h2c_seq s)))
      | Dfs_c2h_seq \<Rightarrow> line (\<lambda>s. decimal_line (ucast (c2h_seq s)))
      | Dfs_cpwm \<Rightarrow> line (\<lambda>s. hex_line (unat (cpwm s)))
      | Dfs_rpwm \<Rightarrow> line (\<lambda>s. hex_line (unat (rpwm s)))
      | Dfs_rx_queue_len \<Rightarrow> line (\<lambda>s. decimal_line (of_nat (length (rx_queue s)))))"

definition dfs_write :: "'w env \<Rightarrow> debugfs_file \<Rightarrow> (bytes \<Rightarrow> 'w r92su \<Rightarrow> (int \<times> 'w r92su) option) option" where
  "dfs_write E f = (case f of
     Dfs_hw_ioread \<Rightarrow> Some (r92su_debugfs_hw_ioread_write E)
   | Dfs_hw_iowrite \<Rightarrow> Some (r92su_debugfs_hw_iowrite_write E)
   | _ \<Rightarrow> None)"

text \<open>
  What \<open>simple_read_from_buffer\<close> copies to the reader: at most \<open>cnt\<close> of the \<open>available\<close> bytes from the
  position on.
\<close>

definition simple_read_from_buffer :: "nat \<Rightarrow> nat \<Rightarrow> bytes \<Rightarrow> nat \<Rightarrow> bytes option" where
  "simple_read_from_buffer cnt pos from available =
     (if available \<le> pos then Some [] else rd_mem from pos (min cnt (available - pos)))"

definition r92su_debugfs_read ::
    "'w env \<Rightarrow> (nat \<Rightarrow> u32) \<Rightarrow> debugfs_file \<Rightarrow> nat \<Rightarrow> nat \<Rightarrow> 'w r92su \<Rightarrow> (int \<times> bytes \<times> 'w r92su) option" where
  "r92su_debugfs_read E freq f cnt ppos s =
     (if cnt = 0 then Some (0, [], s)
      else case dfs_read freq f of
        None \<Rightarrow> Some (- ENOSYS, [], s)
      | Some rd \<Rightarrow>
          (case if dfs_read_bufsize f \<noteq> 0 then kmalloc E s else (True, s) of (ok, s) \<Rightarrow>
           if \<not> ok then Some (- ENOMEM, [], s)
           else if r_state s < dfs_req_dev_state then Some (- ENODEV, [], s)
           else do {
             ((buf, len), s) \<leftarrow> rd (stack_garbage E (dfs_read_bufsize f)) (dfs_read_bufsize f) s;
             if 0 < len then do {
               out \<leftarrow> simple_read_from_buffer cnt ppos buf len;
               Some (int (length out), out, s) }
             else Some (0, [], s) }))"

text \<open>\<open>fault\<close>: the bytes cannot be copied from the writer; \<open>held\<close>: another thread holds the mutex.\<close>

definition r92su_debugfs_write ::
    "'w env \<Rightarrow> debugfs_file \<Rightarrow> bool \<Rightarrow> bool \<Rightarrow> bytes \<Rightarrow> 'w r92su \<Rightarrow> (int \<times> 'w r92su) option" where
  "r92su_debugfs_write E f fault held buf s =
     (if length buf = 0 then Some (0, s)
      else if PAGE_SIZE < length buf then Some (- E2BIG, s)
      else case dfs_write E f of
        None \<Rightarrow> Some (- ENOSYS, s)
      | Some wr \<Rightarrow>
          (case kmalloc E s of (ok, s) \<Rightarrow>
           if \<not> ok then Some (- ENOMEM, s)
           else if fault then Some (- EFAULT, s)
           else if held then Some (- EAGAIN, s)
           else if r_state s < dfs_req_dev_state then Some (- ENODEV, s)
           else wr buf s))"

subsection \<open>Registration\<close>

abbreviation (input) S_IRUSR :: "9 word" where "S_IRUSR \<equiv> 0x100"
abbreviation (input) S_IWUSR :: "9 word" where "S_IWUSR \<equiv> 0x80"

definition dfs_attr :: "debugfs_file \<Rightarrow> 9 word" where
  "dfs_attr f = (case f of Dfs_hw_ioread \<Rightarrow> S_IRUSR OR S_IWUSR | Dfs_hw_iowrite \<Rightarrow> S_IWUSR | _ \<Rightarrow> S_IRUSR)"

definition debugfs_files :: "debugfs_file list" where
  "debugfs_files = [Dfs_tx_pending_urbs, Dfs_hw_ioread, Dfs_hw_iowrite, Dfs_chip_rev, Dfs_eeprom_type, Dfs_rf_type,
     Dfs_sta_table, Dfs_connected_bss, Dfs_eeprom, Dfs_eeprom_raw, Dfs_h2c_seq, Dfs_c2h_seq, Dfs_cpwm, Dfs_rpwm,
     Dfs_rx_queue_len]"

definition r92su_register_debugfs :: "'w env \<Rightarrow> 'w r92su \<Rightarrow> int \<times> 'w r92su" where
  "r92su_register_debugfs E s = (if debugfs_create_dir E then (0, s\<lparr>dfs := True\<rparr>) else (- EINVAL, s))"

definition r92su_unregister_debugfs :: "'w r92su \<Rightarrow> 'w r92su" where
  "r92su_unregister_debugfs s = emit Unregister_debugfs (s\<lparr>dfs := False\<rparr>)"

text \<open>Every file is registered once, with the modes that its handlers serve.\<close>

lemma debugfs_modes:
  "distinct debugfs_files \<and> f \<in> set debugfs_files \<and>
   (bit (dfs_attr f) 8 \<longleftrightarrow> (dfs_read freq f :: (bytes \<Rightarrow> nat \<Rightarrow> 'w r92su \<Rightarrow> _) option) \<noteq> None) \<and>
   (bit (dfs_attr f) 7 \<longleftrightarrow> dfs_write E f \<noteq> None)"
  by (cases f) (simp_all add: debugfs_files_def dfs_attr_def dfs_read_def dfs_write_def Let_def bit_simps)

section \<open>Lengths of the texts\<close>

lemma length_lit [simp]: "length (lit t) = length t"
  by (simp add: lit_def)

lemma length_nl [simp]: "length nl = 1"
  by (simp add: nl_def)

lemma num_text_le: "2 \<le> b \<Longrightarrow> 0 < k \<Longrightarrow> n < b ^ k \<Longrightarrow> length (num_text b n) \<le> k"
proof (induction k arbitrary: n)
  case (Suc k)
  show ?case
  proof (cases "n < b")
    case True
    then show ?thesis by (simp add: num_text.simps [of b n])
  next
    case False
    with Suc.prems have "0 < k" by (cases k) simp_all
    moreover have "n < b ^ k * b" using Suc.prems by (simp add: mult.commute)
    then have "n div b < b ^ k" by (rule less_mult_imp_div_less)
    moreover note False
    ultimately have "0 < k" "n div b < b ^ k" by simp_all
    with Suc.IH [of "n div b"] Suc.prems False show ?thesis by (simp add: num_text.simps [of b n])
  qed
qed simp

lemma num_text_pos [simp]: "num_text b n \<noteq> []"
  by (simp add: num_text.simps [of b n])

lemma length_pad [simp]: "length (pad_left k c t) = max k (length t)"
  by (simp add: pad_left_def)

lemma length_fmt_x: "n < 16 ^ k \<Longrightarrow> 0 < k \<Longrightarrow> p \<le> k \<Longrightarrow> length (fmt_x p n) \<le> k"
  using num_text_le [of 16 k n] by (simp add: fmt_x_def)

lemma length_fmt_x_ge: "p \<le> length (fmt_x p n)"
  by (simp add: fmt_x_def)

lemma length_fmt_byte: "length (fmt_x 2 (unat (b :: u8))) = 2"
proof -
  have "unat b < 16 ^ 2" using unsigned_less [of b] by simp
  then show ?thesis using length_fmt_x [of "unat b" 2 2] length_fmt_x_ge [of 2 "unat b"] by simp
qed

lemma length_fmt_half: "length (fmt_x 4 (unat (w :: u16))) = 4"
proof -
  have "unat w < 16 ^ 4" using unsigned_less [of w] by simp
  then show ?thesis using length_fmt_x [of "unat w" 4 4] length_fmt_x_ge [of 4 "unat w"] by simp
qed

lemma length_fmt_word: "length (fmt_x 8 (unat (w :: u32))) = 8" "length (fmt_x 4 (unat w)) \<le> 8"
proof -
  have "unat w < 16 ^ 8" using unsigned_less [of w] by simp
  then show "length (fmt_x 8 (unat w)) = 8" "length (fmt_x 4 (unat w)) \<le> 8"
    using length_fmt_x [of "unat w" 8 8] length_fmt_x [of "unat w" 8 4] length_fmt_x_ge [of 8 "unat w"] by simp_all
qed

lemma length_fmt_d: "0 < length (fmt_d w)" "length (fmt_d w) \<le> 11"
proof -
  have b: "- (2 ^ 31) \<le> sint w" "sint w < 2 ^ 31"
    using sint_ge [of w] sint_lt [of w] by simp_all
  then have "nat (- sint w) < 10 ^ 10" "nat (sint w) < 10 ^ 10" by simp_all
  then show "length (fmt_d w) \<le> 11" using num_text_le [of 10 10] by (fastforce simp: fmt_d_def)
  show "0 < length (fmt_d w)" by (simp add: fmt_d_def)
qed

lemma length_fmt_pM [simp]: "length (fmt_pM mac) = 17"
  by (simp add: fmt_pM_def length_fmt_byte upt_rec)

section \<open>Printing\<close>

abbreviation total :: "bytes list \<Rightarrow> nat" where
  "total ts \<equiv> length (concat ts)"

lemma ADD_fits:
  assumes "length buf = cap" "cap \<le> 0x7fffffff" "off \<le> cap"
  shows "\<exists>buf'. ADD cap t (buf, off) = Some (buf', off + length t) \<and> length buf' = cap \<and>
    take off buf' = take off buf \<and> (off + length t < cap \<longrightarrow> take (off + length t) buf' = take off buf @ t)"
proof -
  have size: "unat (of_nat cap - of_nat off :: u64) = cap - off"
  proof -
    have "(of_nat cap - of_nat off :: u64) = of_nat (cap - off)" using assms(3) by (simp add: of_nat_diff)
    moreover have "unat (of_nat (cap - off) :: u64) = cap - off" unfolding unat_of_nat using assms(2) by simp
    ultimately show ?thesis by (simp only:)
  qed
  then have le: "\<not> (0x7fffffff :: u64) < of_nat cap - of_nat off"
    using assms by (simp add: word_less_nat_alt)
  show ?thesis
  proof (cases "off = cap")
    case True
    then show ?thesis using assms by (simp add: ADD_def)
  next
    case False
    with assms have "off < cap" by simp
    then have nz: "(of_nat cap - of_nat off :: u64) \<noteq> 0" using size by (metis unat_0 zero_less_diff less_irrefl)
    let ?t = "take (cap - off - 1) t @ [0]"
    have l: "off + length ?t \<le> length buf" using assms(1) \<open>off < cap\<close> by simp
    then have "wr_mem buf off ?t = Some (take off buf @ ?t @ drop (off + length ?t) buf)"
      by (simp only: wr_mem_def if_True)
    then have "ADD cap t (buf, off) = Some (take off buf @ ?t @ drop (off + length ?t) buf, off + length t)"
      using le nz size by (simp add: ADD_def Let_def)
    moreover have "length (take off buf @ ?t @ drop (off + length ?t) buf) = cap" using l assms by simp
    ultimately show ?thesis using assms \<open>off < cap\<close>
      by (intro exI [of _ "take off buf @ ?t @ drop (off + length ?t) buf"] conjI impI) auto
  qed
qed

lemma ADD_past:
  assumes "cap < off" "off < 2 ^ 62"
  shows "ADD cap t (buf, off) = Some (buf, off)"
proof -
  have "unat (of_nat cap - of_nat off :: u64) = 2 ^ 64 - (off - cap)"
  proof -
    have "unat (of_nat cap :: u64) = cap" "unat (of_nat off :: u64) = off"
      unfolding unat_of_nat using assms by simp_all
    then show ?thesis using assms by (simp add: unat_sub_if')
  qed
  then have "(0x7fffffff :: u64) < of_nat cap - of_nat off"
    using assms by (simp add: word_less_nat_alt)
  then show ?thesis by (simp add: ADD_def)
qed

lemma ADDS_past: "cap < off \<Longrightarrow> off < 2 ^ 62 \<Longrightarrow> ADDS cap ts (buf, off) = Some (buf, off)"
  by (induction ts) (simp_all add: ADD_past)

lemma ADDS_append: "ADDS cap (ts @ us) p = Option.bind (ADDS cap ts p) (ADDS cap us)"
proof (induction ts arbitrary: p)
  case (Cons t ts)
  then show ?case by (cases "ADD cap t p") simp_all
qed simp

text \<open>
  The offset after a sequence of prints: the sum of the lengths if that fits, and otherwise a value
  behind the end. Only what fits is written.
\<close>

lemma ADDS_ends:
  assumes "length buf = cap" "cap \<le> 0x7fffffff" "off \<le> cap" "\<forall>t \<in> set ts. length t \<le> 0x7fffffff"
  shows "\<exists>buf' off'. ADDS cap ts (buf, off) = Some (buf', off') \<and> length buf' = cap \<and> off' \<le> off + total ts \<and>
    (if off + total ts \<le> cap then off' = off + total ts else cap < off') \<and>
    (off + total ts < cap \<longrightarrow> take (off + total ts) buf' = take off buf @ concat ts)"
  using assms
proof (induction ts arbitrary: buf off)
  case (Cons t ts)
  obtain b where b: "ADD cap t (buf, off) = Some (b, off + length t)" "length b = cap"
    "off + length t < cap \<longrightarrow> take (off + length t) b = take off buf @ t"
    using ADD_fits [OF Cons.prems(1-3), of t] by blast
  show ?case
  proof (cases "off + length t \<le> cap")
    case True
    have "\<forall>t \<in> set ts. length t \<le> 0x7fffffff" using Cons.prems(4) by simp
    from Cons.IH [OF b(2) Cons.prems(2) True this] obtain buf' off' where
      "ADDS cap ts (b, off + length t) = Some (buf', off')" "length buf' = cap" "off' \<le> off + length t + total ts"
      "if off + length t + total ts \<le> cap then off' = off + length t + total ts else cap < off'"
      "off + length t + total ts < cap \<longrightarrow> take (off + length t + total ts) buf' = take (off + length t) b @ concat ts"
      by blast
    with b show ?thesis by (intro exI [of _ buf'] exI [of _ off']) (simp add: add.assoc)
  next
    case False
    moreover have "off + length t < 2 ^ 62" using Cons.prems by simp
    ultimately show ?thesis using b by (simp add: ADDS_past)
  qed
qed simp

section \<open>The ring\<close>

text \<open>The entries in the order in which reading the file prints them.\<close>

definition ring_entries :: "r92su_debug \<Rightarrow> r92su_debug_mem_rbe list" where
  "ring_entries d = map (\<lambda>i. dbg_ring d ! ((ring_head d + i) mod 64)) [0..<ring_len d]"

lemma length_ring_entries [simp]: "length (ring_entries d) = ring_len d"
  by (simp add: ring_entries_def)

lemma ring_ok_zero: "ring_ok zero_debug"
  by (simp add: ring_ok_def zero_debug_def)

fun ring_pushes :: "r92su_debug_mem_rbe list \<Rightarrow> r92su_debug \<Rightarrow> r92su_debug option" where
  "ring_pushes [] d = Some d"
| "ring_pushes (e # es) d = Option.bind (ring_push e d) (ring_pushes es)"

lemma ring_pushes_append: "ring_pushes (es @ fs) d = Option.bind (ring_pushes es d) (ring_pushes fs)"
proof (induction es arbitrary: d)
  case (Cons e es)
  then show ?case by (cases "ring_push e d") simp_all
qed simp

text \<open>What the slots hold after \<open>k\<close> accesses: slot \<open>i\<close> the last one whose number is \<open>i\<close> modulo 64.\<close>

definition last_at :: "'a list \<Rightarrow> nat \<Rightarrow> 'a" where
  "last_at es i = es ! (i + 64 * ((length es - 1 - i) div 64))"

lemma last_at_snoc:
  assumes "i < min 64 (Suc (length es))"
  shows "last_at (es @ [e]) i = (if i = length es mod 64 then e else last_at es i)"
proof (cases "i = length es mod 64")
  case True
  have "i + 64 * ((length es - i) div 64) = length es"
  proof -
    have "length es - i = 64 * (length es div 64)" using True by (simp add: minus_mod_eq_mult_div)
    then show ?thesis using True by simp
  qed
  then show ?thesis using True by (simp add: last_at_def)
next
  case False
  then have i: "i < length es" using assms by (cases "i = length es") (auto simp: min_def split: if_splits)
  have "(length es - i) mod 64 \<noteq> 0"
  proof
    assume "(length es - i) mod 64 = 0"
    then obtain q where "length es - i = 64 * q" by auto
    then have "length es = i + 64 * q" using i by simp
    with False assms show False by simp
  qed
  then obtain m where m: "length es - i = Suc m" "Suc m mod 64 \<noteq> 0" using i by (cases "length es - i") auto
  then have "Suc m div 64 = m div 64" by (simp add: div_Suc)
  moreover have "length es - Suc i = m" using m by simp
  moreover have "i + 64 * (m div 64) < length es"
  proof -
    have "64 * (m div 64) \<le> m" by simp
    with m i show ?thesis by linarith
  qed
  ultimately show ?thesis using False m by (simp add: last_at_def nth_append)
qed

lemma mod_add_cancel: "((h :: nat) + i) mod k = (h + n) mod k \<longleftrightarrow> i mod k = n mod k"
proof (cases i n rule: le_cases)
  case le
  then show ?thesis using mod_eq_dvd_iff_nat [of i n k] mod_eq_dvd_iff_nat [of "h + i" "h + n" k] by auto
next
  case ge
  then show ?thesis using mod_eq_dvd_iff_nat [of n i k] mod_eq_dvd_iff_nat [of "h + n" "h + i" k] by auto
qed

lemma ring_pushes_ends:
  assumes "ring_ok d" "ring_len d = 0"
  shows "\<exists>d'. ring_pushes es d = Some d' \<and> ring_ok d' \<and> ring_head d' = ring_head d \<and>
    ring_len d' = min 64 (length es) \<and> ring_tail d' = (ring_head d + length es) mod 64 \<and>
    (\<forall>i < min 64 (length es). dbg_ring d' ! ((ring_head d + i) mod 64) = last_at es i)"
proof (induction es rule: rev_induct)
  case Nil
  then show ?case using assms by (auto simp: ring_ok_def)
next
  case (snoc e es)
  then obtain d' where d': "ring_pushes es d = Some d'" "ring_ok d'" "ring_head d' = ring_head d"
    "ring_len d' = min 64 (length es)" "ring_tail d' = (ring_head d + length es) mod 64"
    "\<forall>i < min 64 (length es). dbg_ring d' ! ((ring_head d + i) mod 64) = last_at es i" by blast
  let ?u = "d'\<lparr>dbg_ring := (dbg_ring d')[ring_tail d' := e], ring_tail := (ring_tail d' + 1) mod 64,
    ring_len := min 64 (Suc (length es))\<rparr>"
  have l: "length (dbg_ring d') = 64" "ring_head d < 64" using d'(2) assms(1) by (simp_all add: ring_ok_def)
  have "ring_push e d' = Some ?u"
    using d'(2,4) by (auto simp: ring_push_def ring_ok_def Let_def min_def)
  then have "ring_pushes (es @ [e]) d = Some ?u" using d'(1) by (simp add: ring_pushes_append)
  moreover have tail: "ring_tail ?u = (ring_head d + length (es @ [e])) mod 64"
    using d'(5) by (simp add: mod_Suc_eq)
  moreover have "ring_ok ?u" using d'(2,3) tail by (simp add: ring_ok_def min_def)
  moreover have "dbg_ring ?u ! ((ring_head d + i) mod 64) = last_at (es @ [e]) i" if i: "i < min 64 (length (es @ [e]))" for i
  proof -
    have slot: "(ring_head d + i) mod 64 = ring_tail d' \<longleftrightarrow> i = length es mod 64"
    proof -
      have "(ring_head d + i) mod 64 = (ring_head d + length es) mod 64 \<longleftrightarrow> i mod 64 = length es mod 64"
        by (rule mod_add_cancel)
      then show ?thesis using i d'(5) by simp
    qed
    have lt: "(ring_head d + i) mod 64 < length (dbg_ring d')" using l by simp
    show ?thesis
    proof (cases "i = length es mod 64")
      case True
      then show ?thesis using slot lt last_at_snoc [of i es e] i by simp
    next
      case False
      then have "i \<noteq> length es" using i by auto
      then have "i < min 64 (length es)" using i by auto
      then show ?thesis using d'(6) slot lt last_at_snoc [of i es e] i False by simp
    qed
  qed
  ultimately show ?case using d'(3) by (intro exI [of _ ?u]) simp
qed

lemma ioread_loop_prints:
  assumes "length (dbg_ring d) = 64" "ring_head d < 64" "n \<le> ring_len d"
  shows "ioread_loop cap n d p = map_option (\<lambda>p. (p, d\<lparr>ring_head := (ring_head d + n) mod 64, ring_len := ring_len d - n\<rparr>))
    (ADDS cap (concat (map rbe_texts (map (\<lambda>i. dbg_ring d ! ((ring_head d + i) mod 64)) [0..<n]))) p)"
  using assms
proof (induction n arbitrary: d p)
  case (Suc n)
  let ?u = "d\<lparr>ring_head := (ring_head d + 1) mod 64, ring_len := ring_len d - 1\<rparr>"
  have e: "map (\<lambda>i. dbg_ring d ! ((ring_head d + i) mod 64)) [0..<Suc n] =
      dbg_ring d ! ring_head d # map (\<lambda>i. dbg_ring ?u ! ((ring_head ?u + i) mod 64)) [0..<n]"
    using Suc.prems by (simp add: upt_conv_Cons map_Suc_upt [symmetric] mod_simps del: upt_Suc)
  have "ioread_loop cap n ?u q = map_option (\<lambda>p. (p, ?u\<lparr>ring_head := (ring_head ?u + n) mod 64, ring_len := ring_len ?u - n\<rparr>))
    (ADDS cap (concat (map rbe_texts (map (\<lambda>i. dbg_ring ?u ! ((ring_head ?u + i) mod 64)) [0..<n]))) q)" for q
    using Suc.prems by (intro Suc.IH) auto
  then show ?case unfolding e using Suc.prems
    by (cases "ADDS cap (rbe_texts (dbg_ring d ! ring_head d)) p")
      (simp_all add: ADDS_append mod_simps)
qed simp

lemma ioread_read_prints:
  assumes "ring_ok (debug s)"
  shows "r92su_debugfs_hw_ioread_read buf n s =
    map_option (\<lambda>p. (p, s\<lparr>debug := (debug s)\<lparr>ring_len := 0, ring_head := ring_tail (debug s)\<rparr>\<rparr>))
      (ADDS n (ioread_head @ concat (map rbe_texts (ring_entries (debug s)))) (buf, 0))"
proof -
  have l: "ioread_loop n (ring_len (debug s)) (debug s) p =
      map_option (\<lambda>p. (p, (debug s)\<lparr>ring_head := (ring_head (debug s) + ring_len (debug s)) mod 64, ring_len := 0\<rparr>))
        (ADDS n (concat (map rbe_texts (ring_entries (debug s)))) p)" for p
    using ioread_loop_prints [of "debug s" "ring_len (debug s)" n p] assms by (simp add: ring_ok_def ring_entries_def)
  show ?thesis
    by (cases "ADDS n ioread_head (buf, 0)")
      (simp_all add: r92su_debugfs_hw_ioread_read_def ADDS_append l option.map_comp Option.map_conv_bind_option comp_def)
qed

section \<open>Lines of the register file\<close>

lemma length_meminfo [simp]: "length (meminfo ! mem_type_nr ty) = 4"
  by (cases ty) (simp_all add: meminfo_def)

lemma total_rbe: "59 \<le> total (rbe_texts r)" "total (rbe_texts r) \<le> 63"
proof -
  have "total (map (\<lambda>i. (if bit (rbe_value r) i then lit ''X'' else lit '' '') @ (if i mod 8 = 0 then lit '' '' else []))
      (rev [0..<32])) = 36"
    by (simp add: upt_rec length_concat)
  then have "total (rbe_texts r) = length (fmt_x 4 (unat (rbe_reg r))) + 55"
    by (simp add: rbe_texts_def length_fmt_word)
  then show "59 \<le> total (rbe_texts r)" "total (rbe_texts r) \<le> 63"
    using length_fmt_x_ge [of 4 "unat (rbe_reg r)"] length_fmt_word(2) [of "rbe_reg r"] by simp_all
qed

lemma total_rbes: "59 * length rs \<le> total (concat (map rbe_texts rs))" "total (concat (map rbe_texts rs)) \<le> 63 * length rs"
proof -
  have "59 * length rs \<le> total (concat (map rbe_texts rs)) \<and> total (concat (map rbe_texts rs)) \<le> 63 * length rs"
  proof (induction rs)
    case (Cons r rs)
    then show ?case using total_rbe [of r] by simp
  qed simp
  then show "59 * length rs \<le> total (concat (map rbe_texts rs))" "total (concat (map rbe_texts rs)) \<le> 63 * length rs"
    by simp_all
qed

lemma total_head [simp]: "total ioread_head = 116"
  by (simp add: ioread_head_def)

lemma short_rbe: "t \<in> set (rbe_texts r) \<Longrightarrow> length t \<le> 63"
proof -
  assume "t \<in> set (rbe_texts r)"
  then have "length t \<le> total (rbe_texts r)"
    unfolding length_concat by (intro member_le_sum_list) auto
  then show ?thesis using total_rbe(2) [of r] by simp
qed

lemma short_ioread: "\<forall>t \<in> set (ioread_head @ concat (map rbe_texts rs)). length t \<le> 0x7fffffff"
  using short_rbe by (fastforce simp: ioread_head_def)

text \<open>A request that succeeds adds one entry, any other leaves the ring alone.\<close>

lemma reg_io_debug:
  "debug (snd (run_state (r92su_read8 E a) s)) = debug s" "debug (snd (run_state (r92su_read16 E a) s)) = debug s"
  "debug (snd (run_state (r92su_read32 E a) s)) = debug s"
proof -
  have keep: "debug (snd (run_state m s)) = debug s" if "io_only m" for m
  proof -
    have "io_rel s (snd (run_state m s))" using that by (rule changesD) (rule prod.collapse [symmetric])
    then have "(snd (run_state m s))\<lparr>world := world s, allocs := allocs s, r_state := r_state s, log := log s\<rparr> = s"
      by (simp add: io_rel_def)
    from arg_cong [OF this, of debug] show ?thesis by simp
  qed
  show "debug (snd (run_state (r92su_read8 E a) s)) = debug s" by (rule keep) (rule io_only_regs)
  show "debug (snd (run_state (r92su_read16 E a) s)) = debug s" by (rule keep) (rule io_only_regs)
  show "debug (snd (run_state (r92su_read32 E a) s)) = debug s" by (rule keep) (rule io_only_regs)
qed

lemma ioread_reg_debug: "ioread_reg E reg n s = (r, t) \<Longrightarrow> debug t = debug s"
  using reg_io_debug(1) [of E reg s] reg_io_debug(2) [of E reg s] reg_io_debug(3) [of E reg s]
  by (cases "n = 4"; cases "n = 2"; cases "n = 1") (simp_all add: ioread_reg_def split: prod.splits)

lemma ioread_write_pushes:
  assumes "r92su_debugfs_hw_ioread_write E buf s = Some (r, t)"
  shows "if 0 < r then r = int (length buf) \<and> (\<exists>e. ring_push e (debug s) = Some (debug t)) else debug t = debug s"
proof (cases "length buf = 0 \<or> 32 < length buf")
  case False
  then obtain args where a: "sscanf ioread_format buf = Some args"
      and m: "(case args of [] \<Rightarrow> Some (- EINVAL, s)
        | reg # ns \<Rightarrow> (case ioread_reg E reg (if ns = [] then 1 else hd ns) s of
               (None, s) \<Rightarrow> Some (- EMSGSIZE, s)
             | (Some (v, ty), s) \<Rightarrow> do {
                 d \<leftarrow> ring_push \<lparr>rbe_reg = reg, rbe_value = v, rbe_type = ty\<rparr> (debug s);
                 Some (int (length buf), s\<lparr>debug := d\<rparr>) })) = Some (r, t)"
    using assms by (auto simp: r92su_debugfs_hw_ioread_write_def Option.bind_eq_Some_conv)
  show ?thesis
  proof (cases args)
    case (Cons reg ns)
    obtain res u where u: "ioread_reg E reg (if ns = [] then 1 else hd ns) s = (res, u)" by fastforce
    have d: "debug u = debug s" using ioread_reg_debug [OF u] .
    show ?thesis
    proof (cases res)
      case None
      then show ?thesis using m Cons u d by auto
    next
      case (Some x)
      then show ?thesis using m Cons u d False
        by (cases x) (auto simp: Option.bind_eq_Some_conv)
    qed
  qed (use m in auto)
next
  case True
  then show ?thesis using assms by (cases "buf = []") (auto simp: r92su_debugfs_hw_ioread_write_def)
qed

text \<open>Requests one after the other, with what each accepted one has recorded.\<close>

fun ioread_requests :: "'w env \<Rightarrow> bytes list \<Rightarrow> 'w r92su \<Rightarrow> (r92su_debug_mem_rbe list \<times> 'w r92su) option" where
  "ioread_requests E [] s = Some ([], s)"
| "ioread_requests E (b # bs) s = do {
     (r, t) \<leftarrow> r92su_debugfs_hw_ioread_write E b s;
     (es, u) \<leftarrow> ioread_requests E bs t;
     Some ((if 0 < r then [dbg_ring (debug t) ! ring_tail (debug s)] else []) @ es, u) }"

lemma ring_push_slot: "ring_push e d = Some d' \<Longrightarrow> dbg_ring d' ! ring_tail d = e \<and> (ring_ok d \<longrightarrow> ring_ok d')"
  by (auto simp: ring_push_def ring_ok_def Let_def mod_Suc_eq split: if_splits)

lemma ioread_requests_push:
  "ioread_requests E bs s = Some (es, t) \<Longrightarrow> ring_pushes es (debug s) = Some (debug t)"
proof (induction bs arbitrary: s es)
  case (Cons b bs)
  then obtain r u fs where u: "r92su_debugfs_hw_ioread_write E b s = Some (r, u)" "ioread_requests E bs u = Some (fs, t)"
    and es: "es = (if 0 < r then [dbg_ring (debug u) ! ring_tail (debug s)] else []) @ fs"
    by (auto simp: Option.bind_eq_Some_conv)
  have f: "ring_pushes fs (debug u) = Some (debug t)" using Cons.IH [OF u(2)] .
  show ?case
  proof (cases "0 < r")
    case True
    then obtain e where "ring_push e (debug s) = Some (debug u)" using ioread_write_pushes [OF u(1)] by auto
    with ring_push_slot [OF this] f es True show ?thesis by simp
  qed (use ioread_write_pushes [OF u(1)] f es in simp)
qed simp

section \<open>Rows of the station table\<close>

lemma length_texts:
  "56 \<le> length (sta_text sta)" "length (sta_text sta) \<le> 200" "length (key_text key) \<le> 200"
  using length_fmt_d(1) [of "sta_aid sta"] length_fmt_d(1) [of "sta_mac_id sta"] length_fmt_d(1) [of "bool_word (sta_enc_sta sta)"]
    length_fmt_d(1) [of "bool_word (sta_qos_sta sta)"] length_fmt_d(1) [of "bool_word (sta_ht_sta sta)"]
    length_fmt_d(2) [of "sta_aid sta"] length_fmt_d(2) [of "sta_mac_id sta"] length_fmt_d(2) [of "bool_word (sta_enc_sta sta)"]
    length_fmt_d(2) [of "bool_word (sta_qos_sta sta)"] length_fmt_d(2) [of "bool_word (sta_ht_sta sta)"]
    length_fmt_d(2) [of "ucast (enc_alg_nr (key_type key))"] length_fmt_d(2) [of "of_nat (key_len key)"]
    length_fmt_d(2) [of "key_index key"]
  by (simp_all add: sta_text_def key_text_def del: length_greater_0_conv)

lemma sta_row_total:
  assumes "sta_row s i = Some ts"
  shows "22 + (if r92su_sta_get_by_macid s (of_nat i) = Some None then 0 else 45) \<le> total ts"
    "\<forall>t \<in> set ts. length t \<le> 0x7fffffff"
proof -
  let ?head = "lit ''mac_id: '' @ pad_left 2 32 (fmt_d (of_nat i)) @ lit '' ''"
  have h: "11 \<le> length ?head" "length ?head \<le> 100" using length_fmt_d(2) [of "of_nat i"] by simp_all
  obtain found where f: "r92su_sta_get_by_macid s (of_nat i) = Some found"
    using assms by (auto simp: sta_row_def Option.bind_eq_Some_conv)
  have "22 + (if found = None then 0 else 45) \<le> total ts \<and> (\<forall>t \<in> set ts. length t \<le> 0x7fffffff)"
  proof (cases found)
    case None
    then have "ts = [?head, lit '' - empty -'' @ nl]" using assms f by (simp add: sta_row_def Let_def)
    then show ?thesis using h None by simp
  next
    case (Some p)
    then obtain sta where "stas s p = Some sta"
      using assms f by (auto simp: sta_row_def Let_def Option.bind_eq_Some_conv)
    with Some have "\<exists>ks. ts = [?head, sta_text sta] @ ks \<and> (\<forall>t \<in> set ks. \<exists>key. t = key_text key)"
      using assms f by (auto simp: sta_row_def Let_def Option.bind_eq_Some_conv split: option.splits)
    then obtain ks where ts: "ts = [?head, sta_text sta] @ ks" and "\<forall>t \<in> set ks. \<exists>key. t = key_text key" by blast
    then have "\<forall>t \<in> set ks. length t \<le> 0x7fffffff" using length_texts(3) by (fastforce intro: le_trans)
    then show ?thesis unfolding ts using h length_texts(1,2) [of sta] Some by simp
  qed
  then show "22 + (if r92su_sta_get_by_macid s (of_nat i) = Some None then 0 else 45) \<le> total ts"
    "\<forall>t \<in> set ts. length t \<le> 0x7fffffff" using f by auto
qed

lemma sta_rows_total:
  "sta_rows s is = Some ts \<Longrightarrow>
   22 * length is + 45 * length (filter (\<lambda>i. r92su_sta_get_by_macid s (of_nat i) \<noteq> Some None) is) \<le> total ts \<and>
   (\<forall>t \<in> set ts. length t \<le> 0x7fffffff)"
proof (induction "is" arbitrary: ts)
  case (Cons i "is")
  then obtain a b where a: "sta_row s i = Some a" and b: "sta_rows s is = Some b" "ts = a @ b"
    by (auto simp: Option.bind_eq_Some_conv)
  show ?case using sta_row_total [OF a] Cons.IH [OF b(1)] b(2) by (auto split: if_splits)
qed simp

text \<open>
  With eight stations in the table its file does not fit into the buffer of 1024 bytes any more, and
  reading it copies bytes from behind the end.
\<close>

theorem sta_table_overflows:
  assumes "8 \<le> length (filter (\<lambda>i. r92su_sta_get_by_macid s (of_nat i) \<noteq> Some None) [0..<MAX_STA])"
    and "garbage_ok E" "alloc_ok E (allocs s)" "R92SU_OPEN \<le> r_state s" "1024 < cnt"
  shows "r92su_debugfs_read E freq Dfs_sta_table cnt 0 s = None"
proof -
  let ?u = "s\<lparr>allocs := allocs s + 1\<rparr>" and ?buf = "stack_garbage E 1024"
  have g: "length ?buf = 1024" using assms(2) by (simp add: garbage_ok_def)
  have "r92su_debugfs_sta_table_read ?buf 1024 ?u = None \<or>
      (\<exists>buf off. r92su_debugfs_sta_table_read ?buf 1024 ?u = Some (buf, off) \<and> length buf = 1024 \<and> 1024 < off)"
  proof (cases "sta_rows ?u [0..<MAX_STA]")
    case None
    then show ?thesis by (simp add: r92su_debugfs_sta_table_read_def)
  next
    case (Some ts)
    have "r92su_sta_get_by_macid ?u m = r92su_sta_get_by_macid s m" for m
      by (simp add: r92su_sta_get_by_macid_def)
    then have t: "1024 < total ts" "\<forall>t \<in> set ts. length t \<le> 0x7fffffff"
      using sta_rows_total [OF Some] assms(1) by simp_all
    then show ?thesis
      using ADDS_ends [OF g _ _ t(2), of 0] Some by (auto simp: r92su_debugfs_sta_table_read_def)
  qed
  moreover have "rd_mem buf 0 (min cnt off) = None" if "length buf = 1024" "1024 < off" for buf off
    using that assms(5) by (simp add: rd_mem_def)
  moreover have "\<not> r_state s < dfs_req_dev_state" using assms(4) by (simp add: dfs_req_dev_state_def not_less)
  ultimately show ?thesis using assms(3,5)
    by (auto simp: r92su_debugfs_read_def dfs_read_def dfs_read_bufsize_def Let_def kmalloc_def simple_read_from_buffer_def)
qed

section \<open>Scanning what was printed\<close>

lemma digit_scans: "d < 16 \<Longrightarrow> digit_val (digit d) = Some d"
proof -
  assume d: "d < 16"
  have "digit d = of_nat (if d < 10 then 48 + d else 87 + d)" by (simp add: digit_def)
  moreover have "unat (of_nat (if d < 10 then 48 + d else 87 + d) :: u8) = (if d < 10 then 48 + d else 87 + d)"
    unfolding unat_of_nat using d by simp
  ultimately have "unat (digit d) = (if d < 10 then 48 + d else 87 + d)" by (simp only:)
  then show ?thesis using d by (simp add: digit_val_def Let_def)
qed

lemma scan_num_text:
  assumes "b \<in> {10, 16}" "\<not> is_digit b c"
  shows "scan_digits b v (num_text b n @ c # cs) = Some (v * of_nat b ^ length (num_text b n) + of_nat n, c # cs)"
proof -
  have b: "2 \<le> b" "b \<le> 16" using assms(1) by auto
  have dg: "is_digit b (digit d)" "the (digit_val (digit d)) = d" if "d < b" for d
    using that b digit_scans [of d] by (simp_all add: is_digit_def)
  have "scan_digits b v (num_text b n @ cs) = scan_digits b (v * of_nat b ^ length (num_text b n) + of_nat n) cs" for v cs
  proof (induction n arbitrary: v cs rule: less_induct)
    case (less n)
    show ?case
    proof (cases "n < b")
      case True
      then show ?thesis by (simp add: num_text.simps [of b n] dg)
    next
      case False
      obtain q r where n: "n = q * b + r" "r < b" using b by (metis div_mult_mod_eq mod_less_divisor less_le_trans zero_less_numeral)
      then have "n div b = q" "n mod b = r" using b by simp_all
      then have t: "num_text b n = num_text b q @ [digit r]" using False b by (simp add: num_text.simps [of b n])
      have "q \<noteq> 0" using n False by (cases q) simp_all
      moreover have "q * 2 \<le> q * b" using b(1) by (rule mult_le_mono2)
      ultimately have "q < n" using n(1) by linarith
      from less.IH [OF this] show ?thesis unfolding t using n(2) by (simp add: dg n(1) algebra_simps)
    qed
  qed
  then show ?thesis using assms(2) by simp
qed

section \<open>Scanning behind the end\<close>

lemma digit_not_space: "is_digit 16 c \<Longrightarrow> \<not> isspace c \<and> c \<noteq> 0 \<and> c \<noteq> 88 \<and> c \<noteq> 120"
  by (auto simp: is_digit_def isspace_def digit_val_def Let_def)

lemma space_not_digit: "isspace c \<Longrightarrow> \<not> is_digit 16 c \<and> c \<noteq> 88 \<and> c \<noteq> 120"
  by (auto simp: is_digit_def isspace_def digit_val_def Let_def)

lemma skip_all_spaces: "\<forall>c \<in> set ws. isspace c \<Longrightarrow> skip_spaces ws = None"
  by (induction ws) simp_all

lemma scan_hex_digits:
  "\<forall>c \<in> set ds. is_digit 16 c \<Longrightarrow> \<forall>c \<in> set ws. isspace c \<Longrightarrow>
   scan_digits 16 v (ds @ ws) = None \<or> (\<exists>w. scan_digits 16 v (ds @ ws) = Some (w, ws))"
proof (induction ds arbitrary: v)
  case Nil
  then show ?case by (cases ws) (auto dest: space_not_digit)
qed simp

lemma scan_ends:
  assumes "ds \<noteq> []" "\<forall>c \<in> set ds. is_digit 16 c" "\<forall>c \<in> set ws. isspace c"
  shows "sscanf [Hex, Blank, Dec] (ds @ ws) = None"
proof -
  obtain d es where ds: "ds = d # es" using assms(1) by (cases ds) auto
  have d: "is_digit 16 d" "\<not> isspace d" "d \<noteq> 0" using assms(2) digit_not_space [of d] by (simp_all add: ds)
  have "scan_number Hex (ds @ ws) = None \<or> (\<exists>w. scan_number Hex (ds @ ws) = Some (Some (w, ws)))"
  proof (cases "d = 48")
    case True
    show ?thesis
    proof (cases "es @ ws")
      case Nil
      then show ?thesis using d True by (simp add: scan_number_def ds rd8_def)
    next
      case (Cons x xs)
      have "x \<in> set (es @ ws)" by (simp add: Cons)
      then have "x \<notin> {88, 120}"
        using assms(2,3) digit_not_space [of x] space_not_digit [of x] by (auto simp: ds)
      then have "scan_number Hex (ds @ ws) = map_option Some (scan_digits 16 0 (ds @ ws))"
        using d True Cons by (simp add: scan_number_def ds rd8_def)
      then show ?thesis using scan_hex_digits [OF assms(2,3), of 0] by auto
    qed
  next
    case False
    then have "scan_number Hex (ds @ ws) = map_option Some (scan_digits 16 0 (ds @ ws))"
      using d False by (simp add: scan_number_def ds rd8_def)
    then show ?thesis using scan_hex_digits [OF assms(2,3), of 0] by auto
  qed
  then show ?thesis using skip_all_spaces [OF assms(3)] by auto
qed

section \<open>Properties\<close>

lemma last_at_short: "length es \<le> 64 \<Longrightarrow> map (last_at es) [0..<length es] = es"
  by (rule nth_equalityI) (auto simp: last_at_def)

text \<open>
  What the ring holds after any number of accesses: the last 64, each in the slot of its number. With
  more than 64 accesses the entries are therefore printed from the slot of the first one on, which is
  not the order in which they were made.
\<close>

theorem ring_keeps_last:
  assumes "ring_ok (debug s)" "ring_len (debug s) = 0" "ioread_requests E bs s = Some (es, t)"
  shows "ring_ok (debug t) \<and> ring_entries (debug t) = map (last_at es) [0..<min 64 (length es)]"
proof -
  obtain d where d: "ring_pushes es (debug s) = Some d" "ring_ok d" "ring_head d = ring_head (debug s)"
    "ring_len d = min 64 (length es)"
    "\<forall>i < min 64 (length es). dbg_ring d ! ((ring_head (debug s) + i) mod 64) = last_at es i"
    using ring_pushes_ends [OF assms(1,2), of es] by blast
  then have "d = debug t" using ioread_requests_push [OF assms(3)] by simp
  with d show ?thesis by (auto simp: ring_entries_def)
qed

lemma open_not_less: "r92su_is_open s \<longleftrightarrow> \<not> r_state s < dfs_req_dev_state"
  by (simp add: r92su_is_open_def dfs_req_dev_state_def not_less)

lemma dfs_read_ioread [simp]: "dfs_read freq Dfs_hw_ioread = Some r92su_debugfs_hw_ioread_read"
  "dfs_read_bufsize Dfs_hw_ioread = 2720"
  by (simp_all add: dfs_read_def dfs_read_bufsize_def Let_def)

lemma ioread_file:
  assumes "ring_ok (debug s)" "garbage_ok E" "alloc_ok E (allocs s)" "r92su_is_open s" "0 < cnt"
  obtains buf off t where
    "r92su_debugfs_read E freq Dfs_hw_ioread cnt ppos s =
       (if off \<le> ppos then Some (0, [], t)
        else Option.bind (rd_mem buf ppos (min cnt (off - ppos))) (\<lambda>out. Some (int (length out), out, t)))"
    "length buf = 2720" "0 < off" "ring_ok (debug t)" "ring_len (debug t) = 0"
    "let ts = ioread_head @ concat (map rbe_texts (ring_entries (debug s))) in
     (if total ts \<le> 2720 then off = total ts else 2720 < off) \<and> (total ts < 2720 \<longrightarrow> take (total ts) buf = concat ts)"
proof -
  let ?u = "s\<lparr>allocs := allocs s + 1\<rparr>"
  let ?ts = "ioread_head @ concat (map rbe_texts (ring_entries (debug s)))"
  let ?t = "?u\<lparr>debug := (debug s)\<lparr>ring_len := 0, ring_head := ring_tail (debug s)\<rparr>\<rparr>"
  have g: "length (stack_garbage E 2720) = 2720" using assms(2) by (simp add: garbage_ok_def)
  obtain buf off where b: "ADDS 2720 ?ts (stack_garbage E 2720, 0) = Some (buf, off)" "length buf = 2720"
    "if total ?ts \<le> 2720 then off = total ?ts else 2720 < off" "total ?ts < 2720 \<longrightarrow> take (total ?ts) buf = concat ?ts"
    using ADDS_ends [OF g _ _ short_ioread, of 0 "ring_entries (debug s)"] by (auto split: if_splits)
  have rd: "r92su_debugfs_hw_ioread_read (stack_garbage E 2720) 2720 ?u = Some ((buf, off), ?t)"
    using ioread_read_prints [of ?u] assms(1) b(1) by simp
  have "0 < off" using b(3) by (simp split: if_splits)
  then have "r92su_debugfs_read E freq Dfs_hw_ioread cnt ppos s =
       (if off \<le> ppos then Some (0, [], ?t)
        else Option.bind (rd_mem buf ppos (min cnt (off - ppos))) (\<lambda>out. Some (int (length out), out, ?t)))"
    using assms(3-5) rd
    by (simp add: r92su_debugfs_read_def kmalloc_def open_not_less simple_read_from_buffer_def)
  moreover have "ring_ok (debug ?t)" using assms(1) by (simp add: ring_ok_def)
  ultimately show thesis using that [of off ?t buf] b \<open>0 < off\<close> unfolding Let_def by simp
qed

text \<open>
  C39. Register accesses through debugfs. After any requests for registers, at most 41 of which were
  accepted since the file was read last, reading at least 2720 bytes of it, with the interface open and
  memory available, gives the heading and one line for every accepted request, in their order, and
  empties the ring.
\<close>

theorem ioread_history:
  assumes "ring_ok (debug s)" "ring_len (debug s) = 0" "ioread_requests E bs s = Some (es, t)" "length es \<le> 41"
    and "garbage_ok E" "alloc_ok E (allocs t)" "r92su_is_open t" "2720 \<le> cnt"
  shows "\<exists>u out. r92su_debugfs_read E freq Dfs_hw_ioread cnt 0 t = Some (int (length out), out, u) \<and>
    out = concat ioread_head @ concat (map (\<lambda>e. concat (rbe_texts e)) es) \<and>
    ring_ok (debug u) \<and> ring_len (debug u) = 0"
proof -
  have r: "ring_ok (debug t)" "ring_entries (debug t) = es"
    using ring_keeps_last [OF assms(1-3)] last_at_short [of es] assms(4) by (simp_all add: min_def)
  have pos: "0 < cnt" using assms(8) by simp
  let ?ts = "ioread_head @ concat (map rbe_texts es)"
  have lt: "total ?ts < 2720" using total_rbes(2) [of es] assms(4) by simp
  obtain buf off u where f: "r92su_debugfs_read E freq Dfs_hw_ioread cnt 0 t =
       (if off \<le> 0 then Some (0, [], u)
        else Option.bind (rd_mem buf 0 (min cnt (off - 0))) (\<lambda>out. Some (int (length out), out, u)))"
    "length buf = 2720" "0 < off" "ring_ok (debug u)" "ring_len (debug u) = 0"
    "let ts = ioread_head @ concat (map rbe_texts (ring_entries (debug t))) in
     (if total ts \<le> 2720 then off = total ts else 2720 < off) \<and> (total ts < 2720 \<longrightarrow> take (total ts) buf = concat ts)"
    by (rule ioread_file [OF r(1) assms(5-7) pos])
  have off: "off = total ?ts" and out: "take (total ?ts) buf = concat ?ts"
    using f(6) lt r(2) by (simp_all add: Let_def)
  have m: "min cnt (off - 0) = off" using off lt assms(8) by simp
  have "rd_mem buf 0 off = Some (concat ?ts)"
    using out off lt f(2) by (simp add: rd_mem_def)
  moreover have "concat ?ts = concat ioread_head @ concat (map (\<lambda>e. concat (rbe_texts e)) es)"
    by (induction es) simp_all
  ultimately show ?thesis using f(1,3-5) unfolding m by simp
qed

text \<open>
  C40. The register file leaves its buffers. A request that gives no access size, a hexadecimal
  register number and at most white space after it, is scanned on behind the end of the copied request; and once 45 accesses are recorded, reading the file copies bytes from behind the end of the
  output buffer.
\<close>

theorem ioread_leaves_buffers:
  assumes "ds \<noteq> []" "\<forall>c \<in> set ds. is_digit 16 c" "\<forall>c \<in> set ws. isspace c" "length ds + length ws \<le> 30"
    and "ring_ok (debug s)" "45 \<le> ring_len (debug s)"
    and "garbage_ok E" "alloc_ok E (allocs s)" "r92su_is_open s" "2720 < cnt"
  shows "r92su_debugfs_hw_ioread_write E ([48, 120] @ ds @ ws) s = None \<and>
    r92su_debugfs_read E freq Dfs_hw_ioread cnt 0 s = None"
proof
  show "r92su_debugfs_hw_ioread_write E ([48, 120] @ ds @ ws) s = None"
    using scan_ends [OF assms(1-3)] assms(4) by (simp add: r92su_debugfs_hw_ioread_write_def ioread_format_def)
  have "2720 < total (ioread_head @ concat (map rbe_texts (ring_entries (debug s))))"
    using total_rbes(1) [of "ring_entries (debug s)"] assms(6) by simp
  moreover have pos: "0 < cnt" using assms(10) by simp
  moreover obtain buf off t where f: "r92su_debugfs_read E freq Dfs_hw_ioread cnt 0 s =
       (if off \<le> 0 then Some (0, [], t)
        else Option.bind (rd_mem buf 0 (min cnt (off - 0))) (\<lambda>out. Some (int (length out), out, t)))"
    "length buf = 2720" "0 < off" "ring_ok (debug t)" "ring_len (debug t) = 0"
    "let ts = ioread_head @ concat (map rbe_texts (ring_entries (debug s))) in
     (if total ts \<le> 2720 then off = total ts else 2720 < off) \<and> (total ts < 2720 \<longrightarrow> take (total ts) buf = concat ts)"
    by (rule ioread_file [OF assms(5,7-9) pos])
  ultimately have "2720 < off" by (simp add: Let_def)
  then have "rd_mem buf 0 (min cnt (off - 0)) = None" using f(2) assms(10) by (simp add: rd_mem_def)
  then show "r92su_debugfs_read E freq Dfs_hw_ioread cnt 0 s = None" using f(1) \<open>0 < off\<close> by simp
qed

text \<open>
  A write request in the usual form is understood: the text of a register, a value and a size of 1, 2
  or 4 that fits into the 22 bytes that are allowed writes the value at that width.
\<close>

lemma scan_printed:
  assumes "c = 32 \<or> c = 10"
  shows "scan_number Hex (num_text 16 n @ c # cs) = Some (Some (of_nat n, c # cs))"
proof -
  have nd: "\<not> is_digit 16 c" "c \<noteq> 88" "c \<noteq> 120"
    using assms by (auto simp: is_digit_def digit_val_def)
  obtain d ds where t: "num_text 16 n = d # ds" by (cases "num_text 16 n") simp_all
  have "\<forall>x \<in> set (num_text 16 n). is_digit 16 x"
  proof (induction n rule: less_induct)
    case (less n)
    have "is_digit 16 (digit (n mod 16))" using digit_scans [of "n mod 16"] by (simp add: is_digit_def)
    then show ?case using less.IH [of "n div 16"] by (cases "n < 16") (simp_all add: num_text.simps [of 16 n])
  qed
  then have d: "\<forall>x \<in> set (num_text 16 n). is_digit 16 x" .
  then have h: "is_digit 16 d" "\<not> isspace d" "d \<noteq> 0" using digit_not_space [of d] by (simp_all add: t)
  have "\<exists>x. rd8 (num_text 16 n @ c # cs) 1 = Some x \<and> x \<notin> {88, 120}"
  proof (cases ds)
    case (Cons e es)
    then show ?thesis using d digit_not_space [of e] by (simp add: t rd8_def)
  qed (use nd t in \<open>simp add: rd8_def\<close>)
  then have "scan_number Hex (num_text 16 n @ c # cs) = map_option Some (scan_digits 16 0 (num_text 16 n @ c # cs))"
    using h by (auto simp: scan_number_def t rd8_def)
  then show ?thesis using scan_num_text [of 16 c 0 n cs] nd(1) by simp
qed

theorem iowrite_request:
  fixes reg v n :: u32
  assumes "n \<in> {1, 2, 4}"
  defines "req \<equiv> [48, 120] @ num_text 16 (unat reg) @ [32, 48, 120] @ num_text 16 (unat v) @ [32, of_nat (48 + unat n), 10]"
  assumes "length req \<le> 22"
  shows "r92su_debugfs_hw_iowrite_write E req s = Some (int (length req), snd (iowrite_reg E reg v n s))"
proof -
  have sp: "isspace 32" "\<not> isspace 48" by (simp_all add: isspace_def)
  have "scan_number Dec [of_nat (48 + unat n), 10] = Some (Some (n, [10]))"
    using assms(1) by (auto simp: scan_number_def rd8_def isspace_def is_digit_def digit_val_def)
  moreover have "\<not> isspace (of_nat (48 + unat n))" using assms(1) by (auto simp: isspace_def)
  ultimately have "sscanf iowrite_format req = Some [reg, v, n]"
    using sp by (simp add: iowrite_format_def req_def scan_printed)
  moreover have "fst (iowrite_reg E reg v n s) = 0" using assms(1) by (auto simp: iowrite_reg_def)
  moreover have "length req \<noteq> 0" by (simp add: req_def)
  ultimately show ?thesis using assms(3)
    by (simp add: r92su_debugfs_hw_iowrite_write_def split: prod.split) (auto simp: prod_eq_iff)
qed

section \<open>Examples\<close>

definition demo_open :: "(u16 \<Rightarrow> u8) r92su" where
  "demo_open = (r92su_zero (\<lambda>_. 5))\<lparr>r_state := R92SU_OPEN\<rparr>"

lemma demo_open_sel:
  "debug demo_open = zero_debug" "r92su_is_open demo_open" "r92su_is_probing demo_open"
  by (simp_all add: demo_open_def r92su_zero_def state_preds state_order)

lemma demo_request:
  "\<exists>t. ioread_requests reg_env [[48, 120, 49, 32, 49, 10]] demo_open =
     Some ([\<lparr>rbe_reg = 1, rbe_value = 5, rbe_type = R92SU_8\<rparr>], t) \<and> r92su_is_open t"
proof -
  have sc: "sscanf ioread_format [48, 120, 49, 32, 49, 10] = Some [1, 1]"
    by (simp add: ioread_format_def scan_number_def rd8_def isspace_def is_digit_def digit_val_def)
  have "fst (run_state (r92su_read8 reg_env 1) demo_open) = 5"
    "r92su_is_open (snd (run_state (r92su_read8 reg_env 1) demo_open))"
    using demo_open_sel
    by (simp_all add: r92su_read8_def r92su_read_helper_def r92su_sync_read_def kmalloc_def reg_env_def Let_def
        r92su_deal_with_usb_errors_def State_Monad.get_def demo_open_def r92su_zero_def r92su_is_open_def upt_rec)
  then obtain u where u: "run_state (r92su_read8 reg_env 1) demo_open = (5, u)" "r92su_is_open u"
    by (cases "run_state (r92su_read8 reg_env 1) demo_open") simp
  have d: "debug u = zero_debug" using reg_io_debug(1) [of reg_env 1 demo_open] u demo_open_sel(1) by simp
  then show ?thesis using sc u demo_open_sel(1)
    by (simp add: r92su_debugfs_hw_ioread_write_def ioread_reg_def ring_push_def zero_debug_def r92su_is_open_def)
qed

theorem ioread_history_witness:
  "\<exists>t out. ioread_requests reg_env [[48, 120, 49, 32, 49, 10]] demo_open =
     Some ([\<lparr>rbe_reg = 1, rbe_value = 5, rbe_type = R92SU_8\<rparr>], t) \<and>
     out = concat ioread_head @ concat (rbe_texts \<lparr>rbe_reg = 1, rbe_value = 5, rbe_type = R92SU_8\<rparr>) \<and>
     (\<exists>u. r92su_debugfs_read reg_env (\<lambda>b. 2412) Dfs_hw_ioread 4096 0 t = Some (int (length out), out, u))"
proof -
  obtain t where t: "ioread_requests reg_env [[48, 120, 49, 32, 49, 10]] demo_open =
     Some ([\<lparr>rbe_reg = 1, rbe_value = 5, rbe_type = R92SU_8\<rparr>], t)" "r92su_is_open t"
    using demo_request by blast
  have a: "alloc_ok reg_env (allocs t)" by (simp add: reg_env_def)
  have "ring_ok (debug demo_open)" "ring_len (debug demo_open) = 0"
    by (simp_all add: demo_open_sel ring_ok_zero) (simp add: zero_debug_def)
  from ioread_history [OF this t(1) _ garbage_ok_reg_env a t(2), of 4096 "\<lambda>b. 2412"] t(1) show ?thesis by auto
qed

theorem ioread_leaves_buffers_witness:
  "r92su_debugfs_hw_ioread_write reg_env [48, 120, 49, 10] (demo_open\<lparr>debug := zero_debug\<lparr>ring_tail := 45, ring_len := 45\<rparr>\<rparr>) = None \<and>
   r92su_debugfs_read reg_env (\<lambda>b. 2412) Dfs_hw_ioread 4096 0
     (demo_open\<lparr>debug := zero_debug\<lparr>ring_tail := 45, ring_len := 45\<rparr>\<rparr>) = None"
proof -
  let ?s = "demo_open\<lparr>debug := zero_debug\<lparr>ring_tail := 45, ring_len := 45\<rparr>\<rparr>"
  have "is_digit 16 49" "isspace 10" by (simp_all add: is_digit_def digit_val_def isspace_def)
  moreover have "ring_ok (debug ?s)" "45 \<le> ring_len (debug ?s)" by (simp_all add: ring_ok_def zero_debug_def)
  moreover have "alloc_ok reg_env (allocs ?s)" by (simp add: reg_env_def)
  moreover have "r92su_is_open ?s" using demo_open_sel(2) by (simp add: r92su_is_open_def)
  ultimately show ?thesis
    using ioread_leaves_buffers [of "[49]" "[10]" ?s reg_env 4096 "\<lambda>b. 2412"] garbage_ok_reg_env by simp
qed

end
