(* ===== verification/R92_Life.thy ===== *)
theory R92_Life
  imports R92_Conn R92_Debugfs
begin

text \<open>
  The life cycle of a device: probe, registration, opening and stopping of the interface, and
  disconnection (\<open>main.c\<close>, \<open>usb.c\<close>), with the operations of the interface that depend on it.
\<close>

section \<open>Operations of the interface\<close>

abbreviation (input) ARPHRD_ETHER :: u16 where "ARPHRD_ETHER \<equiv> 1"
abbreviation (input) ARPHRD_IEEE80211_RADIOTAP :: u16 where "ARPHRD_IEEE80211_RADIOTAP \<equiv> 803"

definition r92su_change_virtual_intf :: "nl80211_iftype \<Rightarrow> 'w r92su \<Rightarrow> int \<times> 'w r92su" where
  "r92su_change_virtual_intf t s =
     (if \<not> r92su_is_stopped s then (- EAGAIN, s)
      else case (case t of IFTYPE_MONITOR \<Rightarrow> Some ARPHRD_IEEE80211_RADIOTAP
           | IFTYPE_STATION \<Rightarrow> Some ARPHRD_ETHER | IFTYPE_ADHOC \<Rightarrow> Some ARPHRD_ETHER | _ \<Rightarrow> None) of
        None \<Rightarrow> (- EOPNOTSUPP, s)
      | Some ty \<Rightarrow>
          let s = s\<lparr>ndev_type := ty\<rparr> in
          if r92su_is_open s then (- EBUSY, s) else (0, s\<lparr>iftype := t\<rparr>))"

text \<open>A channel is stored as its frequency; its hardware value is the number in the table.\<close>

definition chan_hw_value :: "u16 \<Rightarrow> u32" where
  "chan_hw_value freq = (case find (\<lambda>c. snd c = freq) r92su_channeltable of Some c \<Rightarrow> ucast (fst c) | None \<Rightarrow> 0)"

definition set_channel_locked :: "'w env \<Rightarrow> 'w r92su \<Rightarrow> (int \<times> 'w r92su) option" where
  "set_channel_locked E s = (case current_channel s of
     None \<Rightarrow> Some (0, s) | Some chan \<Rightarrow> r92su_h2c_set_channel E (chan_hw_value chan) s)"

definition r92su_set_monitor_channel :: "'w env \<Rightarrow> bool \<Rightarrow> u16 \<Rightarrow> 'w r92su \<Rightarrow> (int \<times> 'w r92su) option" where
  "r92su_set_monitor_channel E width_20_noht chan s =
     (if \<not> width_20_noht then Some (- EOPNOTSUPP, s)
      else let s = s\<lparr>current_channel := Some chan\<rparr> in
        if \<not> r92su_is_open s then Some (0, s) else set_channel_locked E s)"

abbreviation (input) SIZEOF_IEEE80211_HDR :: nat where "SIZEOF_IEEE80211_HDR \<equiv> 30"

text \<open>The frame of user space behind the head room that the interface asks for.\<close>

definition r92su_mgmt_tx :: "'w env \<Rightarrow> 'c crypto_api \<Rightarrow> bytes \<Rightarrow> 'w r92su \<Rightarrow> (int \<times> 'w r92su) option" where
  "r92su_mgmt_tx E C buf s =
     (if length buf < SIZEOF_IEEE80211_HDR then Some (- EINVAL, s)
      else case kmalloc E s of (ok, s) \<Rightarrow>
        if \<not> ok then Some (- ENOMEM, s)
        else do {
          skb \<leftarrow> skb_put_data (skb_new (R92SU_TX_HEAD_ROOM + length buf + R92SU_TX_TAIL_ROOM + alloc_slack E) R92SU_TX_HEAD_ROOM tx_info_zero) buf;
          s \<leftarrow> r92su_tx E C skb True s;
          Some (0, s) })"

definition r92su_start_xmit :: "'w env \<Rightarrow> 'c crypto_api \<Rightarrow> tx_skb \<Rightarrow> 'w r92su \<Rightarrow> 'w r92su option" where
  "r92su_start_xmit E C skb s = (case iftype s of
     IFTYPE_STATION \<Rightarrow> if ETH_ALEN + ETH_ALEN + 2 \<le> skb_len skb then r92su_tx E C skb False s else Some s
   | IFTYPE_ADHOC \<Rightarrow> if ETH_ALEN + ETH_ALEN + 2 \<le> skb_len skb then r92su_tx E C skb False s else Some s
   | IFTYPE_MONITOR \<Rightarrow> r92su_tx_monitor E C skb s
   | _ \<Rightarrow> Some (dev_kfree_skb_any skb s))"

section \<open>Opening and stopping\<close>

definition mac_mode :: "nl80211_iftype \<Rightarrow> (h2c_op_modes \<times> bool) option" where
  "mac_mode t = (case t of
     IFTYPE_MONITOR \<Rightarrow> Some (OP_AUTO, True)
   | IFTYPE_UNSPECIFIED \<Rightarrow> Some (OP_AUTO, False)
   | IFTYPE_ADHOC \<Rightarrow> Some (OP_ADHOC, False)
   | IFTYPE_STATION \<Rightarrow> Some (OP_INFRA, False)
   | _ \<Rightarrow> None)"

definition r92su_init_mac :: "'w env \<Rightarrow> 'w r92su \<Rightarrow> (int \<times> 'w r92su) option" where
  "r92su_init_mac E s = (case mac_mode (iftype s) of
     None \<Rightarrow> Some (- EOPNOTSUPP, s)
   | Some (fw_mode, mntr) \<Rightarrow>
       (case run_state (r92su_hw_mac_set_rx_filter E True mntr mntr mntr) s of (err, s) \<Rightarrow>
        if err \<noteq> 0 then Some (err, s)
        else case run_state (r92su_fw_iocmd E 0xf4000700) s of (err, s) \<Rightarrow>
        if err \<noteq> 0 then Some (err, s)
        else do {
          (err, s) \<leftarrow> r92su_h2c_set_opmode E fw_mode s;
          if err \<noteq> 0 then Some (err, s)
          else do {
            (err, s) \<leftarrow> r92su_h2c_set_mac_addr E (dev_addr s) s;
            if err \<noteq> 0 then Some (err, s) else set_channel_locked E s } }))"

definition is_valid_ether_addr :: "bytes \<Rightarrow> bool" where
  "is_valid_ether_addr a \<longleftrightarrow> a ! 0 AND 1 = 0 \<and> take 6 a \<noteq> replicate 6 0"

text \<open>The steps under the lock: the set-up of the chip, the upload, and the change of the state.\<close>

definition open_finish :: "'w env \<Rightarrow> 'w r92su \<Rightarrow> int \<times> 'w r92su" where
  "open_finish E s =
     (if \<not> r92su_is_stopped s then (- EAGAIN, s)
      else (0, r92su_hw_queue_service_work E
        (r92su_set_state (if iftype s = IFTYPE_MONITOR then R92SU_CONNECTED else R92SU_OPEN) s)))"

definition open_locked :: "'w env \<Rightarrow> 'w r92su \<Rightarrow> (int \<times> 'w r92su) option" where
  "open_locked E s =
     (if \<not> r92su_is_stopped s then Some (- EAGAIN, s)
      else case run_state (r92su_hw_early_mac_setup E) s of (err, s) \<Rightarrow>
        if err \<noteq> 0 then Some (err, s)
        else case run_state (r92su_upload_firmware E) s of
          (None, s) \<Rightarrow> None
        | (Some err, s) \<Rightarrow>
          if err \<noteq> 0 then Some (err, s)
          else case run_state (r92su_hw_late_mac_setup E) (r92su_cmd_init s) of (err, s) \<Rightarrow>
            if err \<noteq> 0 then Some (err, s)
            else do {
              (err, s) \<leftarrow> r92su_init_mac E s;
              if err \<noteq> 0 then Some (err, s) else Some (open_finish E s) })"

definition r92su_open :: "'w env \<Rightarrow> int + bytes \<Rightarrow> 'w r92su \<Rightarrow> (int \<times> 'w r92su) option" where
  "r92su_open E request_firmware s =
     (if \<not> is_valid_ether_addr (dev_addr s) then Some (- EADDRNOTAVAIL, s)
      else do {
        (err, s) \<leftarrow> r92su_load_firmware request_firmware (s\<lparr>current_channel := Some (snd (hd r92su_channeltable))\<rparr>);
        if err \<noteq> 0 then Some (err, s) else open_locked E s })"

definition r92su_set_rx_mode :: "'w r92su \<Rightarrow> 'w r92su" where
  "r92su_set_rx_mode s = s"

fun sta_del_all :: "u32 list \<Rightarrow> 'w r92su \<Rightarrow> 'w r92su option" where
  "sta_del_all [] s = Some s"
| "sta_del_all (i # is) s = do { s \<leftarrow> r92su_sta_del i s; sta_del_all is s }"

text \<open>
  \<open>rcu_barrier\<close> waits for the callbacks that are pending when it is called; those that they
  queue may still be pending when it returns.
\<close>

fun rcu_steps :: "nat \<Rightarrow> 'w r92su \<Rightarrow> 'w r92su option" where
  "rcu_steps 0 s = Some s"
| "rcu_steps (Suc n) s = do { s \<leftarrow> rcu_step s; rcu_steps n s }"

definition rcu_barrier :: "'w r92su \<Rightarrow> 'w r92su option" where
  "rcu_barrier s = map_option (emit Rcu_barrier) (rcu_steps (length (rcu_cbs s)) s)"

definition stop_locked :: "'w env \<Rightarrow> 'w r92su \<Rightarrow> (int \<times> 'w r92su) option" where
  "stop_locked E s = do {
     (err, s) \<leftarrow> (if r92su_is_connected s then disconnect_locked E s else Some (- EINVAL, s));
     s \<leftarrow> r92su_set_power E False s;
     let (err, s) = (if r92su_is_initializing s then run_state (r92su_hw_mac_deinit E) s else (err, s));
     let s = (if r92su_is_initializing s then r92su_set_state R92SU_STOP s else s);
     let s = (if scan_request s then emit (Cfg80211_scan_done True) s else s);
     s \<leftarrow> r92su_bss_free (want_connect_bss s) (s\<lparr>want_connect_bss := None\<rparr>);
     s \<leftarrow> sta_del_all (map of_nat [0..<MAX_STA]) (s\<lparr>scan_request := False\<rparr>);
     Some (err, s) }"

definition cancel_works :: "'w r92su \<Rightarrow> 'w r92su" where
  "cancel_works s = emit (Cancel_work Disconnect_work) (emit (Cancel_work Connect_bss_work)
     (emit (Cancel_work Add_bss_work) (emit (Cancel_work Service_work) (emit (Cancel_work Survey_done_work) s))))"

definition r92su_stop :: "'w env \<Rightarrow> 'w r92su \<Rightarrow> (int \<times> 'w r92su) option" where
  "r92su_stop E s = do {
     (err, s) \<leftarrow> stop_locked E s;
     s \<leftarrow> rcu_barrier ((cancel_works s)\<lparr>add_bss_list := []\<rparr>);
     Some (err, s) }"

section \<open>Set-up and registration\<close>

definition r92su_alloc_netdev :: "'w env \<Rightarrow> 'w r92su \<Rightarrow> int \<times> 'w r92su" where
  "r92su_alloc_netdev E s = (case kmalloc E s of (ok, s) \<Rightarrow>
     if \<not> ok then (- ENOMEM, s) else (0, s\<lparr>has_netdev := True\<rparr>))"

definition r92su_read_adapter_info :: "'w env \<Rightarrow> 'w r92su \<Rightarrow> (int \<times> 'w r92su) option" where
  "r92su_read_adapter_info E s = (case run_state (r92su_hw_read_chip_version E) s of (err, s) \<Rightarrow>
     if err \<noteq> 0 then Some (err, s)
     else case run_state (r92su_eeprom_read E) s of
       (None, s) \<Rightarrow> None
     | (Some err, s) \<Rightarrow> Some (err, s))"

definition r92su_setup :: "'w env \<Rightarrow> 'w r92su \<Rightarrow> (int \<times> 'w r92su) option" where
  "r92su_setup E s = do {
     (err, s) \<leftarrow> r92su_read_adapter_info E (r92su_cmd_init (r92su_rx_init s));
     if err \<noteq> 0 then Some (err, s)
     else case r92su_init_band E s of (err, s) \<Rightarrow>
       if err \<noteq> 0 then Some (err, s)
       else case r92su_alloc_netdev E s of (err, s) \<Rightarrow>
         if err \<noteq> 0 then Some (err, s)
         else Some (0, s\<lparr>dev_addr := eeprom_mac_addr (eeprom s), perm_addr := eeprom_mac_addr (eeprom s)\<rparr>) }"

text \<open>The names and the device of the button are three allocations.\<close>

definition r92su_register_wps_button :: "'w env \<Rightarrow> 'w r92su \<Rightarrow> int \<times> 'w r92su" where
  "r92su_register_wps_button E s =
     (if \<not> config_wpc E then (0, s)
      else case kmalloc E s of (a, s) \<Rightarrow> case kmalloc E s of (b, s) \<Rightarrow> case kmalloc E s of (c, s) \<Rightarrow>
        if \<not> (a \<and> b \<and> c) then (- ENOMEM, s)
        else if input_register_device E \<noteq> 0 then (input_register_device E, s)
        else (0, s\<lparr>wps_pbc := True\<rparr>))"

definition r92su_register :: "'w env \<Rightarrow> 'w r92su \<Rightarrow> int \<times> 'w r92su" where
  "r92su_register E s =
     (if wiphy_register E \<noteq> 0 then (wiphy_register E, s)
      else let s = s\<lparr>wiphy_registered := True\<rparr> in
      if register_netdev E \<noteq> 0 then (register_netdev E, s)
      else case r92su_register_debugfs E s of (err, s) \<Rightarrow>
      if err \<noteq> 0 then (err, s)
      else case r92su_register_wps_button E s of (err, s) \<Rightarrow>
      if err \<noteq> 0 then (err, s) else (0, r92su_set_state R92SU_STOP s))"

text \<open>
  \<open>up\<close> is whether the kernel has the interface open: \<open>unregister_netdev\<close> then stops it first. A
  work queue that does not exist cannot be destroyed.
\<close>

definition unregister_netdev :: "'w env \<Rightarrow> bool \<Rightarrow> 'w r92su \<Rightarrow> 'w r92su option" where
  "unregister_netdev E up s =
     (if \<not> has_netdev s then Some s
      else do {
        s \<leftarrow> (if up then map_option snd (r92su_stop E s) else Some s);
        Some (emit Unregister_netdev s) })"

definition r92su_unregister :: "'w env \<Rightarrow> bool \<Rightarrow> 'w r92su \<Rightarrow> 'w r92su option" where
  "r92su_unregister E up s = do {
     let s = (if wps_pbc s then emit Input_unregister_device (s\<lparr>wps_pbc := False\<rparr>) else s);
     s \<leftarrow> unregister_netdev E up (r92su_unregister_debugfs s);
     let s = r92su_set_state R92SU_UNLOAD s;
     let s = (if wiphy_registered s then emit Wiphy_unregister (s\<lparr>wiphy_registered := False\<rparr>) else s);
     s \<leftarrow> rcu_barrier s;
     if \<not> has_wq s then None
     else Some (r92su_rx_deinit (r92su_release_firmware (emit Destroy_workqueue (s\<lparr>has_wq := False\<rparr>)))) }"

definition r92su_free :: "'w r92su \<Rightarrow> 'w r92su" where
  "r92su_free s = emit Wiphy_free s"

definition r92su_alloc :: "'w env \<Rightarrow> 'w \<Rightarrow> (int + 'w r92su) option" where
  "r92su_alloc E w = (case kmalloc E (r92su_zero w) of (ok, s) \<Rightarrow>
     if \<not> ok then Some (Inl (- ENOMEM))
     else let s = s\<lparr>disable_ht := modparam_noht E, iftype := IFTYPE_STATION\<rparr> in
       case kmalloc E s of (ok, s) \<Rightarrow>
       if ok then Some (Inr (s\<lparr>has_wq := True\<rparr>))
       else map_option (\<lambda>s. Inl (- ENOMEM)) (r92su_unregister E False s))"

section \<open>Probe and disconnect\<close>

abbreviation (input) DISABLE_HT :: nat where "DISABLE_HT \<equiv> 0"

text \<open>
  The devices of the driver: vendor, product and \<open>driver_info\<close>, in the order of the table, without
  its end mark. The USB core passes the first entry that matches to \<open>r92su_usb_probe\<close>.
\<close>

definition r92su_usb_product_ids :: "(u16 \<times> u16 \<times> u32) list" where
  "r92su_usb_product_ids = [
     (0x0bda, 0x8171, 0), (0x0bda, 0x8173, 0), (0x0bda, 0x8712, 0), (0x0bda, 0x8713, 0),
     (0x0bda, 0xc047, 0), (0x0bda, 0xc512, 0), (0x07b8, 0x8188, 0), (0x083a, 0xc512, 0),
     (0x1b75, 0x8171, 0), (0x0b05, 0x1786, 0), (0x0b05, 0x1791, BIT DISABLE_HT), (0x050d, 0x945a, 0),
     (0x050d, 0x11f1, 0), (0x07aa, 0x0047, 0), (0x2001, 0x3306, 0), (0x07d1, 0x3306, BIT DISABLE_HT),
     (0x7392, 0x7611, 0), (0x1740, 0x9603, 0), (0x0e66, 0x0016, 0), (0x06f8, 0xe034, 0),
     (0x06f8, 0xe032, 0), (0x0789, 0x0167, 0), (0x2019, 0xab28, 0), (0x2019, 0xed16, 0),
     (0x0df6, 0x0057, 0), (0x0df6, 0x0045, 0), (0x0df6, 0x0059, BIT DISABLE_HT), (0x0df6, 0x004b, 0),
     (0x0df6, 0x005b, 0), (0x0df6, 0x005d, 0), (0x0df6, 0x0063, 0), (0x177f, 0x0154, 0),
     (0x0bda, 0x5077, 0), (0x1690, 0x0752, 0), (0x20f4, 0x646b, 0), (0x25d4, 0x4ca1, 0),
     (0x25d4, 0x4cab, 0), (0x0bda, 0x8175, 0), (0x0bda, 0x8172, 0), (0x0bda, 0x8192, 0),
     (0x1b75, 0x8172, 0), (0x0eb0, 0x9061, 0), (0x13d3, 0x3323, 0), (0x13d3, 0x3311, BIT DISABLE_HT),
     (0x13d3, 0x3342, 0), (0x13d3, 0x3333, 0), (0x13d3, 0x3334, 0), (0x13d3, 0x3335, BIT DISABLE_HT),
     (0x13d3, 0x3336, BIT DISABLE_HT), (0x13d3, 0x3309, 0), (0x050d, 0x815f, 0), (0x07d1, 0x3302, 0),
     (0x07d1, 0x3300, 0), (0x07d1, 0x3303, 0), (0x7392, 0x7612, 0), (0x1740, 0x9605, 0),
     (0x06f8, 0xe031, 0), (0x0e66, 0x0015, 0), (0x13d3, 0x3306, 0), (0x2019, 0xed18, 0),
     (0x2019, 0x4901, 0), (0x0df6, 0x0058, 0), (0x0df6, 0x0049, 0), (0x0df6, 0x004c, 0),
     (0x0df6, 0x0064, 0), (0x14b2, 0x3300, 0), (0x14b2, 0x3301, 0), (0x14b2, 0x3302, 0),
     (0x0cde, 0x0030, 0), (0x04f2, 0xaff2, 0), (0x04f2, 0xaff5, 0), (0x04f2, 0xaff6, 0),
     (0x13d3, 0x3339, 0), (0x13d3, 0x3340, BIT DISABLE_HT), (0x13d3, 0x3341, BIT DISABLE_HT), (0x13d3, 0x3310, 0),
     (0x13d3, 0x3325, 0), (0x0bda, 0x8174, 0), (0x050d, 0x845a, 0), (0x07aa, 0x0051, 0),
     (0x7392, 0x7622, 0), (0x0409, 0x02b6, 0), (0x0df6, 0x0061, 0), (0x0df6, 0x006c, 0),
     (0x0009, 0x21e7, 0), (0x0e0b, 0x9063, 0), (0x5a57, 0x0291, 0)]"

definition usb_match_id :: "u16 \<Rightarrow> u16 \<Rightarrow> u32 option" where
  "usb_match_id vendor product =
     map_option (\<lambda>(v, p, i). i) (find (\<lambda>(v, p, i). v = vendor \<and> p = product) r92su_usb_product_ids)"

definition probe_out :: "'w env \<Rightarrow> int \<Rightarrow> 'w r92su \<Rightarrow> (int \<times> 'w r92su) option" where
  "probe_out E err s = (if err = 0 then Some (0, s)
     else do { s \<leftarrow> r92su_unregister E False s; Some (err, r92su_free s) })"

definition r92su_usb_probe :: "'w env \<Rightarrow> nat \<Rightarrow> u32 \<Rightarrow> 'w \<Rightarrow> (int + (int \<times> 'w r92su)) option" where
  "r92su_usb_probe E bNumEndpoints driver_info w = do {
     r \<leftarrow> r92su_alloc E w;
     (case r of
        Inl err \<Rightarrow> Some (Inl err)
      | Inr s \<Rightarrow> map_option Inr (do {
          (err, s) \<leftarrow> usb_select_map bNumEndpoints s;
          if err \<noteq> 0 then probe_out E err s
          else case r92su_usb_init E (r92su_set_state R92SU_PROBE
                 (if bit driver_info DISABLE_HT then s\<lparr>disable_ht := True\<rparr> else s)) of (err, s) \<Rightarrow>
            if err \<noteq> 0 then probe_out E err s
            else do {
              (err, s) \<leftarrow> r92su_setup E s;
              if err \<noteq> 0 then probe_out E err s
              else case r92su_register E s of (err, s) \<Rightarrow> probe_out E err s } })) }"

text \<open>
  A poisoned anchor refuses further blocks and completes the submitted ones, the last first, with
  \<open>-ENOENT\<close>; the frames that wait are freed by the driver.
\<close>

definition poisoned :: "'w env \<Rightarrow> 'w env" where
  "poisoned E = E\<lparr>usb_submit_urb := (\<lambda>u w. (- EINVAL, w))\<rparr>"

fun poison_tx :: "'w env \<Rightarrow> nat \<Rightarrow> 'w r92su \<Rightarrow> 'w r92su" where
  "poison_tx E 0 s = s"
| "poison_tx E (Suc n) s = poison_tx E n (r92su_tx_usb_cb (poisoned E) n (- ENOENT) s)"

fun free_waiting :: "urb list \<Rightarrow> 'w r92su \<Rightarrow> 'w r92su" where
  "free_waiting [] s = s"
| "free_waiting (u # us) s = free_waiting us (emit (Free_skb (urb_data u)) s)"

definition r92su_usb_disconnect :: "'w env \<Rightarrow> bool \<Rightarrow> 'w r92su \<Rightarrow> 'w r92su option" where
  "r92su_usb_disconnect E up s = do {
     s \<leftarrow> r92su_unregister E up s;
     let s = poison_tx E (length (tx_submitted s)) s;
     let s = s\<lparr>rx_submitted := 0\<rparr>;
     let s = free_waiting (tx_wait s) (s\<lparr>tx_wait := []\<rparr>);
     Some (r92su_free s) }"

definition r92su_usb_suspend :: "'w r92su \<Rightarrow> int \<times> 'w r92su" where "r92su_usb_suspend s = (0, s)"
definition r92su_usb_resume :: "'w r92su \<Rightarrow> int \<times> 'w r92su" where "r92su_usb_resume s = (0, s)"

section \<open>The table of devices\<close>

lemma product_ids_distinct: "distinct (map (\<lambda>(v, p, i). (v, p)) r92su_usb_product_ids)"
  by code_simp

text \<open>No entry hides another one.\<close>

lemma usb_match_listed: "(v, p, i) \<in> set r92su_usb_product_ids \<Longrightarrow> usb_match_id v p = Some i"
proof -
  have "distinct (map (\<lambda>(v, p, i). (v, p)) ids) \<Longrightarrow> (v, p, i) \<in> set ids \<Longrightarrow>
      find (\<lambda>(v', p', i). v' = v \<and> p' = p) ids = Some (v, p, i)" for ids :: "(u16 \<times> u16 \<times> u32) list"
    by (induction ids) (auto split: if_splits, force+)
  then show "(v, p, i) \<in> set r92su_usb_product_ids \<Longrightarrow> usb_match_id v p = Some i"
    using product_ids_distinct by (simp add: usb_match_id_def)
qed

end
