(* ===== verification/R92_Efuse.thy ===== *)
theory R92_Efuse
  imports R92_Hw R92_Eeprom
begin

text \<open>
  What the driver reads out of the efuse of a chip that behaves as documented: the image that the
  bytes of the efuse describe.
\<close>

section \<open>The controller of the efuse\<close>

text \<open>
  The registers as the driver sees them: the data register shows the byte of the efuse whose address
  is in the two registers behind it, and the flag of the control register is set when the byte is
  there. A write stores a byte.
\<close>

definition efuse_addr :: "(u16 \<Rightarrow> u8) \<Rightarrow> nat" where
  "efuse_addr r = unat (r (ucast (REG_EFUSE_CTRL + 1))) + 256 * unat (r (ucast (REG_EFUSE_CTRL + 2)) AND 3)"

definition efuse_view :: "(nat \<Rightarrow> u8) \<Rightarrow> (u16 \<Rightarrow> u8) \<Rightarrow> u16 \<Rightarrow> u8" where
  "efuse_view rom r x =
     (if x = ucast REG_EFUSE_CTRL then rom (efuse_addr r)
      else if x = ucast (REG_EFUSE_CTRL + 3) then r x OR 0x80 else r x)"

definition efuse_device :: "'w env \<Rightarrow> ('w \<Rightarrow> u16 \<Rightarrow> u8) \<Rightarrow> (nat \<Rightarrow> u8) \<Rightarrow> bool" where
  "efuse_device E regs rom \<longleftrightarrow>
     (\<forall>n. alloc_ok E n) \<and> (\<forall>n. length (stack_garbage E n) = n) \<and>
     (\<forall>a n w. fst (usb_control_in E a n w) = (int n, map (\<lambda>i. efuse_view rom (regs w) (a + of_nat i)) [0..<n]) \<and>
        regs (snd (usb_control_in E a n w)) = regs w) \<and>
     (\<forall>a d w. fst (usb_control_out E a d w) = int (length d) \<and>
        regs (snd (usb_control_out E a d w)) =
          (\<lambda>x. if unat (x - a) < length d then d ! unat (x - a) else regs w x))"

lemma efuse_write:
  assumes "efuse_device E regs rom" "r92su_is_probing s"
  shows "\<exists>s'. run_state (r92su_write_helper E a d) s = ((), s') \<and> r92su_is_probing s' \<and>
     regs (world s') = (\<lambda>x. if unat (x - ucast a) < length d then d ! unat (x - ucast a) else regs (world s) x)"
proof -
  obtain r w where c: "usb_control_out E (ucast a) d (world s) = (r, w)" by fastforce
  have "fst (usb_control_out E (ucast a) d (world s)) = int (length d)"
      "regs (snd (usb_control_out E (ucast a) d (world s))) =
        (\<lambda>x. if unat (x - ucast a) < length d then d ! unat (x - ucast a) else regs (world s) x)"
    using assms(1) unfolding efuse_device_def by blast+
  moreover have "alloc_ok E (allocs s)" using assms(1) by (simp add: efuse_device_def)
  ultimately show ?thesis using assms(2) c
    by (simp add: r92su_write_helper_def r92su_sync_write_def kmalloc_def
        r92su_deal_with_usb_errors_def State_Monad.get_def r92su_is_probing_def)
qed

lemma efuse_read:
  assumes "efuse_device E regs rom" "r92su_is_probing s" "0 < n"
  shows "\<exists>s'. run_state (r92su_read_helper E a n) s =
       (map (\<lambda>i. efuse_view rom (regs (world s)) (ucast a + of_nat i)) [0..<n], s') \<and> r92su_is_probing s' \<and>
     regs (world s') = regs (world s)"
proof -
  obtain r d w where c: "usb_control_in E (ucast a) n (world s) = ((r, d), w)"
    by (metis prod.collapse)
  have "fst (usb_control_in E (ucast a) n (world s)) =
        (int n, map (\<lambda>i. efuse_view rom (regs (world s)) (ucast a + of_nat i)) [0..<n])"
      "regs (snd (usb_control_in E (ucast a) n (world s))) = regs (world s)"
    using assms(1) unfolding efuse_device_def by blast+
  then have "r = int n" "d = map (\<lambda>i. efuse_view rom (regs (world s)) (ucast a + of_nat i)) [0..<n]"
      "regs w = regs (world s)"
    by (simp_all add: c)
  moreover have "alloc_ok E (allocs s)" "length (stack_garbage E n) = n" using assms(1) by (simp_all add: efuse_device_def)
  ultimately show ?thesis using assms(2-3) c
    by (simp add: r92su_read_helper_def r92su_sync_read_def kmalloc_def Let_def
        r92su_deal_with_usb_errors_def State_Monad.get_def r92su_is_probing_def)
qed

lemma efuse_write8:
  assumes "efuse_device E regs rom" "r92su_is_probing s"
  shows "\<exists>s'. run_state (r92su_write8 E a v) s = ((), s') \<and> r92su_is_probing s' \<and>
     regs (world s') = (regs (world s))(ucast a := v)"
  using efuse_write [OF assms, of a "[v]"] by (auto simp: r92su_write8_def fun_eq_iff unat_eq_0)

lemma efuse_read8:
  assumes "efuse_device E regs rom" "r92su_is_probing s"
  shows "\<exists>s'. run_state (r92su_read8 E a) s = (efuse_view rom (regs (world s)) (ucast a), s') \<and> r92su_is_probing s' \<and>
     regs (world s') = regs (world s)"
  using efuse_read [OF assms, of 1 a] by (auto simp: r92su_read8_def)

section \<open>One byte\<close>

lemma efuse_regs:
  "(ucast (REG_EFUSE_CTRL + 1) :: u16) \<noteq> ucast REG_EFUSE_CTRL" "(ucast (REG_EFUSE_CTRL + 2) :: u16) \<noteq> ucast REG_EFUSE_CTRL"
  "(ucast (REG_EFUSE_CTRL + 3) :: u16) \<noteq> ucast REG_EFUSE_CTRL" "(ucast (REG_EFUSE_CTRL + 2) :: u16) \<noteq> ucast (REG_EFUSE_CTRL + 1)"
  "(ucast (REG_EFUSE_CTRL + 3) :: u16) \<noteq> ucast (REG_EFUSE_CTRL + 1)" "(ucast (REG_EFUSE_CTRL + 2) :: u16) \<noteq> ucast (REG_EFUSE_CTRL + 3)"
  by (simp_all add: reg_defs)

lemma low_byte: "unat (ucast (v AND 0xff :: u16) :: u8) = unat v mod 256"
proof -
  have m: "(0xff :: u16) = mask 8" by (simp add: mask_eq_exp_minus_1)
  have "ucast (v AND 0xff) = (ucast v :: u8)"
    unfolding m by (intro bit_word_eqI) (auto simp: bit_simps bit_mask_iff)
  then show ?thesis by (simp add: unsigned_ucast_eq take_bit_eq_mod)
qed

lemma high_bits: "unat (((t AND NOT (BIT 0 OR BIT 1)) OR ucast (drop_bit 8 v AND 0x3)) AND (3 :: u8)) = unat (v :: u16) div 256 mod 4"
proof -
  have m: "(3 :: u8) = mask 2" "(3 :: u16) = mask 2" "BIT 0 OR BIT 1 = (mask 2 :: u8)"
    by (simp_all add: mask_eq_exp_minus_1 BIT_def)
  have "((t AND NOT (BIT 0 OR BIT 1)) OR ucast (drop_bit 8 v AND 0x3)) AND (3 :: u8) = take_bit 2 (ucast (drop_bit 8 v))"
    unfolding m by (intro bit_word_eqI) (auto simp: bit_simps bit_mask_iff)
  then have "unat (((t AND NOT (BIT 0 OR BIT 1)) OR ucast (drop_bit 8 v AND 0x3)) AND (3 :: u8)) = take_bit 2 (take_bit 8 (drop_bit 8 (unat v)))"
    by (simp only: unsigned_take_bit_eq unsigned_ucast_eq unsigned_drop_bit_eq) (simp add: take_bit_drop_bit)
  then show ?thesis by (simp add: take_bit_eq_mod drop_bit_eq_div mod_mod_cancel)
qed

lemma efuse_byte:
  assumes "efuse_device E regs rom" "r92su_is_probing s" "a < 1024"
  shows "\<exists>s'. run_state (efuse_read_byte E (of_nat a)) s = (rom a, s') \<and> r92su_is_probing s'"
proof -
  note dev = assms(1)
  let ?v = "of_nat a :: u16" and ?r = "regs (world s)"
  let ?lo = "ucast (?v AND 0xff) :: u8"
  obtain s1 where s1: "run_state (r92su_write8 E (REG_EFUSE_CTRL + 1) ?lo) s = ((), s1)" "r92su_is_probing s1"
    "regs (world s1) = ?r(ucast (REG_EFUSE_CTRL + 1) := ?lo)"
    using efuse_write8 [OF dev assms(2)] by blast
  obtain t s2 where s2: "run_state (r92su_read8 E (REG_EFUSE_CTRL + 2)) s1 = (t, s2)" "r92su_is_probing s2"
    "regs (world s2) = regs (world s1)"
    using efuse_read8 [OF dev s1(2)] by blast
  let ?hi = "(t AND NOT (BIT 0 OR BIT 1)) OR ucast (drop_bit 8 ?v AND 0x3) :: u8"
  obtain s3 where s3: "run_state (r92su_write8 E (REG_EFUSE_CTRL + 2) ?hi) s2 = ((), s3)" "r92su_is_probing s3"
    "regs (world s3) = (regs (world s2))(ucast (REG_EFUSE_CTRL + 2) := ?hi)"
    using efuse_write8 [OF dev s2(2)] by blast
  obtain s4 where s4: "run_state (r92su_write8 E (REG_EFUSE_CTRL + 3) 0x72) s3 = ((), s4)" "r92su_is_probing s4"
    "regs (world s4) = (regs (world s3))(ucast (REG_EFUSE_CTRL + 3) := 0x72)"
    using efuse_write8 [OF dev s3(2)] by blast
  obtain s5 where s5: "run_state (r92su_read8 E (REG_EFUSE_CTRL + 3)) s4 = (0xf2, s5)" "r92su_is_probing s5"
    "regs (world s5) = regs (world s4)"
    using efuse_read8 [OF dev s4(2), of "REG_EFUSE_CTRL + 3"] by (auto simp: efuse_view_def efuse_regs s4(3))
  obtain b s6 where s6: "run_state (r92su_read8 E REG_EFUSE_CTRL) s5 = (b, s6)" "r92su_is_probing s6"
    "b = rom (efuse_addr (regs (world s5)))"
    using efuse_read8 [OF dev s5(2), of REG_EFUSE_CTRL] by (auto simp: efuse_view_def)
  have n: "unat ?v = a" using assms(3) by (simp add: unat_of_nat take_bit_eq_mod)
  have "regs (world s5) (ucast (REG_EFUSE_CTRL + 1)) = ?lo" "regs (world s5) (ucast (REG_EFUSE_CTRL + 2)) = ?hi"
    by (simp_all only: s5(3) s4(3) s3(3) s2(3) s1(3) fun_upd_apply efuse_regs efuse_regs [symmetric] simp_thms if_True if_False)
  then have "efuse_addr (regs (world s5)) = a mod 256 + 256 * (a div 256 mod 4)"
    by (simp only: efuse_addr_def low_byte high_bits n)
  also have "\<dots> = a"
    using less_mult_imp_div_less [of a 4 256] assms(3) by simp
  finally have "b = rom a" using s6(3) by simp
  moreover have "run_state (efuse_poll E 10) s4 = (True, s5)"
    using s5(1) efuse_poll.simps(2) [of E 9] by simp
  ultimately show ?thesis
    using s1 s2 s3 s4 s6 by (simp add: efuse_read_byte_def)
qed

section \<open>The image\<close>

text \<open>
  The expansion of the blocks as a function of the bytes of the efuse: the words of a block, least
  significant bit of the bitmap first, then the blocks up to the end mark or the end of the efuse.
\<close>

fun image_words :: "(nat \<Rightarrow> u8) \<Rightarrow> nat list \<Rightarrow> u8 \<Rightarrow> u8 \<Rightarrow> nat \<Rightarrow> bytes \<Rightarrow> bool \<times> nat \<times> bytes" where
  "image_words rom [] desc bm off img = (False, off, img)"
| "image_words rom (i # is) desc bm off img =
     (if bm AND 0x01 = 0 then
        if R92SU_EFUSE_REAL_SIZE \<le> off + 1 then (True, off + 1, img[efuse_index desc i := rom off])
        else if R92SU_EFUSE_REAL_SIZE \<le> off + 2
          then (True, off + 2, img[efuse_index desc i := rom off, efuse_index desc i + 1 := rom (off + 1)])
        else image_words rom is desc (drop_bit 1 bm) (off + 2)
               (img[efuse_index desc i := rom off, efuse_index desc i + 1 := rom (off + 1)])
      else image_words rom is desc (drop_bit 1 bm) off img)"

fun image_blocks :: "(nat \<Rightarrow> u8) \<Rightarrow> nat \<Rightarrow> nat \<Rightarrow> bytes \<Rightarrow> bytes" where
  "image_blocks rom 0 off img = img"
| "image_blocks rom (Suc fuel) off img =
     (if R92SU_EFUSE_REAL_SIZE \<le> off \<or> rom off = 0xff then img
      else case image_words rom [0, 2, 4, 6] (rom off) (rom off AND 0xf) (off + 1) img of (leave, off, img) \<Rightarrow>
        if leave then img else image_blocks rom fuel off img)"

definition efuse_image :: "(nat \<Rightarrow> u8) \<Rightarrow> bytes" where
  "efuse_image rom = image_blocks rom R92SU_EFUSE_REAL_SIZE 0 (replicate SIZEOF_EEPROM 0xff)"

lemma efuse_words_image:
  assumes dev: "efuse_device E regs rom"
  shows "off \<le> 512 \<Longrightarrow> r92su_is_probing s \<Longrightarrow>
    \<exists>s'. run_state (efuse_words E is desc bm off img) s = (image_words rom is desc bm off img, s') \<and> r92su_is_probing s'"
proof (induction "is" arbitrary: bm off img s)
  case (Cons i "is")
  show ?case
  proof (cases "bm AND 0x01 = 0")
    case True
    have "off < 1024" "off + 1 < 1024" using Cons.prems(1) by auto
    obtain s1 where s1: "run_state (efuse_read_byte E (of_nat off)) s = (rom off, s1)" "r92su_is_probing s1"
      using efuse_byte [OF dev Cons.prems(2) \<open>off < 1024\<close>] by blast
    obtain s2 where s2: "run_state (efuse_read_byte E (of_nat (off + 1))) s1 = (rom (off + 1), s2)" "r92su_is_probing s2"
      using efuse_byte [OF dev s1(2) \<open>off + 1 < 1024\<close>] by blast
    show ?thesis
    proof (cases "R92SU_EFUSE_REAL_SIZE \<le> off + 2")
      case True
      then show ?thesis using \<open>bm AND 0x01 = 0\<close> s1 s2 by (auto simp: Let_def)
    next
      case False
      then show ?thesis
        using \<open>bm AND 0x01 = 0\<close> s1 s2
          Cons.IH [of "off + 2" s2 "drop_bit 1 bm" "img[efuse_index desc i := rom off, efuse_index desc i + 1 := rom (off + 1)]"]
        by (auto simp: Let_def)
    qed
  next
    case False
    then show ?thesis using Cons by auto
  qed
qed simp

lemma image_words_off:
  "image_words rom is desc m off img = (leave, off', img') \<Longrightarrow>
     off \<le> off' \<and> length img' = length img \<and> (\<not> leave \<longrightarrow> off \<le> 512 \<longrightarrow> off' \<le> 512)"
proof (induction "is" arbitrary: m off img)
  case (Cons i "is")
  show ?case
  proof (cases "m AND 0x01 = 0")
    case True
    with Cons.prems show ?thesis
      by (auto split: if_splits dest!: Cons.IH)
  next
    case False
    with Cons.prems show ?thesis by (auto dest!: Cons.IH)
  qed
qed simp

lemma efuse_blocks_image:
  assumes dev: "efuse_device E regs rom"
  shows "512 - off \<le> fuel \<Longrightarrow> off \<le> 512 \<Longrightarrow> r92su_is_probing s \<Longrightarrow>
    \<exists>s'. run_state (efuse_blocks E fuel off img) s = (Some (image_blocks rom fuel off img), s') \<and> r92su_is_probing s'"
proof (induction fuel arbitrary: off img s)
  case (Suc fuel)
  show ?case
  proof (cases "off < 512")
    case True
    then have "off < 1024" "off + 1 \<le> 512" by simp_all
    obtain s1 where s1: "run_state (efuse_read_byte E (of_nat off)) s = (rom off, s1)" "r92su_is_probing s1"
      using efuse_byte [OF dev Suc.prems(3) \<open>off < 1024\<close>] by blast
    obtain leave off' img' where w: "image_words rom [0, 2, 4, 6] (rom off) (rom off AND 0xf) (off + 1) img = (leave, off', img')"
      by (cases "image_words rom [0, 2, 4, 6] (rom off) (rom off AND 0xf) (off + 1) img") auto
    obtain s2 where s2: "run_state (efuse_words E [0, 2, 4, 6] (rom off) (rom off AND 0xf) (off + 1) img) s1 =
        ((leave, off', img'), s2)" "r92su_is_probing s2"
      using efuse_words_image [OF dev \<open>off + 1 \<le> 512\<close> s1(2)] w by metis
    show ?thesis
    proof (cases "rom off = 0xff \<or> leave")
      case True
      then show ?thesis using \<open>off < 512\<close> s1 s2 w by (auto simp: Let_def)
    next
      case False
      have "512 - off' \<le> fuel" "off' \<le> 512"
        using image_words_off [OF w] False Suc.prems(1) \<open>off < 512\<close> by auto
      from Suc.IH [OF this s2(2), of img'] show ?thesis
        using False \<open>off < 512\<close> s1 s2 w by (auto simp: Let_def)
    qed
  qed (use Suc.prems in simp)
qed simp

lemma efuse_write8s:
  assumes dev: "efuse_device E regs rom" and s: "r92su_is_probing s"
  shows "\<exists>s'. run_state (r92su_efuse_initialize E) s = ((), s') \<and> r92su_is_probing s'"
    "\<exists>s'. run_state (r92su_efuse_shutdown E) s = ((), s') \<and> r92su_is_probing s'"
proof -
  obtain t s1 where s1: "run_state (r92su_read8 E (REG_EFUSE_TEST + 3)) s = (t, s1)" "r92su_is_probing s1"
    using efuse_read8 [OF dev s] by blast
  obtain s2 where s2: "run_state (r92su_write8 E (REG_EFUSE_TEST + 3) (t OR BIT 7)) s1 = ((), s2)" "r92su_is_probing s2"
    using efuse_write8 [OF dev s1(2)] by blast
  obtain s3 where s3: "run_state (r92su_write8 E REG_EFUSE_CLK_CTRL 0x3) s2 = ((), s3)" "r92su_is_probing s3"
    using efuse_write8 [OF dev s2(2)] by blast
  obtain s4 where s4: "run_state (r92su_write8 E (REG_EFUSE_CTRL + 3) 0x72) s3 = ((), s4)" "r92su_is_probing s4"
    using efuse_write8 [OF dev s3(2)] by blast
  show "\<exists>s'. run_state (r92su_efuse_initialize E) s = ((), s') \<and> r92su_is_probing s'"
    using s1 s2 s3 s4 by (simp add: r92su_efuse_initialize_def)
  obtain u2 where u2: "run_state (r92su_write8 E (REG_EFUSE_TEST + 3) (t AND NOT (BIT 7))) s1 = ((), u2)" "r92su_is_probing u2"
    using efuse_write8 [OF dev s1(2)] by blast
  obtain u3 where u3: "run_state (r92su_write8 E REG_EFUSE_CLK_CTRL 0x2) u2 = ((), u3)" "r92su_is_probing u3"
    using efuse_write8 [OF dev u2(2)] by blast
  show "\<exists>s'. run_state (r92su_efuse_shutdown E) s = ((), s') \<and> r92su_is_probing s'"
    using s1 u2 u3 by (simp add: r92su_efuse_shutdown_def)
qed

lemma fetch_image:
  assumes "efuse_device E regs rom" and "r92su_is_probing s"
    and "regs (world s) (ucast REG_EEPROM_CMD) AND EEPROM_CMD_AUTOLOAD_OK \<noteq> 0"
  shows "\<exists>t. run_state (r92su_fetch_eeprom_data E) s = (Some 0, t) \<and> eeprom t = efuse_image rom \<and> r92su_is_probing t"
proof -
  have v: "efuse_view rom (regs (world s)) (ucast REG_EEPROM_CMD) = regs (world s) (ucast REG_EEPROM_CMD)"
    by (simp add: efuse_view_def reg_defs)
  obtain s1 where s1: "run_state (r92su_read8 E REG_EEPROM_CMD) s = (regs (world s) (ucast REG_EEPROM_CMD), s1)" "r92su_is_probing s1"
    using efuse_read8 [OF assms(1,2), of REG_EEPROM_CMD] unfolding v by blast
  let ?s = "s1\<lparr>eeprom_type := (if regs (world s) (ucast REG_EEPROM_CMD) AND EEPROM_CMD_93C46 \<noteq> 0 then EEPROM_93C46 else EEPROM_BOOT_EFUSE)\<rparr>"
  have "r92su_is_probing ?s" using s1(2) by (simp add: r92su_is_probing_def)
  then obtain s2 where s2: "run_state (r92su_efuse_initialize E) ?s = ((), s2)" "r92su_is_probing s2"
    using efuse_write8s(1) [OF assms(1)] by blast
  obtain s3 where s3: "run_state (efuse_blocks E 512 0 (replicate 128 0xff)) s2 = (Some (efuse_image rom), s3)" "r92su_is_probing s3"
    using efuse_blocks_image [OF assms(1) _ _ s2(2), of 0 512 "replicate 128 0xff"] unfolding efuse_image_def by auto
  have "r92su_is_probing (s3\<lparr>eeprom := efuse_image rom\<rparr>)" using s3(2) by (simp add: r92su_is_probing_def)
  then obtain s4 where s4: "run_state (r92su_efuse_shutdown E) (s3\<lparr>eeprom := efuse_image rom\<rparr>) = ((), s4)" "r92su_is_probing s4"
    using efuse_write8s(2) [OF assms(1)] by blast
  have "eeprom s4 = efuse_image rom"
    using efuse_shutdown_eeprom [of E "s3\<lparr>eeprom := efuse_image rom\<rparr>"] s4(1) by simp
  then show ?thesis
    using s1 s2 s3 s4 assms(3) by (simp add: r92su_fetch_eeprom_data_def)
qed

text \<open>
  C17. The adapter information is what the efuse holds: on a chip whose efuse controller works as
  documented and which has loaded its configuration, the fetch succeeds, and the image is the
  expansion of the blocks of the efuse.
\<close>

theorem eeprom_fetch_decodes:
  assumes "efuse_device E regs rom" and "r92su_is_probing s"
    and "regs (world s) (ucast REG_EEPROM_CMD) AND EEPROM_CMD_AUTOLOAD_OK \<noteq> 0"
  shows "\<exists>t. run_state (r92su_fetch_eeprom_data E) s = (Some 0, t) \<and> eeprom t = efuse_image rom \<and> r92su_is_probing t"
  by (rule fetch_image [OF assms])

text \<open>
  An efuse with the identification, an address and the type of the board, and a chip that holds it.
\<close>

definition demo_rom :: "nat \<Rightarrow> u8" where
  "demo_rom a = (let rom = [0x0E, 0x29, 0x81, 0x21, 0x00, 0xe0, 0x4c, 0x81, 0x92, 0x01, 0xAB, 0x00, 0x00] in
     if a < length rom then rom ! a else 0xff)"

definition efuse_env :: "(u16 \<Rightarrow> u8) env" where
  "efuse_env = reg_env\<lparr>usb_control_in := (\<lambda>a n w. ((int n, map (\<lambda>i. efuse_view demo_rom w (a + of_nat i)) [0..<n]), w))\<rparr>"

definition demo_chip :: "u16 \<Rightarrow> u8" where
  "demo_chip x = (if x = ucast REG_EEPROM_CMD then 0x20 else 0)"

lemma efuse_device_demo: "efuse_device efuse_env (\<lambda>w. w) demo_rom"
  by (simp add: efuse_device_def efuse_env_def reg_env_def)

lemma demo_image:
  "efuse_image demo_rom = [0x29, 0x81] @ replicate 16 0xff @ [0x00, 0xe0, 0x4c, 0x81, 0x92, 0x01] @ replicate 60 0xff @ [0, 0] @ replicate 42 0xff"
  by code_simp

theorem eeprom_fetch_decodes_witness:
  "\<exists>t. run_state (r92su_fetch_eeprom_data efuse_env) (probed\<lparr>world := demo_chip\<rparr>) = (Some 0, t) \<and>
     eeprom_mac_addr (eeprom t) = [0x00, 0xe0, 0x4c, 0x81, 0x92, 0x01]"
proof -
  have "r92su_is_probing (probed\<lparr>world := demo_chip\<rparr>)" by (simp add: probed_def state_preds state_order)
  moreover have "demo_chip (ucast REG_EEPROM_CMD) AND EEPROM_CMD_AUTOLOAD_OK \<noteq> 0"
    by (simp add: demo_chip_def reg_defs BIT_def)
  ultimately show ?thesis
    using eeprom_fetch_decodes [OF efuse_device_demo, of "probed\<lparr>world := demo_chip\<rparr>"]
    by (auto simp: demo_image eeprom_mac_addr_def)
qed

end
