(* ===== verification/R92_Cycle.thy ===== *)
theory R92_Cycle
  imports R92_Life R92_Efuse R92_Debugfs
begin

text \<open>
  The life cycle as a transition system: which operations keep the mode, the connected network and
  the state of the device, what the others do to them, and the invariant of all sequences of
  operations.
\<close>

section \<open>Operations that keep the life cycle\<close>

definition opt_life :: "'w r92su \<Rightarrow> 'w r92su option \<Rightarrow> bool" where
  "opt_life s m \<longleftrightarrow> (\<forall>t. m = Some t \<longrightarrow> life s t)"

lemma opt_lifeD: "opt_life s m \<Longrightarrow> m = Some t \<Longrightarrow> life s t"
  by (simp add: opt_life_def)

lemma opt_lifeI: "(\<And>t. m = Some t \<Longrightarrow> life s t) \<Longrightarrow> opt_life s m"
  by (simp add: opt_life_def)

lemma opt_life_simps [simp]:
  "opt_life s None" "opt_life s (Some t) = life s t"
  "opt_life s (if b then m else n) = (if b then opt_life s m else opt_life s n)"
  by (simp_all add: opt_life_def)

lemma opt_life_read: "(\<And>x. m = Some x \<Longrightarrow> opt_life s (f x)) \<Longrightarrow> opt_life s (Option.bind m f)"
  by (cases m) simp_all

lemma opt_life_step: "opt_life s m \<Longrightarrow> (\<And>u. opt_life u (f u)) \<Longrightarrow> opt_life s (Option.bind m f)"
  by (cases m) (auto simp: opt_life_def intro: life_trans)

lemma opt_life_bind: "out_life s m \<Longrightarrow> (\<And>r u. opt_life u (f r u)) \<Longrightarrow> opt_life s (Option.bind m (\<lambda>(r, u). f r u))"
  by (cases m) (auto simp: opt_life_def out_life_def intro: life_trans)

lemma out_life_opt: "opt_life s m \<Longrightarrow> (\<And>u. out_life u (f u)) \<Longrightarrow> out_life s (Option.bind m f)"
  by (rule out_life_step) (auto intro: opt_lifeD)

lemma out_life_option: "(p = None \<Longrightarrow> out_life s m) \<Longrightarrow> (\<And>x. p = Some x \<Longrightarrow> out_life s (f x)) \<Longrightarrow>
    out_life s (case p of None \<Rightarrow> m | Some x \<Rightarrow> f x)"
  by (cases p) simp_all

lemma out_life_sum: "(\<And>x. out_life s (f x)) \<Longrightarrow> (\<And>x. out_life s (g x)) \<Longrightarrow> out_life s (case p of Inl x \<Rightarrow> f x | Inr x \<Rightarrow> g x)"
  by (cases p) simp_all

lemma out_life_from: "out_life t m \<Longrightarrow> life s t \<Longrightarrow> out_life s m"
  by (auto simp: out_life_def intro: life_trans)

lemma opt_life_from: "opt_life t m \<Longrightarrow> life s t \<Longrightarrow> opt_life s m"
  by (auto simp: opt_life_def intro: life_trans)

lemma out_life_prod: "(\<And>a b. x = (a, b) \<Longrightarrow> out_life s (f a b)) \<Longrightarrow> out_life s (case x of (a, b) \<Rightarrow> f a b)"
  by (cases x) simp

lemma opt_life_option: "(p = None \<Longrightarrow> opt_life s m) \<Longrightarrow> (\<And>x. p = Some x \<Longrightarrow> opt_life s (f x)) \<Longrightarrow>
    opt_life s (case p of None \<Rightarrow> m | Some x \<Rightarrow> f x)"
  by (cases p) simp_all

lemma opt_life_if: "opt_life s m \<Longrightarrow> opt_life s n \<Longrightarrow> opt_life s (if b then m else n)"
  by simp

lemma opt_life_prod: "(\<And>a b. x = (a, b) \<Longrightarrow> opt_life s (f a b)) \<Longrightarrow> opt_life s (case x of (a, b) \<Rightarrow> f a b)"
  by (cases x) simp

lemma life_if: "life s t \<Longrightarrow> life s u \<Longrightarrow> life s (if b then t else u)"
  by simp

text \<open>Reading the facts of \<open>life_ops\<close> as rules along a do-block.\<close>

lemma life_outs:
  "out_life s (r92su_h2c_set_mac_addr E a s)" "out_life s (r92su_h2c_set_opmode E m s)"
  "out_life s (r92su_h2c_set_channel E c s)" "out_life s (r92su_h2c_survey E ssid s)"
  "out_life s (r92su_h2c_disconnect E s)" "out_life s (r92su_h2c_set_key E al i g k s)"
  "out_life s (r92su_h2c_set_sta_key E al mac k s)" "out_life s (r92su_h2c_set_auth E am x s)"
  "out_life s (r92su_h2c_connect E b j ie n s)" "out_life s (r92su_sta_alloc E mo mi aid s)"
  "out_life s (r92su_key_alloc E ci i mo pw k s)" "out_life s (r92su_load_firmware f s)"
  by (auto intro!: out_lifeI dest: life_h2c life_h2c_connect life_sta_alloc life_key_alloc life_load_firmware)

lemma life_opts:
  "opt_life s (r92su_set_power E on s)" "opt_life s (r92su_key_free k s)" "opt_life s (r92su_sta_del m s)"
  "opt_life s (rcu_step s)" "opt_life s (r92su_hw_service_work E s)"
  by (auto intro!: opt_lifeI dest: life_set_power life_key_free life_sta_del life_rcu_step life_service_work)

lemma life_heap:
  "opt_life s (upd_priv b f s)" "opt_life s (kfree p s)" "out_life s (kmemdup E d s)" "opt_life s (free_key_rcu k s)"
  by (auto simp: upd_priv_def kfree_def kmemdup_def free_key_rcu_def kmalloc_def Option.bind_eq_Some_conv
      split: option.splits if_splits intro!: opt_lifeI out_lifeI)

lemmas out_ops = life_outs [THEN out_life_from]

lemmas opt_ops = life_opts [THEN opt_life_from]

lemmas heap_ops = life_heap(1,2,4) [THEN opt_life_from] life_heap(3) [THEN out_life_from]

lemmas life_flow = out_life_bind out_life_opt out_life_read out_life_option out_life_sum out_life_if
  out_life_prod
  opt_life_bind opt_life_step opt_life_read opt_life_option opt_life_if opt_life_prod life_if

lemma life_set_auth: "out_life s (r92su_connect_set_auth E b a c s)"
  unfolding r92su_connect_set_auth_def
  by (intro life_flow heap_ops out_ops | simp)+

lemma life_old_key: "opt_life s (old_key_free k s)" "out_life s (add_key_out p err s)"
  unfolding old_key_free_def add_key_out_def
  by (intro life_flow heap_ops opt_ops | simp)+

lemma life_key_upload: "out_life s (key_upload E hw p k key s)"
  unfolding key_upload_def
  by (intro life_flow out_ops | simp)+

lemmas key_ops = life_old_key(1) [THEN opt_life_from] life_old_key(2) [THEN out_life_from] life_key_upload [THEN out_life_from]

lemma life_add_key: "out_life s (r92su_internal_add_key E bss ci idx pw mac key force s)"
  unfolding r92su_internal_add_key_def Let_def
  by (intro life_flow key_ops heap_ops out_ops | simp)+

lemma life_del_key: "out_life s (del_sta_key E mac s)" "out_life s (del_group_key E idx s)"
  unfolding del_sta_key_def del_group_key_def Let_def
  by (intro life_flow key_ops heap_ops out_ops opt_ops | simp)+

lemma life_scan: "out_life s (internal_scan_start E ssid s)" "out_life s (r92su_scan E ssids s)"
  unfolding internal_scan_start_def r92su_scan_def Let_def queue_survey_done_def
  by (intro life_flow out_ops | simp)+

lemma life_survey_done: "life s (r92su_survey_done_work s)"
  by (simp add: r92su_survey_done_work_def Let_def)

lemma life_internal_connect: "out_life s (r92su_internal_connect E b j ies s)" "out_life s (connect_out bo err s)"
  unfolding r92su_internal_connect_def connect_out_def Let_def
  by (intro life_flow heap_ops out_ops | simp)+

lemmas connect_ops = life_internal_connect [THEN out_life_from] life_set_auth [THEN out_life_from] life_add_key [THEN out_life_from]

lemma life_connect: "out_life s (connect_locked E sme s)" "out_life s (join_ibss_locked E params s)"
  unfolding connect_locked_def join_ibss_locked_def ibss_create_def r92su_connect_set_shared_key_def Let_def
  by (intro life_flow connect_ops heap_ops | simp)+

lemma life_free_keys: "opt_life s (free_keys ks s)"
  by (induction ks arbitrary: s) (simp, simp only: free_keys.simps, intro life_flow opt_ops, simp, simp)

lemma life_bss_free: "opt_life s (r92su_bss_free b s)"
  unfolding r92su_bss_free_def
  by (intro life_flow opt_ops heap_ops life_free_keys [THEN opt_life_from] | simp)+

lemma life_bss_add: "opt_life s (r92su_bss_add_work E s)"
proof -
  have "opt_life s (bss_add_one E d s)" for d and s :: "'a r92su"
    unfolding bss_add_one_def r92su_bss_init_def Let_def
    by (intro life_flow heap_ops | simp)+
  note one = this [THEN opt_life_from]
  have "opt_life s (bss_add_all E ds s)" for ds and s :: "'a r92su"
    by (induction ds arbitrary: s) (simp, simp only: bss_add_all.simps, intro life_flow one, simp, simp)
  note all = this [THEN opt_life_from]
  show ?thesis unfolding r92su_bss_add_work_def by (intro all) simp
qed

section \<open>Operations that change it\<close>

text \<open>The invariants of the station table, of the transport and of the debugging ring.\<close>

definition keeps :: "'w r92su \<Rightarrow> 'w r92su \<Rightarrow> bool" where
  "keeps s t \<longleftrightarrow> (table_inv s \<longrightarrow> table_inv t) \<and> (tx_inv s \<longrightarrow> tx_inv t) \<and>
     (ring_ok (debug s) \<longrightarrow> ring_ok (debug t))"

lemma tx_inv_state: "r_state s \<noteq> R92SU_DEAD \<Longrightarrow> tx_inv s \<Longrightarrow> tx_inv (s\<lparr>r_state := x\<rparr>)"
  by (auto simp: tx_inv_def r92su_is_dead_def)

lemma keeps_state: "r_state s \<noteq> R92SU_DEAD \<Longrightarrow> keeps s (r92su_set_state x s)"
  unfolding keeps_def r92su_set_state_def
  by (auto intro: tx_inv_state table_inv_cong [THEN iffD2, rotated -1])

lemma keeps_refl [simp]: "keeps s s"
  by (simp add: keeps_def)

lemma keeps_trans: "keeps s t \<Longrightarrow> keeps t u \<Longrightarrow> keeps s u"
  by (simp add: keeps_def)

lemma life_keeps: "life s t \<Longrightarrow> keeps s t"
  by (simp add: life_def cycle_kept_def keeps_def)

lemma table_inv_upd [simp]:
  "table_inv (s\<lparr>log := l\<rparr>) = table_inv s" "table_inv (s\<lparr>connect_bss := b\<rparr>) = table_inv s"
  "table_inv (s\<lparr>r_state := r\<rparr>) = table_inv s" "table_inv (s\<lparr>iftype := ty\<rparr>) = table_inv s"
  "table_inv (s\<lparr>ndev_type := n\<rparr>) = table_inv s" "table_inv (s\<lparr>connect_result := j\<rparr>) = table_inv s"
  "table_inv (s\<lparr>want_connect_bss := b\<rparr>) = table_inv s" "table_inv (s\<lparr>bsss := h\<rparr>) = table_inv s"
  "table_inv (s\<lparr>wiphy_registered := w\<rparr>) = table_inv s"
  "table_inv (s\<lparr>allocs := a\<rparr>) = table_inv s" "table_inv (s\<lparr>wps_pbc := w'\<rparr>) = table_inv s"
  "table_inv (s\<lparr>has_wq := w'\<rparr>) = table_inv s" "table_inv (s\<lparr>ep_num := en\<rparr>) = table_inv s"
  "table_inv (s\<lparr>ep_map := em\<rparr>) = table_inv s" "table_inv (s\<lparr>has_netdev := w'\<rparr>) = table_inv s"
  "table_inv (s\<lparr>dfs := w'\<rparr>) = table_inv s" "table_inv (s\<lparr>disable_ht := d\<rparr>) = table_inv s"
  "table_inv (r92su_set_state r s) = table_inv s" "table_inv (emit e s) = table_inv s"
  unfolding r92su_set_state_def emit_def by (rule table_inv_cong; simp)+

lemma bss_free_connected_ends:
  assumes "r92su_bss_free_connected l s = Some t"
  shows "connect_bss t = None" "iftype t = iftype s"
    "r_state t = (if r_state s = R92SU_CONNECTED then R92SU_OPEN else r_state s) \<or> r_state t = R92SU_DEAD"
    "keeps s t"
proof -
  define u where "u = (if r92su_is_connected s then r92su_set_state R92SU_OPEN s else s)\<lparr>connect_bss := None\<rparr>"
  have "opt_life u (r92su_bss_free_connected l s)"
    unfolding r92su_bss_free_connected_def Let_def u_def
    by (intro life_flow life_bss_free [THEN opt_life_from] | simp add: life_def cycle_kept_def keeps_def emit_def split: nl80211_iftype.split)+
  then have "life u t" using assms by (rule opt_lifeD)
  moreover have "r92su_is_connected s \<longleftrightarrow> r_state s = R92SU_CONNECTED"
    by (cases "r_state s") (simp_all add: r92su_is_connected_def state_order)
  moreover have "r_state s = R92SU_CONNECTED \<Longrightarrow> tx_inv s \<Longrightarrow> tx_inv (s\<lparr>r_state := R92SU_OPEN\<rparr>)"
    by (rule tx_inv_state) simp_all
  ultimately show "connect_bss t = None" "iftype t = iftype s"
    "r_state t = (if r_state s = R92SU_CONNECTED then R92SU_OPEN else r_state s) \<or> r_state t = R92SU_DEAD"
    "keeps s t"
    by (auto simp: u_def life_def cycle_kept_def keeps_def r92su_set_state_def)
qed

lemma disconnect_ends:
  assumes "disconnect_locked E s = Some (r, t)"
  shows "connect_bss t = None" "iftype t = iftype s"
    "r_state t = (if r_state s = R92SU_CONNECTED then R92SU_OPEN else r_state s) \<or> r_state t = R92SU_DEAD"
    "keeps s t"
proof -
  obtain u where u: "life s u" and t: "r92su_bss_free_connected True u = Some t"
    using assms by (auto simp: disconnect_locked_def Option.bind_eq_Some_conv split: if_splits dest: life_h2c intro: life_refl)
  from bss_free_connected_ends [OF t] u show "connect_bss t = None" "iftype t = iftype s"
    "r_state t = (if r_state s = R92SU_CONNECTED then R92SU_OPEN else r_state s) \<or> r_state t = R92SU_DEAD"
    "keeps s t"
    by (auto simp: life_def cycle_kept_def keeps_def)
qed

text \<open>The accepted join is the only place that stores a connected network.\<close>

definition joined :: "nat \<Rightarrow> 'w r92su \<Rightarrow> 'w r92su \<Rightarrow> bool" where
  "joined b s t \<longleftrightarrow> iftype t = iftype s \<and> connect_bss t = Some b \<and> (r_state t = R92SU_CONNECTED \<or> r_state t = R92SU_DEAD) \<and>
     (r_state s \<noteq> R92SU_DEAD \<longrightarrow> keeps s t)"

lemma joined_life: "joined b s t \<Longrightarrow> life t u \<Longrightarrow> joined b s u"
  by (auto simp: joined_def life_def cycle_kept_def keeps_def)

lemma join_attempt_ends:
  assumes "join_attempt E b join s = Some (status, resp, t)"
  shows "if status = WLAN_STATUS_SUCCESS then joined b s t else life s t"
proof -
  have "if status = WLAN_STATUS_SUCCESS then joined b s t else life s t"
    if a: "join_accept E b join s = Some (status, resp, t)"
  proof -
    obtain bssid aid sta u where u: "join_bssid join = Some bssid" "join_aid join = Some aid"
        "r92su_sta_alloc E (Some bssid) BSS_MACID aid s = Some (sta, u)"
      using a by (auto simp: join_accept_def Option.bind_eq_Some_conv)
    have l: "life s u" using u(3) by (rule life_ops)
    show ?thesis
    proof (cases sta)
      case None
      with a u l show ?thesis by (auto simp: join_accept_def Option.bind_eq_Some_conv)
    next
      case (Some p)
      with a u have "iftype t = iftype u \<and> connect_bss t = Some b \<and> r_state t = R92SU_CONNECTED \<and> status = WLAN_STATUS_SUCCESS \<and>
            debug t = debug u"
          and "table_inv u \<Longrightarrow> table_inv t" and "r_state u \<noteq> R92SU_DEAD \<Longrightarrow> tx_inv u \<Longrightarrow> tx_inv t"
        by (auto simp: join_accept_def Option.bind_eq_Some_conv Let_def upd_priv_def r92su_set_state_def
            intro!: table_inv_stas tx_inv_state)
      moreover have "r_state u = r_state s" using sta_alloc_frame [OF u(3)] by simp
      ultimately show ?thesis using l by (auto simp: joined_def life_def cycle_kept_def keeps_def)
    qed
  qed
  with assms show ?thesis
    by (auto simp: join_attempt_def Option.bind_eq_Some_conv split: if_splits)
qed

lemma life_join_report: "opt_life s (join_report E b join status resp s)"
proof -
  have "opt_life s (case t of IFTYPE_STATION \<Rightarrow> m | IFTYPE_ADHOC \<Rightarrow> n | _ \<Rightarrow> Some s)"
    if "opt_life s m" "opt_life s n" for t and m n :: "'a r92su option"
    using that by (cases t) simp_all
  note iface = this
  show ?thesis
    unfolding join_report_def Let_def
    by (intro iface life_flow heap_ops opt_ops | simp)+
qed

lemma connect_work_ends:
  assumes "r92su_bss_connect_work E s = Some t"
  shows "life s t \<or> (r92su_is_open s \<and> (\<exists>b. joined b s t))"
proof (cases "r92su_is_open s")
  case True
  note k = life_heap(2) [THEN opt_lifeD] and f = life_bss_free [THEN opt_lifeD]
  show ?thesis
  proof (cases "\<exists>b j. want_connect_bss s = Some b \<and> connect_result s = Some j")
    case False
    then obtain u where "life s u" "life u t"
      using assms True by (auto simp: r92su_bss_connect_work_def Option.bind_eq_Some_conv split: option.splits dest!: k f)
    then show ?thesis by (blast intro: life_trans)
  next
    case wanted: True
    then obtain b j join status resp u v w where
        u: "join_attempt E b join (s\<lparr>connect_result := None\<rparr>) = Some (status, resp, u)"
      and v: "join_report E b join status resp u = Some v" and w: "kfree (Some j) v = Some w"
      and t: "(if status = WLAN_STATUS_SUCCESS then Some (emit Netif_carrier_on (emit Netif_tx_start_all_queues w))
            else r92su_bss_free (Some b) w) = Some t"
      using assms True by (auto simp: r92su_bss_connect_work_def Option.bind_eq_Some_conv)
    have l: "life u w" using life_join_report [THEN opt_lifeD, OF v] k [OF w] by (rule life_trans)
    show ?thesis
    proof (cases "status = WLAN_STATUS_SUCCESS")
      case True
      with join_attempt_ends [OF u] have "joined b s u" by (simp add: joined_def keeps_def)
      with l have "joined b s w" by (blast intro: joined_life)
      with True t have "joined b s t" by (auto simp: joined_def keeps_def emit_def)
      with \<open>r92su_is_open s\<close> show ?thesis by blast
    next
      case False
      with join_attempt_ends [OF u] have "life s u" by simp
      moreover have "life w t" using False t by (auto dest: f)
      ultimately show ?thesis using l by (blast intro: life_trans)
    qed
  qed
qed (use assms in \<open>simp add: r92su_bss_connect_work_def\<close>)

section \<open>Opening and stopping\<close>

lemma life_set_channel: "out_life s (set_channel_locked E s)"
  unfolding set_channel_locked_def by (intro life_flow out_ops | simp)+

lemma life_monitor_channel: "out_life s (r92su_set_monitor_channel E w c s)"
  unfolding r92su_set_monitor_channel_def Let_def
  by (intro life_flow life_set_channel [THEN out_life_from] | simp)+

lemma life_mgmt_tx: "out_life s (r92su_mgmt_tx E C buf s)"
  unfolding r92su_mgmt_tx_def kmalloc_def Let_def prod.case
  by (intro life_flow life_tx [THEN opt_lifeI, THEN opt_life_from] | simp)+

lemma life_start_xmit: "opt_life s (r92su_start_xmit E C skb s)"
  unfolding r92su_start_xmit_def
  by (cases "iftype s") (auto intro!: opt_lifeI dest: life_tx life_tx_monitor)

text \<open>A run of the state monad in the middle of an operation.\<close>

lemma out_life_run: "life_only m \<Longrightarrow> life s t \<Longrightarrow> (\<And>r u. out_life u (f r u)) \<Longrightarrow> out_life s (case run_state m t of (r, u) \<Rightarrow> f r u)"
  by (cases "run_state m t") (auto simp: out_life_def dest!: life_onlyD [where m = m] intro: life_trans)

lemma life_init_mac: "out_life s (r92su_init_mac E s)"
  unfolding r92su_init_mac_def
  by (intro out_life_option out_life_prod out_life_run life_only_hw life_only_iocmd life_flow out_ops
      life_set_channel [THEN out_life_from] | simp only: out_life_simps life_refl)+

lemma state_cases:
  "r92su_is_connected s \<longleftrightarrow> r_state s = R92SU_CONNECTED"
  "r92su_is_open s \<longleftrightarrow> r_state s = R92SU_OPEN \<or> r_state s = R92SU_CONNECTED"
  "r92su_is_initializing s \<longleftrightarrow> r_state s = R92SU_INIT \<or> r_state s = R92SU_OPEN \<or> r_state s = R92SU_CONNECTED"
  "r92su_is_stopped s \<longleftrightarrow> r_state s = R92SU_STOP"
  by (cases "r_state s"; simp add: state_preds state_order)+

text \<open>What an attempt to open the interface does before the state changes.\<close>

definition opened :: "'w r92su \<Rightarrow> 'w r92su \<Rightarrow> bool" where
  "opened s t \<longleftrightarrow> r92su_is_stopped s \<and> iftype t = iftype s \<and> connect_bss t = connect_bss s \<and>
     r_state t = (if iftype s = IFTYPE_MONITOR then R92SU_CONNECTED else R92SU_OPEN) \<and> keeps s t"

lemma open_finish_ends: "open_finish E s = (r, t) \<Longrightarrow> if r = 0 then opened s t else t = s"
  by (auto simp: open_finish_def opened_def r92su_hw_queue_service_work_def r92su_set_state_def emit_def state_cases
      keeps_def intro!: tx_inv_state split: if_splits)

lemma opened_from: "life s u \<Longrightarrow> opened u t \<Longrightarrow> r92su_is_stopped s \<Longrightarrow> opened s t"
  by (auto simp: opened_def life_def cycle_kept_def keeps_def)

definition out_open :: "'w env \<Rightarrow> 'w r92su \<Rightarrow> (int \<times> 'w r92su) option \<Rightarrow> bool" where
  "out_open E s m \<longleftrightarrow> (\<forall>r t. m = Some (r, t) \<longrightarrow> (\<exists>v. life s v \<and> (t = v \<or> open_finish E v = (r, t))))"

lemma out_open_simps:
  "out_open E s None" "life s t \<Longrightarrow> out_open E s (Some (r, t))" "out_open E s (Some (open_finish E s))"
  "out_open E s m \<Longrightarrow> out_open E s n \<Longrightarrow> out_open E s (if b then m else n)"
  by (auto simp: out_open_def intro: life_refl)

lemma out_open_from: "life s u \<Longrightarrow> out_open E u m \<Longrightarrow> out_open E s m"
  by (cases m) (auto simp: out_open_def, (blast intro: life_trans)+)

lemma out_open_run:
  assumes "life_only m" "life s t" "\<And>r u. out_open E u (f r u)"
  shows "out_open E s (case run_state m t of (r, u) \<Rightarrow> f r u)"
proof (cases "run_state m t")
  case (Pair r u)
  then have "life s u" using assms(1,2) by (blast intro: life_trans life_onlyD)
  then show ?thesis using assms(3) [of u r] Pair by (auto intro: out_open_from)
qed

lemma out_open_bind:
  assumes "out_life s m" "\<And>r u. out_open E u (f r u)"
  shows "out_open E s (Option.bind m (\<lambda>(r, u). f r u))"
  using assms by (cases m) (auto simp: out_life_def out_open_simps(1) intro: out_open_from)

lemma out_open_option:
  "out_open E s n \<Longrightarrow> (\<And>x. out_open E s (f x)) \<Longrightarrow> out_open E s (case p of None \<Rightarrow> n | Some x \<Rightarrow> f x)"
  by (cases p) simp_all

lemma out_open_upload:
  assumes "\<And>e u. out_open E u (f e u)"
  shows "out_open E s (case run_state (r92su_upload_firmware E) s of (None, u) \<Rightarrow> None | (Some e, u) \<Rightarrow> f e u)"
proof -
  have "out_open E s (case run_state (r92su_upload_firmware E) s of (r, u) \<Rightarrow> (case r of None \<Rightarrow> None | Some e \<Rightarrow> f e u))"
    by (intro out_open_run out_open_option life_only_upload assms out_open_simps(1)) simp
  moreover have "(case run_state (r92su_upload_firmware E) s of (r, u) \<Rightarrow> (case r of None \<Rightarrow> None | Some e \<Rightarrow> f e u)) =
      (case run_state (r92su_upload_firmware E) s of (None, u) \<Rightarrow> None | (Some e, u) \<Rightarrow> f e u)"
    by (simp split: prod.split option.split)
  ultimately show ?thesis by simp
qed

lemma open_locked_out: "out_open E s (open_locked E s)"
  unfolding open_locked_def
  by (intro out_open_simps(2-4) out_open_run out_open_upload out_open_bind life_only_early life_only_late life_init_mac)
    (simp_all add: r92su_cmd_init_def)

lemma open_ends:
  assumes "r92su_open E f s = Some (r, t)"
  shows "life s t \<or> opened s t"
proof -
  have "out_life s (r92su_load_firmware f (s\<lparr>current_channel := c\<rparr>))" for c
    by (intro out_ops) simp
  then obtain u where u: "life s u" "t = u \<or> (\<exists>r. open_locked E u = Some (r, t))"
    using assms unfolding r92su_open_def
    by (auto simp: Option.bind_eq_Some_conv out_life_def intro: life_refl split: if_splits)
  have "life u t \<or> opened u t" if o: "open_locked E u = Some (r, t)" for r
  proof -
    obtain v where v: "life u v" "t = v \<or> open_finish E v = (r, t)"
      using open_locked_out [of E u] o unfolding out_open_def by blast
    have "opened u t" if "r92su_is_stopped u" "opened v t" using v(1) that(2,1) by (rule opened_from)
    moreover have "r92su_is_stopped u \<or> t = u" using o by (auto simp: open_locked_def split: if_splits)
    ultimately show ?thesis using v open_finish_ends [of E v r t] by (auto split: if_splits)
  qed
  then have "life u t \<or> opened u t" using u(2) by auto
  with u(1) show ?thesis
    by (auto simp: opened_def life_def cycle_kept_def keeps_def r92su_is_stopped_def split: if_splits)
qed

text \<open>Stopping leaves no connected network, unless the device was dead before.\<close>

definition stopped :: "'w r92su \<Rightarrow> 'w r92su \<Rightarrow> bool" where
  "stopped s t \<longleftrightarrow> iftype t = iftype s \<and>
     connect_bss t = (if r92su_is_connected s then None else connect_bss s) \<and>
     (r_state t = (if r92su_is_initializing s then R92SU_STOP else r_state s) \<or> r_state t = R92SU_DEAD) \<and>
     keeps s t"

lemma life_sta_del_all: "opt_life s (sta_del_all is s)"
  by (induction "is" arbitrary: s) (simp, simp only: sta_del_all.simps, intro life_flow opt_ops, simp, simp)

lemma life_rcu_barrier: "opt_life s (rcu_barrier s)"
proof -
  have "opt_life s (rcu_steps n s)" for n and s :: "'a r92su"
    by (induction n arbitrary: s) (simp, simp only: rcu_steps.simps, intro life_flow opt_ops, simp, simp)
  then show ?thesis by (cases "rcu_steps (length (rcu_cbs s)) s") (auto simp: rcu_barrier_def opt_life_def)
qed

lemma stop_locked_ends:
  assumes "stop_locked E s = Some (r, t)"
  shows "stopped s t"
proof -
  obtain e1 s1 s2 where s1: "(if r92su_is_connected s then disconnect_locked E s else Some (- EINVAL, s)) = Some (e1, s1)"
    and s2: "r92su_set_power E False s1 = Some s2"
    using assms by (auto simp: stop_locked_def Option.bind_eq_Some_conv)
  define s3 where "s3 = (if r92su_is_initializing s2 then snd (run_state (r92su_hw_mac_deinit E) s2) else s2)"
  define s4 where "s4 = (if r92su_is_initializing s3 then r92su_set_state R92SU_STOP s3 else s3)"
  define s5 where "s5 = (if scan_request s4 then emit (Cfg80211_scan_done True) s4 else s4)"
  have b: "\<exists>u. r92su_bss_free (want_connect_bss s5) (s5\<lparr>want_connect_bss := None\<rparr>) = Some u \<and>
      sta_del_all (map of_nat [0..<MAX_STA]) (u\<lparr>scan_request := False\<rparr>) = Some t"
    using assms s1 s2
    by (auto simp: stop_locked_def Option.bind_eq_Some_conv s3_def s4_def s5_def Let_def split: prod.splits if_splits)
  have "life s4 t"
  proof -
    obtain u where u: "r92su_bss_free (want_connect_bss s5) (s5\<lparr>want_connect_bss := None\<rparr>) = Some u"
      "sta_del_all (map of_nat [0..<MAX_STA]) (u\<lparr>scan_request := False\<rparr>) = Some t" using b by blast
    from opt_lifeD [OF life_bss_free u(1)] opt_lifeD [OF life_sta_del_all u(2)] have "life s5 t"
      by (auto intro: life_trans)
    then show ?thesis by (simp add: s5_def split: if_splits)
  qed
  moreover have "life s1 s2" using s2 by (rule life_ops)
  moreover have "life s2 s3"
    unfolding s3_def by (auto intro: life_onlyD [OF life_only_hw(1) prod.collapse [symmetric]])
  moreover have "keeps s3 s4" by (simp add: s4_def state_cases keeps_state)
  moreover have "stopped s t" if l: "life s4 t" "life s1 s2" "life s2 s3" and k: "keeps s3 s4"
  proof -
    have up: "keeps s1 t" by (rule keeps_trans [OF life_keeps [OF life_trans [OF l(2,3)]] keeps_trans [OF k life_keeps [OF l(1)]]])
    have st: "iftype s4 = iftype s3" "connect_bss s4 = connect_bss s3"
      "r_state s4 = (if r92su_is_initializing s3 then R92SU_STOP else r_state s3)"
      by (simp_all add: s4_def r92su_set_state_def)
    have "r_state s3 = r_state s1 \<or> r_state s3 = R92SU_DEAD"
      using l(2,3) unfolding life_def cycle_kept_def by metis
    with st(3) have "r_state s4 = (if r92su_is_initializing s1 then R92SU_STOP else r_state s1) \<or> r_state s4 = R92SU_DEAD"
      by (auto simp: state_cases)
    with l(1) have e: "r_state t = (if r92su_is_initializing s1 then R92SU_STOP else r_state s1) \<or> r_state t = R92SU_DEAD"
      unfolding life_def cycle_kept_def by (metis (no_types))
    have i: "iftype t = iftype s1" "connect_bss t = connect_bss s1"
      using l st(1,2) by (simp_all add: life_def cycle_kept_def)
    show ?thesis
    proof (cases "r92su_is_connected s")
      case True
      then have "disconnect_locked E s = Some (e1, s1)" using s1 by simp
      note d = disconnect_ends [OF this]
      have "keeps s t" using d(4) up by (rule keeps_trans)
      moreover have "r_state s1 = R92SU_OPEN \<or> r_state s1 = R92SU_DEAD" "r92su_is_initializing s"
        using d(3) True by (simp_all add: state_cases)
      ultimately show ?thesis using d(1,2) e i True
        by (auto simp: stopped_def state_cases)
    next
      case False
      then have "s1 = s" using s1 by simp
      with up e i False show ?thesis by (auto simp: stopped_def)
    qed
  qed
  ultimately show ?thesis by blast
qed

lemma stop_ends:
  assumes "r92su_stop E s = Some (r, t)"
  shows "stopped s t"
proof -
  obtain u where u: "stop_locked E s = Some (r, u)" "rcu_barrier ((cancel_works u)\<lparr>add_bss_list := []\<rparr>) = Some t"
    using assms by (auto simp: r92su_stop_def Option.bind_eq_Some_conv)
  have "life u t" using opt_lifeD [OF life_rcu_barrier u(2)] by (simp add: cancel_works_def)
  with stop_locked_ends [OF u(1)] show ?thesis by (auto simp: stopped_def life_def cycle_kept_def keeps_def)
qed

section \<open>All operations\<close>

text \<open>
  A step is one call of the kernel, the USB core or a deferred callback. \<open>r92su_connect\<close> and
  \<open>r92su_join_ibss\<close> are two steps, the start of the scan and what they do after it has ended,
  because other steps happen in between.
\<close>

inductive drv_step :: "'w env \<Rightarrow> 'c crypto_api \<Rightarrow> 'w r92su \<Rightarrow> 'w r92su \<Rightarrow> bool" for E C where
  block: "r92su_rx_usb_cb E (\<lambda>s b. r92su_rx E b len s) buf status s = Some t \<Longrightarrow> drv_step E C s t"
| tasklet: "r92su_rx_tasklet E C s = Some t \<Longrightarrow> drv_step E C s t"
| timer: "r92su_reorder_tid_timer E C p s = Some t \<Longrightarrow> drv_step E C s t"
| sent: "i < length (tx_submitted s) \<Longrightarrow> drv_step E C s (r92su_tx_usb_cb E i status s)"
| xmit: "r92su_start_xmit E C skb s = Some t \<Longrightarrow> drv_step E C s t"
| mgmt: "r92su_mgmt_tx E C buf s = Some (r, t) \<Longrightarrow> drv_step E C s t"
| released: "rcu_step s = Some t \<Longrightarrow> drv_step E C s t"
| service: "r92su_hw_service_work E s = Some t \<Longrightarrow> drv_step E C s t"
| scan: "r92su_scan E ssids s = Some (r, t) \<Longrightarrow> drv_step E C s t"
| scan_start: "internal_scan_start E ssid s = Some (r, t) \<Longrightarrow> drv_step E C s t"
| scan_wait: "wait_for_completion s = Some t \<Longrightarrow> drv_step E C s t"
| survey_done: "drv_step E C s (r92su_survey_done_work s)"
| found: "r92su_bss_add_work E s = Some t \<Longrightarrow> drv_step E C s t"
| connect: "connect_locked E sme s = Some (r, t) \<Longrightarrow> drv_step E C s t"
| join: "join_ibss_locked E params s = Some (r, t) \<Longrightarrow> drv_step E C s t"
| connected: "r92su_bss_connect_work E s = Some t \<Longrightarrow> drv_step E C s t"
| disconnect: "r92su_disconnect E s = Some (r, t) \<Longrightarrow> drv_step E C s t"
| lost: "r92su_disconnect_work s = Some t \<Longrightarrow> drv_step E C s t"
| add_key: "r92su_add_key E idx pw mac ci key s = Some (r, t) \<Longrightarrow> drv_step E C s t"
| del_key: "r92su_del_key E idx pw mac' s = Some (r, t) \<Longrightarrow> drv_step E C s t"
| default_key: "r92su_set_default_key idx uc mc s = Some (r, t) \<Longrightarrow> drv_step E C s t"
| channel: "r92su_set_monitor_channel E w chan s = Some (r, t) \<Longrightarrow> drv_step E C s t"
| mode: "r92su_change_virtual_intf ty s = (r, t) \<Longrightarrow> drv_step E C s t"
| open_up: "r92su_open E img s = Some (r, t) \<Longrightarrow> drv_step E C s t"
| stop: "r92su_stop E s = Some (r, t) \<Longrightarrow> drv_step E C s t"
| debug_read: "r92su_debugfs_read E freq f cnt pos s = Some (r, out, t) \<Longrightarrow> drv_step E C s t"
| debug_write: "r92su_debugfs_write E f fault held buf s = Some (r, t) \<Longrightarrow> drv_step E C s t"

lemma life_block: "opt_life s (r92su_rx_usb_cb E (\<lambda>s b. r92su_rx E b len s) buf status s)"
proof -
  have d: "life_only (r92su_deal_with_usb_errors E e)" for e
    by (intro tx_only_life_only io_only_tx_only io_only_deal)
  obtain bad u where u: "run_state (r92su_deal_with_usb_errors E status) (s\<lparr>rx_submitted := rx_submitted s - 1\<rparr>) = (bad, u)" by fastforce
  have su: "life s u" using life_onlyD [OF d u] by simp
  have m: "life v (r92su_mark_dead (snd (run_state (r92su_deal_with_usb_errors E e) (v\<lparr>world := w\<rparr>))))" for v e w
    using life_onlyD [OF d [of e] prod.collapse [symmetric], of "v\<lparr>world := w\<rparr>"] by (intro life_mark_dead) simp
  have "life v t" if "(case usb_submit_rx_urb E (world v) of (err, w) \<Rightarrow>
        let v = v\<lparr>world := w\<rparr> in
        if err \<noteq> 0 then Some (r92su_mark_dead (snd (run_state (r92su_deal_with_usb_errors E err) v)))
        else Some (v\<lparr>rx_submitted := rx_submitted v + 1\<rparr>)) = Some t" for v t
    using that m by (auto simp: Let_def split: prod.splits if_splits)
  then show ?thesis
    using su unfolding r92su_rx_usb_cb_def Let_def u prod.case
    by (auto simp: Option.bind_eq_Some_conv opt_life_def split: if_splits dest!: life_rx intro: life_trans)
qed

lemma life_keys:
  "out_life s (r92su_add_key E idx pw mac ci key s)" "out_life s (r92su_del_key E idx pw mac' s)"
  "out_life s (r92su_set_default_key idx uc mc s)"
  unfolding r92su_add_key_def r92su_del_key_def r92su_set_default_key_def Let_def
  by (intro life_flow life_add_key life_del_key heap_ops | simp)+

lemma life_debug_upd: "(ring_ok (debug s) \<Longrightarrow> ring_ok d) \<Longrightarrow> life s (s\<lparr>debug := d\<rparr>)"
  using table_inv_cong [of "s\<lparr>debug := d\<rparr>" s] tx_inv_eq [of "s\<lparr>debug := d\<rparr>" s]
  by (simp add: life_def cycle_kept_def)

lemma life_ioread_write: "out_life s (r92su_debugfs_hw_ioread_write E buf s)"
proof -
  have r: "life u (snd (ioread_reg E reg n u))" for u reg n
    unfolding ioread_reg_def
    by (auto split: prod.split dest: life_onlyD [OF life_only_ops(1)] life_onlyD [OF life_only_ops(2)] life_onlyD [OF life_only_ops(3)])
  have p: "out_life s (Option.bind (ring_push e (debug s)) (\<lambda>d. Some (k, u\<lparr>debug := d\<rparr>)))"
    if "life s u" "debug u = debug s" for u e k
    using that life_debug_upd [of u] by (auto simp: out_life_def Option.bind_eq_Some_conv dest!: ring_push_slot intro: life_trans)
  have "out_life s (case ioread_reg E reg n s of (None, s) \<Rightarrow> Some (- EMSGSIZE, s)
      | (Some (v, ty), u) \<Rightarrow> do { d \<leftarrow> ring_push \<lparr>rbe_reg = reg, rbe_value = v, rbe_type = ty\<rparr> (debug u);
          Some (int (length buf), u\<lparr>debug := d\<rparr>) })" for reg n
  proof -
    obtain res u where u: "ioread_reg E reg n s = (res, u)" by fastforce
    have "life s u" "debug u = debug s" using r [of s reg n] ioread_reg_debug [OF u] u by simp_all
    then show ?thesis using p [of u] u by (auto split: option.split)
  qed
  then show ?thesis
    unfolding r92su_debugfs_hw_ioread_write_def
    by (intro out_life_if out_life_read) (auto split: list.split)
qed

lemma life_iowrite_write: "out_life s (r92su_debugfs_hw_iowrite_write E buf s)"
proof -
  have w: "life s (snd (run_state (r92su_write8 E a x) s))" "life s (snd (run_state (r92su_write16 E a y) s))"
    "life s (snd (run_state (r92su_write32 E a z) s))" for a x y z
    by (rule life_onlyD [OF _ prod.collapse [symmetric]], rule life_only_ops)+
  have "life s (snd (iowrite_reg E reg v n s))" for reg v n
    by (simp add: iowrite_reg_def w)
  then show ?thesis
    unfolding r92su_debugfs_hw_iowrite_write_def
    by (intro out_life_if out_life_read) (auto split: prod.split simp: out_life_def dest!: arg_cong [of _ _ snd])
qed

lemma life_debug_write: "out_life s (r92su_debugfs_write E f fault held buf s)"
proof -
  have "out_life s (case dfs_write E f of None \<Rightarrow> Some (- ENOSYS, s) | Some wr \<Rightarrow> wr buf u)" if "life s u" for u
    using that life_ioread_write [THEN out_life_from] life_iowrite_write [THEN out_life_from]
    by (cases f) (simp_all add: dfs_write_def)
  then have "dfs_write E f = Some wr \<Longrightarrow> life s u \<Longrightarrow> out_life s (wr buf u)" for wr u by fastforce
  then show ?thesis
    unfolding r92su_debugfs_write_def kmalloc_def prod.case
    by (intro out_life_if out_life_option) simp_all
qed

lemma life_debug_read: "r92su_debugfs_read E freq f cnt pos s = Some (r, out, t) \<Longrightarrow> life s t"
proof -
  have ring: "life u v" if h: "r92su_debugfs_hw_ioread_read buf n u = Some (p, v)" for buf n u p v
  proof -
    obtain a b d where d: "ioread_loop n (ring_len (debug u)) (debug u) (a, b) = Some (p, d)"
      "v = u\<lparr>debug := d\<lparr>ring_head := ring_tail d\<rparr>\<rparr>"
      using h by (cases p) (auto simp: r92su_debugfs_hw_ioread_read_def Option.bind_eq_Some_conv)
    have "ring_ok (d\<lparr>ring_head := ring_tail d\<rparr>)" if ok: "ring_ok (debug u)"
    proof -
      have "length (dbg_ring (debug u)) = 64" "ring_head (debug u) < 64" using ok by (simp_all add: ring_ok_def)
      from trans [OF ioread_loop_prints [OF this order.refl, of n "(a, b)", symmetric] d(1)]
      have "\<exists>h. d = debug u\<lparr>ring_head := h, ring_len := 0\<rparr>" unfolding diff_self_eq_0 by auto
      with ok show ?thesis by (auto simp: ring_ok_def)
    qed
    then show ?thesis unfolding d(2) by (rule life_debug_upd)
  qed
  have "life u v" if "dfs_read freq f = Some rd" "rd buf n u = Some (p, v)" for rd buf n u p v
  proof (cases "f = Dfs_hw_ioread")
    case True
    then show ?thesis using that ring by simp
  next
    case False
    then have "u = v" using that by (cases f) (auto simp: dfs_read_def Let_def)
    then show ?thesis by simp
  qed
  then show "r92su_debugfs_read E freq f cnt pos s = Some (r, out, t) \<Longrightarrow> life s t"
    by (fastforce simp: r92su_debugfs_read_def kmalloc_def Option.bind_eq_Some_conv split: if_splits option.splits)
qed

text \<open>What a step can do to the state of the device.\<close>

definition next_state :: "r92su_state_t \<Rightarrow> r92su_state_t \<Rightarrow> bool" where
  "next_state a b \<longleftrightarrow> b = a \<or> b = R92SU_DEAD \<or>
     (a = R92SU_STOP \<and> b \<in> {R92SU_OPEN, R92SU_CONNECTED}) \<or>
     (a = R92SU_OPEN \<and> b = R92SU_CONNECTED) \<or> (a = R92SU_CONNECTED \<and> b = R92SU_OPEN) \<or>
     (a \<in> {R92SU_INIT, R92SU_OPEN, R92SU_CONNECTED} \<and> b = R92SU_STOP)"

text \<open>
  The invariant: the driver is connected only to a network that it holds, or in monitor mode; and it
  holds one only while it is connected or after the device died.
\<close>

definition cycle_inv :: "'w r92su \<Rightarrow> bool" where
  "cycle_inv s \<longleftrightarrow>
     (r_state s = R92SU_CONNECTED \<longrightarrow> iftype s = IFTYPE_MONITOR \<or> connect_bss s \<noteq> None) \<and>
     (connect_bss s \<noteq> None \<longrightarrow> r_state s = R92SU_CONNECTED \<or> r_state s = R92SU_DEAD)"

definition cycle_step :: "'w r92su \<Rightarrow> 'w r92su \<Rightarrow> bool" where
  "cycle_step s t \<longleftrightarrow> next_state (r_state s) (r_state t) \<and> (cycle_inv s \<longrightarrow> cycle_inv t) \<and> keeps s t"

lemma life_cycle_step: "life s t \<Longrightarrow> cycle_step s t"
  by (auto simp: life_def cycle_kept_def keeps_def cycle_step_def next_state_def cycle_inv_def)

lemma mode_cycle_step: "r92su_change_virtual_intf ty s = (r, t) \<Longrightarrow> cycle_step s t"
proof -
  assume "r92su_change_virtual_intf ty s = (r, t)"
  then have "t = s \<or> (r_state s = R92SU_STOP \<and> r_state t = r_state s \<and> connect_bss t = connect_bss s \<and>
      table_inv t = table_inv s \<and> tx_inv t = tx_inv s \<and> debug t = debug s)"
    unfolding r92su_change_virtual_intf_def state_cases
    by (cases ty) (auto simp: Let_def state_cases split: if_splits)
  then show ?thesis by (auto simp: cycle_step_def next_state_def cycle_inv_def keeps_def)
qed

lemma drv_step_cycle: "drv_step E C s t \<Longrightarrow> cycle_step s t"
proof (induction rule: drv_step.cases)
  case (mode ty s r t)
  then show ?case by (simp add: mode_cycle_step)
next
  case (open_up img s r t)
  then show ?case
    by (auto dest!: open_ends intro: life_cycle_step)
      (auto simp: opened_def state_cases cycle_step_def next_state_def cycle_inv_def split: if_splits)
next
  case (stop s r t)
  then have "stopped s t" by (auto dest: stop_ends)
  then show ?case using stop by (auto simp: stopped_def state_cases cycle_step_def next_state_def cycle_inv_def split: if_splits)
next
  case (connected s t)
  then show ?case
    by (auto dest!: connect_work_ends intro: life_cycle_step)
      (auto simp: joined_def state_cases cycle_step_def next_state_def cycle_inv_def)
next
  case (disconnect s r t)
  then have "disconnect_locked E s = Some (r, t)" by (simp add: r92su_disconnect_def)
  from disconnect_ends [OF this] disconnect show ?case
    by (auto simp: cycle_step_def next_state_def cycle_inv_def split: if_splits)
next
  case (lost s t)
  then have "r92su_bss_free_connected False s = Some t" by (simp add: r92su_disconnect_work_def)
  from bss_free_connected_ends [OF this] lost show ?case
    by (auto simp: cycle_step_def next_state_def cycle_inv_def split: if_splits)
qed (auto intro!: life_cycle_step simp: wait_for_completion_def life_tx_cb split: if_splits
    simp: life_survey_done
    dest: life_rx_tasklet life_tid_timer life_rcu_step life_service_work
      opt_lifeD [OF life_block] opt_lifeD [OF life_start_xmit] out_lifeD [OF life_mgmt_tx] out_lifeD [OF life_scan(1)]
      out_lifeD [OF life_scan(2)] opt_lifeD [OF life_bss_add] out_lifeD [OF life_connect(1)] out_lifeD [OF life_connect(2)]
      out_lifeD [OF life_keys(1)] out_lifeD [OF life_keys(2)] out_lifeD [OF life_keys(3)] out_lifeD [OF life_monitor_channel]
      life_debug_read out_lifeD [OF life_debug_write])

section \<open>Probing\<close>

text \<open>Nothing is sent before the driver is registered.\<close>

definition quiet :: "'w r92su \<Rightarrow> 'w r92su \<Rightarrow> bool" where
  "quiet s t \<longleftrightarrow> tx_pending_urbs t = tx_pending_urbs s \<and> tx_wait t = tx_wait s \<and> tx_submitted t = tx_submitted s \<and>
     debug t = debug s"

interpretation qui: frame_relation quiet
  by unfold_locales (auto simp: quiet_def)

lemma quiet_io: "io_only m \<Longrightarrow> changes quiet m"
proof (erule changes_mono)
  fix s t :: "'a r92su"
  assume "io_rel s t"
  then have e: "t\<lparr>world := world s, allocs := allocs s, r_state := r_state s, log := log s\<rparr> = s"
    by (simp add: io_rel_def)
  show "quiet s t"
    using arg_cong [OF e, of tx_pending_urbs] arg_cong [OF e, of tx_wait] arg_cong [OF e, of tx_submitted]
      arg_cong [OF e, of debug]
    by (simp add: quiet_def)
qed

lemmas quiet_regs = io_only_regs [THEN quiet_io]

lemma quiet_modify: "(\<And>s. quiet s (f s)) \<Longrightarrow> changes quiet (modify f)"
  by (rule changesI) simp

lemma quiet_eeprom: "changes quiet (r92su_eeprom_read E)"
proof -
  have p: "changes quiet (efuse_poll E n)" for n
    by (induction n) (simp_all only: efuse_poll.simps, (intro qui.rules quiet_regs | assumption)+)
  have b: "changes quiet (efuse_read_byte E a)" for a
    unfolding efuse_read_byte_def by (intro qui.rules quiet_regs p)
  have words: "changes quiet (efuse_words E is desc bm off img)" for "is" desc bm off img
    by (induction "is" arbitrary: bm off img) (simp_all only: efuse_words.simps Let_def, (intro qui.rules quiet_regs b | assumption)+)
  have "changes quiet (efuse_blocks E fuel off img)" for fuel off img
    by (induction fuel arbitrary: off img) (simp_all only: efuse_blocks.simps Let_def, (intro qui.rules quiet_regs b words | assumption)+)
  moreover have "changes quiet (r92su_efuse_initialize E)" "changes quiet (r92su_efuse_shutdown E)"
    unfolding r92su_efuse_initialize_def r92su_efuse_shutdown_def by (intro qui.rules quiet_regs)+
  ultimately have "changes quiet (r92su_fetch_eeprom_data E)"
    unfolding r92su_fetch_eeprom_data_def by (intro qui.rules quiet_regs quiet_modify | simp add: quiet_def)+
  moreover have "changes quiet r92su_parse_eeprom"
    unfolding r92su_parse_eeprom_def by (intro qui.rules quiet_modify) (simp_all add: quiet_def)
  ultimately show ?thesis unfolding r92su_eeprom_read_def by (intro qui.rules)
qed

lemma quiet_version: "changes quiet (r92su_hw_read_chip_version E)"
  unfolding r92su_hw_read_chip_version_def
  by (intro qui.rules quiet_regs quiet_modify) (simp_all add: quiet_def)

lemma quiet_setup: "r92su_setup E s = Some (r, t) \<Longrightarrow> quiet s t"
proof -
  have a: "r92su_read_adapter_info E u = Some (r, v) \<Longrightarrow> quiet u v" for u v r
    by (auto simp: r92su_read_adapter_info_def split: prod.splits option.splits if_splits
        dest!: changesD [OF quiet_version] changesD [OF quiet_eeprom] intro: qui.trans)
  show "r92su_setup E s = Some (r, t) \<Longrightarrow> quiet s t"
    by (auto simp: r92su_setup_def Option.bind_eq_Some_conv r92su_cmd_init_def r92su_rx_init_def r92su_init_band_def
        r92su_alloc_netdev_def kmalloc_def Let_def dest!: a split: if_splits) (auto simp: quiet_def)
qed

lemma quiet_usb_init: "r92su_usb_init E s = (r, t) \<Longrightarrow> quiet s t"
proof -
  have "usb_init_loop E n e s = (r, t) \<Longrightarrow> quiet s t" for n e and s :: "'a r92su"
  proof (induction n arbitrary: e s)
    case (Suc n)
    obtain ok u where g: "r92su_get_rx_urb E s = (ok, u)" by fastforce
    have u: "quiet s u" using g by (auto simp: quiet_def r92su_get_rx_urb_def kmalloc_def split: if_splits)
    have d: "quiet v (r92su_mark_dead v)" for v :: "'a r92su"
      by (simp add: quiet_def r92su_mark_dead_def r92su_set_state_def emit_def Let_def)
    show ?case
      using Suc.prems g u d
      by (auto simp: Let_def quiet_def split: if_splits prod.splits dest!: Suc.IH)
  qed (simp add: qui.refl)
  then show "r92su_usb_init E s = (r, t) \<Longrightarrow> quiet s t" by (simp add: r92su_usb_init_def)
qed

lemma tx_init_inv: "tx_init s \<Longrightarrow> quiet s t \<Longrightarrow> tx_inv t"
  by (simp add: tx_init_def quiet_def tx_inv_def)

lemma life_setup: "out_life s (r92su_setup E s)"
proof -
  have a: "out_life s (r92su_read_adapter_info E s)" for s :: "'a r92su"
  proof -
    have "out_life s (case run_state (r92su_hw_read_chip_version E) s of (err, u) \<Rightarrow>
        if err \<noteq> 0 then Some (err, u)
        else case run_state (r92su_eeprom_read E) u of (r, v) \<Rightarrow> (case r of None \<Rightarrow> None | Some err \<Rightarrow> Some (err, v)))"
      by (intro out_life_run out_life_if out_life_option life_only_hw life_only_eeprom) simp_all
    moreover have "(case run_state (r92su_eeprom_read E) u of (r, v) \<Rightarrow> (case r of None \<Rightarrow> None | Some err \<Rightarrow> Some (err, v))) =
        (case run_state (r92su_eeprom_read E) u of (None, v) \<Rightarrow> None | (Some err, v) \<Rightarrow> Some (err, v))" for u
      by (simp split: prod.split option.split)
    ultimately show ?thesis by (simp add: r92su_read_adapter_info_def)
  qed
  have i: "life u (snd (r92su_init_band E u))" for u
    by (rule life_init_band) (rule prod.collapse [symmetric])
  have n: "life u (snd (r92su_alloc_netdev E u))" for u
    by (simp add: r92su_alloc_netdev_def kmalloc_def)
  have "out_life u (case r92su_init_band E u of (err, u) \<Rightarrow>
       if err \<noteq> 0 then Some (err, u)
       else case r92su_alloc_netdev E u of (err, u) \<Rightarrow>
         if err \<noteq> 0 then Some (err, u)
         else Some (0, u\<lparr>dev_addr := eeprom_mac_addr (eeprom u), perm_addr := eeprom_mac_addr (eeprom u)\<rparr>))" for u
    using i [of u] n [of "snd (r92su_init_band E u)"] by (auto split: prod.split intro: life_trans)
  then show ?thesis
    unfolding r92su_setup_def
    by (intro out_life_bind a [THEN out_life_from] out_life_if) (simp_all add: r92su_cmd_init_def r92su_rx_init_def)
qed

lemma register_ok:
  assumes "r92su_register E s = (0, t)"
  shows "r_state t = R92SU_STOP" "connect_bss t = connect_bss s" "iftype t = iftype s" "wiphy_registered t"
    "table_inv t = table_inv s" "quiet s t"
  using assms
  by (auto simp: quiet_def r92su_register_def r92su_register_debugfs_def r92su_register_wps_button_def kmalloc_def Let_def r92su_set_state_def
      split: if_splits prod.splits)

lemma probe_out_ok: "probe_out E err s = Some (0, t) \<Longrightarrow> err = 0 \<and> t = s"
  by (auto simp: probe_out_def Option.bind_eq_Some_conv split: if_splits)

lemma alloc_ok_state: "r92su_alloc E w = Some (Inr s) \<Longrightarrow> iftype s = IFTYPE_STATION \<and> connect_bss s = None \<and> table_inv s \<and> tx_init s \<and>
    debug s = zero_debug"
proof -
  have "table_inv (r92su_zero w)" using heap_inv_zero [of w] by (simp add: heap_inv_def table_inv_def)
  moreover have "connect_bss (r92su_zero w) = None" "tx_init (r92su_zero w)" "debug (r92su_zero w) = zero_debug" by (simp_all add: r92su_zero_def tx_init_def)
  ultimately show "r92su_alloc E w = Some (Inr s) \<Longrightarrow> ?thesis"
    by (auto simp: r92su_alloc_def kmalloc_def Let_def tx_init_def split: if_splits)
qed

lemma probe_ok:
  assumes "r92su_usb_probe E n d w = Some (Inr (0, t))"
  shows "r_state t = R92SU_STOP" "connect_bss t = None" "iftype t = IFTYPE_STATION" "wiphy_registered t" "table_inv t" "tx_inv t"
    "debug t = zero_debug"
proof -
  let ?rest = "\<lambda>s1. case r92su_usb_init E (r92su_set_state R92SU_PROBE
                 (if bit d DISABLE_HT then s1\<lparr>disable_ht := True\<rparr> else s1)) of (err, s) \<Rightarrow>
            if err \<noteq> 0 then probe_out E err s
            else do {
              (err, s) \<leftarrow> r92su_setup E s;
              if err \<noteq> 0 then probe_out E err s
              else case r92su_register E s of (err, s) \<Rightarrow> probe_out E err s }"
  obtain s0 where s0: "r92su_alloc E w = Some (Inr s0)"
    and m: "do { (err, s) \<leftarrow> usb_select_map n s0; if err \<noteq> 0 then probe_out E err s else ?rest s } = Some (0, t)"
    using assms unfolding r92su_usb_probe_def
    by (cases "r92su_alloc E w") (simp_all split del: if_split split: sum.splits add: map_option_eq_Some)
  obtain err s1 where e: "usb_select_map n s0 = Some (err, s1)"
    and m: "(if err \<noteq> 0 then probe_out E err s1 else ?rest s1) = Some (0, t)"
    using m by (cases "usb_select_map n s0") (simp_all split del: if_split split: prod.splits)
  have "err = 0" using m by (cases "err = 0") (simp_all, auto dest: probe_out_ok)
  with e m have s1: "usb_select_map n s0 = Some (0, s1)" and r: "?rest s1 = Some (0, t)" by simp_all
  obtain s2 where s2: "r92su_usb_init E (r92su_set_state R92SU_PROBE
      (if bit d DISABLE_HT then s1\<lparr>disable_ht := True\<rparr> else s1)) = (0, s2)"
    using r by (auto split: prod.splits if_splits dest!: probe_out_ok)
  let ?tail = "\<lambda>err v. if err \<noteq> 0 then probe_out E err v
      else case r92su_register E v of (err, u) \<Rightarrow> probe_out E err u"
  obtain e2 s3 where s3': "r92su_setup E s2 = Some (e2, s3)" and tl: "?tail e2 s3 = Some (0, t)"
    using r s2 by (cases "r92su_setup E s2") (simp_all split del: if_split split: prod.splits)
  have "e2 = 0" using tl by (cases "e2 = 0") (simp_all, auto dest: probe_out_ok)
  obtain e3 u where u: "r92su_register E s3 = (e3, u)" by fastforce
  have s3: "r92su_setup E s2 = Some (0, s3)" and t: "r92su_register E s3 = (0, t)"
    using s3' tl \<open>e2 = 0\<close> u by (auto dest!: probe_out_ok)
  have e: "iftype s1 = iftype s0 \<and> connect_bss s1 = connect_bss s0 \<and> table_inv s1 = table_inv s0 \<and> quiet s0 s1"
    using s1 by (auto simp: usb_select_map_def quiet_def split: if_splits option.splits)
  note ok = alloc_ok_state [OF s0] life_usb_init [OF s2] out_lifeD [OF life_setup s3] register_ok [OF t]
  from ok e show "r_state t = R92SU_STOP" "connect_bss t = None" "iftype t = IFTYPE_STATION" "wiphy_registered t" "table_inv t"
    by (auto simp: life_def cycle_kept_def r92su_set_state_def split: if_splits)
  have "quiet s1 s2" using quiet_usb_init [OF s2] by (simp add: quiet_def r92su_set_state_def split: if_splits)
  with e quiet_setup [OF s3] ok(9) have "quiet s0 t" by (auto simp: quiet_def)
  with ok(1) show "tx_inv t" "debug t = zero_debug" by (auto intro: tx_init_inv simp: quiet_def)
qed

abbreviation drv_steps :: "'w env \<Rightarrow> 'c crypto_api \<Rightarrow> 'w r92su \<Rightarrow> 'w r92su \<Rightarrow> bool" where
  "drv_steps E C \<equiv> (drv_step E C)\<^sup>*\<^sup>*"

lemma drv_steps_inv: "drv_steps E C s t \<Longrightarrow> cycle_inv s \<Longrightarrow> cycle_inv t"
  by (induction rule: rtranclp_induct) (auto dest: drv_step_cycle simp: cycle_step_def)

text \<open>
  C1. The life cycle. After a successful probe, and whatever calls, completions, timers and work items
  follow in whatever order, the driver is connected only to a network that it holds or in monitor
  mode, and it holds a network only while it is connected or after the device has died.
\<close>

theorem drv_life_cycle:
  assumes "r92su_usb_probe E n d w = Some (Inr (0, s))" and "drv_steps E C s t"
  shows "(r_state t = R92SU_CONNECTED \<longrightarrow> iftype t = IFTYPE_MONITOR \<or> connect_bss t \<noteq> None) \<and>
     (connect_bss t \<noteq> None \<longrightarrow> r_state t = R92SU_CONNECTED \<or> r_state t = R92SU_DEAD)"
proof -
  have "cycle_inv s" using probe_ok [OF assms(1)] by (simp add: cycle_inv_def)
  with assms(2) have "cycle_inv t" by (rule drv_steps_inv)
  then show ?thesis by (simp add: cycle_inv_def)
qed

text \<open>
  C20. A dead device stays dead: no sequence of operations on a registered driver ever revives it.
\<close>

theorem dead_stays_dead:
  assumes "r92su_is_dead s" and "drv_steps E C s t"
  shows "r92su_is_dead t"
  using assms(2,1)
proof (induction rule: rtranclp_induct)
  case (step t u)
  then show ?case using drv_step_cycle [OF step.hyps(2)]
    by (auto simp: cycle_step_def next_state_def r92su_is_dead_def)
qed

section \<open>A device that is probed\<close>

lemma efuse_env_sel:
  "alloc_ok efuse_env n" "usb_submit_rx_urb efuse_env w = (0, w)" "wiphy_register efuse_env = 0"
  "register_netdev efuse_env = 0" "debugfs_create_dir efuse_env" "config_wpc efuse_env = False" "modparam_noht efuse_env = False"
  by (simp_all add: efuse_env_def reg_env_def)

lemma demo_alloc: "r92su_alloc efuse_env demo_chip =
    Some (Inr ((r92su_zero demo_chip)\<lparr>allocs := 2, disable_ht := False, iftype := IFTYPE_STATION, has_wq := True\<rparr>))"
  by (simp add: r92su_alloc_def kmalloc_def efuse_env_sel r92su_zero_def)

lemma demo_usb_init: "\<exists>t. r92su_usb_init efuse_env s = (0, t) \<and> world t = world s \<and> r_state t = r_state s"
proof -
  have l: "\<exists>t. usb_init_loop efuse_env n e s = ((if n = 0 then e else 0), t) \<and> world t = world s \<and> r_state t = r_state s"
    for n e and s :: "(u16 \<Rightarrow> u8) r92su"
  proof (induction n arbitrary: e s)
    case (Suc n)
    define u where "u = s\<lparr>allocs := allocs s + 2, rx_submitted := rx_submitted s + 1\<rparr>"
    have "usb_init_loop efuse_env (Suc n) e s = usb_init_loop efuse_env n 0 u"
      by (simp add: r92su_get_rx_urb_def kmalloc_def efuse_env_sel u_def)
    moreover have "world u = world s" "r_state u = r_state s" by (simp_all add: u_def)
    ultimately show ?case using Suc.IH [of 0 u] by auto
  qed simp
  from l [of 8 "- EINVAL" s] show ?thesis by (simp add: r92su_usb_init_def)
qed

lemma demo_setup:
  assumes "world s = demo_chip" "r92su_is_probing s"
  shows "\<exists>t. r92su_setup efuse_env s = Some (0, t)"
proof -
  define s1 where "s1 = r92su_cmd_init (r92su_rx_init s)"
  have s1: "world s1 = demo_chip" "r92su_is_probing s1"
    using assms by (simp_all add: s1_def r92su_cmd_init_def r92su_rx_init_def r92su_is_probing_def)
  obtain s2 where s2: "run_state (r92su_read_helper efuse_env REG_PMC_FSM 4) s1 =
      (map (\<lambda>i. efuse_view demo_rom (world s1) (ucast REG_PMC_FSM + of_nat i)) [0..<4], s2)"
      "r92su_is_probing s2" "world s2 = world s1"
    using efuse_read [OF efuse_device_demo s1(2), of 4 REG_PMC_FSM] by auto
  have "map (\<lambda>i. efuse_view demo_rom (world s1) (ucast REG_PMC_FSM + of_nat i)) [0..<4] = [0, 0, 0, 0]"
    by (simp add: s1 efuse_view_def demo_chip_def reg_defs upt_rec)
  moreover have "get_le32 [0, 0, 0, 0] = 0" by (simp add: get_le32_def le32_def)
  moreover have "chip_decode (GET_PCM_FSM_VER 0) = Some R92SU_A_CUT"
    by (simp add: chip_decode_def GET_PCM_FSM_VER_def chip_rev_of_def)
  ultimately have v: "run_state (r92su_hw_read_chip_version efuse_env) s1 = (0, s2\<lparr>chip_rev := R92SU_A_CUT\<rparr>)"
    using s2(1) by (simp add: r92su_hw_read_chip_version_def r92su_read32_def)
  have "r92su_is_probing (s2\<lparr>chip_rev := R92SU_A_CUT\<rparr>)" "world (s2\<lparr>chip_rev := R92SU_A_CUT\<rparr>) = demo_chip"
    using s2 s1 by (simp_all add: r92su_is_probing_def)
  then obtain s3 where s3: "run_state (r92su_fetch_eeprom_data efuse_env) (s2\<lparr>chip_rev := R92SU_A_CUT\<rparr>) = (Some 0, s3)"
      "eeprom s3 = efuse_image demo_rom"
    using fetch_image [OF efuse_device_demo, of "s2\<lparr>chip_rev := R92SU_A_CUT\<rparr>"]
    by (auto simp: demo_chip_def reg_defs BIT_def)
  have "eeprom_id (eeprom s3) = RTL8190_EEPROM_ID" "eeprom_board_type (eeprom s3) = 0"
    by (simp_all add: s3(2) demo_image eeprom_id_def eeprom_board_type_def get_le16_def le16_def nth_append nth_Cons')
  then have "run_state (r92su_eeprom_read efuse_env) (s2\<lparr>chip_rev := R92SU_A_CUT\<rparr>) = (Some 0, s3\<lparr>rf_type := R92SU_1T1R\<rparr>)"
    using s3(1) by (simp add: r92su_eeprom_read_def r92su_parse_eeprom_def State_Monad.get_def)
  then show ?thesis
    using v unfolding r92su_setup_def s1_def [symmetric]
    by (simp add: r92su_read_adapter_info_def r92su_init_band_def r92su_alloc_netdev_def kmalloc_def efuse_env_sel)
qed

lemma demo_probe: "\<exists>s. r92su_usb_probe efuse_env 4 0 demo_chip = Some (Inr (0, s))"
proof -
  let ?s0 = "(r92su_zero demo_chip)\<lparr>allocs := 2, disable_ht := False, iftype := IFTYPE_STATION, has_wq := True,
    ep_num := 4, ep_map := ep4_map, r_state := R92SU_PROBE\<rparr>"
  obtain s1 where s1: "r92su_usb_init efuse_env ?s0 = (0, s1)" "world s1 = demo_chip" "r_state s1 = R92SU_PROBE"
    using demo_usb_init [of ?s0] by (auto simp: r92su_zero_def)
  moreover obtain s2 where s2: "r92su_setup efuse_env s1 = Some (0, s2)"
    using demo_setup [OF s1(2)] s1(3) by (auto simp: r92su_is_probing_def state_order)
  ultimately show ?thesis
    by (simp add: r92su_usb_probe_def demo_alloc usb_select_map_def ep_maps_def r92su_set_state_def r92su_zero_def
        r92su_register_def r92su_register_debugfs_def r92su_register_wps_button_def efuse_env_sel probe_out_def)
qed

theorem drv_life_cycle_witness:
  "\<exists>s t. r92su_usb_probe efuse_env 4 0 demo_chip = Some (Inr (0, s)) \<and> drv_steps efuse_env toy_crypto s t \<and>
     iftype t = IFTYPE_MONITOR \<and> connect_bss t = None"
proof -
  obtain s where p: "r92su_usb_probe efuse_env 4 0 demo_chip = Some (Inr (0, s))" using demo_probe by blast
  define t where "t = s\<lparr>ndev_type := ARPHRD_IEEE80211_RADIOTAP, iftype := IFTYPE_MONITOR\<rparr>"
  have "r92su_change_virtual_intf IFTYPE_MONITOR s = (0, t)"
    using probe_ok [OF p] by (simp add: r92su_change_virtual_intf_def state_cases t_def)
  then have d: "drv_steps efuse_env toy_crypto s t" by (intro r_into_rtranclp drv_step.mode)
  have "r_state t = R92SU_STOP" "iftype t = IFTYPE_MONITOR" using probe_ok [OF p] by (simp_all add: t_def)
  with drv_life_cycle [OF p d] p d show ?thesis by auto
qed

theorem dead_stays_dead_witness:
  "\<exists>t. drv_steps efuse_env toy_crypto (r92su_zero demo_chip) t \<and> r92su_is_dead t \<and> iftype t = IFTYPE_UNSPECIFIED"
proof -
  have "drv_steps efuse_env toy_crypto (r92su_zero demo_chip) (r92su_survey_done_work (r92su_zero demo_chip))"
    by (intro r_into_rtranclp drv_step.survey_done)
  with dead_stays_dead [OF _ this] show ?thesis
    by (auto simp: r92su_is_dead_def r92su_zero_def r92su_survey_done_work_def state_cases)
qed

end
