(* ===== verification/R92_Join.thy ===== *)
theory R92_Join
  imports R92_Cycle
begin

text \<open>
  Joining and leaving a network and removing the device, as results: what a completed join has
  set up, what a refused one leaves behind, and what is left when the device is gone.
\<close>

section \<open>What a change of the power mode keeps\<close>

definition same_net :: "'w r92su \<Rightarrow> 'w r92su \<Rightarrow> bool" where
  "same_net s t \<longleftrightarrow> stas t = stas s \<and> sta_list t = sta_list s \<and> bsss t = bsss s \<and>
     want_connect_bss t = want_connect_bss s \<and> connect_bss t = connect_bss s \<and>
     connect_result t = connect_result s \<and> bufs t = bufs s \<and>
     sta_num t = sta_num s \<and> rcu_cbs t = rcu_cbs s \<and> next_ptr t = next_ptr s"

lemma same_net_trans: "same_net s t \<Longrightarrow> same_net t u \<Longrightarrow> same_net s u"
  by (simp add: same_net_def)

lemma tx_rel_same_net: "tx_rel s t \<Longrightarrow> same_net s t"
  using tx_rel_fields [of s t] by (simp add: same_net_def)

lemma h2c_copy_same_net: "r92su_h2c_copy E cmd d s = Some (r, t) \<Longrightarrow> same_net s t"
proof -
  have "same_net u t" if "run_state (r92su_usb_tx E d q) u = (r, t)" for d q u
    using changesD [OF tx_only_usb_tx that] by (rule tx_rel_same_net)
  then show "r92su_h2c_copy E cmd d s = Some (r, t) \<Longrightarrow> same_net s t"
    by (fastforce simp: r92su_h2c_copy_def r92su_h2c_submit_def r92su_h2c_alloc_def kmalloc_def r92su_h2c_fill_header_def
        tx_fill_header_def Let_def Option.bind_eq_Some_conv same_net_def split: if_splits)
qed

lemma set_power_same_net: "r92su_set_power E on s = Some t \<Longrightarrow> same_net s t"
proof -
  have "same_net s (r92su_set_rpwn E v s)" for v
  proof -
    let ?u = "s\<lparr>rpwm_tog := rpwm_tog s XOR 0x80, rpwm := v OR (rpwm_tog s XOR 0x80), cpwm := v\<rparr>"
    have "same_net ?u (r92su_set_rpwn E v s)"
      unfolding r92su_set_rpwn_def Let_def
      by (rule tx_rel_same_net, rule io_rel_tx_rel, rule changesD [OF io_only_regs(4) prod.collapse [symmetric], THEN rev_iffD1])
        simp
    then show ?thesis by (simp add: same_net_def)
  qed
  then show "r92su_set_power E on s = Some t \<Longrightarrow> same_net s t"
    by (auto simp: r92su_set_power_def r92su_h2c_set_power_mode_def split: if_splits dest!: h2c_copy_same_net
        intro: same_net_trans)
qed

section \<open>Joining\<close>

text \<open>What an accepted join has set up.\<close>

lemma sta_alloc_new:
  assumes "r92su_sta_alloc E (Some mac) m aid s = Some (Some p, u)"
  shows "stas u p = Some (sta_new (take 6 mac) m aid (uptime E (jiffies s)))" "\<exists>ps. sta_list u = p # ps"
    "bsss u = bsss s" "want_connect_bss u = want_connect_bss s" "bufs u = bufs s" "connect_result u = connect_result s"
    "log u = log s"
  using assms
  by (auto simp: r92su_sta_alloc_def kmalloc_def rd_mem_def Let_def Option.bind_eq_Some_conv r92su_sta_del_def
      split: if_splits option.splits)

definition associated :: "nat \<Rightarrow> bytes \<Rightarrow> 'w r92su \<Rightarrow> bool" where
  "associated b join t \<longleftrightarrow> connect_bss t = Some b \<and> want_connect_bss t = None \<and>
     (\<exists>p sta. r92su_sta_get_by_macid t BSS_MACID = Some (Some p) \<and> stas t p = Some sta \<and>
        join_bssid join = Some (sta_mac_addr sta) \<and> join_aid join = Some (sta_aid sta) \<and>
        map_option (\<lambda>v. v \<noteq> 0) (join_privacy join) = Some (sta_enc_sta sta) \<and> (sta_ht_sta sta \<longrightarrow> sta_qos_sta sta) \<and>
        map_option bp_sta (r92su_get_bss_priv t b) = Some (Some p))"

lemma associated_cong:
  assumes "connect_bss t = connect_bss u" "want_connect_bss t = want_connect_bss u" "stas t = stas u" "sta_list t = sta_list u"
    "map_option bp_sta (r92su_get_bss_priv t b) = map_option bp_sta (r92su_get_bss_priv u b)"
  shows "associated b join t \<longleftrightarrow> associated b join u"
  using assms by (simp add: associated_def r92su_sta_get_by_macid_def)

lemma join_accept_associated:
  assumes "join_accept E b join s = Some (WLAN_STATUS_SUCCESS, resp, t)"
  shows "associated b join t" "r_state t = R92SU_CONNECTED" "\<exists>n. resp = Some n" "bufs t = bufs s" "connect_result t = connect_result s" "log t = log s"
proof -
  obtain bssid aid sta u where u: "join_bssid join = Some bssid" "join_aid join = Some aid"
      "r92su_sta_alloc E (Some bssid) BSS_MACID aid s = Some (sta, u)"
    using assms by (auto simp: join_accept_def Option.bind_eq_Some_conv)
  obtain p where p: "sta = Some p" using assms u by (cases sta) (auto simp: join_accept_def)
  note n = sta_alloc_new [OF u(3) [unfolded p]]
  obtain ps where ps: "sta_list u = p # ps" using n(2) by blast
  have "take 6 bssid = bssid" using u(1) by (auto simp: join_bssid_def rd_mem_def split: if_splits)
  note r = assms [unfolded join_accept_def Let_def, simplified u(1,2), simplified, simplified u(3) [unfolded p], simplified]
  show "associated b join t"
    using r n(1) u(1,2) ps \<open>take 6 bssid = bssid\<close>
    by (auto simp: Option.bind_eq_Some_conv upd_priv_def r92su_get_bss_priv_def associated_def r92su_sta_get_by_macid_def sta_new_def r92su_set_state_def
        split: if_splits)
  show "r_state t = R92SU_CONNECTED" "\<exists>n. resp = Some n" "bufs t = bufs s" "connect_result t = connect_result s" "log t = log s"
    using r n by (auto simp: Option.bind_eq_Some_conv upd_priv_def r92su_set_state_def)
qed

text \<open>The report keeps what the join has set up.\<close>

lemma join_report_keeps:
  assumes "join_report E b join status resp u = Some t"
  shows "associated b join u \<Longrightarrow> associated b join t" "want_connect_bss t = want_connect_bss u" "connect_result t = connect_result u"
    "stas t = stas u" "sta_list t = sta_list u"
proof -
  obtain bp v w where bp: "r92su_get_bss_priv u b = Some bp" and v: "same_net u v"
    and w: "kfree (bp_assoc_ie bp) v = Some w" and t: "upd_priv b (\<lambda>bp. bp\<lparr>bp_assoc_ie := None\<rparr>) w = Some t"
  proof -
    have e: "same_net u (emit x u)" "same_net (emit x u) v \<Longrightarrow> same_net u v" "same_net u u" for x v
      by (simp_all add: same_net_def emit_def)
    show thesis
      using assms
      by (cases "iftype u")
        (auto simp: join_report_def Option.bind_eq_Some_conv Let_def split: if_splits dest!: set_power_same_net intro: that e)
  qed
  have bp': "r92su_get_bss_priv w b = Some bp" using bp v w
    by (auto simp: r92su_get_bss_priv_def same_net_def kfree_def split: option.splits if_splits)
  have "connect_bss t = connect_bss u" "want_connect_bss t = want_connect_bss u" "stas t = stas u" "sta_list t = sta_list u"
    "connect_result t = connect_result u" 
    using v w t by (auto simp: same_net_def kfree_def upd_priv_def Option.bind_eq_Some_conv split: option.splits if_splits)
  moreover from this have "map_option bp_sta (r92su_get_bss_priv t b) = map_option bp_sta (r92su_get_bss_priv u b)"
    using bp bp' t by (auto simp: upd_priv_def r92su_get_bss_priv_def Option.bind_eq_Some_conv)
  ultimately show "associated b join u \<Longrightarrow> associated b join t" "want_connect_bss t = want_connect_bss u" "connect_result t = connect_result u"
    "stas t = stas u" "sta_list t = sta_list u"
    using associated_cong [of t u b join] by simp_all
qed

text \<open>The release of a network: its reference is given back last.\<close>

lemma free_keys_keeps: "free_keys ks s = Some t \<Longrightarrow>
    bufs t = bufs s \<and> want_connect_bss t = want_connect_bss s \<and> connect_result t = connect_result s \<and> log t = log s"
proof (induction ks arbitrary: s)
  case (Cons k ks)
  then obtain u where u: "r92su_key_free k s = Some u" "free_keys ks u = Some t" by (auto simp: Option.bind_eq_Some_conv)
  from u(1) have "bufs u = bufs s \<and> want_connect_bss u = want_connect_bss s \<and> connect_result u = connect_result s \<and> log u = log s"
    by (auto simp: r92su_key_free_def Option.bind_eq_Some_conv split: option.splits)
  with Cons.IH [OF u(2)] show ?case by simp
qed simp

lemma bss_free_keeps:
  assumes "r92su_bss_free (Some b) s = Some t"
  shows "want_connect_bss t = want_connect_bss s" "connect_result t = connect_result s"
    "bufs s j = None \<Longrightarrow> bufs t j = None" "log t = log s @ [Cfg80211_put_bss b]"
proof -
  obtain bp :: r92su_bss_priv and u v w x where u: "kfree (bp_assoc_ie bp) s = Some u"
      and v: "upd_priv b (\<lambda>bp. bp\<lparr>bp_group_key := map (\<lambda>k. None) (bp_group_key bp)\<rparr>) u = Some v"
      and w: "free_keys (bp_group_key bp) v = Some w" and x: "r92su_sta_del BSS_MACID w = Some x" and t: "t = emit (Cfg80211_put_bss b) x"
    using assms by (auto simp: r92su_bss_free_def Option.bind_eq_Some_conv)
  have d: "bufs x = bufs w \<and> want_connect_bss x = want_connect_bss w \<and> connect_result x = connect_result w \<and> log x = log w"
    using x by (auto simp: r92su_sta_del_def Option.bind_eq_Some_conv split: option.splits)
  have p: "bufs v = bufs u \<and> want_connect_bss v = want_connect_bss u \<and> connect_result v = connect_result u \<and> log v = log u"
    using v by (auto simp: upd_priv_def Option.bind_eq_Some_conv)
  have k: "(bufs s j = None \<longrightarrow> bufs u j = None) \<and> want_connect_bss u = want_connect_bss s \<and> connect_result u = connect_result s \<and> log u = log s"
    using u by (auto simp: kfree_def split: option.splits if_splits)
  show "want_connect_bss t = want_connect_bss s" "connect_result t = connect_result s"
    "bufs s j = None \<Longrightarrow> bufs t j = None" "log t = log s @ [Cfg80211_put_bss b]"
    using d p k free_keys_keeps [OF w] by (simp_all add: t emit_def)
qed

text \<open>Whether the answer of the firmware accepts the join, and memory for the station is there.\<close>

definition join_granted :: "'w env \<Rightarrow> bytes \<Rightarrow> 'w r92su \<Rightarrow> bool" where
  "join_granted E join s \<longleftrightarrow> alloc_ok E (allocs s) \<and>
     (case (join_ie_length join, join_result join) of (Some n, Some r) \<Rightarrow> 12 \<le> n \<and> r \<noteq> 0 | _ \<Rightarrow> False)"

lemma join_attempt_granted:
  assumes "join_attempt E b join s = Some (status, resp, t)"
  shows "status = WLAN_STATUS_SUCCESS \<longleftrightarrow> join_granted E join s"
    "\<not> join_granted E join s \<Longrightarrow> want_connect_bss t = want_connect_bss s"
    "connect_result t = connect_result s" "join_granted E join s \<Longrightarrow> join_accept E b join s = Some (status, resp, t)"
proof -
  note m = assms [unfolded join_attempt_def]
  have a: "(status = WLAN_STATUS_SUCCESS \<longleftrightarrow> alloc_ok E (allocs s)) \<and> (\<not> alloc_ok E (allocs s) \<longrightarrow> want_connect_bss t = want_connect_bss s) \<and>
      connect_result t = connect_result s"
    if j: "join_accept E b join s = Some (status, resp, t)"
  proof (cases "alloc_ok E (allocs s)")
    case False
    then show ?thesis using j
      by (auto simp: join_accept_def r92su_sta_alloc_def kmalloc_def Option.bind_eq_Some_conv)
  next
    case True
    obtain bssid aid sta u where u: "join_bssid join = Some bssid" "join_aid join = Some aid"
        "r92su_sta_alloc E (Some bssid) BSS_MACID aid s = Some (sta, u)"
      using j by (auto simp: join_accept_def Option.bind_eq_Some_conv)
    obtain p where "sta = Some p"
      using True u(3) by (auto simp: r92su_sta_alloc_def kmalloc_def Let_def Option.bind_eq_Some_conv)
    then have "status = WLAN_STATUS_SUCCESS" using j u by (auto simp: join_accept_def Option.bind_eq_Some_conv Let_def)
    with True j join_accept_associated(5) show ?thesis by auto
  qed
  obtain n where n: "join_ie_length join = Some n" using m by (auto simp: Option.bind_eq_Some_conv)
  show "status = WLAN_STATUS_SUCCESS \<longleftrightarrow> join_granted E join s"
    "\<not> join_granted E join s \<Longrightarrow> want_connect_bss t = want_connect_bss s"
    "connect_result t = connect_result s" "join_granted E join s \<Longrightarrow> join_accept E b join s = Some (status, resp, t)"
    using m n a by (auto simp: join_granted_def Option.bind_eq_Some_conv not_le split: if_splits option.splits)
qed

text \<open>
  C7. The end of a join: the work item takes the stored answer and releases it. When the firmware has
  granted the join the driver is associated: the network is the connected one and no longer wanted,
  station 5 has the address, the identifier and the privacy of the answer, and the queues and the
  carrier are started last. Otherwise nothing is connected and the reference to the network is given
  back, although it stays the wanted one.
\<close>

theorem join_outcome:
  assumes "r92su_is_open s" and "want_connect_bss s = Some b" and "connect_result s = Some j" and "bufs s j = Some join"
    and "r92su_bss_connect_work E s = Some t"
  shows "connect_result t = None \<and> bufs t j = None \<and>
     (if join_granted E join s
      then associated b join t \<and> (r_state t = R92SU_CONNECTED \<or> r_state t = R92SU_DEAD) \<and>
           (\<exists>l. log t = l @ [Netif_tx_start_all_queues, Netif_carrier_on])
      else connect_bss t = connect_bss s \<and> want_connect_bss t = Some b \<and> (\<exists>l. log t = l @ [Cfg80211_put_bss b]))"
proof -
  let ?s = "s\<lparr>connect_result := None\<rparr>"
  obtain status resp u v w where u: "join_attempt E b join ?s = Some (status, resp, u)"
      and v: "join_report E b join status resp u = Some v" and w: "kfree (Some j) v = Some w"
      and t: "(if status = WLAN_STATUS_SUCCESS then Some (emit Netif_carrier_on (emit Netif_tx_start_all_queues w))
            else r92su_bss_free (Some b) w) = Some t"
    using assms by (auto simp: r92su_bss_connect_work_def Option.bind_eq_Some_conv)
  have g: "join_granted E join ?s = join_granted E join s" by (simp add: join_granted_def)
  note a = join_attempt_granted [OF u, unfolded g]
  have w': "w = v\<lparr>bufs := (bufs v)(j := None)\<rparr>" using w by (auto simp: kfree_def split: if_splits)
  have c: "connect_result w = None" using a(3) join_report_keeps(3) [OF v] by (simp add: w')
  show ?thesis
  proof (cases "join_granted E join s")
    case True
    then have ok: "status = WLAN_STATUS_SUCCESS" using a(1) by simp
    then have "associated b join u" using a(4) [OF True] join_accept_associated(1) by auto
    then have "associated b join v" by (rule join_report_keeps(1) [OF v])
    then have "associated b join w"
      by (rule associated_cong [THEN iffD1, rotated -1]) (simp_all add: w' r92su_get_bss_priv_def)
    moreover have t': "t = emit Netif_carrier_on (emit Netif_tx_start_all_queues w)" using t ok by simp
    ultimately have "associated b join t"
      by (elim associated_cong [THEN iffD1, rotated -1]) (simp_all add: emit_def r92su_get_bss_priv_def)
    moreover have "r_state t = R92SU_CONNECTED \<or> r_state t = R92SU_DEAD"
    proof -
      have "joined b ?s u" using join_attempt_ends [OF u] ok by simp
      then have "joined b ?s v" using opt_lifeD [OF life_join_report v] by (rule joined_life)
      then show ?thesis by (simp add: t' w' joined_def emit_def)
    qed
    ultimately show ?thesis using True c by (simp add: t' w' emit_def)
  next
    case False
    then have no: "status \<noteq> WLAN_STATUS_SUCCESS" using a(1) by simp
    then have f: "r92su_bss_free (Some b) w = Some t" using t by simp
    note k = bss_free_keeps [OF f]
    have "life ?s u" using join_attempt_ends [OF u] no by simp
    also have "life u v" by (rule opt_lifeD [OF life_join_report v])
    also have "life v w" by (simp add: w')
    also have "life w t" by (rule opt_lifeD [OF life_bss_free f])
    finally have "connect_bss t = connect_bss s" by (simp add: life_def cycle_kept_def)
    moreover have "want_connect_bss t = Some b"
      using k(1) a(2) [OF False] join_report_keeps(2) [OF v] assms(2) by (simp add: w')
    ultimately show ?thesis using False k(2,4) c k(3) [of j] by (simp add: w')
  qed
qed

section \<open>Leaving\<close>

lemma sta_del_gone:
  assumes inv: "sta_inv s" and d: "r92su_sta_del m s = Some t"
  shows "r92su_sta_get_by_macid t m = Some None"
proof -
  have l: "set (sta_list s) \<subseteq> dom (stas s)" using inv by (auto simp: sta_inv_def)
  have dist: "distinct (sta_list s)" "distinct (mac_ids (stas s) (sta_list s))" using inv by (auto simp: sta_inv_def)
  have "set (sta_list t) \<subseteq> dom (stas t) \<and> (\<forall>p \<in> set (sta_list t). sta_mac_id (the (stas t p)) \<noteq> m)"
    by (rule sta_del_ok [OF l, of m]) (use d l dist in \<open>auto simp: mac_ids_def distinct_map inj_on_def\<close>)
  then show ?thesis
    using sta_find_ok [of "sta_list t" "stas t" "\<lambda>a. sta_mac_id a = m"]
    by (auto simp: r92su_sta_get_by_macid_def split: option.splits)
qed

lemma free_keys_stas: "free_keys ks s = Some t \<Longrightarrow> stas t = stas s \<and> sta_list t = sta_list s \<and> sta_num t = sta_num s \<and>
    pend_stas (rcu_cbs t) = pend_stas (rcu_cbs s) \<and> next_ptr t = next_ptr s \<and> bsss t = bsss s \<and>
    pend_keys (rcu_cbs t) = pend_keys (rcu_cbs s) @ map the (filter (\<lambda>k. k \<noteq> None) ks)"
proof (induction ks arbitrary: s)
  case (Cons k ks)
  then obtain u where u: "r92su_key_free k s = Some u" "free_keys ks u = Some t" by (auto simp: Option.bind_eq_Some_conv)
  from u(1) have "stas u = stas s \<and> sta_list u = sta_list s \<and> sta_num u = sta_num s \<and> next_ptr u = next_ptr s \<and> bsss u = bsss s \<and>
      pend_stas (rcu_cbs u) = pend_stas (rcu_cbs s) \<and> pend_keys (rcu_cbs u) = pend_keys (rcu_cbs s) @ map the (filter (\<lambda>k. k \<noteq> None) [k])"
    by (auto simp: r92su_key_free_def Option.bind_eq_Some_conv split: option.splits)
  with Cons.IH [OF u(2)] show ?case by simp
qed simp

lemma bss_free_leaves:
  assumes "r92su_bss_free (Some b) s = Some t" and "sta_inv s" and "r92su_get_bss_priv s b = Some bp"
  shows "r92su_sta_get_by_macid t BSS_MACID = Some None"
    "map_option bp_group_key (r92su_get_bss_priv t b) = Some (map (\<lambda>k. None) (bp_group_key bp))"
    "pend_keys (rcu_cbs t) = pend_keys (rcu_cbs s) @ map the (filter (\<lambda>k. k \<noteq> None) (bp_group_key bp))"
proof -
  obtain u v w x where u: "kfree (bp_assoc_ie bp) s = Some u"
      and v: "upd_priv b (\<lambda>bp. bp\<lparr>bp_group_key := map (\<lambda>k. None) (bp_group_key bp)\<rparr>) u = Some v"
      and w: "free_keys (bp_group_key bp) v = Some w" and x: "r92su_sta_del BSS_MACID w = Some x" and t: "t = emit (Cfg80211_put_bss b) x"
    using assms(1,3) by (auto simp: r92su_bss_free_def Option.bind_eq_Some_conv)
  have uv: "stas v = stas s \<and> sta_list v = sta_list s \<and> sta_num v = sta_num s \<and> rcu_cbs v = rcu_cbs s \<and> next_ptr v = next_ptr s"
    using u v by (auto simp: kfree_def upd_priv_def Option.bind_eq_Some_conv split: option.splits if_splits)
  have bv: "map_option bp_group_key (r92su_get_bss_priv v b) = Some (map (\<lambda>k. None) (bp_group_key bp))"
    using u v assms(3)
    by (auto simp: kfree_def upd_priv_def r92su_get_bss_priv_def Option.bind_eq_Some_conv split: option.splits if_splits)
  note k = free_keys_stas [OF w]
  have "sta_inv w" by (rule sta_inv_cong [OF _ _ _ _ _ assms(2)]) (use uv k in auto)
  then have g: "r92su_sta_get_by_macid x BSS_MACID = Some None" using x by (rule sta_del_gone)
  have d: "bsss x = bsss w \<and> pend_keys (rcu_cbs x) = pend_keys (rcu_cbs w)"
    using x by (auto simp: r92su_sta_del_def Option.bind_eq_Some_conv split: option.splits)
  show "r92su_sta_get_by_macid t BSS_MACID = Some None"
    using g by (simp add: t r92su_sta_get_by_macid_def emit_def)
  show "map_option bp_group_key (r92su_get_bss_priv t b) = Some (map (\<lambda>k. None) (bp_group_key bp))"
    using bv k d by (simp add: t r92su_get_bss_priv_def emit_def)
  show "pend_keys (rcu_cbs t) = pend_keys (rcu_cbs s) @ map the (filter (\<lambda>k. k \<noteq> None) (bp_group_key bp))"
    using uv k d by (simp add: t emit_def)
qed

text \<open>
  C16. Leaving a network: the driver holds no network any more and is not connected, the station of
  the network can no longer be found, every group key has left its slot and waits for its release,
  and the reference to the network is given back last.
\<close>

theorem disconnect_leaves:
  assumes "sta_inv s" and "connect_bss s = Some b" and "r92su_get_bss_priv s b = Some bp"
    and "r92su_disconnect E s = Some (r, t)"
  shows "connect_bss t = None \<and> \<not> r92su_is_connected t \<and> r92su_sta_get_by_macid t BSS_MACID = Some None \<and>
     map_option bp_group_key (r92su_get_bss_priv t b) = Some (map (\<lambda>k. None) (bp_group_key bp)) \<and>
     pend_keys (rcu_cbs t) = pend_keys (rcu_cbs s) @ map the (filter (\<lambda>k. k \<noteq> None) (bp_group_key bp)) \<and>
     (\<exists>l. log t = l @ [Cfg80211_put_bss b])"
proof -
  have d: "disconnect_locked E s = Some (r, t)" using assms(4) by (simp add: r92su_disconnect_def)
  have refl: "same_net s s" by (simp add: same_net_def)
  obtain u where u: "same_net s u" and f: "r92su_bss_free_connected True u = Some t"
    using d by (auto simp: disconnect_locked_def r92su_h2c_disconnect_def Option.bind_eq_Some_conv
        split: if_splits dest: h2c_copy_same_net intro: refl)
  define v where "v = (let v = (if r92su_is_connected u then r92su_set_state R92SU_OPEN u else u)\<lparr>connect_bss := None\<rparr> in
     case iftype v of IFTYPE_STATION \<Rightarrow> emit (Cfg80211_disconnected True) v | IFTYPE_ADHOC \<Rightarrow> emit (Cfg80211_unlink_bss b) v | _ \<Rightarrow> v)"
  have b: "connect_bss u = Some b" using u assms(2) by (simp add: same_net_def)
  have f': "r92su_bss_free (Some b) v = Some t"
    using f b by (cases "r92su_is_connected u"; cases "iftype u") (simp_all add: r92su_bss_free_connected_def v_def Let_def r92su_set_state_def)
  have k: "stas v = stas u \<and> sta_list v = sta_list u \<and> sta_num v = sta_num u \<and> rcu_cbs v = rcu_cbs u \<and> next_ptr v = next_ptr u \<and> bsss v = bsss u"
    by (cases "iftype u") (simp_all add: v_def Let_def emit_def r92su_set_state_def)
  have "sta_inv v" by (rule sta_inv_cong [OF _ _ _ _ _ assms(1)]) (use u k in \<open>auto simp: same_net_def\<close>)
  moreover have "r92su_get_bss_priv v b = Some bp" using assms(3) u k by (simp add: r92su_get_bss_priv_def same_net_def)
  ultimately have "r92su_sta_get_by_macid t BSS_MACID = Some None"
    "map_option bp_group_key (r92su_get_bss_priv t b) = Some (map (\<lambda>k. None) (bp_group_key bp))"
    "pend_keys (rcu_cbs t) = pend_keys (rcu_cbs v) @ map the (filter (\<lambda>k. k \<noteq> None) (bp_group_key bp))"
    using bss_free_leaves [OF f'] by blast+
  moreover have "pend_keys (rcu_cbs v) = pend_keys (rcu_cbs s)" using u k by (simp add: same_net_def)
  moreover have "connect_bss t = None" "\<not> r92su_is_connected t"
    using disconnect_ends [OF d] by (auto simp: state_cases split: if_splits)
  ultimately show ?thesis using bss_free_keeps(4) [OF f'] by auto
qed

section \<open>The device is removed\<close>

lemma poisoned_schedule:
  "tx_submitted (r92su_tx_schedule (poisoned E) s) = tx_submitted s"
  by (auto simp: r92su_tx_schedule_def poisoned_def Let_def emit_def split: list.splits prod.splits)

lemma poisoned_cb:
  "tx_submitted (r92su_tx_usb_cb (poisoned E) i status s) = take i (tx_submitted s) @ drop (Suc i) (tx_submitted s)"
  by (simp add: r92su_tx_usb_cb_def Let_def poisoned_schedule emit_def)

lemma tx_cb_idle:
  "rx_queue (r92su_tx_usb_cb E i status s) = rx_queue s" "fw (r92su_tx_usb_cb E i status s) = fw s"
  "has_wq (r92su_tx_usb_cb E i status s) = has_wq s"
  by (auto simp: r92su_tx_usb_cb_def r92su_tx_schedule_def r92su_deal_with_usb_errors_def State_Monad.get_def r92su_mark_dead_def
      r92su_set_state_def Let_def emit_def split: list.splits prod.splits if_splits)

lemma poison_tx_frames:
  "n = length (tx_submitted s) \<Longrightarrow> tx_submitted (poison_tx E n s) = [] \<and> tx_frames (poison_tx E n s) = tx_frames s"
proof (induction n arbitrary: s)
  case (Suc n)
  let ?t = "r92su_tx_usb_cb (poisoned E) n (- ENOENT) s"
  have "n = length (tx_submitted ?t)" using Suc.prems by (simp add: poisoned_cb)
  moreover have "tx_frames ?t = tx_frames s" using Suc.prems by (intro tx_cb_frames) simp
  ultimately show ?case using Suc.IH [of ?t] by simp
qed simp

lemma poison_tx_idle:
  "rx_queue (poison_tx E n s) = rx_queue s \<and> fw (poison_tx E n s) = fw s \<and> has_wq (poison_tx E n s) = has_wq s"
  by (induction n arbitrary: s) (simp_all add: tx_cb_idle)

lemma life_poison_tx: "n = length (tx_submitted s) \<Longrightarrow> life s (poison_tx E n s)"
proof (induction n arbitrary: s)
  case (Suc n)
  let ?t = "r92su_tx_usb_cb (poisoned E) n (- ENOENT) s"
  have "n = length (tx_submitted ?t)" using Suc.prems by (simp add: poisoned_cb)
  moreover have "life s ?t" using Suc.prems by (intro life_tx_cb) simp
  ultimately show ?case using Suc.IH [of ?t] by (auto intro: life_trans)
qed simp

lemma free_waiting_keeps:
  "freed (log (free_waiting us s)) = freed (log s) @ map urb_data us" "tx_submitted (free_waiting us s) = tx_submitted s"
  "tx_wait (free_waiting us s) = tx_wait s" "rx_submitted (free_waiting us s) = rx_submitted s" "fw (free_waiting us s) = fw s"
  "rx_queue (free_waiting us s) = rx_queue s" "r_state (free_waiting us s) = r_state s" "has_wq (free_waiting us s) = has_wq s"
  by (induction us arbitrary: s) (simp_all add: emit_def)

lemma unregister_ends:
  assumes "r92su_unregister E up s = Some t"
  shows "rx_queue t = []" "fw t = None" "\<not> has_wq t" "r_state t = R92SU_UNLOAD \<or> r_state t = R92SU_DEAD"
proof -
  obtain u v where v: "rcu_barrier u = Some v" and u: "r_state u = R92SU_UNLOAD"
    and t: "t = r92su_rx_deinit (r92su_release_firmware (emit Destroy_workqueue (v\<lparr>has_wq := False\<rparr>)))"
  proof -
    let ?w = "r92su_unregister_debugfs (if wps_pbc s then emit Input_unregister_device (s\<lparr>wps_pbc := False\<rparr>) else s)"
    let ?reg = "\<lambda>s. if wiphy_registered s then emit Wiphy_unregister (s\<lparr>wiphy_registered := False\<rparr>) else s"
    obtain x v where "rcu_barrier (?reg (r92su_set_state R92SU_UNLOAD x)) = Some v"
      and m: "(if \<not> has_wq v then None
         else Some (r92su_rx_deinit (r92su_release_firmware (emit Destroy_workqueue (v\<lparr>has_wq := False\<rparr>))))) = Some t"
      using assms unfolding r92su_unregister_def Let_def Option.bind_eq_Some_conv by (elim exE conjE) (rule that)
    moreover from m have "t = r92su_rx_deinit (r92su_release_firmware (emit Destroy_workqueue (v\<lparr>has_wq := False\<rparr>)))"
      by (simp split: if_split_asm)
    ultimately show thesis by (intro that [of "?reg (r92su_set_state R92SU_UNLOAD x)" v]) (simp_all add: r92su_set_state_def emit_def)
  qed
  have p: "fw (skb_queue_purge q y) = fw y \<and> has_wq (skb_queue_purge q y) = has_wq y \<and> r_state (skb_queue_purge q y) = r_state y" for q and y :: "'a r92su"
    unfolding skb_queue_purge_def by (induction q arbitrary: y) (simp_all add: dev_kfree_skb_any_def emit_def)
  show "rx_queue t = []" "fw t = None" "\<not> has_wq t"
    by (simp_all add: t r92su_rx_deinit_def p r92su_release_firmware_def emit_def)
  show "r_state t = R92SU_UNLOAD \<or> r_state t = R92SU_DEAD"
    using opt_lifeD [OF life_rcu_barrier v] u
    by (simp add: t r92su_rx_deinit_def p r92su_release_firmware_def emit_def life_def cycle_kept_def)
qed

text \<open>
  C15. The device is gone: after the disconnect callback no frame waits, is in flight or is queued for
  the tasklet, no receive block is submitted, the firmware image and the work queue are released, and
  every frame that the transport still held when the driver was unregistered has been freed exactly
  once.
\<close>

theorem usb_disconnect_frees:
  assumes "r92su_usb_disconnect E up s = Some t"
  shows "tx_wait t = [] \<and> tx_submitted t = [] \<and> rx_submitted t = 0 \<and> rx_queue t = [] \<and> fw t = None \<and> \<not> has_wq t \<and>
     (r_state t = R92SU_UNLOAD \<or> r_state t = R92SU_DEAD) \<and>
     (\<exists>u. r92su_unregister E up s = Some u \<and>
        mset (freed (log t)) = mset (freed (log u)) + mset (map urb_data (tx_wait u)) + mset (map urb_data (tx_submitted u)))"
proof -
  obtain u where u: "r92su_unregister E up s = Some u"
    and t: "t = (let v = (poison_tx E (length (tx_submitted u)) u)\<lparr>rx_submitted := 0\<rparr>
       in r92su_free (free_waiting (tx_wait v) (v\<lparr>tx_wait := []\<rparr>)))"
    using assms by (auto simp: r92su_usb_disconnect_def Option.bind_eq_Some_conv Let_def)
  define v where "v = poison_tx E (length (tx_submitted u)) u"
  note f = poison_tx_frames [OF refl, of E u, folded v_def] and i = poison_tx_idle [of E "length (tx_submitted u)" u, folded v_def]
    and l = life_poison_tx [OF refl, of u E, folded v_def] and e = unregister_ends [OF u]
  have t': "t = r92su_free (free_waiting (tx_wait v) (v\<lparr>rx_submitted := 0, tx_wait := []\<rparr>))"
    by (simp add: t v_def Let_def)
  have "mset (freed (log t)) = tx_frames v"
    using f by (simp add: t' r92su_free_def emit_def free_waiting_keeps tx_frames_def)
  then have "mset (freed (log t)) = mset (freed (log u)) + mset (map urb_data (tx_wait u)) + mset (map urb_data (tx_submitted u))"
    using f by (auto simp: tx_frames_def ac_simps)
  moreover have "r_state t = R92SU_UNLOAD \<or> r_state t = R92SU_DEAD"
    using l e(4) by (auto simp: t' r92su_free_def emit_def free_waiting_keeps life_def cycle_kept_def)
  ultimately show ?thesis
    using f i e u by (simp add: t' r92su_free_def emit_def free_waiting_keeps)
qed

section \<open>Failed requests\<close>

text \<open>
  C38. The elements of a failed request are freed twice: a join whose command cannot be sent frees them
  without clearing the pointer in the network's data, and the next request for that network that is
  refused before it allocates new ones frees them again.
\<close>

theorem failed_join_double_free:
  assumes "r92su_internal_connect E b True ies s = Some (err, u)" and "err \<noteq> 0"
    and "r92su_get_bss_priv u b = Some bp" and "bp_assoc_ie bp = Some a"
    and "connect_out (Some b) err u = Some (r, t)" and "r92su_is_open t"
    and "cfg80211_get_bss E (sme_channel sme) (sme_bssid sme) (sme_ssid sme) True (bsss t) = Some b"
    and "auth_choice (sme_auth_type sme) (sme_crypto sme) = None"
  shows "bufs t a = None \<and> connect_locked E sme t = None"
proof -
  have t: "t = emit (Cfg80211_put_bss b) (u\<lparr>bufs := (bufs u)(a := None), want_connect_bss := None\<rparr>)"
    using assms(2-5) by (auto simp: connect_out_def kfree_def Option.bind_eq_Some_conv split: if_splits)
  then have b: "bufs t a = None" "r92su_get_bss_priv t b = Some bp"
    using assms(3) by (simp_all add: emit_def r92su_get_bss_priv_def)
  then show ?thesis
    using assms(4,6-8)
    by (simp add: connect_locked_def r92su_connect_set_auth_def connect_out_def kfree_def)
qed

section \<open>Examples\<close>

definition demo_join :: bytes where
  "demo_join = replicate 20 0 @ [3, 0, 0, 0] @ [1, 0, 0, 0] @ replicate 4 0 @ [7, 7, 7, 7, 7, 7] @ replicate 102 0 @
     [12, 0, 0, 0] @ replicate 12 0"

definition demo_joining :: "(u16 \<Rightarrow> u8) r92su" where
  "demo_joining = (r92su_zero (\<lambda>x. 0))\<lparr>r_state := R92SU_OPEN, iftype := IFTYPE_ADHOC, want_connect_bss := Some 0,
     connect_result := Some 0, bufs := [0 \<mapsto> demo_join], bsss := [0 \<mapsto> demo_ibss_bss]\<rparr>"

lemma demo_join_fields:
  "join_ie_length demo_join = Some 12" "join_result demo_join = Some 1" "join_aid demo_join = Some 3"
  "join_privacy demo_join = Some 0" "join_bssid demo_join = Some [7, 7, 7, 7, 7, 7]"
  by (simp_all add: join_ie_length_def join_result_def join_aid_def join_privacy_def join_bssid_def rd_le32_def rd8_def rd_mem_def
      demo_join_def le32_def nth_append nth_Cons')

lemma demo_wmm: "r92su_parse_wmm_cap_ie ies 0 = Some False"
  by (simp add: r92su_parse_wmm_cap_ie_def r92su_find_wmm_ie_def find_wmm_from.simps)

lemma demo_connect_work: "\<exists>t. r92su_bss_connect_work reg_env demo_joining = Some t"
  by (simp add: r92su_bss_connect_work_def demo_joining_def r92su_zero_def r92su_is_open_def state_order join_attempt_def join_accept_def
      demo_join_fields demo_wmm r92su_sta_alloc_def kmalloc_def reg_env_def rd_mem_def r92su_sta_del_def r92su_sta_get_by_macid_def
      upd_priv_def join_report_def r92su_get_bss_priv_def kfree_def Let_def demo_ibss_bss_def bss_priv_zero_def r92su_set_state_def
      emit_def)

theorem join_outcome_witness:
  "\<exists>t. r92su_bss_connect_work reg_env demo_joining = Some t \<and> associated 0 demo_join t \<and> bufs t 0 = None"
proof -
  obtain t where t: "r92su_bss_connect_work reg_env demo_joining = Some t" using demo_connect_work by blast
  have "join_granted reg_env demo_join demo_joining"
    by (simp add: join_granted_def demo_join_fields reg_env_def)
  with join_outcome [OF _ _ _ _ t, of 0 0 demo_join] t show ?thesis
    by (auto simp: demo_joining_def r92su_is_open_def state_order)
qed

theorem disconnect_leaves_witness:
  "\<exists>r t. r92su_disconnect reg_env (demo_joining\<lparr>connect_bss := Some 0\<rparr>) = Some (r, t) \<and> connect_bss t = None"
proof -
  let ?s = "demo_joining\<lparr>connect_bss := Some 0\<rparr>"
  have "\<exists>r t. r92su_disconnect reg_env ?s = Some (r, t)"
    by (simp add: r92su_disconnect_def disconnect_locked_def r92su_is_connected_def state_order demo_joining_def r92su_zero_def
        r92su_bss_free_connected_def Let_def r92su_bss_free_def r92su_get_bss_priv_def demo_ibss_bss_def bss_priv_zero_def kfree_def
        upd_priv_def emit_def r92su_key_free_def r92su_sta_del_def r92su_sta_get_by_macid_def)
  then obtain r t where t: "r92su_disconnect reg_env ?s = Some (r, t)" by blast
  have "sta_inv ?s" by (simp add: sta_inv_def demo_joining_def r92su_zero_def mac_ids_def)
  moreover have "r92su_get_bss_priv ?s 0 = Some bss_priv_zero"
    by (simp add: r92su_get_bss_priv_def demo_joining_def demo_ibss_bss_def)
  ultimately show ?thesis using disconnect_leaves [OF _ _ _ t, of 0 bss_priv_zero] t by auto
qed

text \<open>An allocator that gives out one buffer only, and a request with an unknown authentication.\<close>

definition scarce_env :: "(u16 \<Rightarrow> u8) env" where
  "scarce_env = reg_env\<lparr>alloc_ok := (\<lambda>n. n = 0)\<rparr>"

definition demo_sme :: cfg80211_connect_params where
  "demo_sme = \<lparr>sme_channel = None, sme_bssid = None, sme_ssid = None, sme_auth_type = AUTHTYPE_OTHER,
     sme_crypto = \<lparr>cr_wpa_versions = 0, cr_cipher_group = CIPHER_CCMP, cr_control_port = False, cr_control_port_ethertype = 0,
       cr_control_port_no_encrypt = False\<rparr>, sme_key = None, sme_key_len = 0, sme_key_idx = 0, sme_ie = [], sme_disable_ht = True\<rparr>"

theorem failed_join_double_free_witness:
  "\<exists>u t. r92su_internal_connect scarce_env 0 True [1] demo_joining = Some (- ENOMEM, u) \<and>
     connect_out (Some 0) (- ENOMEM) u = Some (- ENOMEM, t) \<and> connect_locked scarce_env demo_sme t = None"
proof -
  let ?u = "demo_joining\<lparr>allocs := 2, bufs := (bufs demo_joining)(1 \<mapsto> [1]), want_connect_bss := Some 0,
    bsss := [0 \<mapsto> demo_ibss_bss\<lparr>cb_priv := bss_priv_zero\<lparr>bp_assoc_ie := Some 1, bp_assoc_ie_len := 1\<rparr>\<rparr>]\<rparr>"
  let ?t = "emit (Cfg80211_put_bss 0) (?u\<lparr>bufs := (bufs ?u)(1 := None), want_connect_bss := None\<rparr>)"
  have c: "r92su_internal_connect scarce_env 0 True [1] demo_joining = Some (- ENOMEM, ?u)"
    by (simp add: r92su_internal_connect_def kmemdup_def kmalloc_def scarce_env_def upd_priv_def demo_joining_def r92su_zero_def
        r92su_get_bss_priv_def demo_ibss_bss_def r92su_h2c_connect_def r92su_h2c_alloc_def Let_def)
  have g: "r92su_get_bss_priv ?u 0 = Some (bss_priv_zero\<lparr>bp_assoc_ie := Some 1, bp_assoc_ie_len := 1\<rparr>)"
    by (simp add: r92su_get_bss_priv_def)
  have o: "connect_out (Some 0) (- ENOMEM) ?u = Some (- ENOMEM, ?t)"
    by (simp add: connect_out_def r92su_get_bss_priv_def kfree_def)
  have "r92su_is_open ?t" "cfg80211_get_bss scarce_env (sme_channel demo_sme) (sme_bssid demo_sme) (sme_ssid demo_sme) True (bsss ?t) = Some 0"
    "auth_choice (sme_auth_type demo_sme) (sme_crypto demo_sme) = None"
    by (simp_all add: demo_joining_def r92su_is_open_def state_order emit_def scarce_env_def reg_env_def auth_choice_def demo_sme_def)
  with failed_join_double_free [OF c _ g _ o, of 1 demo_sme] c o show ?thesis by auto
qed

definition demo_unplugged :: "(u16 \<Rightarrow> u8) r92su" where
  "demo_unplugged = (r92su_zero (\<lambda>x. 0))\<lparr>r_state := R92SU_STOP, has_wq := True, tx_pending_urbs := 1,
     tx_wait := [\<lparr>urb_pipe = 4, urb_data = [1]\<rparr>], tx_submitted := [\<lparr>urb_pipe = 4, urb_data = [2]\<rparr>]\<rparr>"

theorem usb_disconnect_frees_witness:
  "\<exists>t. r92su_usb_disconnect reg_env False demo_unplugged = Some t \<and> tx_wait t = [] \<and> mset (freed (log t)) = {#[1], [2]#}"
proof -
  have "\<exists>u. r92su_unregister reg_env False demo_unplugged = Some u \<and> freed (log u) = [] \<and>
      tx_wait u = tx_wait demo_unplugged \<and> tx_submitted u = tx_submitted demo_unplugged"
    by (simp add: r92su_unregister_def r92su_unregister_debugfs_def demo_unplugged_def r92su_zero_def Let_def unregister_netdev_def emit_def rcu_barrier_def
        r92su_set_state_def r92su_rx_deinit_def skb_queue_purge_def r92su_release_firmware_def)
  then obtain u where u: "r92su_unregister reg_env False demo_unplugged = Some u" "freed (log u) = []"
      "tx_wait u = tx_wait demo_unplugged" "tx_submitted u = tx_submitted demo_unplugged" by blast
  then obtain t where t: "r92su_usb_disconnect reg_env False demo_unplugged = Some t"
    by (auto simp: r92su_usb_disconnect_def Let_def)
  from usb_disconnect_frees [OF t] u t show ?thesis
    by (auto simp: demo_unplugged_def)
qed

end
