(* ===== verification/R92_Driver.thy ===== *)
theory R92_Driver
  imports R92_Cycle R92_RxAgg
begin

text \<open>
  The driver as a whole: what holds in every state that a probed driver reaches, whatever calls,
  completions, timers, callbacks and work items follow.
\<close>

section \<open>Stations and received blocks\<close>

lemma drv_steps_keeps: "drv_steps E C s t \<Longrightarrow> keeps s t"
proof (induction rule: rtranclp_induct)
  case (step t u)
  then show ?case using drv_step_cycle [OF step.hyps(2)] by (auto simp: cycle_step_def keeps_def)
qed simp

lemma drv_table:
  assumes "r92su_usb_probe E n d w = Some (Inr (0, s))" and "drv_steps E C s t"
  shows "table_inv t"
  using drv_steps_keeps [OF assms(2)] probe_ok [OF assms(1)] by (simp add: keeps_def)

text \<open>
  C2. The station table of the running driver. In every state that it reaches the list holds live
  stations with different numbers, as many as are counted, none of which waits for its release; a
  block-ack session is released at most once. Look-up, deletion, allocation and a new session for any
  live station follow no dangling pointer.
\<close>

theorem drv_stations_safe:
  assumes "r92su_usb_probe E n d w = Some (Inr (0, s))" and "drv_steps E C s t"
    and "6 \<le> length mac" and "unat tid < 16" and "p \<in> dom (stas t)"
  shows "(set (sta_list t) \<subseteq> dom (stas t) \<and> distinct (map (\<lambda>q. sta_mac_id (the (stas t q))) (sta_list t)) \<and>
       sta_num t = of_nat (length (sta_list t)) \<and> set (sta_list t) \<inter> set (pend_stas (rcu_cbs t)) = {} \<and>
       distinct (pend_stas (rcu_cbs t)) \<and> distinct (pend_tids (rcu_cbs t))) \<and>
     r92su_sta_get t mac \<noteq> None \<and> r92su_sta_del m t \<noteq> None \<and> r92su_sta_alloc E (Some mac) m aid t \<noteq> None \<and>
     r92su_sta_alloc_tid E p tid ssn t \<noteq> None"
proof -
  have inv: "table_inv t" using assms(1,2) by (rule drv_table)
  note o = inv [unfolded table_inv_owned]
  have "r92su_sta_get t mac \<noteq> None" using sta_get_ok [OF o] by (fastforce simp: r92su_sta_get_def)
  moreover have "r92su_sta_del m t \<noteq> None" using sta_del_ex [OF o, of m] by auto
  moreover have "r92su_sta_alloc E (Some mac) m aid t \<noteq> None" using sta_alloc_ex [OF o, of "Some mac"] assms(3) by auto
  moreover have "r92su_sta_alloc_tid E p tid ssn t \<noteq> None" using alloc_tid_ex [OF o assms(5,4)] by auto
  ultimately show ?thesis using inv by (auto simp: table_inv_def sta_inv_def tid_inv_def mac_ids_def)
qed


section \<open>Frames on their way to the device\<close>

lemma drv_tx: "r92su_usb_probe E n d w = Some (Inr (0, s)) \<Longrightarrow> drv_steps E C s t \<Longrightarrow> tx_inv t"
  using drv_steps_keeps probe_ok by (fastforce simp: keeps_def)

lemma usb_errors_world [simp]:
  "world (snd (run_state (r92su_deal_with_usb_errors E err) s)) = world s"
  by (simp add: r92su_deal_with_usb_errors_def State_Monad.get_def r92su_mark_dead_def r92su_set_state_def emit_def Let_def)

text \<open>
  A completion under the invariant, whether the USB core takes the next block or refuses it.
\<close>

lemma tx_cb_sends:
  assumes inv: "tx_inv t" and x: "tx_wait t = x # xs" and i: "i < length (tx_submitted t)"
    and u: "u = r92su_tx_usb_cb E i status t" and r: "rest = take i (tx_submitted t) @ drop (Suc i) (tx_submitted t)"
  shows "tx_wait u = xs"
    and "fst (usb_submit_urb E x (world t)) = 0 \<Longrightarrow> tx_submitted u = rest @ [x] \<and>
       freed (log u) = freed (log t) @ [urb_data (tx_submitted t ! i)]"
    and "fst (usb_submit_urb E x (world t)) \<noteq> 0 \<Longrightarrow> tx_submitted u = rest \<and> r92su_is_dead u \<and>
       freed (log u) = freed (log t) @ [urb_data (tx_submitted t ! i), urb_data x]"
proof -
  define v where "v = snd (run_state (r92su_deal_with_usb_errors E status)
    (emit (Free_skb (urb_data (tx_submitted t ! i))) (t\<lparr>tx_submitted := rest, tx_pending_urbs := tx_pending_urbs t - 1\<rparr>)))"
  have v: "tx_submitted v = rest" "tx_wait v = x # xs" "tx_pending_urbs v \<le> 7" "world v = world t"
      "freed (log v) = freed (log t) @ [urb_data (tx_submitted t ! i)]"
    using inv x by (simp_all add: v_def emit_def tx_inv_def)
  have uv: "u = r92su_tx_schedule E v"
    by (simp add: u r92su_tx_usb_cb_def v_def r)
  obtain err w where sub: "usb_submit_urb E x (world t) = (err, w)" by fastforce
  show "tx_wait u = xs" using v sub by (simp add: uv r92su_tx_schedule_def Let_def emit_def)
  show "tx_submitted u = rest @ [x] \<and> freed (log u) = freed (log t) @ [urb_data (tx_submitted t ! i)]"
    if "fst (usb_submit_urb E x (world t)) = 0"
    using v sub that by (simp add: uv r92su_tx_schedule_def Let_def)
  show "tx_submitted u = rest \<and> r92su_is_dead u \<and>
      freed (log u) = freed (log t) @ [urb_data (tx_submitted t ! i), urb_data x]"
    if "fst (usb_submit_urb E x (world t)) \<noteq> 0"
    using v sub that by (simp add: uv r92su_tx_schedule_def Let_def emit_def r92su_is_dead_def)
qed

text \<open>
  C3. The transmit path of the running driver. In every state that it reaches the counter is the number
  of frames in flight, at most eight, and a frame waits only while eight are in flight or after the
  device has died. So no frame waits for ever: whichever of the frames in flight completes first, the
  completion frees it, once, and hands the first waiting frame to the USB core. If the core takes it, it
  is in flight behind the others; if the core refuses it, the device is dead and the frame is freed,
  once. The counter is right again in both cases. Nothing is assumed of the USB core.
\<close>

theorem drv_tx_progress:
  assumes "r92su_usb_probe E n d w = Some (Inr (0, s))" and "drv_steps E C s t"
  shows "(tx_pending_urbs t = int (length (tx_submitted t)) \<and> length (tx_submitted t) \<le> 8 \<and>
       (tx_wait t \<noteq> [] \<longrightarrow> length (tx_submitted t) = 8 \<or> r92su_is_dead t)) \<and>
     (tx_wait t = x # xs \<longrightarrow> i < length (tx_submitted t) \<longrightarrow>
       (let u = r92su_tx_usb_cb E i status t;
            rest = take i (tx_submitted t) @ drop (Suc i) (tx_submitted t);
            gone = freed (log t) @ [urb_data (tx_submitted t ! i)] in
        tx_wait u = xs \<and> tx_pending_urbs u = int (length (tx_submitted u)) \<and>
        (if fst (usb_submit_urb E x (world t)) = 0
         then tx_submitted u = rest @ [x] \<and> freed (log u) = gone
         else tx_submitted u = rest \<and> freed (log u) = gone @ [urb_data x] \<and> r92su_is_dead u)))"
proof -
  have t: "tx_inv t" using assms by (rule drv_tx)
  then have "tx_pending_urbs t = int (length (tx_submitted t)) \<and> length (tx_submitted t) \<le> 8 \<and>
      (tx_wait t \<noteq> [] \<longrightarrow> length (tx_submitted t) = 8 \<or> r92su_is_dead t)"
    by (auto simp: tx_inv_def)
  moreover have "tx_inv (r92su_tx_usb_cb E i status t)" if "i < length (tx_submitted t)"
    using tx_usb_cb_inv [OF t that] .
  ultimately show ?thesis
    unfolding Let_def using tx_cb_sends [OF t _ _ refl refl, of x xs i E status] by (auto simp: tx_inv_def)
qed

section \<open>The debugging ring\<close>

text \<open>
  In every state of the running driver the indices of the debugging ring are inside it, which reading
  and writing its file rely on.
\<close>

theorem drv_debug_ring:
  assumes "r92su_usb_probe E n d w = Some (Inr (0, s))" and "drv_steps E C s t"
  shows "ring_ok (debug t)"
  using drv_steps_keeps [OF assms(2)] probe_ok(7) [OF assms(1)] by (simp add: keeps_def ring_ok_zero)

section \<open>A station that the device announces\<close>

definition demo_block :: "bytes \<Rightarrow> bytes" where
  "demo_block rest = [20, 0, 0, 0, 0xff, 1, 0, 0, 0, 0, 0, 0, 0, 0, 0, 0, 0, 0, 0, 0, 0, 0, 0, 0] @
     [12, 0, 11, 0, 0, 0, 0, 0] @ [7, 7, 7, 7, 7, 7, 0, 0, 5, 0, 0, 0] @ rest"

lemma demo_event:
  fixes rest :: bytes
  assumes inv: "table_inv s" and ok: "\<And>k. alloc_ok E k"
  defines "ev \<equiv> [12, 0, 11, 0, 0, 0, 0, 0] @ [7, 7, 7, 7, 7, 7, 0, 0, 5, 0, 0, 0] @ rest"
  shows "\<exists>t. r92su_c2h_event E ev s = Some t \<and> 0 < card (dom (stas t))"
proof -
  let ?s = "c2h_sequence 0 s"
  have h: "c2h_len ev = Some 12" "c2h_event ev = Some 11" "c2h_cmd_seq ev = Some 0"
    by (simp_all add: ev_def c2h_len_def c2h_event_def c2h_cmd_seq_def rd_le16_def rd8_def le16_def)
  have nr: "c2h_of_nr 11 = Some C2H_ADD_STA_EVENT" by (simp add: c2h_of_nr_def fw_c2h_events_def)
  have a: "addsta_aid (c2h_data ev) = Some 5" "addsta_mac_addr (c2h_data ev) = Some [7, 7, 7, 7, 7, 7]"
    by (simp_all add: ev_def c2h_data_def addsta_aid_def addsta_mac_addr_def rd_le32_def rd8_def le32_def rd_mem_def)
  have inv': "owned False ?s" using inv by (simp add: sequence_frame table_inv_owned)
  obtain r t where r: "r92su_sta_alloc E (Some [7, 7, 7, 7, 7, 7]) 5 5 ?s = Some (r, t)"
    using sta_alloc_ex [OF inv', of "Some [7, 7, 7, 7, 7, 7]"] by fastforce
  obtain p where p: "r = Some p" using r ok
    by (auto simp: r92su_sta_alloc_def kmalloc_def Let_def Option.bind_eq_Some_conv)
  have "owned False t" using sta_alloc_owned [OF inv' r] .
  have "p \<in> dom (stas t)"
    using r ok p by (auto simp: r92su_sta_alloc_def kmalloc_def Let_def Option.bind_eq_Some_conv r92su_sta_del_def split: option.splits)
  moreover have "finite (dom (stas t))" using \<open>owned False t\<close> by (simp add: owned_def sta_inv_def)
  ultimately have "0 < card (dom (stas t))" by (auto simp: card_gt_0_iff)
  moreover have "r92su_c2h_event E ev s = Some t"
    using h nr a r by (simp add: r92su_c2h_event_def Let_def c2h_add_sta_event_def)
  ultimately show ?thesis by blast
qed

lemma demo_block_add:
  assumes inv: "table_inv s" and ok: "\<And>k. alloc_ok E k"
  shows "\<exists>t. r92su_rx E (demo_block rest) 44 s = Some t \<and> 0 < card (dom (stas t))"
proof -
  let ?d = "[20, 0, 0, 0, 0xff, 1, 0, 0, 0, 0, 0, 0, 0, 0, 0, 0, 0, 0, 0, 0, 0, 0, 0, 0] :: bytes"
  let ?ev = "[12, 0, 11, 0, 0, 0, 0, 0] @ [7, 7, 7, 7, 7, 7, 0, 0, 5, 0, 0, 0] @ rest"
  have b: "demo_block rest = ?d @ ?ev" "length ?d = 24" by (simp_all add: demo_block_def)
  have rx: "rd_mem (demo_block rest) 0 24 = Some ?d" and ev: "drop 24 (demo_block rest) = ?ev"
    unfolding b(1) using b(2) by (simp_all add: rd_mem_def)
  have d: "GET_RX_DESC_DRVINFO_SIZE ?d = 0" "GET_RX_DESC_SHIFT ?d = 0" "GET_RX_DESC_PKT_LEN ?d = 20"
      "GET_RX_DESC_IS_CMD ?d" "GET_RX_DESC_PKTCNT ?d = 0"
    by (simp_all add: desc_defs SHIFT_AND_MASK_LE_def dword_def le32_def BIT_LEN_MASK_32_def)
  have l: "rd_le16 (demo_block rest) 24 = Some 12"
    unfolding b(1) using b(2) by (simp add: rd_le16_def rd8_def le16_def nth_append)
  obtain t where t: "r92su_c2h_event E ?ev s = Some t" "0 < card (dom (stas t))"
    using demo_event [OF inv ok, of rest] by auto
  have "rx_loop E (demo_block rest) 44 44 1 0 s = Some (True, t)"
    using rx d l ev t(1) by (simp add: Let_def)
  then show ?thesis using rx d t(2) by (simp add: r92su_rx_def rx_end_def emit_def)
qed

lemma demo_block_callback:
  assumes "table_inv s" and "r92su_is_probing s"
  shows "\<exists>t. r92su_rx_usb_cb efuse_env (\<lambda>s b. r92su_rx efuse_env b 44 s) (demo_block rest) 0 s = Some t \<and>
    0 < card (dom (stas t))"
proof -
  let ?s = "s\<lparr>rx_submitted := rx_submitted s - 1\<rparr>"
  have "table_inv ?s" using assms(1) table_inv_cong [of ?s s] by simp
  then obtain t where "r92su_rx efuse_env (demo_block rest) 44 ?s = Some t" "0 < card (dom (stas t))"
    using demo_block_add [of ?s efuse_env] by (auto simp: efuse_env_sel)
  moreover have "run_state (r92su_deal_with_usb_errors efuse_env 0) ?s = (False, ?s)"
    by (simp add: r92su_deal_with_usb_errors_def State_Monad.get_def)
  moreover have "r92su_is_probing ?s" using assms(2) by (simp add: r92su_is_probing_def)
  ultimately show ?thesis by (simp add: r92su_rx_usb_cb_def efuse_env_sel)
qed

lemma demo_reachable:
  "\<exists>s t p. r92su_usb_probe efuse_env 4 0 demo_chip = Some (Inr (0, s)) \<and> drv_steps efuse_env toy_crypto s t \<and>
     p \<in> dom (stas t)"
proof -
  obtain s where p: "r92su_usb_probe efuse_env 4 0 demo_chip = Some (Inr (0, s))" using demo_probe by blast
  have "table_inv s" "r92su_is_probing s" using probe_ok [OF p] by (simp_all add: state_preds state_order)
  then obtain t where t: "r92su_rx_usb_cb efuse_env (\<lambda>s b. r92su_rx efuse_env b 44 s) (demo_block []) 0 s = Some t"
    "0 < card (dom (stas t))" using demo_block_callback by blast
  then have "drv_steps efuse_env toy_crypto s t" by (intro r_into_rtranclp drv_step.block)
  moreover obtain q where "q \<in> dom (stas t)" using t(2) by (metis card_gt_0_iff ex_in_conv)
  ultimately show ?thesis using p by blast
qed

theorem drv_stations_safe_witness:
  "\<exists>t. dom (stas t) \<noteq> {} \<and> set (sta_list t) \<subseteq> dom (stas t) \<and> r92su_sta_del 5 t \<noteq> None \<and>
     (\<exists>p \<in> dom (stas t). r92su_sta_alloc_tid efuse_env p 3 0 t \<noteq> None)"
proof -
  obtain s t p where "r92su_usb_probe efuse_env 4 0 demo_chip = Some (Inr (0, s))"
    "drv_steps efuse_env toy_crypto s t" and p: "p \<in> dom (stas t)" using demo_reachable by blast
  note c = drv_stations_safe [OF this(1,2) _ _ p, of "replicate 6 7" 3 5 0 0]
  show ?thesis by (intro exI [of _ t] conjI bexI [OF _ p]) (use c p in auto)
qed


theorem drv_tx_progress_witness:
  "\<exists>s. r92su_usb_probe efuse_env 4 0 demo_chip = Some (Inr (0, s)) \<and> length (tx_submitted s) \<le> 8 \<and>
     tx_pending_urbs s = int (length (tx_submitted s)) \<and> (tx_wait s \<noteq> [] \<longrightarrow> length (tx_submitted s) = 8)"
proof -
  obtain s where p: "r92su_usb_probe efuse_env 4 0 demo_chip = Some (Inr (0, s))" using demo_probe by blast
  from drv_tx_progress [OF p rtranclp.rtrancl_refl] p probe_ok(1) [OF p] show ?thesis
    by (auto simp: r92su_is_dead_def)
qed

end
