(* ===== verification/Spec2Isabelle.thy ===== *)
theory Spec2Isabelle
  imports R92_Window R92_Join R92_Driver
begin

text \<open>
  The r92su driver (\<open>src/r92su\<close>): a Linux driver for the RTL8191SU and RTL8192SU USB wireless chips,
  whose firmware implements most of the 802.11 station. The driver talks to the firmware in commands
  and events, moves the data frames, does the part of encryption that the chip leaves to it, and
  presents the device to cfg80211 and to the network stack.

  The parts and how they interact. A block from the device arrives in \<open>usb.c\<close>, is taken apart in
  \<open>rx.c\<close>, and becomes events for \<open>event.c\<close> and data frames for a queue. The tasklet takes the frames
  through the handlers of \<open>rx.c\<close>: header and station, packet number, reordering by block-ack session,
  decryption, duplicates, reassembly, the controlled port, delivery. A frame of the network stack goes
  through the handlers of \<open>tx.c\<close> and behind a descriptor to the scheduler of \<open>usb.c\<close>, like the commands
  of \<open>cmd.c\<close>. Stations, their sessions and keys are kept by \<open>sta.c\<close> and released by RCU. \<open>main.c\<close> holds
  the operations of cfg80211, the work items that the events queue for it, and the life cycle; \<open>hw.c\<close>,
  \<open>eeprom.c\<close> and \<open>fw.c\<close> set the chip up over register accesses.

  The representation. The state of the driver is the record \<open>r92su\<close> (\<open>R92_State\<close>). What the code
  reaches through pointers lives in heaps of that record: \<open>stas\<close>, \<open>keys\<close>, \<open>tids\<close>, \<open>bsss\<close> and the
  small buffers \<open>bufs\<close>. A freed object is no longer in its heap. The result \<open>None\<close> of an operation
  means that the C code has no defined behaviour there: an access outside a buffer, a dangling or NULL
  pointer, a second release, an assertion of the socket buffer, or a wait that never ends; that an
  operation is \<open>Some\<close> is therefore a safety property. Errors that the code returns are values: negative
  errno numbers, verdicts such as \<open>RX_DROP\<close>, the left side of a sum. Integers have the width of the
  code (\<open>w word\<close>) where they wrap or are stored; \<open>int\<close> and \<open>nat\<close> stand for loop counters and
  lengths that the code keeps in range, with the subtraction of the code written out. Register
  sequences, where every access threads the state, are written in the state monad.

  The outside of the driver is the record \<open>env\<close> and an unconstrained device state \<open>'w\<close>: the USB core,
  the allocator, the contents of uninitialised memory, the header helpers of \<open>linux/ieee80211.h\<close>
  (\<open>kapi\<close>, \<open>R92_Kernel\<close>), the conversions between 802.11 and Ethernet, the network list of cfg80211;
  the ciphers and checksums are the record \<open>crypto_api\<close> (\<open>R92_Wep\<close>). What the properties need of them
  is stated in \<open>sn_ok\<close>, \<open>hdr_ok\<close>, \<open>arc4_ok\<close> and \<open>ccm_ok\<close>, and concrete instances have it.
  Calls into the kernel that return nothing are appended to the trace \<open>log\<close>.
\<close>

section \<open>Where the code is\<close>

text \<open>
  Foundations. \<open>R92_Prelude\<close>: integer types, byte order, checked reads and writes, and two locales, the
  contract of an invariant of a transition system and of a relation that a family of operations keeps.
  \<open>R92_Kernel\<close>: header helpers and the socket buffer. \<open>R92_Desc\<close>: the descriptor fields of \<open>def.h\<close>.
  \<open>R92_Regs\<close>: the registers of \<open>reg.h\<close> that are used. \<open>R92_Wire\<close>, \<open>R92_Structs\<close>: the numbers and
  packed structures of \<open>h2cc2h.h\<close>, with the locale of a byte codec. \<open>R92_State\<close>: \<open>r92su.h\<close>, \<open>sta.h\<close>.

  Device side. \<open>R92_Usb\<close>: \<open>usb.c\<close>, with \<open>r92su_tx_schedule\<close>, the completions and the register
  accesses. \<open>R92_Hw\<close>: \<open>hw.c\<close>. \<open>R92_Eeprom\<close>: \<open>eeprom.c\<close>; \<open>R92_Efuse\<close>: what it decodes on a chip that
  behaves as documented. \<open>R92_Firmware\<close>: \<open>fw.c\<close>. \<open>R92_Cmd\<close>: \<open>cmd.c\<close>, \<open>pwr.c\<close>. \<open>R92_Event\<close>:
  \<open>event.c\<close>.

  Encryption. \<open>R92_Michael\<close>, \<open>R92_Wep\<close>, \<open>R92_Tkip\<close>, \<open>R92_Ccm\<close>: \<open>michael.c\<close>, \<open>wep.c\<close>, \<open>tkip.c\<close>,
  \<open>aes_ccm.c\<close>. \<open>R92_Crypt\<close>: the packet numbers, the choice of the cipher and the replay check in
  \<open>tx.c\<close> and \<open>rx.c\<close>.

  Data path. \<open>R92_Reorder\<close>: the reorder buffer of \<open>rx.c\<close>, proved correct in \<open>R92_Window\<close>.
  \<open>R92_Rx\<close>: the receive handlers. \<open>R92_RxAgg\<close>: blocks, radiotap and the tasklet. \<open>R92_Tx\<close>: \<open>tx.c\<close>.

  Control. \<open>R92_Sta\<close>: \<open>sta.c\<close>. \<open>R92_Ies\<close>: bands and information elements of \<open>main.c\<close>. \<open>R92_Conn\<close>:
  scanning, joining, leaving and keys. \<open>R92_Life\<close>: probe, registration, opening, stopping,
  disconnection. \<open>R92_Frame\<close>: what every operation leaves alone of the life cycle. \<open>R92_Cycle\<close>: the
  transition relation \<open>drv_step\<close> of the whole driver, one rule for each entry point.
  \<open>R92_Join\<close>: the results of joining, leaving and removal. \<open>R92_Driver\<close>: what holds of the stations, the
  received blocks and the frames in flight in every state of the running driver.

  Debugging. \<open>R92_Debugfs\<close>: \<open>debugfs.c\<close>, the files and the ring of register accesses, with the formats of
  \<open>snprintf\<close> and \<open>sscanf\<close> that it uses.
\<close>

section \<open>What is shown\<close>

text \<open>
  The whole driver. Over every sequence of calls, completions, timers, callbacks and work items after a
  successful probe the states \<open>STOP\<close>, \<open>INIT\<close>, \<open>OPEN\<close>, \<open>CONNECTED\<close> agree with the connected network, and
  a dead device stays dead (\<open>R92_Cycle\<close>); the station list stays well formed, at most eight frames are in
  flight, and a frame waits only while eight are or the device is dead, so that a completion to come sends
  it (\<open>R92_Driver\<close>). A join ends completely set up or released, leaving a network
  clears what joining has set, and after the removal no frame is owned any more (\<open>R92_Join\<close>).

  Memory. The station heaps are an implementation of a table by number, and their operations and
  callbacks follow no dangling pointer and free nothing twice (\<open>R92_Sta\<close>). Blocks, events and frames of
  any content are handled inside their buffers under the stated conditions (\<open>R92_RxAgg\<close>, \<open>R92_Event\<close>,
  \<open>R92_Rx\<close>), commands and frames fit the room reserved for them (\<open>R92_Cmd\<close>, \<open>R92_Tx\<close>), a firmware file
  is read inside its end (\<open>R92_Firmware\<close>). The cases in which the code does leave a buffer or use a
  freed object are theorems or lemmas beside them.

  Function. The reorder buffer delivers in order, once and in time, for all arrivals and timeouts
  (\<open>R92_Window\<close>); fragments are reassembled; blocks are taken apart into what they were made of; a
  command is sent as one packet with its header; an upload sends exactly the firmware; the efuse is
  decoded as documented; the descriptor carries what the frame asks for; the register file of debugfs
  prints the accesses that were requested, as long as they fit into its buffer.

  Security. Replayed packet numbers are refused, packet numbers and hence nonces are not reused before
  the counter is used up, a protected network gets no frame in the clear, encrypted frames are restored
  by the receive path, and the Michael code is the one of the standard.
\<close>

section \<open>Bounds\<close>

text \<open>
  Loops of the code that are bounded by a count are recursions on that count: the polls of the
  power-on and boot sequences, the packets of a block, the slots of the reorder ring, the rounds of
  the ciphers. The outer loop of the efuse reader has a fuel of 512; every round reads at least one of
  the 512 bytes, and \<open>efuse_blocks_fuel\<close> shows that the fuel is never used up. The loop of the transmit
  scheduler and the fragmentation end by a measure on the queue and on the rest. The wait for the end of
  a scan, which the code does without a time limit, is \<open>None\<close> when no completion has been counted.
\<close>

section \<open>Not modelled\<close>

text \<open>
  Delays, the priorities of the contexts and interleavings inside a section that one lock protects: an
  entry point is one step, and those that sleep without the lock are split there. Reference counts of
  cfg80211 networks; the aggregation queues of a network, which nothing fills; the fields of the wiphy
  and of the network device that only cfg80211 reads; the set-up of the transforms inside the crypto
  API. \<open>debug.c\<close> and \<open>trace.c\<close> only report. The trees \<open>src/rtlwifi\<close> and \<open>src/staging\<close> are
  copies of a kernel driver and of vendor code that r92su does not use.

  Next: an invariant of the key slots under the operations of \<open>main.c\<close> (with the two operations that
  break it singled out), the conservation of received frames from the block to the delivery, and a
  refinement of the joined operations by an abstract association.
\<close>

end
